(* ===== verification/Wahe_Prelude.thy ===== *)
theory Wahe_Prelude
  imports Main "HOL-Library.Word" "HOL-Library.Monad_Syntax"
begin

text \<open>
  Shared vocabulary of the development: the machine integers of the C sources, the reading
  of C strings as byte lists, and generic lemmas on words, lists and options that the
  component theories use.

  Conventions. A C object of bytes is a \<^typ>\<open>8 word list\<close>; a NUL-terminated string is a
  \<^typ>\<open>string\<close> without its terminator. Sizes and offsets that the code never lets wrap are
  \<^typ>\<open>nat\<close>; where wrap-around decides a branch it is written out modulo \<open>2 ^ 64\<close> or the
  value is a \<^typ>\<open>64 word\<close>. An operation whose C behaviour may be undefined (an access out
  of bounds, an indeterminate value, a shift by the width or more) or that may not return
  has an \<^typ>\<open>'a option\<close> result, with \<^const>\<open>None\<close> for that case.
\<close>

unbundle bit_operations_syntax

section \<open>Types\<close>

type_synonym byte = "8 word"
type_synonym u16 = "16 word"
type_synonym u32 = "32 word"
type_synonym u64 = "64 word"

abbreviation SIZE_MAX :: nat where
  "SIZE_MAX \<equiv> 2 ^ 64 - 1"

named_theorems option_bind_simps \<open>unfolding of computations in the option monad\<close>

lemmas [option_bind_simps] = Option.bind_eq_Some_conv Option.bind_eq_None_conv

section \<open>Bytes and strings\<close>

definition bytes_of :: "string \<Rightarrow> byte list" where
  "bytes_of s = map of_char s"

lemma length_bytes_of [simp]: "length (bytes_of s) = length s"
  by (simp add: bytes_of_def)

lemma bytes_of_append [simp]: "bytes_of (s @ t) = bytes_of s @ bytes_of t"
  by (simp add: bytes_of_def)

section \<open>Lists\<close>

text \<open>\<open>memcpy\<close> of \<open>src\<close> into \<open>dst\<close> at \<open>pos\<close>; the callers check the bounds.\<close>

definition overwrite :: "'a list \<Rightarrow> nat \<Rightarrow> 'a list \<Rightarrow> 'a list" where
  "overwrite dst pos src = take pos dst @ src @ drop (pos + length src) dst"

lemma length_overwrite [simp]:
  "pos + length src \<le> length dst \<Longrightarrow> length (overwrite dst pos src) = length dst"
  by (simp add: overwrite_def)

lemma take_overwrite [simp]:
  "pos + length src \<le> length dst \<Longrightarrow> take (pos + length src) (overwrite dst pos src) = take pos dst @ src"
  by (simp add: overwrite_def)

lemma take_overwrite_below:
  "n \<le> pos \<Longrightarrow> pos \<le> length dst \<Longrightarrow> take n (overwrite dst pos src) = take n dst"
  by (simp add: overwrite_def min_def)

lemma nth_overwrite:
  assumes "pos + length src \<le> length dst"
  shows "overwrite dst pos src ! i =
    (if i < pos then dst ! i else if i < pos + length src then src ! (i - pos) else dst ! i)"
proof -
  consider "i < pos" | "pos \<le> i" "i < pos + length src" | "pos + length src \<le> i"
    by linarith
  then show ?thesis
  proof cases
    case 3
    have "(drop (pos + length src) dst) ! (i - pos - length src) = dst ! (pos + length src + (i - pos - length src))"
      using assms by (intro nth_drop)
    moreover have "\<not> i - pos < length src" using 3 by linarith
    ultimately show ?thesis using 3 assms by (simp add: overwrite_def nth_append)
  qed (use assms in \<open>auto simp: overwrite_def nth_append\<close>)
qed

lemma overwrite_zero [simp]: "overwrite dst 0 src = src @ drop (length src) dst"
  by (simp add: overwrite_def)

section \<open>Words\<close>

lemma unat_and_31: "unat (w AND 31 :: u64) = unat w mod 32"
proof -
  have "w AND 31 = w AND mask 5" by (simp add: mask_eq_exp_minus_1)
  then show ?thesis by (simp add: unat_mod_distrib take_bit_eq_mask [symmetric] unsigned_take_bit_eq take_bit_eq_mod)
qed

text \<open>Or-ing in a value above the bits in use is an addition.\<close>

lemma disjoint_or_add:
  fixes acc x :: "'a::len word"
  assumes "unat acc < 2 ^ n"
  shows "acc OR push_bit n x = acc + push_bit n x"
proof -
  have "\<not> bit acc k" if "n \<le> k" for k
  proof
    assume "bit acc k"
    then have "bit (take_bit n (unat acc)) k"
      using assms by (simp add: take_bit_nat_eq_self bit_unsigned_iff bit_imp_le_length)
    with that show False by (simp add: bit_take_bit_iff)
  qed
  then have "acc AND push_bit n x = 0"
    by (intro bit_eqI) (auto simp: bit_and_iff bit_push_bit_iff)
  then show ?thesis by (simp add: disjunctive_add_eq_or)
qed

end
