(* ===== verification/Endian.thy ===== *)
theory Endian
  imports Wahe_Prelude
begin

text \<open>
  The readers of \<open>wahelib/rl_utils/endian.c\<close> for bytes held in memory. A read past the end of
  the object is undefined behaviour in C and is \<^const>\<open>None\<close> here. The two preprocessor
  branches of \<open>read_LE32\<close> and \<open>read_LE64\<close> (a direct load on a little-endian host, and the
  byte-wise one) compute the same value on a little-endian host; the byte-wise one is
  translated.
\<close>

section \<open>Buffer reads\<close>

definition read_byte8 :: "byte list \<Rightarrow> nat \<Rightarrow> byte option" where
  "read_byte8 buf i = (if i < length buf then Some (buf ! i) else None)"

definition read_LE32 :: "byte list \<Rightarrow> nat \<Rightarrow> u32 option" where
  "read_LE32 buf i =
     (if i + 4 \<le> length buf
      then Some (push_bit 24 (ucast (buf ! (i + 3))) OR push_bit 16 (ucast (buf ! (i + 2)))
                 OR push_bit 8 (ucast (buf ! (i + 1))) OR ucast (buf ! i))
      else None)"

definition read_LE64 :: "byte list \<Rightarrow> nat \<Rightarrow> u64 option" where
  "read_LE64 buf i =
     do {
       hi \<leftarrow> read_LE32 buf (i + 4);
       lo \<leftarrow> read_LE32 buf i;
       Some (push_bit 32 (ucast hi) OR ucast lo)
     }"

lemma read_byte8_Some: "read_byte8 buf i = Some b \<longleftrightarrow> i < length buf \<and> b = buf ! i"
  by (auto simp: read_byte8_def)

lemma read_LE32_defined: "(\<exists>v. read_LE32 buf i = Some v) \<longleftrightarrow> i + 4 \<le> length buf"
  by (simp add: read_LE32_def)

lemma read_LE64_defined: "(\<exists>v. read_LE64 buf i = Some v) \<longleftrightarrow> i + 8 \<le> length buf"
  by (auto simp: read_LE64_def read_LE32_def Let_def)

lemma read_LE64_None: "read_LE64 buf i = None \<longleftrightarrow> length buf < i + 8"
  using read_LE64_defined [of buf i] by (cases "read_LE64 buf i") auto

text \<open>A read depends only on the bytes it covers.\<close>

lemma read_byte8_prefix: "i + 1 \<le> n \<Longrightarrow> n \<le> length buf \<Longrightarrow> read_byte8 (take n buf @ rest) i = read_byte8 buf i"
  by (simp add: read_byte8_def nth_append)

lemma read_LE32_prefix: "i + 4 \<le> n \<Longrightarrow> n \<le> length buf \<Longrightarrow> read_LE32 (take n buf @ rest) i = read_LE32 buf i"
  by (simp add: read_LE32_def nth_append)

lemma read_LE64_prefix: "i + 8 \<le> n \<Longrightarrow> n \<le> length buf \<Longrightarrow> read_LE64 (take n buf @ rest) i = read_LE64 buf i"
  by (simp add: read_LE64_def read_LE32_prefix)

lemma read_LE32_append: "read_LE32 (pre @ buf) (length pre + i) = read_LE32 buf i"
  by (simp add: read_LE32_def nth_append)

lemma read_LE64_append: "read_LE64 (pre @ buf) (length pre + i) = read_LE64 buf i"
  using read_LE32_append [of pre buf i] read_LE32_append [of pre buf "i + 4"]
  by (simp add: read_LE64_def add.assoc)

end
