(* ===== verification/Xxh64.thy ===== *)
theory Xxh64
  imports Endian
begin

text \<open>
  \<open>wahelib/rl_utils/xxh64.c\<close>: the streaming state of the 64-bit xxHash, one definition per C
  function, and the one-shot \<open>XXH64\<close> that \<open>get_buffer_hash\<close> uses for command and symbol
  names. A read outside the input or the 32-byte buffer is \<^const>\<open>None\<close>. The second half
  states the reference algorithm on byte lists and proves that the state machine refines it.
\<close>

section \<open>The code\<close>

definition XXH_PRIME64_1 :: u64 where "XXH_PRIME64_1 = 0x9E3779B185EBCA87"
definition XXH_PRIME64_2 :: u64 where "XXH_PRIME64_2 = 0xC2B2AE3D27D4EB4F"
definition XXH_PRIME64_3 :: u64 where "XXH_PRIME64_3 = 0x165667B19E3779F9"
definition XXH_PRIME64_4 :: u64 where "XXH_PRIME64_4 = 0x85EBCA77C2B2AE63"
definition XXH_PRIME64_5 :: u64 where "XXH_PRIME64_5 = 0x27D4EB2F165667C5"

record xxh_state =
  total_len :: u64
  xv0 :: u64
  xv1 :: u64
  xv2 :: u64
  xv3 :: u64
  xbuf :: "byte list"
  bufsize :: nat

definition XXH_rotl64 :: "u64 \<Rightarrow> nat \<Rightarrow> u64" where
  "XXH_rotl64 x r = push_bit r x OR drop_bit (64 - r) x"

definition XXH64_round :: "u64 \<Rightarrow> u64 \<Rightarrow> u64" where
  "XXH64_round acc input = XXH_rotl64 (acc + input * XXH_PRIME64_2) 31 * XXH_PRIME64_1"

definition XXH64_mergeRound :: "u64 \<Rightarrow> u64 \<Rightarrow> u64" where
  "XXH64_mergeRound acc val = (acc XOR XXH64_round 0 val) * XXH_PRIME64_1 + XXH_PRIME64_4"

definition XXH64_avalanche :: "u64 \<Rightarrow> u64" where
  "XXH64_avalanche h0 =
     (let h1 = h0 XOR drop_bit 33 h0;
          h2 = h1 * XXH_PRIME64_2;
          h3 = h2 XOR drop_bit 29 h2;
          h4 = h3 * XXH_PRIME64_3
      in h4 XOR drop_bit 32 h4)"

text \<open>The three loops of \<open>XXH64_finalise\<close>: eight, four, then single bytes from position \<open>i\<close>.\<close>

fun XXH64_finalise8 :: "u64 \<Rightarrow> byte list \<Rightarrow> nat \<Rightarrow> nat \<Rightarrow> (u64 \<times> nat \<times> nat) option" where
  "XXH64_finalise8 h ptr i len =
     (if 8 \<le> len
      then do {
        k \<leftarrow> read_LE64 ptr i;
        XXH64_finalise8 (XXH_rotl64 (h XOR XXH64_round 0 k) 27 * XXH_PRIME64_1 + XXH_PRIME64_4) ptr (i + 8) (len - 8)
      }
      else Some (h, i, len))"

definition XXH64_finalise4 :: "u64 \<Rightarrow> byte list \<Rightarrow> nat \<Rightarrow> nat \<Rightarrow> (u64 \<times> nat \<times> nat) option" where
  "XXH64_finalise4 h ptr i len =
     (if 4 \<le> len
      then do {
        k \<leftarrow> read_LE32 ptr i;
        Some (XXH_rotl64 (h XOR ucast k * XXH_PRIME64_1) 23 * XXH_PRIME64_2 + XXH_PRIME64_3, i + 4, len - 4)
      }
      else Some (h, i, len))"

fun XXH64_finalise1 :: "u64 \<Rightarrow> byte list \<Rightarrow> nat \<Rightarrow> nat \<Rightarrow> u64 option" where
  "XXH64_finalise1 h ptr i len =
     (if 0 < len
      then do {
        k \<leftarrow> read_byte8 ptr i;
        XXH64_finalise1 (XXH_rotl64 (h XOR ucast k * XXH_PRIME64_5) 11 * XXH_PRIME64_1) ptr (i + 1) (len - 1)
      }
      else Some h)"

declare XXH64_finalise8.simps [simp del] XXH64_finalise1.simps [simp del]

definition XXH64_finalise :: "u64 \<Rightarrow> byte list \<Rightarrow> u64 \<Rightarrow> u64 option" where
  "XXH64_finalise h ptr len =
     do {
       (h8, i8, len8) \<leftarrow> XXH64_finalise8 h ptr 0 (unat (len AND 31));
       (h4, i4, len4) \<leftarrow> XXH64_finalise4 h8 ptr i8 len8;
       h1 \<leftarrow> XXH64_finalise1 h4 ptr i4 len4;
       Some (XXH64_avalanche h1)
     }"

definition XXH64_reset :: "u64 \<Rightarrow> xxh_state" where
  "XXH64_reset seed =
     \<lparr>total_len = 0,
      xv0 = seed + XXH_PRIME64_1 + XXH_PRIME64_2,
      xv1 = seed + XXH_PRIME64_2,
      xv2 = seed + 0,
      xv3 = seed - XXH_PRIME64_1,
      xbuf = replicate 32 0,
      bufsize = 0\<rparr>"

text \<open>Four rounds over the 32 bytes at \<open>i\<close>, from the state buffer or from the input.\<close>

definition XXH64_block :: "xxh_state \<Rightarrow> byte list \<Rightarrow> nat \<Rightarrow> xxh_state option" where
  "XXH64_block s p i =
     do {
       k0 \<leftarrow> read_LE64 p i;
       k1 \<leftarrow> read_LE64 p (i + 8);
       k2 \<leftarrow> read_LE64 p (i + 16);
       k3 \<leftarrow> read_LE64 p (i + 24);
       Some (s\<lparr>xv0 := XXH64_round (xv0 s) k0, xv1 := XXH64_round (xv1 s) k1,
               xv2 := XXH64_round (xv2 s) k2, xv3 := XXH64_round (xv3 s) k3\<rparr>)
     }"

lemma XXH64_block_bound: "XXH64_block s p i = Some s' \<Longrightarrow> i + 32 \<le> length p"
  by (auto simp: XXH64_block_def option_bind_simps) (metis read_LE64_defined add.assoc numeral_plus_numeral add_num_simps)

text \<open>
  \<open>while (i <= len - 32)\<close>: \<open>len - 32\<close> is a \<open>size_t\<close> subtraction, so it wraps when \<open>len < 32\<close>.
\<close>

function XXH64_update_loop :: "xxh_state \<Rightarrow> byte list \<Rightarrow> nat \<Rightarrow> nat \<Rightarrow> (xxh_state \<times> nat) option" where
  "XXH64_update_loop s p len i =
     (if (of_nat i :: u64) \<le> of_nat len - 32
      then (case XXH64_block s p i of
              None \<Rightarrow> None
            | Some s' \<Rightarrow> XXH64_update_loop s' p len (i + 32))
      else Some (s, i))"
  by pat_completeness auto
termination
  by (relation "measure (\<lambda>(s, p, len, i). length p + 32 - i)") (auto dest: XXH64_block_bound)

declare XXH64_update_loop.simps [simp del]

text \<open>\<open>XXH64_update\<close>: completing and hashing a partly filled buffer, then the loop, then the remainder.\<close>

definition XXH64_update_fill :: "xxh_state \<Rightarrow> byte list \<Rightarrow> (xxh_state \<times> nat) option" where
  "XXH64_update_fill s p =
     (if bufsize s \<noteq> 0
      then (if 32 - bufsize s \<le> length p
            then (let filled = overwrite (xbuf s) (bufsize s) (take (32 - bufsize s) p)
                  in do {
                    b \<leftarrow> XXH64_block s filled 0;
                    Some (b\<lparr>xbuf := filled, bufsize := 0\<rparr>, 32 - bufsize s)
                  })
            else None)
      else Some (s, 0))"

definition XXH64_update_rest :: "xxh_state \<Rightarrow> byte list \<Rightarrow> nat \<Rightarrow> nat \<Rightarrow> xxh_state option" where
  "XXH64_update_rest s p len i =
     (if i < len
      then (if len \<le> length p
            then Some (s\<lparr>bufsize := len - i, xbuf := overwrite (xbuf s) 0 (take (len - i) (drop i p))\<rparr>)
            else None)
      else Some s)"

definition XXH64_update_data :: "xxh_state \<Rightarrow> byte list \<Rightarrow> nat \<Rightarrow> xxh_state option" where
  "XXH64_update_data s0 p len =
     (let s = s0\<lparr>total_len := total_len s0 + of_nat len\<rparr> in
      if bufsize s + len < 32
      then (if len \<le> length p
            then Some (s\<lparr>xbuf := overwrite (xbuf s) (bufsize s) (take len p), bufsize := bufsize s + len\<rparr>)
            else None)
      else do {
        (s1, i1) \<leftarrow> XXH64_update_fill s p;
        (s2, i2) \<leftarrow> XXH64_update_loop s1 p len i1;
        XXH64_update_rest s2 p len i2
      })"

text \<open>A null input pointer leaves the state alone.\<close>

definition XXH64_update :: "xxh_state \<Rightarrow> byte list option \<Rightarrow> nat \<Rightarrow> xxh_state option" where
  "XXH64_update s pp len = (case pp of None \<Rightarrow> Some s | Some p \<Rightarrow> XXH64_update_data s p len)"

definition XXH64_digest :: "xxh_state \<Rightarrow> u64 option" where
  "XXH64_digest s =
     (let h =
        (if 32 \<le> total_len s
         then (let a = XXH_rotl64 (xv0 s) 1 + XXH_rotl64 (xv1 s) 7 + XXH_rotl64 (xv2 s) 12 + XXH_rotl64 (xv3 s) 18
               in XXH64_mergeRound (XXH64_mergeRound (XXH64_mergeRound (XXH64_mergeRound a (xv0 s)) (xv1 s)) (xv2 s)) (xv3 s))
         else xv2 s + XXH_PRIME64_5)
      in XXH64_finalise (h + total_len s) (xbuf s) (total_len s))"

definition XXH64 :: "byte list option \<Rightarrow> nat \<Rightarrow> u64 \<Rightarrow> u64 option" where
  "XXH64 input len seed = do { s \<leftarrow> XXH64_update (XXH64_reset seed) input len; XXH64_digest s }"

section \<open>The reference algorithm\<close>

type_synonym lanes = "u64 \<times> u64 \<times> u64 \<times> u64"

definition le64 :: "byte list \<Rightarrow> u64" where
  "le64 bs = the (read_LE64 bs 0)"

definition stripe :: "lanes \<Rightarrow> byte list \<Rightarrow> lanes" where
  "stripe l bs = (case l of (a, b, c, d) \<Rightarrow>
     (XXH64_round a (le64 bs), XXH64_round b (le64 (drop 8 bs)),
      XXH64_round c (le64 (drop 16 bs)), XXH64_round d (le64 (drop 24 bs))))"

fun stripes :: "lanes \<Rightarrow> byte list \<Rightarrow> lanes" where
  "stripes l bs = (if 32 \<le> length bs then stripes (stripe l (take 32 bs)) (drop 32 bs) else l)"

fun rem32 :: "byte list \<Rightarrow> byte list" where
  "rem32 bs = (if 32 \<le> length bs then rem32 (drop 32 bs) else bs)"

declare stripes.simps [simp del] rem32.simps [simp del]

definition init_lanes :: "u64 \<Rightarrow> lanes" where
  "init_lanes seed = (seed + XXH_PRIME64_1 + XXH_PRIME64_2, seed + XXH_PRIME64_2, seed, seed - XXH_PRIME64_1)"

definition converge :: "lanes \<Rightarrow> u64" where
  "converge l = (case l of (a, b, c, d) \<Rightarrow>
     foldl XXH64_mergeRound (XXH_rotl64 a 1 + XXH_rotl64 b 7 + XXH_rotl64 c 12 + XXH_rotl64 d 18) [a, b, c, d])"

fun consume :: "u64 \<Rightarrow> byte list \<Rightarrow> u64" where
  "consume h bs =
     (if 8 \<le> length bs
      then consume (XXH_rotl64 (h XOR XXH64_round 0 (le64 bs)) 27 * XXH_PRIME64_1 + XXH_PRIME64_4) (drop 8 bs)
      else if 4 \<le> length bs
      then consume (XXH_rotl64 (h XOR ucast (the (read_LE32 bs 0)) * XXH_PRIME64_1) 23 * XXH_PRIME64_2 + XXH_PRIME64_3)
             (drop 4 bs)
      else (case bs of
              [] \<Rightarrow> h
            | b # rest \<Rightarrow> consume (XXH_rotl64 (h XOR ucast b * XXH_PRIME64_5) 11 * XXH_PRIME64_1) rest))"

declare consume.simps [simp del]

text \<open>
  The hash of the whole input: full 32-byte stripes into four lanes, the lanes merged (or,
  for an input shorter than one stripe, the seed), the length added, the remaining bytes
  consumed, the result avalanched.
\<close>

definition xxh64_ref :: "u64 \<Rightarrow> byte list \<Rightarrow> u64" where
  "xxh64_ref seed bs =
     XXH64_avalanche
       (consume ((if 32 \<le> length bs then converge (stripes (init_lanes seed) bs) else seed + XXH_PRIME64_5)
                 + of_nat (length bs))
          (rem32 bs))"

section \<open>Lemmas on stripes\<close>

lemma le64_take [simp]: "8 \<le> n \<Longrightarrow> le64 (take n bs) = le64 bs" if "n \<le> length bs" for n
  using read_LE64_prefix [of 0 n bs "[]"] that by (simp add: le64_def)

lemma read_LE64_le64: "i + 8 \<le> length p \<Longrightarrow> read_LE64 p i = Some (le64 (drop i p))"
  using read_LE64_append [of "take i p" "drop i p" 0] read_LE64_defined [of "drop i p" 0]
  by (auto simp: le64_def)

definition lanes_of :: "xxh_state \<Rightarrow> lanes" where
  "lanes_of s = (xv0 s, xv1 s, xv2 s, xv3 s)"

lemma rem32_step: "32 \<le> length bs \<Longrightarrow> rem32 bs = rem32 (drop 32 bs)"
  by (subst rem32.simps) simp

lemma rem32_short: "length bs < 32 \<Longrightarrow> rem32 bs = bs"
  by (subst rem32.simps) simp

lemma stripes_step: "32 \<le> length bs \<Longrightarrow> stripes l bs = stripes (stripe l (take 32 bs)) (drop 32 bs)"
  by (subst stripes.simps) simp

lemma stripes_short: "length bs < 32 \<Longrightarrow> stripes l bs = l"
  by (subst stripes.simps) simp

lemma length_rem32: "length (rem32 bs) = length bs mod 32"
proof (induction bs rule: rem32.induct)
  case (1 bs)
  show ?case
  proof (cases "32 \<le> length bs")
    case True
    with 1 show ?thesis by (simp add: rem32_step le_mod_geq)
  qed (simp add: rem32_short)
qed

lemma length_rem32_less: "length (rem32 bs) < 32"
  by (simp add: length_rem32)

lemma rem32_append: "rem32 (d @ p) = rem32 (rem32 d @ p)"
proof (induction d rule: rem32.induct)
  case (1 d)
  show ?case
  proof (cases "32 \<le> length d")
    case True
    with 1 show ?thesis by (simp add: rem32_step [of "d @ p"] rem32_step [of d])
  qed (simp add: rem32_short)
qed

lemma stripes_append: "stripes l (d @ p) = stripes (stripes l d) (rem32 d @ p)"
proof (induction l d rule: stripes.induct)
  case (1 l d)
  show ?case
  proof (cases "32 \<le> length d")
    case True
    with 1 show ?thesis
      by (simp add: stripes_step [of "d @ p"] stripes_step [of d] rem32_step [of d])
  qed (simp add: rem32_short stripes_short)
qed

lemma XXH64_block_stripe:
  assumes "i + 32 \<le> length p"
  shows "\<exists>s'. XXH64_block s p i = Some s' \<and> lanes_of s' = stripe (lanes_of s) (take 32 (drop i p)) \<and>
    total_len s' = total_len s \<and> xbuf s' = xbuf s \<and> bufsize s' = bufsize s"
proof -
  have drop_eq: "drop k (take 32 (drop i p)) = take (32 - k) (drop (i + k) p)" for k
    by (simp add: drop_take add.commute)
  show ?thesis
    using assms
    by (simp add: XXH64_block_def read_LE64_le64 lanes_of_def stripe_def drop_eq)
qed

lemma u64_of_nat_le: "i < 2 ^ 64 \<Longrightarrow> j < 2 ^ 64 \<Longrightarrow> (of_nat i :: u64) \<le> of_nat j \<longleftrightarrow> i \<le> j"
  by (simp add: word_le_nat_alt unat_of_nat take_bit_eq_mod)

lemma update_loop_cond:
  assumes "32 \<le> len" "len < 2 ^ 64" "i \<le> len"
  shows "(of_nat i :: u64) \<le> of_nat len - 32 \<longleftrightarrow> i + 32 \<le> len"
proof -
  have eq: "(of_nat len - 32 :: u64) = of_nat (len - 32)"
    using assms by (simp add: of_nat_diff)
  show ?thesis unfolding eq using assms by (subst u64_of_nat_le) auto
qed

lemma update_loop_cond_short:
  assumes "len < 32" "i < 32"
  shows "(of_nat i :: u64) \<le> of_nat len - 32"
proof -
  have "(of_nat len - 32 :: u64) = of_nat (2 ^ 64 - 32 + len)"
    by simp
  also have "\<dots> \<ge> of_nat i" using assms by (subst u64_of_nat_le) auto
  finally show ?thesis .
qed

lemma update_loop_stripes:
  assumes "32 \<le> len" "len < 2 ^ 64" "i \<le> len" "len = length p"
  shows "\<exists>s' j. XXH64_update_loop s p len i = Some (s', j) \<and> i \<le> j \<and> j \<le> len \<and>
    lanes_of s' = stripes (lanes_of s) (drop i p) \<and> drop j p = rem32 (drop i p) \<and>
    total_len s' = total_len s \<and> xbuf s' = xbuf s \<and> bufsize s' = bufsize s"
  using assms
proof (induction s p len i rule: XXH64_update_loop.induct)
  case (1 s p len i)
  show ?case
  proof (cases "i + 32 \<le> len")
    case True
    obtain s1 where s1: "XXH64_block s p i = Some s1" "lanes_of s1 = stripe (lanes_of s) (take 32 (drop i p))"
      "total_len s1 = total_len s" "xbuf s1 = xbuf s" "bufsize s1 = bufsize s"
      using XXH64_block_stripe [of i p s] True 1 by auto
    have "XXH64_update_loop s p len i = XXH64_update_loop s1 p len (i + 32)"
      using True 1 s1 by (subst XXH64_update_loop.simps) (simp add: update_loop_cond)
    moreover have "stripes (lanes_of s) (drop i p) = stripes (lanes_of s1) (drop (i + 32) p)"
      using True 1 s1 by (simp add: stripes_step [of "drop i p"] add.commute)
    moreover have "rem32 (drop i p) = rem32 (drop (i + 32) p)"
      using True 1 by (simp add: rem32_step [of "drop i p"] add.commute)
    ultimately show ?thesis
      using 1 (1) [OF _ s1(1)] 1(2-) True s1(3-) by (fastforce simp: update_loop_cond)
  next
    case False
    with 1 show ?thesis
      by (subst XXH64_update_loop.simps) (simp add: update_loop_cond stripes_short rem32_short)
  qed
qed

text \<open>The state after the bytes \<open>d\<close> have been fed to it.\<close>

definition xxh_abs :: "xxh_state \<Rightarrow> u64 \<Rightarrow> byte list \<Rightarrow> bool" where
  "xxh_abs s seed d \<longleftrightarrow>
     total_len s = of_nat (length d) \<and> length (xbuf s) = 32 \<and> bufsize s = length d mod 32 \<and>
     take (bufsize s) (xbuf s) = rem32 d \<and> lanes_of s = stripes (init_lanes seed) d"

lemma xxh_abs_reset: "xxh_abs (XXH64_reset seed) seed []"
  by (simp add: xxh_abs_def XXH64_reset_def lanes_of_def init_lanes_def rem32_short stripes_short)

lemma xxh_absD:
  assumes "xxh_abs s seed d"
  shows "bufsize s = length (rem32 d)" "length (rem32 d) < 32" "take (length (rem32 d)) (xbuf s) = rem32 d"
    "length (xbuf s) = 32" "lanes_of s = stripes (init_lanes seed) d" "total_len s = of_nat (length d)"
  using assms by (auto simp: xxh_abs_def length_rem32)

lemma lanes_of_update [simp]:
  "lanes_of (s\<lparr>total_len := n\<rparr>) = lanes_of s" "lanes_of (s\<lparr>xbuf := b\<rparr>) = lanes_of s"
  "lanes_of (s\<lparr>bufsize := k\<rparr>) = lanes_of s"
  by (simp_all add: lanes_of_def)

lemma update_short:
  assumes "xxh_abs s seed d" "bufsize s + length p < 32"
  shows "\<exists>s'. XXH64_update_data s p (length p) = Some s' \<and> xxh_abs s' seed (d @ p)"
proof -
  note abs = xxh_absD [OF assms(1)]
  have rem: "rem32 (d @ p) = rem32 d @ p"
    using assms(2) abs by (simp add: rem32_append [of d p] rem32_short)
  moreover have "stripes l (d @ p) = stripes l d" for l
    using assms(2) abs by (simp add: stripes_append [of _ d p] stripes_short)
  moreover have "length (d @ p) mod 32 = length (rem32 d) + length p"
    unfolding length_rem32 [symmetric] rem by simp
  ultimately show ?thesis
    using assms(2) abs by (simp add: XXH64_update_data_def Let_def xxh_abs_def)
qed

lemma update_fill:
  assumes abs: "xxh_abs s0 seed d" and s: "s = s0\<lparr>total_len := n\<rparr>" and long: "32 \<le> bufsize s + length p"
  shows "\<exists>s1 i. XXH64_update_fill s p = Some (s1, i) \<and> i \<le> length p \<and>
    stripes (lanes_of s1) (drop i p) = stripes (lanes_of s) (rem32 d @ p) \<and>
    rem32 (drop i p) = rem32 (rem32 d @ p) \<and> total_len s1 = n \<and> length (xbuf s1) = 32 \<and> bufsize s1 = 0"
proof (cases "bufsize s = 0")
  case True
  then show ?thesis using xxh_absD [OF abs] s by (simp add: XXH64_update_fill_def)
next
  case False
  note abs = xxh_absD [OF abs]
  let ?k = "32 - length (rem32 d)"
  let ?filled = "overwrite (xbuf s) (bufsize s) (take ?k p)"
  have filled: "?filled = take 32 (rem32 d @ p)"
    using abs long s by (simp add: overwrite_def)
  then have len: "length ?filled = 32"
    using abs long s by simp
  obtain b where b: "XXH64_block s ?filled 0 = Some b" "lanes_of b = stripe (lanes_of s) (take 32 (rem32 d @ p))"
      "total_len b = total_len s"
  proof -
    have "take 32 (drop 0 ?filled) = take 32 (rem32 d @ p)" by (simp only: drop_0 filled take_take min.idem)
    with XXH64_block_stripe [of 0 ?filled s] len that show thesis by (simp only: add_0) blast
  qed
  have "drop 32 (rem32 d @ p) = drop ?k p" using abs by simp
  with False b abs long s len show ?thesis
    by (simp add: XXH64_update_fill_def Let_def stripes_step [of "rem32 d @ p"] rem32_step [of "rem32 d @ p"])
qed

lemma update_rest:
  assumes "length (xbuf s) = 32" "bufsize s = 0" "i \<le> length p" "length p - i < 32"
  shows "\<exists>s'. XXH64_update_rest s p (length p) i = Some s' \<and> total_len s' = total_len s \<and> lanes_of s' = lanes_of s \<and>
    length (xbuf s') = 32 \<and> bufsize s' = length p - i \<and> take (bufsize s') (xbuf s') = drop i p"
  using assms by (auto simp: XXH64_update_rest_def)

lemma update_long:
  assumes abs: "xxh_abs s seed d" and long: "32 \<le> bufsize s + length p"
    and big: "32 \<le> length p" "length p < 2 ^ 64"
  shows "\<exists>s'. XXH64_update_data s p (length p) = Some s' \<and> xxh_abs s' seed (d @ p)"
proof -
  let ?s = "s\<lparr>total_len := total_len s + of_nat (length p)\<rparr>"
  obtain s1 i where fill: "XXH64_update_fill ?s p = Some (s1, i)" "i \<le> length p"
      "stripes (lanes_of s1) (drop i p) = stripes (lanes_of ?s) (rem32 d @ p)"
      "rem32 (drop i p) = rem32 (rem32 d @ p)" "total_len s1 = total_len s + of_nat (length p)"
      "length (xbuf s1) = 32" "bufsize s1 = 0"
    using update_fill [OF abs refl, where p = p and n = "total_len s + of_nat (length p)"] long by auto
  obtain s2 j where loop: "XXH64_update_loop s1 p (length p) i = Some (s2, j)" "j \<le> length p"
      "lanes_of s2 = stripes (lanes_of s1) (drop i p)" "drop j p = rem32 (drop i p)"
      "total_len s2 = total_len s1" "xbuf s2 = xbuf s1" "bufsize s2 = bufsize s1"
    using update_loop_stripes [of "length p" i p s1] big fill(2) by auto
  have rem: "drop j p = rem32 (d @ p)"
    using loop fill by (simp add: rem32_append [of d p])
  then have rem_len: "length p - j = length (d @ p) mod 32"
    by (metis length_drop length_rem32)
  obtain s3 where rest: "XXH64_update_rest s2 p (length p) j = Some s3" "total_len s3 = total_len s2"
      "lanes_of s3 = lanes_of s2" "length (xbuf s3) = 32" "bufsize s3 = length p - j"
      "take (bufsize s3) (xbuf s3) = drop j p"
    using update_rest [of s2 j p] loop fill rem_len by auto
  have "XXH64_update_data s p (length p) = Some s3"
    using long fill(1) loop(1) rest(1) by (simp add: XXH64_update_data_def Let_def)
  moreover have "lanes_of s3 = stripes (init_lanes seed) (d @ p)"
    using rest loop fill xxh_absD(5) [OF abs] by (simp add: stripes_append [of _ d p])
  moreover have "total_len s3 = of_nat (length (d @ p))"
    using rest loop fill xxh_absD(6) [OF abs] by simp
  ultimately show ?thesis
    using rest rem rem_len by (simp add: xxh_abs_def)
qed

lemma update_short_read:
  assumes abs: "xxh_abs s seed d" and "32 \<le> bufsize s + length p" "length p < 32"
  shows "XXH64_update_data s p (length p) = None"
proof -
  let ?s = "s\<lparr>total_len := total_len s + of_nat (length p)\<rparr>"
  obtain s1 i where fill: "XXH64_update_fill ?s p = Some (s1, i)" "i \<le> length p"
    using update_fill [OF abs refl, where p = p and n = "total_len s + of_nat (length p)"] assms(2) by auto
  have "XXH64_block s1 p i = None"
    using XXH64_block_bound [of s1 p i] fill assms by (cases "XXH64_block s1 p i") auto
  then have "XXH64_update_loop s1 p (length p) i = None"
    using update_loop_cond_short [of "length p" i] fill assms
    by (subst XXH64_update_loop.simps) simp
  with assms(2) fill show ?thesis by (simp add: XXH64_update_data_def Let_def)
qed

subsection \<open>Finalisation\<close>

lemma finalise8_consume:
  assumes "i + len \<le> length ptr"
  shows "\<exists>h' j n. XXH64_finalise8 h ptr i len = Some (h', j, n) \<and> n < 8 \<and> j + n = i + len \<and>
    consume h (take len (drop i ptr)) = consume h' (take n (drop j ptr))"
  using assms
proof (induction h ptr i len rule: XXH64_finalise8.induct)
  case (1 h ptr i len)
  show ?case
  proof (cases "8 \<le> len")
    case True
    let ?h = "XXH_rotl64 (h XOR XXH64_round 0 (le64 (drop i ptr))) 27 * XXH_PRIME64_1 + XXH_PRIME64_4"
    have rd: "read_LE64 ptr i = Some (le64 (drop i ptr))"
      using 1 True by (intro read_LE64_le64) simp
    have "consume h (take len (drop i ptr)) = consume ?h (take (len - 8) (drop (i + 8) ptr))"
      using 1 True by (subst consume.simps) (simp add: drop_take add.commute)
    with 1 True rd show ?thesis
      by (subst XXH64_finalise8.simps) (simp add: rd)
  next
    case False
    with 1 show ?thesis by (subst XXH64_finalise8.simps) simp
  qed
qed

lemma read_LE32_drop: "i + 4 \<le> n + i \<Longrightarrow> i + n \<le> length p \<Longrightarrow>
    read_LE32 (take n (drop i p)) 0 = read_LE32 p i"
  using read_LE32_prefix [of 0 n "drop i p" "[]"] read_LE32_append [of "take i p" "drop i p" 0] by simp

lemma finalise4_consume:
  assumes "i + len \<le> length ptr" "len < 8"
  shows "\<exists>h' j n. XXH64_finalise4 h ptr i len = Some (h', j, n) \<and> n < 4 \<and> j + n = i + len \<and>
    consume h (take len (drop i ptr)) = consume h' (take n (drop j ptr))"
proof (cases "4 \<le> len")
  case True
  obtain k where k: "read_LE32 ptr i = Some k" using True assms by (auto simp: read_LE32_def)
  have "read_LE32 (take len (drop i ptr)) 0 = Some k"
    using True assms k by (simp add: read_LE32_drop)
  with True assms k show ?thesis
    by (subst consume.simps) (simp add: XXH64_finalise4_def drop_take add.commute)
next
  case False
  with assms show ?thesis by (simp add: XXH64_finalise4_def)
qed

lemma finalise1_consume:
  assumes "i + len \<le> length ptr" "len < 4"
  shows "XXH64_finalise1 h ptr i len = Some (consume h (take len (drop i ptr)))"
  using assms
proof (induction h ptr i len rule: XXH64_finalise1.induct)
  case (1 h ptr i len)
  show ?case
  proof (cases "0 < len")
    case True
    then obtain n where n: "len = Suc n" by (cases len) auto
    have "take len (drop i ptr) = ptr ! i # take n (drop (Suc i) ptr)"
      using 1 n by (simp add: Cons_nth_drop_Suc [symmetric])
    with 1 True n show ?thesis
      by (subst XXH64_finalise1.simps, subst consume.simps) (simp add: read_byte8_def)
  next
    case False
    then show ?thesis by (subst XXH64_finalise1.simps, subst consume.simps) simp
  qed
qed

lemma finalise_consume:
  assumes "length buf = 32"
  shows "XXH64_finalise h buf len = Some (XXH64_avalanche (consume h (take (unat len mod 32) buf)))"
proof -
  let ?n = "unat len mod 32"
  have "?n < 32" by simp
  then obtain h8 i8 n8 where f8: "XXH64_finalise8 h buf 0 ?n = Some (h8, i8, n8)" "n8 < 8" "i8 + n8 = ?n"
      "consume h (take ?n buf) = consume h8 (take n8 (drop i8 buf))"
    using finalise8_consume [of 0 ?n buf h] assms by auto
  obtain h4 i4 n4 where f4: "XXH64_finalise4 h8 buf i8 n8 = Some (h4, i4, n4)" "n4 < 4" "i4 + n4 = ?n"
      "consume h8 (take n8 (drop i8 buf)) = consume h4 (take n4 (drop i4 buf))"
    using finalise4_consume [of i8 n8 buf h8] f8 assms by auto
  have "i4 + n4 \<le> length buf" using f4 assms \<open>?n < 32\<close> by simp
  with f8 f4 show ?thesis
    by (simp add: XXH64_finalise_def unat_and_31 finalise1_consume)
qed

text \<open>The digest of any state that has absorbed the bytes \<open>d\<close> is the reference hash of \<open>d\<close>.\<close>

lemma digest_abs:
  assumes abs: "xxh_abs s seed d" and small: "length d < 2 ^ 64"
  shows "XXH64_digest s = Some (xxh64_ref seed d)"
proof -
  have len: "unat (total_len s) = length d"
    using small xxh_absD(6) [OF abs] by (simp add: unat_of_nat take_bit_eq_mod)
  then have ge: "32 \<le> total_len s \<longleftrightarrow> 32 \<le> length d"
    by (simp add: word_le_nat_alt)
  have "take (length d mod 32) (xbuf s) = rem32 d"
    using abs by (auto simp: xxh_abs_def)
  moreover have "stripes (init_lanes seed) d = init_lanes seed" if "length d < 32"
    using that by (simp add: stripes_short)
  moreover have "(xv0 s, xv1 s, xv2 s, xv3 s) = stripes (init_lanes seed) d"
    using xxh_absD(5) [OF abs] by (simp add: lanes_of_def)
  ultimately show ?thesis
    using xxh_absD(4) [OF abs]
    by (auto simp: xxh_absD(6) [OF abs, symmetric] XXH64_digest_def Let_def finalise_consume len ge xxh64_ref_def converge_def init_lanes_def
        split: prod.splits)
qed

lemma XXH64_ref:
  assumes "length input < 2 ^ 64"
  shows "XXH64 (Some input) (length input) seed = Some (xxh64_ref seed input)"
proof -
  have reset: "bufsize (XXH64_reset seed) = 0" by (simp add: XXH64_reset_def)
  obtain s where "XXH64_update_data (XXH64_reset seed) input (length input) = Some s" "xxh_abs s seed input"
    using update_short [OF xxh_abs_reset, of seed input] update_long [OF xxh_abs_reset, of seed input] assms reset
    by (cases "length input < 32") auto
  with assms show ?thesis by (simp add: XXH64_def XXH64_update_def digest_abs)
qed

section \<open>Properties\<close>

text \<open>
  C29. The one-shot hash reads only inside its input and computes the reference xxHash64 of it:
  the buffering state machine (reset, update, digest) adds nothing and loses nothing.
\<close>

theorem XXH64_is_reference:
  assumes "length input < 2 ^ 64"
  shows "XXH64 (Some input) (length input) seed = Some (xxh64_ref seed input)"
  using assms by (rule XXH64_ref)

theorem XXH64_is_reference_witness:
  "length ([1, 2, 3] :: byte list) < 2 ^ 64 \<and>
   XXH64 (Some [1, 2, 3]) (length ([1, 2, 3] :: byte list)) 0 = Some (xxh64_ref 0 [1, 2, 3])"
proof -
  have "length ([1, 2, 3] :: byte list) < 2 ^ 64" by simp
  from this XXH64_is_reference [OF this, of 0] show ?thesis by (rule conjI)
qed

text \<open>
  C30. Streaming refinement: from a state that has absorbed the bytes \<open>d\<close>, an update by \<open>p\<close>
  that fits in the buffer or is at least one stripe long succeeds and leaves a state that has
  absorbed \<open>d @ p\<close>, whose digest is the reference hash of \<open>d @ p\<close>.
\<close>

theorem XXH64_update_refines:
  assumes "xxh_abs s seed d" and "bufsize s + length p < 32 \<or> 32 \<le> length p"
    and "length (d @ p) < 2 ^ 64"
  shows "\<exists>s'. XXH64_update s (Some p) (length p) = Some s' \<and> xxh_abs s' seed (d @ p) \<and>
    XXH64_digest s' = Some (xxh64_ref seed (d @ p))"
proof -
  have "\<exists>s'. XXH64_update_data s p (length p) = Some s' \<and> xxh_abs s' seed (d @ p)"
    using assms update_short [OF assms(1), of p] update_long [OF assms(1), of p]
    by (cases "bufsize s + length p < 32") auto
  with assms(3) show ?thesis by (auto simp: XXH64_update_def digest_abs)
qed

theorem XXH64_update_refines_witness:
  "\<exists>s'. XXH64_update (XXH64_reset 7) (Some (replicate 40 1)) (length (replicate 40 (1 :: byte))) = Some s' \<and>
     xxh_abs s' 7 ([] @ replicate 40 1) \<and> XXH64_digest s' = Some (xxh64_ref 7 ([] @ replicate 40 1))"
  by (rule XXH64_update_refines [OF xxh_abs_reset]) simp_all

text \<open>
  C40. The \<open>size_t\<close> subtraction in the loop guard of \<open>XXH64_update\<close>: when a partly filled buffer is
  completed by an input shorter than one stripe, \<open>len - 32\<close> wraps and the loop reads past the
  end of the input.
\<close>

theorem XXH64_update_overrun:
  assumes "xxh_abs s seed d" and "32 \<le> bufsize s + length p" and "length p < 32"
  shows "XXH64_update s (Some p) (length p) = None"
  using update_short_read [OF assms] by (simp add: XXH64_update_def)

theorem XXH64_update_overrun_witness:
  "\<exists>s. xxh_abs s 0 ([] @ replicate 20 1) \<and> XXH64_update s (Some (replicate 20 2)) (length (replicate 20 (2 :: byte))) = None"
proof -
  have "bufsize (XXH64_reset 0) + length (replicate 20 (1 :: byte)) < 32" by (simp add: XXH64_reset_def)
  then obtain s where s: "xxh_abs s 0 ([] @ replicate 20 (1 :: byte))"
    using update_short [OF xxh_abs_reset, of 0 "replicate 20 1"] by auto
  then have "32 \<le> bufsize s + length (replicate 20 (2 :: byte))" by (simp add: xxh_abs_def)
  from s XXH64_update_overrun [OF s this] show ?thesis by auto
qed

end
