(* ===== verification/Generic_Buffer.thy ===== *)
theory Generic_Buffer
  imports Complex_Main Wahe_Prelude
begin

text \<open>
  \<open>wahelib/rl_utils/generic_buffer.c\<close> and the buffer half of \<open>wahelib/rl_utils/io_override.c\<close>: a
  growable byte buffer that the binary parser reads as if it were a \<open>FILE\<close>, and
  \<open>alloc_enough_pattern\<close> of \<open>misc.c\<close>, which grows every dynamic array of the library.

  The allocated bytes are the list \<open>bf_buf\<close>, so the C field \<open>as\<close> is its length and a null
  \<open>buf\<close> is the empty list. Whether the allocator grants a size is the parameter
  \<open>alloc_ok\<close>; writing outside the allocation is \<^const>\<open>None\<close>. The growth ratio is a rational:
  the code multiplies doubles, which is exact for the ratios 1 and 1.5 and counts below \<open>2 ^ 52\<close>.
\<close>

section \<open>Growing an array\<close>

definition grown_size :: "nat \<Rightarrow> rat \<Rightarrow> nat" where
  "grown_size needed inc_ratio = nat \<lceil>of_nat needed * inc_ratio\<rceil>"

definition alloc_enough_pattern ::
    "(nat \<Rightarrow> bool) \<Rightarrow> 'a list \<Rightarrow> nat \<Rightarrow> nat \<Rightarrow> rat \<Rightarrow> 'a \<Rightarrow> 'a list" where
  "alloc_enough_pattern alloc_ok buffer needed_count size_elem inc_ratio pattern =
     (if needed_count > length buffer
      then (let newsize = grown_size needed_count inc_ratio in
            if alloc_ok (newsize * size_elem)
            then buffer @ replicate (newsize - length buffer) pattern
            else buffer)
      else buffer)"

lemma grown_size_ge: "1 \<le> inc_ratio \<Longrightarrow> needed \<le> grown_size needed inc_ratio"
proof -
  assume "1 \<le> inc_ratio"
  then have "of_nat needed * 1 \<le> (of_nat needed * inc_ratio :: rat)"
    by (intro mult_left_mono) auto
  then have "int needed \<le> \<lceil>of_nat needed * inc_ratio\<rceil>"
    by (metis le_ceiling_iff less_le_trans mult.right_neutral of_int_less_iff of_int_of_nat_eq le_of_int_ceiling order_trans of_int_le_iff)
  then show ?thesis by (simp add: grown_size_def)
qed

text \<open>Growth keeps the elements and, when the allocator grants it, gives room for the request.\<close>

lemma take_alloc_enough: "take (length b) (alloc_enough_pattern ok b n e r z) = b"
  by (simp add: alloc_enough_pattern_def Let_def)

lemma length_alloc_enough_mono: "length b \<le> length (alloc_enough_pattern ok b n e r z)"
  by (simp add: alloc_enough_pattern_def Let_def)

lemma length_alloc_enough:
  "1 \<le> r \<Longrightarrow> ok (grown_size n r * e) \<Longrightarrow> n \<le> length (alloc_enough_pattern ok b n e r z)"
  using grown_size_ge [of r n] by (simp add: alloc_enough_pattern_def Let_def)

lemma take_alloc_enough_le: "k \<le> length b \<Longrightarrow> take k (alloc_enough_pattern ok b n e r z) = take k b"
  by (simp add: alloc_enough_pattern_def Let_def)

section \<open>The buffer\<close>

record buffer_t =
  bf_buf :: "byte list"
  bf_len :: nat
  bf_read_pos :: nat
  bf_write_dest :: "string option"

definition empty_buffer :: buffer_t where
  "empty_buffer = \<lparr>bf_buf = [], bf_len = 0, bf_read_pos = 0, bf_write_dest = None\<rparr>"

definition buffer_of :: "byte list \<Rightarrow> buffer_t" where
  "buffer_of bs = \<lparr>bf_buf = bs @ [0], bf_len = length bs, bf_read_pos = 0, bf_write_dest = None\<rparr>"

text \<open>\<open>buf_load_raw_file\<close>, given what \<open>load_raw_file\<close> returned: the bytes, or null and a zero size.\<close>

definition buf_load_raw_file :: "byte list option \<Rightarrow> buffer_t" where
  "buf_load_raw_file loaded = (case loaded of None \<Rightarrow> empty_buffer | Some bs \<Rightarrow> buffer_of bs)"

definition bufwrite :: "(nat \<Rightarrow> bool) \<Rightarrow> buffer_t \<Rightarrow> byte list option \<Rightarrow> buffer_t option" where
  "bufwrite alloc_ok s ptr =
     (case ptr of
        None \<Rightarrow> Some s
      | Some bs \<Rightarrow>
          (let b = alloc_enough_pattern alloc_ok (bf_buf s) (length bs + bf_len s + 1) 1 (3/2) 0 in
           if bf_len s + length bs \<le> length b
           then Some (s\<lparr>bf_buf := overwrite b (bf_len s) bs, bf_len := bf_len s + length bs\<rparr>)
           else None))"

text \<open>\<open>strlen\<close> of the bytes of an object: undefined without a terminator.\<close>

fun c_strlen :: "byte list \<Rightarrow> nat option" where
  "c_strlen [] = None"
| "c_strlen (b # bs) = (if b = 0 then Some 0 else map_option Suc (c_strlen bs))"

text \<open>
  \<open>vsprintf_realloc\<close> in append mode and \<open>bufprintf\<close> on top of it, for an already formatted
  \<open>text\<close> (the characters \<open>vsnprintf\<close> produces, without the terminator). Where the allocator
  refuses the growth, \<open>vsnprintf\<close> cuts the text to the room there is.
\<close>

definition vsprintf_realloc :: "(nat \<Rightarrow> bool) \<Rightarrow> byte list \<Rightarrow> bool \<Rightarrow> byte list \<Rightarrow> byte list option" where
  "vsprintf_realloc alloc_ok str append_mode text =
     do {
       len0 \<leftarrow> (if append_mode \<and> str \<noteq> [] then c_strlen str else Some 0);
       (let b = alloc_enough_pattern alloc_ok str (len0 + length text + 1) 1 (if str = [] then 1 else 3/2) 0;
            room = length b - len0
        in Some (if room = 0 then b else overwrite b len0 (take (room - 1) text @ [0])))
     }"

definition bufprintf :: "(nat \<Rightarrow> bool) \<Rightarrow> buffer_t \<Rightarrow> byte list \<Rightarrow> buffer_t option" where
  "bufprintf alloc_ok s text =
     do {
       b \<leftarrow> vsprintf_realloc alloc_ok (bf_buf s) True text;
       n \<leftarrow> c_strlen b;
       Some (s\<lparr>bf_buf := b, bf_len := n\<rparr>)
     }"

definition buf_alloc_enough :: "(nat \<Rightarrow> bool) \<Rightarrow> buffer_t \<Rightarrow> nat \<Rightarrow> buffer_t" where
  "buf_alloc_enough alloc_ok s req_size =
     s\<lparr>bf_buf := alloc_enough_pattern alloc_ok (bf_buf s) req_size 1 1 0\<rparr>"

definition clear_buf :: "buffer_t \<Rightarrow> buffer_t" where
  "clear_buf s = s\<lparr>bf_len := 0, bf_buf := (if bf_buf s \<noteq> [] then (bf_buf s)[0 := 0] else [])\<rparr>"

definition free_buf :: "buffer_t \<Rightarrow> buffer_t" where
  "free_buf s = empty_buffer"

section \<open>The buffer as a stream\<close>

definition fread_buffer :: "buffer_t \<Rightarrow> nat \<Rightarrow> (byte list \<times> buffer_t) option" where
  "fread_buffer s n =
     (let readable = min (nat ((int (bf_len s) - int (bf_read_pos s)) mod 2 ^ 64)) n in
      if bf_read_pos s + readable \<le> length (bf_buf s)
      then Some (take readable (drop (bf_read_pos s) (bf_buf s)), s\<lparr>bf_read_pos := bf_read_pos s + readable\<rparr>)
      else None)"

definition fwrite_buffer :: "(nat \<Rightarrow> bool) \<Rightarrow> byte list \<Rightarrow> buffer_t \<Rightarrow> buffer_t option" where
  "fwrite_buffer alloc_ok bs s = bufwrite alloc_ok s (Some bs)"

definition rewind_buffer :: "buffer_t \<Rightarrow> buffer_t" where
  "rewind_buffer s = s\<lparr>bf_read_pos := 0\<rparr>"

datatype whence = SEEK_SET | SEEK_CUR | SEEK_END

text \<open>The position is a \<open>size_t\<close>, so the test \<open>read_pos < 0\<close> of the code never holds.\<close>

definition fseek_buffer :: "buffer_t \<Rightarrow> int \<Rightarrow> whence \<Rightarrow> int \<times> buffer_t" where
  "fseek_buffer s offset whence =
     (let base = (case whence of SEEK_SET \<Rightarrow> 0 | SEEK_CUR \<Rightarrow> bf_read_pos s | SEEK_END \<Rightarrow> bf_len s);
          pos = nat ((int base + offset) mod 2 ^ 64)
      in if bf_len s < pos then (-1, s\<lparr>bf_read_pos := 0\<rparr>) else (0, s\<lparr>bf_read_pos := pos\<rparr>))"

definition ftell_buffer :: "buffer_t \<Rightarrow> nat" where
  "ftell_buffer s = bf_read_pos s"

section \<open>Buffers as files\<close>

text \<open>
  The buffer in place of a file: \<open>load\<close> is \<open>load_raw_file\<close> and \<open>save\<close> is \<open>save_raw_file\<close> on data that is not null, over a state of
  the files. A null buffer is not saved.
\<close>

definition buf_save_raw_file ::
    "(string \<Rightarrow> string \<Rightarrow> byte list \<Rightarrow> 'f \<Rightarrow> bool \<times> 'f) \<Rightarrow> buffer_t \<Rightarrow> string \<Rightarrow> string \<Rightarrow> 'f \<Rightarrow> bool \<times> 'f" where
  "buf_save_raw_file save s path mode fs =
     (if bf_buf s = [] then (False, fs) else save path mode (take (bf_len s) (bf_buf s)) fs)"

definition fopen_buffer :: "(string \<Rightarrow> 'f \<Rightarrow> byte list option) \<Rightarrow> string \<Rightarrow> string \<Rightarrow> 'f \<Rightarrow> buffer_t option" where
  "fopen_buffer load path mode fs =
     (if mode \<noteq> ''rb'' \<and> mode \<noteq> ''wb'' then None
      else if mode = ''rb'' then Some (buf_load_raw_file (load path fs))
      else Some (empty_buffer\<lparr>bf_write_dest := Some path\<rparr>))"

text \<open>The result is whether closing failed.\<close>

definition fclose_buffer :: "(string \<Rightarrow> string \<Rightarrow> byte list \<Rightarrow> 'f \<Rightarrow> bool \<times> 'f) \<Rightarrow> buffer_t \<Rightarrow> 'f \<Rightarrow> bool \<times> 'f" where
  "fclose_buffer save s fs =
     (case bf_write_dest s of
        None \<Rightarrow> (False, fs)
      | Some path \<Rightarrow> (case buf_save_raw_file save s path ''wb'' fs of (saved, fs1) \<Rightarrow> (\<not> saved, fs1)))"

text \<open>The eight overridden functions are always those of files or those of buffers together.\<close>

datatype io_override = IO_FILE | IO_buffer

definition io_override_set_FILE :: "io_override \<Rightarrow> io_override" where
  "io_override_set_FILE io = IO_FILE"

definition io_override_set_buffer :: "io_override \<Rightarrow> io_override" where
  "io_override_set_buffer io = IO_buffer"

definition overridden :: "io_override \<Rightarrow> 'a \<Rightarrow> 'a \<Rightarrow> 'a" where
  "overridden io file_function buffer_function = (case io of IO_FILE \<Rightarrow> file_function | IO_buffer \<Rightarrow> buffer_function)"

section \<open>Well-formed buffers\<close>

definition shaped_buffer :: "buffer_t \<Rightarrow> bool" where
  "shaped_buffer s \<longleftrightarrow> bf_read_pos s \<le> bf_len s \<and> bf_len s \<le> length (bf_buf s)"

text \<open>No object of a 64-bit program is larger than \<open>2 ^ 63\<close> bytes.\<close>

definition wf_buffer :: "buffer_t \<Rightarrow> bool" where
  "wf_buffer s \<longleftrightarrow> bf_read_pos s \<le> bf_len s \<and> bf_len s \<le> length (bf_buf s) \<and> bf_len s < 2 ^ 63"

definition contents :: "buffer_t \<Rightarrow> byte list" where
  "contents s = take (bf_len s) (bf_buf s)"

definition unread :: "buffer_t \<Rightarrow> byte list" where
  "unread s = drop (bf_read_pos s) (contents s)"

lemma wf_buffer_of [simp]: "length bs < 2 ^ 63 \<Longrightarrow> wf_buffer (buffer_of bs)"
  by (simp add: wf_buffer_def buffer_of_def)

lemma unread_buffer_of [simp]: "unread (buffer_of bs) = bs"
  by (simp add: unread_def contents_def buffer_of_def)

lemma contents_buffer_of [simp]: "contents (buffer_of bs) = bs"
  by (simp add: contents_def buffer_of_def)

lemma length_contents: "wf_buffer s \<Longrightarrow> length (contents s) = bf_len s"
  by (simp add: wf_buffer_def contents_def)

text \<open>A read returns the next unread bytes, as many as there are.\<close>

lemma fread_buffer_unread:
  assumes "wf_buffer s"
  shows "\<exists>s'. fread_buffer s n = Some (take n (unread s), s') \<and> unread s' = drop n (unread s) \<and>
    wf_buffer s' \<and> contents s' = contents s"
proof -
  let ?r = "min (bf_len s - bf_read_pos s) n"
  have "nat ((int (bf_len s) - int (bf_read_pos s)) mod 2 ^ 64) = bf_len s - bf_read_pos s"
    using assms by (simp add: wf_buffer_def mod_pos_pos_trivial)
  moreover have "take ?r (drop (bf_read_pos s) (bf_buf s)) = take n (unread s)"
    by (simp add: unread_def contents_def drop_take min.commute)
  moreover have "drop (bf_read_pos s + ?r) (contents s) = drop n (unread s)"
    using assms by (cases "n \<le> bf_len s - bf_read_pos s")
      (auto simp: unread_def contents_def wf_buffer_def add.commute min_def)
  ultimately show ?thesis
    using assms by (auto simp: fread_buffer_def Let_def wf_buffer_def contents_def unread_def)
qed

text \<open>A write appends to the contents when the allocator grants every size.\<close>

lemma bufwrite_contents:
  assumes "shaped_buffer s" "\<And>n. alloc_ok n"
  shows "\<exists>s'. bufwrite alloc_ok s (Some bs) = Some s' \<and> contents s' = contents s @ bs \<and> shaped_buffer s' \<and>
    bf_read_pos s' = bf_read_pos s \<and> bf_len s' = bf_len s + length bs"
proof -
  let ?n = "length bs + bf_len s + 1"
  let ?b = "alloc_enough_pattern alloc_ok (bf_buf s) ?n 1 (3/2) 0"
  have room: "?n \<le> length ?b"
    by (rule length_alloc_enough) (simp_all add: assms(2))
  then have "take (bf_len s + length bs) (overwrite ?b (bf_len s) bs) = contents s @ bs"
    using assms(1) by (simp add: contents_def shaped_buffer_def take_alloc_enough_le)
  with room assms(1) show ?thesis
    by (auto simp: bufwrite_def Let_def shaped_buffer_def contents_def)
qed

lemma wf_shaped: "wf_buffer s \<longleftrightarrow> shaped_buffer s \<and> bf_len s < 2 ^ 63"
  by (auto simp: wf_buffer_def shaped_buffer_def)

lemma fseek_buffer_in_range:
  assumes "wf_buffer s" "0 \<le> int base + offset" "int base + offset \<le> int (bf_len s)"
    and "base = (case wh of SEEK_SET \<Rightarrow> 0 | SEEK_CUR \<Rightarrow> bf_read_pos s | SEEK_END \<Rightarrow> bf_len s)"
  shows "fseek_buffer s offset wh = (0, s\<lparr>bf_read_pos := nat (int base + offset)\<rparr>)"
  using assms by (auto simp: fseek_buffer_def Let_def wf_buffer_def mod_pos_pos_trivial)

lemma wf_fseek_buffer: "wf_buffer s \<Longrightarrow> wf_buffer (snd (fseek_buffer s offset wh))"
  by (auto simp: fseek_buffer_def Let_def wf_buffer_def)

lemma contents_fseek_buffer [simp]: "contents (snd (fseek_buffer s offset wh)) = contents s"
  by (auto simp: fseek_buffer_def Let_def contents_def)

text \<open>What is written to a buffer opened for writing is what closing it saves; nothing is saved, and a failure reported, when nothing was written.\<close>

lemma written_is_saved:
  assumes "fopen_buffer load path ''wb'' fs = Some s" "fwrite_buffer alloc_ok bs s = Some s'" "\<And>n. alloc_ok n"
  shows "fclose_buffer save s' fs = (case save path ''wb'' bs fs of (saved, fs1) \<Rightarrow> (\<not> saved, fs1))"
proof -
  have s: "s = empty_buffer\<lparr>bf_write_dest := Some path\<rparr>" using assms(1) by (simp add: fopen_buffer_def)
  let ?b = "alloc_enough_pattern alloc_ok [] (length bs + 1) 1 (3/2) (0 :: byte)"
  have len: "length bs + 1 \<le> length ?b" by (rule length_alloc_enough) (simp_all add: assms(3))
  then have s': "s' = s\<lparr>bf_buf := overwrite ?b 0 bs, bf_len := length bs\<rparr>"
    using assms(2) by (auto simp: fwrite_buffer_def bufwrite_def s empty_buffer_def Let_def)
  have "length (overwrite ?b 0 bs) = length ?b" using len by (intro length_overwrite) simp
  then have "overwrite ?b 0 bs \<noteq> []" using len by (metis add_is_0 le_zero_eq length_0_conv one_neq_zero)
  then have "bf_buf s' \<noteq> []" "take (bf_len s') (bf_buf s') = bs" "bf_write_dest s' = Some path"
    unfolding s' s by (simp_all add: empty_buffer_def)
  then show ?thesis by (simp add: fclose_buffer_def buf_save_raw_file_def)
qed

lemma nothing_is_not_saved: "fopen_buffer load path ''wb'' fs = Some s \<Longrightarrow> fclose_buffer save s fs = (True, fs)"
  by (auto simp: fopen_buffer_def fclose_buffer_def buf_save_raw_file_def empty_buffer_def)

end
