(* ===== verification/Leb128.thy ===== *)
theory Leb128
  imports Generic_Buffer
begin

text \<open>
  The stream part of \<open>wahelib/rl_utils/endian.c\<close>: single bytes and LEB128 integers. The code
  reads and writes through the function pointers \<open>fread_override\<close> and \<open>fwrite_override\<close>, so the
  definitions take the byte reader \<open>get\<close> and the byte writer \<open>put\<close> as arguments, and the lemmas
  are proved in locales that state what a byte source and a byte sink promise. Both are
  interpreted on the buffer streams that \<open>io_override_set_buffer\<close> installs.

  A shift of a 64-bit value by 64 or more is undefined in C and is \<^const>\<open>None\<close>.
\<close>

section \<open>The code\<close>

definition fread_byte8 :: "buffer_t \<Rightarrow> (byte \<times> buffer_t) option" where
  "fread_byte8 s =
     (case fread_buffer s 1 of
        Some ([b], s') \<Rightarrow> Some (b, s')
      | _ \<Rightarrow> None)"

definition fwrite_byte8 :: "(nat \<Rightarrow> bool) \<Rightarrow> byte \<Rightarrow> buffer_t \<Rightarrow> buffer_t option" where
  "fwrite_byte8 alloc_ok b s = fwrite_buffer alloc_ok [b] s"

function LEB128_bytes :: "('s \<Rightarrow> (byte \<times> 's) option) \<Rightarrow> u64 \<Rightarrow> nat \<Rightarrow> 's \<Rightarrow> (u64 \<times> nat \<times> byte \<times> 's) option" where
  "LEB128_bytes get v shift s =
     (if 64 \<le> shift then None
      else (case get s of
              None \<Rightarrow> None
            | Some (b, s') \<Rightarrow>
                (let v' = v OR push_bit shift (ucast (b AND 0x7F)) in
                 if b AND 0x80 \<noteq> 0 then LEB128_bytes get v' (shift + 7) s'
                 else Some (v', shift + 7, b, s'))))"
  by pat_completeness auto
termination
  by (relation "measure (\<lambda>(get, v, shift, s). 64 - shift)") auto

declare LEB128_bytes.simps [simp del]

definition fread_LEB128 :: "('s \<Rightarrow> (byte \<times> 's) option) \<Rightarrow> bool \<Rightarrow> 's \<Rightarrow> (u64 \<times> 's) option" where
  "fread_LEB128 get signed_leb s =
     do {
       (v, shift, b, s') \<leftarrow> LEB128_bytes get 0 0 s;
       (if signed_leb \<and> b AND 0x40 \<noteq> 0
        then (if shift < 64 then Some (v OR push_bit shift (NOT 0), s') else None)
        else Some (v, s'))
     }"

function fwrite_ULEB128 :: "(byte \<Rightarrow> 's \<Rightarrow> 's option) \<Rightarrow> u64 \<Rightarrow> 's \<Rightarrow> 's option" where
  "fwrite_ULEB128 put v s =
     (let b = ucast (v AND 0x7F); v' = drop_bit 7 v in
      if v' \<noteq> 0
      then (case put (b OR 0x80) s of None \<Rightarrow> None | Some s' \<Rightarrow> fwrite_ULEB128 put v' s')
      else put b s)"
  by pat_completeness auto
termination
proof (relation "measure (\<lambda>(put, v, s). unat v)")
  fix put :: "byte \<Rightarrow> 's \<Rightarrow> 's option" and v :: u64 and s s' :: 's and b :: byte and v' :: u64
  assume v': "v' = drop_bit 7 v" "v' \<noteq> 0"
  have "unat v' = unat v div 128" by (simp only: v' unat_drop_bit_eq) (simp add: drop_bit_eq_div)
  moreover have "unat v' \<noteq> 0" using v' by (simp add: unat_eq_0)
  ultimately show "((put, v', s'), put, v, s) \<in> measure (\<lambda>(put, v, s). unat v)" by simp
qed simp

text \<open>
  The signed writer works on an \<open>int64_t\<close>, read here as an integer: \<open>v & 0x7F\<close> is \<open>v mod 128\<close> and the
  arithmetic right shift by 7 is \<open>v div 128\<close>.
\<close>

function fwrite_SLEB128 :: "(byte \<Rightarrow> 's \<Rightarrow> 's option) \<Rightarrow> int \<Rightarrow> 's \<Rightarrow> 's option" where
  "fwrite_SLEB128 put v s =
     (let b = word_of_int (v mod 128) :: byte; v' = v div 128 in
      if (v' \<noteq> 0 \<or> b AND 0x40 \<noteq> 0) \<and> (v' \<noteq> -1 \<or> b AND 0x40 = 0)
      then (case put (b OR 0x80) s of None \<Rightarrow> None | Some s' \<Rightarrow> fwrite_SLEB128 put v' s')
      else put b s)"
  by pat_completeness auto

lemma and_bit6: "b AND 0x40 = 0 \<longleftrightarrow> \<not> bit b 6" for b :: byte
  using and_exp_eq_0_iff_not_bit [of b 6] by simp

lemma and_bit7: "b AND 0x80 = 0 \<longleftrightarrow> \<not> bit b 7" for b :: byte
  using and_exp_eq_0_iff_not_bit [of b 7] by simp

lemma SLEB128_bit6: "bit (word_of_int (v mod 128) :: byte) 6 \<longleftrightarrow> odd (v div 64)"
proof -
  have "v mod 128 = take_bit 7 v" by (simp add: take_bit_eq_mod)
  then have "bit (word_of_int (v mod 128) :: byte) 6 \<longleftrightarrow> bit v 6"
    by (simp add: bit_word_of_int_iff bit_take_bit_iff)
  then show ?thesis by (simp add: bit_iff_odd)
qed

lemma SLEB128_more:
  "(v div 128 \<noteq> 0 \<or> (word_of_int (v mod 128) :: byte) AND 0x40 \<noteq> 0) \<and>
   (v div 128 \<noteq> -1 \<or> (word_of_int (v mod 128) :: byte) AND 0x40 = 0) \<longleftrightarrow> v < -64 \<or> 64 \<le> v"
proof -
  have half: "(w div 2 \<noteq> 0 \<or> odd w) \<and> (w div 2 \<noteq> -1 \<or> even w) \<longleftrightarrow> w \<noteq> 0 \<and> w \<noteq> -1" for w :: int
    by presburger
  have "v div 128 = v div 64 div 2" using zdiv_zmult2_eq [of 2 v 64] by simp
  moreover have "v < -64 \<or> 64 \<le> v \<longleftrightarrow> v div 64 \<noteq> 0 \<and> v div 64 \<noteq> -1" by presburger
  ultimately show ?thesis using half [of "v div 64"] by (simp only: and_bit6 SLEB128_bit6 not_not)
qed

termination fwrite_SLEB128
proof (relation "measure (\<lambda>(put, v, s). nat (if v < 0 then - v - 1 else v))")
  fix put :: "byte \<Rightarrow> 's \<Rightarrow> 's option" and v v' :: int and s s' :: 's and b :: byte
  assume "b = word_of_int (v mod 128)" "v' = v div 128" "(v' \<noteq> 0 \<or> b AND 64 \<noteq> 0) \<and> (v' \<noteq> - 1 \<or> b AND 64 = 0)"
  then have "v < -64 \<or> 64 \<le> v" "v' = v div 128" using SLEB128_more [of v] by auto
  then show "((put, v', s'), put, v, s) \<in> measure (\<lambda>(put, v, s). nat (if v < 0 then - v - 1 else v))"
    by auto
qed simp

lemmas [simp del] = fwrite_ULEB128.simps fwrite_SLEB128.simps

section \<open>Encodings\<close>

fun leb_enc :: "byte list \<Rightarrow> bool" where
  "leb_enc [] = False"
| "leb_enc [b] = (\<not> bit b 7)"
| "leb_enc (b # bs) = (bit b 7 \<and> leb_enc bs)"

fun leb_val :: "byte list \<Rightarrow> nat" where
  "leb_val [] = 0"
| "leb_val (b # bs) = unat b mod 128 + 128 * leb_val bs"

declare leb_val.simps [simp del]

lemma unat_low7: "unat (b AND 0x7F :: byte) = unat b mod 128"
proof -
  have "b AND 0x7F = take_bit 7 b" by (simp add: take_bit_eq_mask mask_eq_exp_minus_1)
  then show ?thesis by (simp only: unsigned_take_bit_eq) (simp add: take_bit_eq_mod)
qed

lemma ucast_of_nat: "(ucast (b :: byte) :: u64) = of_nat (unat b)"
  by transfer simp

lemma bit_0x80: "bit (0x80 :: byte) n \<longleftrightarrow> n = 7"
  using bit_exp_iff [of 7 n, where 'a = byte] by auto

lemma low7_byte:
  "\<not> bit (ucast (v AND 0x7F) :: byte) 7" "unat (ucast (v AND 0x7F) :: byte) mod 128 = unat v mod 128"
  "bit ((ucast (v AND 0x7F) :: byte) OR 0x80) 7"
  "unat ((ucast (v AND 0x7F) :: byte) OR 0x80) mod 128 = unat v mod 128" for v :: u64
proof -
  have m: "(0x7F :: u64) = mask 7" by (simp add: mask_eq_exp_minus_1)
  show "\<not> bit (ucast (v AND 0x7F) :: byte) 7" unfolding m by (simp add: bit_simps)
  show "bit ((ucast (v AND 0x7F) :: byte) OR 0x80) 7" unfolding m by (simp add: bit_simps bit_0x80)
  have tb: "unat x mod 128 = unat (take_bit 7 x)" for x :: "'b::len word"
    by (simp only: unsigned_take_bit_eq) (simp add: take_bit_eq_mod)
  have "unat (take_bit 7 ((ucast (v AND mask 7) :: byte) OR 0x80)) = unat (take_bit 7 v)"
    by (rule bit_eqI) (auto simp: bit_simps bit_0x80)
  then show "unat ((ucast (v AND 0x7F) :: byte) OR 0x80) mod 128 = unat v mod 128"
    unfolding m tb .
  have "unat (take_bit 7 (ucast (v AND mask 7) :: byte)) = unat (take_bit 7 v)"
    by (rule bit_eqI) (auto simp: bit_simps)
  then show "unat (ucast (v AND 0x7F) :: byte) mod 128 = unat v mod 128"
    unfolding m tb .
qed

definition leb_acc :: "u64 \<Rightarrow> nat \<Rightarrow> byte \<Rightarrow> u64" where
  "leb_acc acc shift b = acc + of_nat (2 ^ shift * (unat b mod 128))"

lemma leb_step:
  assumes "unat acc < 2 ^ shift"
  shows "acc OR push_bit shift (ucast (b AND 0x7F)) = leb_acc acc shift b"
proof -
  have "push_bit shift (ucast (b AND 0x7F) :: u64) = of_nat (2 ^ shift * (unat b mod 128))"
    unfolding push_bit_eq_mult ucast_of_nat unat_low7 of_nat_mult of_nat_power of_nat_numeral by (rule mult.commute)
  then show ?thesis unfolding disjoint_or_add [OF assms] leb_acc_def by (simp only:)
qed

lemma leb_acc_bound:
  assumes "unat acc < 2 ^ shift" "shift + 7 \<le> 64"
  shows "unat (leb_acc acc shift b) < 2 ^ (shift + 7)"
proof -
  have k: "unat b mod 128 < 128" by simp
  have "unat acc + 2 ^ shift * (unat b mod 128) < 2 ^ shift + 2 ^ shift * 127"
    using assms k by (intro add_less_le_mono mult_le_mono) auto
  then have lt: "unat acc + 2 ^ shift * (unat b mod 128) < 2 ^ (shift + 7)" by (simp add: power_add)
  have "(2 :: nat) ^ (shift + 7) \<le> 2 ^ 64" using assms by (intro power_increasing) auto
  with lt have "unat acc + 2 ^ shift * (unat b mod 128) < 2 ^ 64" by linarith
  then have "unat (leb_acc acc shift b) = unat acc + 2 ^ shift * (unat b mod 128)"
    by (simp add: leb_acc_def unat_word_ariths unat_of_nat take_bit_eq_mod del: of_nat_mult of_nat_power)
  with lt show ?thesis by simp
qed

lemma LEB128_bytes_step:
  assumes "unat acc < 2 ^ shift" "shift < 64" "get s = Some (b, s')"
  shows "LEB128_bytes get acc shift s =
    (if bit b 7 then LEB128_bytes get (leb_acc acc shift b) (shift + 7) s'
     else Some (leb_acc acc shift b, shift + 7, b, s'))"
  using assms(2,3)
  by (subst LEB128_bytes.simps)
    (simp only: leb_step [OF assms(1)] Let_def and_bit7 not_not option.case prod.case not_le [symmetric] if_False)

lemma leb_acc_single: "leb_acc acc shift b = acc + of_nat (2 ^ shift * leb_val [b])"
  by (simp only: leb_acc_def leb_val.simps mult_0_right add_0_right)

lemma leb_acc_Cons:
  "leb_acc acc shift b + of_nat (2 ^ (shift + 7) * leb_val bs) = acc + of_nat (2 ^ shift * leb_val (b # bs))"
proof -
  have "2 ^ shift * leb_val (b # bs) = 2 ^ shift * (unat b mod 128) + 2 ^ (shift + 7) * leb_val bs"
    by (simp only: leb_val.simps power_add) (simp add: algebra_simps)
  then show ?thesis by (simp only: leb_acc_def of_nat_add add.assoc)
qed

lemma SLEB128_byte:
  "unat (word_of_int (v mod 128) :: byte) mod 128 = nat (v mod 128)"
  "\<not> bit (word_of_int (v mod 128) :: byte) 7"
  "unat ((word_of_int (v mod 128) :: byte) OR 0x80) mod 128 = nat (v mod 128)"
  "bit ((word_of_int (v mod 128) :: byte) OR 0x80) 7"
proof -
  have m: "v mod 128 = take_bit 7 v" by (simp add: take_bit_eq_mod)
  have tb: "unat x mod 128 = unat (take_bit 7 x)" for x :: byte
    by (simp only: unsigned_take_bit_eq) (simp add: take_bit_eq_mod)
  have le: "unat (take_bit 7 (word_of_int (v mod 128) :: byte)) = nat (v mod 128)"
    by (simp only: unsigned_take_bit_eq m unat_eq_nat_uint uint_word_of_int_eq)
      (simp add: take_bit_nat_eq take_bit_take_bit)
  then show "unat (word_of_int (v mod 128) :: byte) mod 128 = nat (v mod 128)" unfolding tb .
  have "take_bit 7 ((word_of_int (v mod 128) :: byte) OR 0x80) = take_bit 7 (word_of_int (v mod 128))"
    by (rule bit_eqI) (auto simp: bit_simps bit_0x80)
  with le show "unat ((word_of_int (v mod 128) :: byte) OR 0x80) mod 128 = nat (v mod 128)" unfolding tb by simp
  show "\<not> bit (word_of_int (v mod 128) :: byte) 7" unfolding m by (simp add: bit_simps)
  show "bit ((word_of_int (v mod 128) :: byte) OR 0x80) 7" by (simp add: bit_simps bit_0x80)
qed

lemma SLEB128_sign: "-64 \<le> v \<Longrightarrow> v < 64 \<Longrightarrow> bit (word_of_int (v mod 128) :: byte) 6 \<longleftrightarrow> v < 0"
  unfolding SLEB128_bit6 by presburger

lemma SLEB128_scale:
  fixes v :: int
  assumes "0 < m"
  shows "- (2 ^ (7 * m - 1)) \<le> v div 128 \<and> v div 128 < 2 ^ (7 * m - 1) \<longleftrightarrow>
    - (2 ^ (7 * Suc m - 1)) \<le> v \<and> v < 2 ^ (7 * Suc m - 1)"
proof -
  have "7 * Suc m - 1 = (7 * m - 1) + 7" using assms by simp
  then have e: "(2 :: int) ^ (7 * Suc m - 1) = 2 ^ (7 * m - 1) * 128" by (simp only: power_add) simp
  have "- B \<le> v div 128 \<and> v div 128 < B \<longleftrightarrow> - (B * 128) \<le> v \<and> v < B * 128" for B :: int
  proof -
    have "v = 128 * (v div 128) + v mod 128" "0 \<le> v mod 128" "v mod 128 < 128" by simp_all
    then show ?thesis by linarith
  qed
  then show ?thesis unfolding e .
qed

section \<open>Byte sources and byte sinks\<close>

locale byte_source =
  fixes get :: "'s \<Rightarrow> (byte \<times> 's) option"
    and view :: "'s \<Rightarrow> byte list"
    and ok :: "'s \<Rightarrow> bool"
  assumes get_Cons: "ok s \<Longrightarrow> view s = b # bs \<Longrightarrow> \<exists>s'. get s = Some (b, s') \<and> view s' = bs \<and> ok s'"
    and get_Nil: "ok s \<Longrightarrow> view s = [] \<Longrightarrow> get s = None"
begin

lemma LEB128_bytes_enc:
  assumes "leb_enc bs" "ok s" "view s = bs @ rest" "unat acc < 2 ^ shift" "shift + 7 * length bs < 71"
  shows "\<exists>s'. LEB128_bytes get acc shift s =
    Some (acc + of_nat (2 ^ shift * leb_val bs), shift + 7 * length bs, last bs, s') \<and> view s' = rest \<and> ok s'"
  using assms
proof (induction bs arbitrary: acc shift s rule: leb_enc.induct)
  case (2 b)
  obtain s' where s': "get s = Some (b, s')" "view s' = rest" "ok s'"
    using get_Cons [of s b rest] 2(2,3) by auto
  have "shift < 64" using 2(5) by simp
  then have "LEB128_bytes get acc shift s = Some (leb_acc acc shift b, shift + 7, b, s')"
    using LEB128_bytes_step [where get = get and acc = acc and shift = shift and s = s and b = b and s' = s'] 2(1,4) s'(1)
    by simp
  with s'(2,3) show ?case unfolding leb_acc_single by simp
next
  case (3 b b' bs)
  obtain s1 where s1: "get s = Some (b, s1)" "view s1 = (b' # bs) @ rest" "ok s1"
    using get_Cons [of s b "(b' # bs) @ rest"] 3(3,4) by auto
  let ?acc = "leb_acc acc shift b"
  have bound: "unat ?acc < 2 ^ (shift + 7)" using 3 by (intro leb_acc_bound) auto
  obtain s' where s': "LEB128_bytes get ?acc (shift + 7) s1 =
      Some (?acc + of_nat (2 ^ (shift + 7) * leb_val (b' # bs)), shift + 7 + 7 * length (b' # bs), last (b' # bs), s')"
      "view s' = rest" "ok s'"
    using 3(1) [OF _ s1(3,2) bound] 3(2,6) by auto
  have "LEB128_bytes get acc shift s = LEB128_bytes get ?acc (shift + 7) s1"
    using LEB128_bytes_step [where get = get and acc = acc and shift = shift and s = s and b = b and s' = s1] 3 s1(1)
    by simp
  then show ?case
    using s' by (simp add: leb_acc_Cons add.assoc del: leb_val.simps of_nat_mult)
qed simp

lemma fread_ULEB_enc:
  assumes "leb_enc bs" "ok s" "view s = bs @ rest" "length bs \<le> 10"
  shows "\<exists>s'. fread_LEB128 get False s = Some (of_nat (leb_val bs), s') \<and> view s' = rest \<and> ok s'"
  using LEB128_bytes_enc [OF assms(1-3), of 0 0] assms(4) by (auto simp: fread_LEB128_def)

lemma fread_SLEB_enc:
  assumes "leb_enc bs" "ok s" "view s = bs @ rest" "length bs \<le> 10"
  shows "\<exists>s'. fread_LEB128 get True s =
    (if bit (last bs) 6
     then if length bs < 10 then Some (of_nat (leb_val bs) OR push_bit (7 * length bs) (NOT 0), s') else None
     else Some (of_nat (leb_val bs), s')) \<and> view s' = rest \<and> ok s'"
  using LEB128_bytes_enc [OF assms(1-3), of 0 0] assms(4) by (auto simp: fread_LEB128_def and_bit6)

end

locale byte_sink =
  fixes put :: "byte \<Rightarrow> 's \<Rightarrow> 's option"
    and written :: "'s \<Rightarrow> byte list"
    and ok :: "'s \<Rightarrow> bool"
  assumes put: "ok s \<Longrightarrow> \<exists>s'. put b s = Some s' \<and> written s' = written s @ [b] \<and> ok s'"
begin

lemma fwrite_ULEB128_enc:
  assumes "ok s"
  shows "\<exists>s' bs. fwrite_ULEB128 put v s = Some s' \<and> ok s' \<and> written s' = written s @ bs \<and> leb_enc bs \<and>
    leb_val bs = unat v \<and> (\<forall>n>0. unat v < 2 ^ (7 * n) \<longrightarrow> length bs \<le> n)"
  using assms
proof (induction "unat v" arbitrary: v s rule: less_induct)
  case (less v s)
  let ?b = "ucast (v AND 0x7F) :: byte"
  show ?case
  proof (cases "drop_bit 7 v = 0")
    case True
    obtain s' where s': "put ?b s = Some s'" "written s' = written s @ [?b]" "ok s'"
      using put [OF less(2)] by blast
    have "unat v div 128 = 0"
      using arg_cong [OF True, of unat] by (simp only: unat_drop_bit_eq) (simp add: drop_bit_eq_div)
    then have "unat v mod 128 = unat v" by (simp add: div_eq_0_iff)
    with True s' show ?thesis
      by (subst fwrite_ULEB128.simps) (auto simp: Let_def low7_byte leb_val.simps intro!: exI [of _ "[?b]"])
  next
    case False
    obtain s1 where s1: "put (?b OR 0x80) s = Some s1" "written s1 = written s @ [?b OR 0x80]" "ok s1"
      using put [OF less(2)] by blast
    have dv: "unat (drop_bit 7 v) = unat v div 128"
      by (simp only: unat_drop_bit_eq) (simp add: drop_bit_eq_div)
    have pos: "unat v div 128 \<noteq> 0" using False dv by (metis unat_eq_0)
    have smaller: "unat (drop_bit 7 v) < unat v" using dv pos by simp
    obtain s' bs where s': "fwrite_ULEB128 put (drop_bit 7 v) s1 = Some s'" "ok s'" "written s' = written s1 @ bs"
        "leb_enc bs" "leb_val bs = unat (drop_bit 7 v)"
        "\<forall>n>0. unat (drop_bit 7 v) < 2 ^ (7 * n) \<longrightarrow> length bs \<le> n"
      using less(1) [OF smaller s1(3)] by blast
    obtain c cs where bs: "bs = c # cs" using s'(4) by (cases bs) auto
    have "length (?b # bs) \<le> n" if n0: "0 < n" "unat v < 2 ^ (7 * n)" for n
    proof -
      obtain m where n: "n = Suc m" using n0 by (cases n) auto
      have lt: "unat v div 128 < 2 ^ (7 * m)"
        using n0 n by (simp add: less_mult_imp_div_less power_add mult.commute)
      have "0 < m" using lt pos by (cases m) auto
      with s'(6) lt dv n show ?thesis by auto
    qed
    with False s1 s' dv bs show ?thesis
      by (subst fwrite_ULEB128.simps)
        (auto simp: Let_def low7_byte leb_val.simps intro!: exI [of _ "(?b OR 0x80) # bs"])
  qed
qed

lemma fwrite_SLEB128_enc:
  assumes "ok s"
  shows "\<exists>s' bs. fwrite_SLEB128 put v s = Some s' \<and> ok s' \<and> written s' = written s @ bs \<and> leb_enc bs \<and>
    int (leb_val bs) = v mod 2 ^ (7 * length bs) \<and> (bit (last bs) 6 \<longleftrightarrow> v < 0) \<and>
    - (2 ^ (7 * length bs - 1)) \<le> v \<and> v < 2 ^ (7 * length bs - 1) \<and>
    (\<forall>n>0. - (2 ^ (7 * n - 1)) \<le> v \<longrightarrow> v < 2 ^ (7 * n - 1) \<longrightarrow> length bs \<le> n)"
  using assms
proof (induction "nat (if v < 0 then - v - 1 else v)" arbitrary: v s rule: less_induct)
  case (less v s)
  let ?b = "word_of_int (v mod 128) :: byte"
  show ?case
  proof (cases "v < -64 \<or> 64 \<le> v")
    case False
    obtain s' where s': "put ?b s = Some s'" "written s' = written s @ [?b]" "ok s'"
      using put [OF less(2)] by blast
    have "fwrite_SLEB128 put v s = put ?b s"
      using False by (subst fwrite_SLEB128.simps) (simp only: Let_def SLEB128_more if_False)
    with False s' show ?thesis
      by (auto simp: SLEB128_byte SLEB128_sign leb_val.simps intro!: exI [of _ "[?b]"])
  next
    case True
    obtain s1 where s1: "put (?b OR 0x80) s = Some s1" "written s1 = written s @ [?b OR 0x80]" "ok s1"
      using put [OF less(2)] by blast
    have "nat (if v div 128 < 0 then - (v div 128) - 1 else v div 128) < nat (if v < 0 then - v - 1 else v)"
      using True by auto
    then obtain s' bs where s': "fwrite_SLEB128 put (v div 128) s1 = Some s'" "ok s'" "written s' = written s1 @ bs"
        "leb_enc bs" "int (leb_val bs) = v div 128 mod 2 ^ (7 * length bs)" "bit (last bs) 6 \<longleftrightarrow> v div 128 < 0"
        "- (2 ^ (7 * length bs - 1)) \<le> v div 128 \<and> v div 128 < 2 ^ (7 * length bs - 1)"
        "\<forall>n>0. - (2 ^ (7 * n - 1)) \<le> v div 128 \<longrightarrow> v div 128 < 2 ^ (7 * n - 1) \<longrightarrow> length bs \<le> n"
      using less(1) [OF _ s1(3)] by blast
    obtain c cs where bs: "bs = c # cs" using s'(4) by (cases bs) auto
    have wr: "fwrite_SLEB128 put v s = Some s'"
      using True s1(1) s'(1) by (subst fwrite_SLEB128.simps) (simp only: Let_def SLEB128_more if_True option.case)
    have val: "int (leb_val ((?b OR 0x80) # bs)) = v mod 2 ^ (7 * length ((?b OR 0x80) # bs))"
      using s'(5) zmod_zmult2_eq [of "2 ^ (7 * length bs)" v 128]
      by (simp add: leb_val.simps SLEB128_byte power_add)
    have range: "- (2 ^ (7 * length ((?b OR 0x80) # bs) - 1)) \<le> v \<and> v < 2 ^ (7 * length ((?b OR 0x80) # bs) - 1)"
      using s'(7) SLEB128_scale [of "length bs" v] bs by simp
    have min: "length ((?b OR 0x80) # bs) \<le> n" if n: "0 < n" "- (2 ^ (7 * n - 1)) \<le> v" "v < 2 ^ (7 * n - 1)" for n
    proof -
      obtain m where m: "n = Suc m" using n by (cases n) auto
      have "0 < m" using n True m by (cases m) auto
      with s'(8) SLEB128_scale [of m v] n m show ?thesis by auto
    qed
    show ?thesis
      using wr s' s1 val range min bs
      by (intro exI [of _ s'] exI [of _ "(?b OR 0x80) # bs"]) (auto simp: SLEB128_byte)
  qed
qed

end


text \<open>The buffer streams are a byte source, and a byte sink where the allocator grants every size.\<close>

lemma fread_byte8_Cons:
  assumes "wf_buffer s" "unread s = b # bs"
  shows "\<exists>s'. fread_byte8 s = Some (b, s') \<and> unread s' = bs \<and> wf_buffer s' \<and> contents s' = contents s"
  using fread_buffer_unread [OF assms(1), of 1] assms(2) by (auto simp: fread_byte8_def)

lemma fread_byte8_Nil: "wf_buffer s \<Longrightarrow> unread s = [] \<Longrightarrow> fread_byte8 s = None"
  using fread_buffer_unread [of s 1] by (auto simp: fread_byte8_def)

interpretation buffer_source: byte_source fread_byte8 unread "\<lambda>s. wf_buffer s \<and> contents s = c" for c
  using fread_byte8_Cons fread_byte8_Nil by unfold_locales blast+

interpretation buffer_sink: byte_sink "fwrite_byte8 (\<lambda>_. True)" contents
    "\<lambda>s. shaped_buffer s \<and> bf_read_pos s = k" for k
  using bufwrite_contents [of _ "\<lambda>_. True"]
  by unfold_locales (fastforce simp: fwrite_byte8_def fwrite_buffer_def)

text \<open>A stream whose bytes have all been read, with room for one more number.\<close>

definition drained :: "buffer_t \<Rightarrow> bool" where
  "drained s \<longleftrightarrow> shaped_buffer s \<and> bf_read_pos s = bf_len s \<and> bf_len s + 10 < 2 ^ 63"

lemma drained_append:
  assumes "drained s" "shaped_buffer t" "bf_read_pos t = bf_read_pos s" "contents t = contents s @ bs" "length bs \<le> 10"
  shows "wf_buffer t" "unread t = bs @ []"
proof -
  have len: "length (contents s) = bf_len s" "length (contents t) = bf_len t"
    using assms(1,2) by (auto simp: drained_def shaped_buffer_def contents_def)
  then have "bf_len t = bf_len s + length bs" using assms(4) by simp
  then show "wf_buffer t" using assms by (auto simp: wf_shaped drained_def)
  show "unread t = bs @ []" using assms len by (simp add: unread_def drained_def)
qed

section \<open>Properties\<close>

text \<open>
  C31. Every unsigned 64-bit value written as LEB128 to a drained stream is read back as itself,
  and nothing of it is left unread.
\<close>

theorem ULEB128_roundtrip:
  assumes "drained s"
  shows "\<exists>t t'. fwrite_ULEB128 (fwrite_byte8 (\<lambda>_. True)) v s = Some t \<and>
    fread_LEB128 fread_byte8 False t = Some (v, t') \<and> unread t' = []"
proof -
  obtain t bs where t: "fwrite_ULEB128 (fwrite_byte8 (\<lambda>_. True)) v s = Some t" "shaped_buffer t"
      "bf_read_pos t = bf_read_pos s" "contents t = contents s @ bs" "leb_enc bs" "leb_val bs = unat v"
      "\<forall>n>0. unat v < 2 ^ (7 * n) \<longrightarrow> length bs \<le> n"
    using buffer_sink.fwrite_ULEB128_enc [of s "bf_read_pos s" v] assms by (auto simp: drained_def)
  have "unat v < 2 ^ LENGTH(64)" by (rule unsigned_less)
  then have "unat v < 2 ^ (7 * 10)" by simp
  with t(7) have len: "length bs \<le> 10" by (metis zero_less_numeral)
  note rd = drained_append [OF assms t(2,3,4) len]
  show ?thesis
    using buffer_source.fread_ULEB_enc [of bs t "contents t", OF t(5) _ rd(2) len] rd(1) t(1,6) by auto
qed

theorem ULEB128_roundtrip_witness:
  "drained empty_buffer \<and>
   (\<exists>t t'. fwrite_ULEB128 (fwrite_byte8 (\<lambda>_. True)) 624485 empty_buffer = Some t \<and>
    fread_LEB128 fread_byte8 False t = Some (624485, t') \<and> unread t' = [])"
proof -
  have d: "drained empty_buffer" by (simp add: drained_def shaped_buffer_def empty_buffer_def)
  from d ULEB128_roundtrip [OF d, of 624485] show ?thesis by (rule conjI)
qed

lemma sleb_word:
  assumes "int (leb_val bs) = v mod 2 ^ (7 * length bs)" "- (2 ^ (7 * length bs - 1)) \<le> v"
    "v < 2 ^ (7 * length bs - 1)" "0 < length bs"
  shows "0 \<le> v \<Longrightarrow> (of_nat (leb_val bs) :: u64) = word_of_int v"
    and "v < 0 \<Longrightarrow> length bs < 10 \<Longrightarrow> of_nat (leb_val bs) OR push_bit (7 * length bs) (NOT 0) = (word_of_int v :: u64)"
proof -
  let ?k = "7 * length bs"
  have le: "(2 :: int) ^ (?k - 1) \<le> 2 ^ ?k" by (rule power_increasing) auto
  have w: "(of_nat (leb_val bs) :: u64) = word_of_int (v mod 2 ^ ?k)"
    using assms(1) by (metis of_int_of_nat_eq)
  show "(of_nat (leb_val bs) :: u64) = word_of_int v" if "0 \<le> v"
    using w that assms(3) le by (simp add: mod_pos_pos_trivial)
  assume v: "v < 0" and len: "length bs < 10"
  have "(v + 2 ^ ?k) mod 2 ^ ?k = v + 2 ^ ?k"
    using v order_trans [OF assms(2)] le assms(2) by (intro mod_pos_pos_trivial) linarith+
  then have m: "v mod 2 ^ ?k = v + 2 ^ ?k" by simp
  have "int (leb_val bs) < 2 ^ ?k" unfolding assms(1) by simp
  then have lv: "leb_val bs < 2 ^ ?k" by (metis of_nat_less_iff of_nat_numeral of_nat_power)
  have "(2 :: nat) ^ ?k \<le> 2 ^ 63" using len by (intro power_increasing) auto
  with lv have "leb_val bs < 2 ^ 64" by simp
  with lv have "unat (of_nat (leb_val bs) :: u64) < 2 ^ ?k" by (simp add: unat_of_nat take_bit_eq_mod)
  moreover have n: "NOT 0 = (- 1 :: u64)" by simp
  ultimately have "of_nat (leb_val bs) OR push_bit ?k (NOT 0) = (of_nat (leb_val bs) + push_bit ?k (- 1) :: u64)"
    unfolding n by (intro disjoint_or_add)
  also have "\<dots> = word_of_int (v + 2 ^ ?k) - 2 ^ ?k"
    unfolding w m by (simp add: push_bit_eq_mult)
  finally show "of_nat (leb_val bs) OR push_bit ?k (NOT 0) = (word_of_int v :: u64)" by simp
qed

lemma SLEB128_written:
  assumes "drained s" "- (2 ^ 63) \<le> v" "v < 2 ^ 63"
  obtains t bs where "fwrite_SLEB128 (fwrite_byte8 (\<lambda>_. True)) v s = Some t" "wf_buffer t" "unread t = bs @ []"
    "leb_enc bs" "int (leb_val bs) = v mod 2 ^ (7 * length bs)" "bit (last bs) 6 \<longleftrightarrow> v < 0"
    "- (2 ^ (7 * length bs - 1)) \<le> v" "v < 2 ^ (7 * length bs - 1)" "length bs \<le> 10" "0 < length bs"
    "- (2 ^ 62) \<le> v \<Longrightarrow> v < 2 ^ 62 \<Longrightarrow> length bs \<le> 9"
proof -
  obtain t bs where t: "fwrite_SLEB128 (fwrite_byte8 (\<lambda>_. True)) v s = Some t" "shaped_buffer t"
      "bf_read_pos t = bf_read_pos s" "contents t = contents s @ bs" "leb_enc bs"
      "int (leb_val bs) = v mod 2 ^ (7 * length bs)" "bit (last bs) 6 \<longleftrightarrow> v < 0"
      "- (2 ^ (7 * length bs - 1)) \<le> v" "v < 2 ^ (7 * length bs - 1)"
      "\<forall>n>0. - (2 ^ (7 * n - 1)) \<le> v \<longrightarrow> v < 2 ^ (7 * n - 1) \<longrightarrow> length bs \<le> n"
    using buffer_sink.fwrite_SLEB128_enc [of s "bf_read_pos s" v] assms(1) by (auto simp: drained_def)
  have len: "length bs \<le> 10" using t(10) [rule_format, of 10] assms(2,3) by simp
  have pos: "0 < length bs" using t(5) by (cases bs) auto
  have nine: "length bs \<le> 9" if "- (2 ^ 62) \<le> v" "v < 2 ^ 62"
    using t(10) [rule_format, of 9] that by simp
  from drained_append [OF assms(1) t(2,3,4) len] show thesis
    by (rule that [OF t(1) _ _ t(5-9) len pos nine])
qed

text \<open>
  C32. Every signed value from \<open>-2^62\<close> up to \<open>2^63 - 1\<close> written as signed LEB128 is read back as itself,
  and nothing of it is left unread.
\<close>

theorem SLEB128_roundtrip:
  assumes "drained s" "- (2 ^ 62) \<le> v" "v < 2 ^ 63"
  shows "\<exists>t t'. fwrite_SLEB128 (fwrite_byte8 (\<lambda>_. True)) v s = Some t \<and>
    fread_LEB128 fread_byte8 True t = Some (word_of_int v, t') \<and> unread t' = []"
proof -
  have "- (2 ^ 63) \<le> v" using assms(2) by simp
  then obtain t bs where t: "fwrite_SLEB128 (fwrite_byte8 (\<lambda>_. True)) v s = Some t" "wf_buffer t"
      "unread t = bs @ []" "leb_enc bs" "int (leb_val bs) = v mod 2 ^ (7 * length bs)" "bit (last bs) 6 \<longleftrightarrow> v < 0"
      "- (2 ^ (7 * length bs - 1)) \<le> v" "v < 2 ^ (7 * length bs - 1)" "length bs \<le> 10" "0 < length bs"
      "v < 2 ^ 62 \<Longrightarrow> length bs \<le> 9"
    using SLEB128_written [OF assms(1)] assms(2,3) by metis
  obtain t' where "fread_LEB128 fread_byte8 True t =
      (if v < 0 then if length bs < 10 then Some (of_nat (leb_val bs) OR push_bit (7 * length bs) (NOT 0), t') else None
       else Some (of_nat (leb_val bs), t'))" "unread t' = []"
    using buffer_source.fread_SLEB_enc [of bs t "contents t", OF t(4) _ t(3,9)] t(2,6) by auto
  moreover have "length bs < 10" if "v < 0" using t(11) that by simp
  ultimately show ?thesis
    using t(1) sleb_word [OF t(5,7,8,10)] by (cases "v < 0") auto
qed

theorem SLEB128_roundtrip_witness:
  "drained empty_buffer \<and>
   (\<exists>t t'. fwrite_SLEB128 (fwrite_byte8 (\<lambda>_. True)) (-123456) empty_buffer = Some t \<and>
    fread_LEB128 fread_byte8 True t = Some (word_of_int (-123456), t') \<and> unread t' = [])"
proof -
  have d: "drained empty_buffer" by (simp add: drained_def shaped_buffer_def empty_buffer_def)
  have "- (2 ^ 62) \<le> (-123456 :: int)" "(-123456 :: int) < 2 ^ 63" by simp_all
  from d SLEB128_roundtrip [OF d this] show ?thesis by (rule conjI)
qed

text \<open>
  Below \<open>-2^62\<close> the signed encoding takes ten bytes, and the reader's sign extension shifts by
  70: what \<open>fwrite_SLEB128\<close> wrote, \<open>fread_LEB128\<close> cannot read back.
\<close>

theorem SLEB128_deep_negative_undefined:
  assumes "drained s" "- (2 ^ 63) \<le> v" "v < - (2 ^ 62)"
  shows "\<exists>t. fwrite_SLEB128 (fwrite_byte8 (\<lambda>_. True)) v s = Some t \<and> fread_LEB128 fread_byte8 True t = None"
proof -
  have "v < 2 ^ 63" using assms(3) by simp
  then obtain t bs where t: "fwrite_SLEB128 (fwrite_byte8 (\<lambda>_. True)) v s = Some t" "wf_buffer t"
      "unread t = bs @ []" "leb_enc bs" "bit (last bs) 6 \<longleftrightarrow> v < 0"
      "- (2 ^ (7 * length bs - 1)) \<le> v" "length bs \<le> 10"
    using SLEB128_written [OF assms(1,2)] by metis
  have "\<not> length bs < 10"
  proof
    assume "length bs < 10"
    then have "(2 :: int) ^ (7 * length bs - 1) \<le> 2 ^ 62" by (intro power_increasing) auto
    with t(6) assms(3) show False by linarith
  qed
  with buffer_source.fread_SLEB_enc [of bs t "contents t", OF t(4) _ t(3,7)] t(1,2,5) assms(3) show ?thesis by auto
qed

theorem SLEB128_deep_negative_undefined_witness:
  "\<exists>t. fwrite_SLEB128 (fwrite_byte8 (\<lambda>_. True)) (- (2 ^ 63)) empty_buffer = Some t \<and>
     fread_LEB128 fread_byte8 True t = None"
  by (rule SLEB128_deep_negative_undefined)
    (simp_all add: drained_def shaped_buffer_def empty_buffer_def)

end
