(* ===== verification/Program_Loop.thy ===== *)
theory Program_Loop
  imports Wahe_Prelude
begin

text \<open>
  Loops of the code seen one round at a time. A round that is undefined, one that returns and one that goes on are
  different results, so that a loop that never returns is told from one whose behaviour is undefined.
\<close>

section \<open>Rounds\<close>

text \<open>What a loop did after some rounds of its body: still running in a state, or returned. A round may be undefined.\<close>

primrec rounds :: "('s \<Rightarrow> ('s + 'r) option) \<Rightarrow> nat \<Rightarrow> 's \<Rightarrow> ('s + 'r) option" where
  "rounds body 0 s = Some (Inl s)"
| "rounds body (Suc k) s = do { x \<leftarrow> body s; (case x of Inl s' \<Rightarrow> rounds body k s' | Inr y \<Rightarrow> Some (Inr y)) }"

text \<open>However many rounds it is given, the loop has executed every one of them and is still running.\<close>

definition never_ends :: "('s \<Rightarrow> ('s + 'r) option) \<Rightarrow> 's \<Rightarrow> bool" where
  "never_ends body s \<longleftrightarrow> (\<forall>k. \<exists>s'. rounds body k s = Some (Inl s'))"

lemma never_ends_running: "never_ends body s \<Longrightarrow> \<exists>s'. body s = Some (Inl s')"
proof -
  assume "never_ends body s"
  then obtain s' where "rounds body 1 s = Some (Inl s')" unfolding never_ends_def by blast
  then show ?thesis by (auto split: bind_splits sum.splits)
qed

lemma never_ends_step: "body s = Some (Inl s') \<Longrightarrow> never_ends body s' \<Longrightarrow> never_ends body s"
  unfolding never_ends_def
proof
  fix k assume "body s = Some (Inl s')" "\<forall>k. \<exists>t. rounds body k s' = Some (Inl t)"
  then show "\<exists>t. rounds body k s = Some (Inl t)" by (cases k) simp_all
qed

text \<open>A loop that stays among some states never ends.\<close>

lemma never_ends_invariant:
  assumes "\<And>s. I s \<Longrightarrow> \<exists>s'. body s = Some (Inl s') \<and> I s'" and "I s"
  shows "never_ends body s"
proof -
  have "\<exists>s'. rounds body k s = Some (Inl s') \<and> I s'" if "I s" for k s
    using that
  proof (induction k arbitrary: s)
    case (Suc k)
    from assms(1) [OF Suc.prems] obtain s1 where "body s = Some (Inl s1)" "I s1" by blast
    with Suc.IH [of s1] show ?case by simp
  qed simp
  with assms(2) show ?thesis unfolding never_ends_def by blast
qed

text \<open>
  A loop of the development and its body: the loop does a round and goes on as the body says, and it only returns what
  its rounds do.
\<close>

locale program_loop =
  fixes body :: "'s \<Rightarrow> ('s + 'r) option" and run :: "'s \<Rightarrow> 'r option"
  assumes run_round: "run s = do { x \<leftarrow> body s; (case x of Inl s' \<Rightarrow> run s' | Inr y \<Rightarrow> Some y) }"
    and run_returns: "run s = Some y \<Longrightarrow> \<exists>k. rounds body k s = Some (Inr y)"
begin

lemma run_rounds: "run s = do { x \<leftarrow> rounds body k s; (case x of Inl s' \<Rightarrow> run s' | Inr y \<Rightarrow> Some y) }"
proof (induction k arbitrary: s)
  case (Suc k)
  show ?case
  proof (cases "body s")
    case None
    then show ?thesis by (simp add: run_round [of s])
  next
    case (Some x)
    show ?thesis
    proof (cases x)
      case (Inl t)
      with Some show ?thesis using Suc.IH [of t] run_round [of s] by simp
    next
      case (Inr y)
      with Some show ?thesis using run_round [of s] by simp
    qed
  qed
qed simp

lemma returns_iff: "run s = Some y \<longleftrightarrow> (\<exists>k. rounds body k s = Some (Inr y))"
proof
  assume "\<exists>k. rounds body k s = Some (Inr y)"
  then obtain k where "rounds body k s = Some (Inr y)" by blast
  then show "run s = Some y" using run_rounds [of s k] by simp
qed (rule run_returns)

text \<open>Without a result the loop never ends or one of its rounds is undefined; never both.\<close>

lemma no_result_iff: "run s = None \<longleftrightarrow> never_ends body s \<or> (\<exists>k. rounds body k s = None)"
proof
  assume none: "run s = None"
  have "\<exists>s'. rounds body k s = Some (Inl s')" if "rounds body k s \<noteq> None" for k
    using that run_rounds [of s k] none by (auto split: sum.splits)
  then show "never_ends body s \<or> (\<exists>k. rounds body k s = None)" unfolding never_ends_def by blast
next
  assume "never_ends body s \<or> (\<exists>k. rounds body k s = None)"
  then show "run s = None"
  proof
    assume never: "never_ends body s"
    show ?thesis
    proof (rule ccontr)
      assume "run s \<noteq> None"
      then obtain y k where "rounds body k s = Some (Inr y)" using run_returns by blast
      with never show False unfolding never_ends_def by (metis option.inject sum.distinct(1))
    qed
  next
    assume "\<exists>k. rounds body k s = None"
    then obtain k where "rounds body k s = None" by blast
    then show ?thesis using run_rounds [of s k] by simp
  qed
qed

lemma never_returns: "never_ends body s \<Longrightarrow> run s = None"
  using no_result_iff by blast

end

end
