(* ===== verification/Wasm_Binary.thy ===== *)
theory Wasm_Binary
  imports Leb128 Program_Loop
begin

text \<open>
  \<open>wahelib/wasm/wasm_binary_parser.c\<close>, run on a buffer as \<open>wahe_module_init_internal\<close> does: the
  search for a section, the memory limits from the import or the memory section, the linked
  stack pointer and the check for passive data segments. \<^const>\<open>None\<close> is an indeterminate
  byte (a read at the end of the file) or a search that does not end; \<open>section_round\<close> tells them apart.
\<close>

section \<open>The code\<close>

definition check_if_file_is_wasm :: "byte list option \<Rightarrow> bool" where
  "check_if_file_is_wasm file =
     (case file of
        None \<Rightarrow> False
      | Some bs \<Rightarrow> overwrite [0, 0, 0, 0] 0 (take 4 bs) = [0x00, 0x61, 0x73, 0x6D])"

partial_function (option) wasm_section_loop :: "byte \<Rightarrow> nat \<Rightarrow> buffer_t \<Rightarrow> (nat \<times> buffer_t) option" where
  "wasm_section_loop section_id file_size s =
     do {
       (id, s1) \<leftarrow> fread_byte8 s;
       (section_len, s2) \<leftarrow> fread_LEB128 fread_byte8 False s1;
       (if id = section_id then Some (unat section_len, s2)
        else (let s3 = snd (fseek_buffer s2 (int (unat section_len)) SEEK_CUR) in
              if ftell_buffer s3 < file_size then wasm_section_loop section_id file_size s3
              else Some (0, s3)))
     }"

text \<open>One round of that loop: where the next round starts, or the length and the position it returns.\<close>

definition section_round :: "byte \<Rightarrow> nat \<Rightarrow> buffer_t \<Rightarrow> (buffer_t + nat \<times> buffer_t) option" where
  "section_round section_id file_size s =
     do {
       (id, s1) \<leftarrow> fread_byte8 s;
       (section_len, s2) \<leftarrow> fread_LEB128 fread_byte8 False s1;
       (if id = section_id then Some (Inr (unat section_len, s2))
        else (let s3 = snd (fseek_buffer s2 (int (unat section_len)) SEEK_CUR) in
              if ftell_buffer s3 < file_size then Some (Inl s3) else Some (Inr (0, s3))))
     }"

definition wasmbin_jump_to_section :: "buffer_t \<Rightarrow> byte \<Rightarrow> (nat \<times> buffer_t) option" where
  "wasmbin_jump_to_section file section_id =
     (let s1 = snd (fseek_buffer file 0 SEEK_END);
          file_size = ftell_buffer s1;
          s2 = snd (fseek_buffer s1 8 SEEK_SET)
      in wasm_section_loop section_id file_size s2)"

definition wasmbin_read_stack_pointer :: "buffer_t \<Rightarrow> (u64 \<times> buffer_t) option" where
  "wasmbin_read_stack_pointer file =
     do {
       (_, s) \<leftarrow> wasmbin_jump_to_section file 6;
       (_, s) \<leftarrow> fread_LEB128 fread_byte8 False s;
       (_, s) \<leftarrow> fread_byte8 s;
       (_, s) \<leftarrow> fread_byte8 s;
       (_, s) \<leftarrow> fread_byte8 s;
       (stack, s) \<leftarrow> fread_LEB128 fread_byte8 True s;
       (_, s) \<leftarrow> fread_byte8 s;
       Some (stack, s)
     }"

definition wasmbin_skip_name :: "buffer_t \<Rightarrow> buffer_t option" where
  "wasmbin_skip_name file =
     do {
       (len, s) \<leftarrow> fread_LEB128 fread_byte8 False file;
       Some (snd (fseek_buffer s (int (unat len)) SEEK_CUR))
     }"

record wasmbin_memory_info_t =
  base_pages :: u32
  max_pages :: u32
  maximum_present :: bool
  shared :: bool
  imported :: bool
  memory64 :: bool

definition empty_memory_info :: wasmbin_memory_info_t where
  "empty_memory_info = \<lparr>base_pages = 0, max_pages = 0, maximum_present = False, shared = False,
     imported = False, memory64 = False\<rparr>"

definition wasmbin_read_memory_type ::
    "buffer_t \<Rightarrow> wasmbin_memory_info_t \<Rightarrow> (wasmbin_memory_info_t \<times> buffer_t) option" where
  "wasmbin_read_memory_type file info =
     do {
       (f, s) \<leftarrow> fread_LEB128 fread_byte8 False file;
       (base, s) \<leftarrow> fread_LEB128 fread_byte8 False s;
       (let flags = ucast f :: u32;
            info1 = info\<lparr>maximum_present := flags AND 1 \<noteq> 0, shared := flags AND 2 \<noteq> 0,
                         memory64 := flags AND 4 \<noteq> 0, base_pages := ucast base\<rparr>
        in if maximum_present info1
           then do {
             (mx, s) \<leftarrow> fread_LEB128 fread_byte8 False s;
             Some (info1\<lparr>max_pages := ucast mx\<rparr>, s)
           }
           else Some (info1, s))
     }"

definition wasmbin_skip_table_type :: "buffer_t \<Rightarrow> buffer_t option" where
  "wasmbin_skip_table_type file =
     do {
       (_, s) \<leftarrow> fread_byte8 file;
       (f, s) \<leftarrow> fread_LEB128 fread_byte8 False s;
       (_, s) \<leftarrow> fread_LEB128 fread_byte8 False s;
       (if (ucast f :: u32) AND 1 \<noteq> 0
        then do { (_, s) \<leftarrow> fread_LEB128 fread_byte8 False s; Some s }
        else Some s)
     }"

text \<open>
  The loop over the imports: it ends at the first imported memory, fails on an unknown kind,
  or runs out of entries.
\<close>

datatype import_scan = Import_memory wasmbin_memory_info_t | Import_unknown | Import_none

definition wasmbin_skip_import_type :: "byte \<Rightarrow> buffer_t \<Rightarrow> buffer_t option" where
  "wasmbin_skip_import_type kind s =
     (if kind = 0 then do { (_, s) \<leftarrow> fread_LEB128 fread_byte8 False s; Some s }
      else if kind = 1 then wasmbin_skip_table_type s
      else if kind = 3 then do { (_, s) \<leftarrow> fread_byte8 s; (_, s) \<leftarrow> fread_byte8 s; Some s }
      else do { (_, s) \<leftarrow> fread_byte8 s; (_, s) \<leftarrow> fread_LEB128 fread_byte8 False s; Some s })"

fun wasmbin_scan_imports :: "nat \<Rightarrow> buffer_t \<Rightarrow> wasmbin_memory_info_t \<Rightarrow> (import_scan \<times> buffer_t) option" where
  "wasmbin_scan_imports 0 s info = Some (Import_none, s)"
| "wasmbin_scan_imports (Suc n) s info =
     do {
       s \<leftarrow> wasmbin_skip_name s;
       s \<leftarrow> wasmbin_skip_name s;
       (kind, s) \<leftarrow> fread_byte8 s;
       (if kind = 2
        then do {
          (info, s) \<leftarrow> wasmbin_read_memory_type s info;
          Some (Import_memory (info\<lparr>imported := True\<rparr>), s)
        }
        else if kind \<in> {0, 1, 3, 4}
        then do { s \<leftarrow> wasmbin_skip_import_type kind s; wasmbin_scan_imports n s info }
        else Some (Import_unknown, s))
     }"

text \<open>The result is the return value with the filled-in structure; the null test is the caller's \<open>info\<close>.\<close>

definition wasmbin_read_memory_info ::
    "buffer_t \<Rightarrow> wasmbin_memory_info_t option \<Rightarrow> (bool \<times> wasmbin_memory_info_t option \<times> buffer_t) option" where
  "wasmbin_read_memory_info file info =
     (case info of
        None \<Rightarrow> Some (False, None, file)
      | Some _ \<Rightarrow>
          do {
            (import_len, s) \<leftarrow> wasmbin_jump_to_section file 2;
            (scan, s) \<leftarrow>
              (if import_len \<noteq> 0
               then do {
                 (import_count, s) \<leftarrow> fread_LEB128 fread_byte8 False s;
                 wasmbin_scan_imports (unat import_count) s empty_memory_info
               }
               else Some (Import_none, s));
            (case scan of
               Import_memory i \<Rightarrow> Some (True, Some i, s)
             | Import_unknown \<Rightarrow> Some (False, Some empty_memory_info, s)
             | Import_none \<Rightarrow>
                 do {
                   (memory_len, s) \<leftarrow> wasmbin_jump_to_section s 5;
                   (if memory_len = 0 then Some (False, Some empty_memory_info, s)
                    else do {
                      (count, s) \<leftarrow> fread_LEB128 fread_byte8 False s;
                      (if count = 0 then Some (False, Some empty_memory_info, s)
                       else do {
                         (i, s) \<leftarrow> wasmbin_read_memory_type s empty_memory_info;
                         Some (True, Some i, s)
                       })
                    })
                 })
          })"

definition wasmbin_read_memory_size :: "buffer_t \<Rightarrow> (u32 \<times> u32 \<times> buffer_t) option" where
  "wasmbin_read_memory_size file =
     do {
       (found, info, s) \<leftarrow> wasmbin_read_memory_info file (Some empty_memory_info);
       (case info of
          Some i \<Rightarrow> Some (if found then (base_pages i, max_pages i, s) else (0, 0, s))
        | None \<Rightarrow> None)
     }"

fun wasmbin_passive_segments :: "nat \<Rightarrow> buffer_t \<Rightarrow> (bool \<times> buffer_t) option" where
  "wasmbin_passive_segments 0 s = Some (True, s)"
| "wasmbin_passive_segments (Suc n) s =
     do {
       (mode, s) \<leftarrow> fread_LEB128 fread_byte8 False s;
       (if mode \<noteq> 1 then Some (False, s)
        else do {
          (size, s) \<leftarrow> fread_LEB128 fread_byte8 False s;
          wasmbin_passive_segments n (snd (fseek_buffer s (int (unat size)) SEEK_CUR))
        })
     }"

definition wasmbin_has_only_passive_data :: "buffer_t \<Rightarrow> (bool \<times> buffer_t) option" where
  "wasmbin_has_only_passive_data file =
     do {
       (len, s) \<leftarrow> wasmbin_jump_to_section file 11;
       (if len = 0 then Some (True, s)
        else do {
          (count, s) \<leftarrow> fread_LEB128 fread_byte8 False s;
          wasmbin_passive_segments (unat count) s
        })
     }"

section \<open>Streams inside a file\<close>

text \<open>The stream \<open>s\<close> is over the file \<open>c\<close> and has \<open>rest\<close> left to read.\<close>

definition placed :: "byte list \<Rightarrow> byte list \<Rightarrow> buffer_t \<Rightarrow> bool" where
  "placed c rest s \<longleftrightarrow> wf_buffer s \<and> contents s = c \<and> unread s = rest"

definition leb_of :: "nat \<Rightarrow> byte list \<Rightarrow> bool" where
  "leb_of v bs \<longleftrightarrow> leb_enc bs \<and> leb_val bs = v \<and> length bs \<le> 10 \<and> v < 2 ^ 64"

lemma leb_of_word:
  assumes "leb_of n l"
  shows "unat (of_nat n :: u64) = n" "uint (of_nat n :: u64) = int n"
proof -
  show u: "unat (of_nat n :: u64) = n" using assms by (simp add: leb_of_def unat_of_nat take_bit_eq_mod)
  show "uint (of_nat n :: u64) = int n" using arg_cong [OF u, of int] by simp
qed

lemma placed_byte: "placed c (b # r) s \<Longrightarrow> \<exists>s'. fread_byte8 s = Some (b, s') \<and> placed c r s'"
  using fread_byte8_Cons [of s b r] by (auto simp: placed_def)

lemma placed_end: "placed c [] s \<Longrightarrow> fread_byte8 s = None"
  using fread_byte8_Nil [of s] by (auto simp: placed_def)

lemma placed_leb:
  "leb_of v bs \<Longrightarrow> placed c (bs @ r) s \<Longrightarrow> \<exists>s'. fread_LEB128 fread_byte8 False s = Some (of_nat v, s') \<and> placed c r s'"
  using buffer_source.fread_ULEB_enc [of bs s c r] by (auto simp: placed_def leb_of_def)

lemma placed_pos:
  assumes "placed c r s"
  shows "bf_read_pos s + length r = length c" "bf_len s = length c" "length c < 2 ^ 63"
  using assms by (auto simp: placed_def wf_buffer_def contents_def unread_def)

lemma placed_seek:
  assumes "placed c r s" "pos \<le> length c"
  shows "placed c (drop pos c) (s\<lparr>bf_read_pos := pos\<rparr>)"
  using assms placed_pos [OF assms(1)] by (auto simp: placed_def wf_buffer_def contents_def unread_def)

lemma placed_skip:
  assumes "placed c (xs @ r) s"
  shows "placed c r (snd (fseek_buffer s (int (length xs)) SEEK_CUR))"
proof -
  note pos = placed_pos [OF assms]
  have le: "bf_read_pos s + length xs \<le> length c" using pos by simp
  have drop: "drop (bf_read_pos s + length xs) c = r"
    using assms by (metis placed_def unread_def add.commute append_eq_conv_conj drop_drop)
  have "fseek_buffer s (int (length xs)) SEEK_CUR = (0, s\<lparr>bf_read_pos := bf_read_pos s + length xs\<rparr>)"
    using fseek_buffer_in_range [of s "bf_read_pos s" "int (length xs)" SEEK_CUR] assms pos le
    by (simp add: placed_def nat_add_distrib)
  then show ?thesis using placed_seek [OF assms le] drop by simp
qed

lemma placed_overshoot:
  assumes "placed c r s" "length r < n" "n < 2 ^ 63"
  shows "placed c c (snd (fseek_buffer s (int n) SEEK_CUR))"
proof -
  note pos = placed_pos [OF assms(1)]
  have "int (bf_read_pos s + n) < 2 ^ 64" using pos assms(3) by simp
  then have "nat ((int (bf_read_pos s) + int n) mod 2 ^ 64) = bf_read_pos s + n"
    by (simp add: mod_pos_pos_trivial nat_add_distrib)
  then have "snd (fseek_buffer s (int n) SEEK_CUR) = s\<lparr>bf_read_pos := 0\<rparr>"
    using pos assms(2) by (simp add: fseek_buffer_def Let_def)
  then show ?thesis using placed_seek [OF assms(1), of 0] by simp
qed

lemma jump_start:
  assumes "placed c r s" "8 \<le> length c"
  shows "\<exists>s'. wasmbin_jump_to_section s sid = wasm_section_loop sid (length c) s' \<and> placed c (drop 8 c) s' \<and>
    ftell_buffer (snd (fseek_buffer s 0 SEEK_END)) = length c \<and> snd (fseek_buffer (snd (fseek_buffer s 0 SEEK_END)) 8 SEEK_SET) = s'"
proof -
  note pos = placed_pos [OF assms(1)]
  have wf: "wf_buffer s" using assms by (simp add: placed_def)
  have e: "fseek_buffer s 0 SEEK_END = (0, s\<lparr>bf_read_pos := length c\<rparr>)"
    using fseek_buffer_in_range [of s "bf_len s" 0 SEEK_END] wf pos by simp
  have at_e: "placed c [] (s\<lparr>bf_read_pos := length c\<rparr>)" using placed_seek [OF assms(1), of "length c"] by simp
  then have "fseek_buffer (s\<lparr>bf_read_pos := length c\<rparr>) 8 SEEK_SET = (0, s\<lparr>bf_read_pos := 8\<rparr>)"
    using fseek_buffer_in_range [of "s\<lparr>bf_read_pos := length c\<rparr>" 0 8 SEEK_SET] assms(2) pos
    by (simp add: placed_def)
  with e placed_seek [OF assms] show ?thesis
    by (auto simp: wasmbin_jump_to_section_def Let_def ftell_buffer_def)
qed

section \<open>Well-formed modules\<close>

text \<open>A section is its sid, the bytes that encode its length, and its payload.\<close>

type_synonym wsection = "byte \<times> byte list \<times> byte list"

definition section_bytes :: "wsection \<Rightarrow> byte list" where
  "section_bytes sec = (case sec of (sid, l, payload) \<Rightarrow> sid # l @ payload)"

lemma section_bytes_tuple [simp]: "section_bytes (i, l, payload) = i # l @ payload"
  by (simp add: section_bytes_def)

definition wf_section :: "wsection \<Rightarrow> bool" where
  "wf_section sec \<longleftrightarrow> (case sec of (sid, l, payload) \<Rightarrow> leb_of (length payload) l)"

definition module_bytes :: "byte list \<Rightarrow> wsection list \<Rightarrow> byte list" where
  "module_bytes header secs = header @ concat (map section_bytes secs)"

definition wf_module :: "byte list \<Rightarrow> wsection list \<Rightarrow> bool" where
  "wf_module header secs \<longleftrightarrow> length header = 8 \<and> secs \<noteq> [] \<and> list_all wf_section secs \<and>
     length (module_bytes header secs) < 2 ^ 63"

fun find_section :: "byte \<Rightarrow> wsection list \<Rightarrow> (byte list \<times> wsection list) option" where
  "find_section sid [] = None"
| "find_section sid ((i, l, payload) # secs) = (if i = sid then Some (payload, secs) else find_section sid secs)"

lemma section_loop_finds:
  assumes "secs \<noteq> []" "list_all wf_section secs" "placed c (concat (map section_bytes secs)) s"
  shows "\<exists>s'. (case find_section sid secs of
      Some (payload, later) \<Rightarrow> wasm_section_loop sid (length c) s = Some (length payload, s') \<and>
        placed c (payload @ concat (map section_bytes later)) s'
    | None \<Rightarrow> wasm_section_loop sid (length c) s = Some (0, s') \<and> placed c [] s')"
  using assms
proof (induction secs arbitrary: s)
  case (Cons sec secs)
  obtain i l payload where sec: "sec = (i, l, payload)" by (cases sec)
  let ?later = "concat (map section_bytes secs)"
  have leb: "leb_of (length payload) l" using Cons.prems(2) sec by (simp add: wf_section_def)
  obtain s1 where s1: "fread_byte8 s = Some (i, s1)" "placed c (l @ payload @ ?later) s1"
    using placed_byte [of c i "l @ payload @ ?later" s] Cons.prems(3) sec by auto
  obtain s2 where s2: "fread_LEB128 fread_byte8 False s1 = Some (of_nat (length payload), s2)" "placed c (payload @ ?later) s2"
    using placed_leb [OF leb s1(2)] by blast
  have len: "unat (of_nat (length payload) :: u64) = length payload"
      "uint (of_nat (length payload) :: u64) = int (length payload)"
    using leb_of_word [OF leb] .
  show ?case
  proof (cases "i = sid")
    case True
    with s1 s2 len sec show ?thesis
      by (intro exI [of _ s2]) (simp add: wasm_section_loop.simps [of sid "length c" s])
  next
    case False
    let ?s3 = "snd (fseek_buffer s2 (int (length payload)) SEEK_CUR)"
    have s3: "placed c ?later ?s3" using placed_skip [OF s2(2)] .
    have step: "wasm_section_loop sid (length c) s =
        (if ftell_buffer ?s3 < length c then wasm_section_loop sid (length c) ?s3 else Some (0, ?s3))"
      using s1(1) s2(1) len False by (simp add: wasm_section_loop.simps [of sid "length c" s] Let_def)
    show ?thesis
    proof (cases "secs = []")
      case True
      then have "\<not> ftell_buffer ?s3 < length c" using placed_pos [OF s3] by (simp add: ftell_buffer_def)
      with step s3 True sec False show ?thesis by auto
    next
      case False
      then have "?later \<noteq> []"
        by (cases secs) (auto simp: section_bytes_def split: prod.splits)
      then have "ftell_buffer ?s3 < length c" using placed_pos [OF s3] by (cases ?later) (simp_all add: ftell_buffer_def)
      with step have eq: "wasm_section_loop sid (length c) s = wasm_section_loop sid (length c) ?s3" by simp
      have "find_section sid (sec # secs) = find_section sid secs" using sec \<open>i \<noteq> sid\<close> by simp
      moreover have "list_all wf_section secs" using Cons.prems(2) by simp
      ultimately show ?thesis using Cons.IH [OF False _ s3] by (simp only: eq)
    qed
  qed
qed simp

lemma jump_to_section_finds:
  assumes "wf_module header secs" "c = module_bytes header secs" "placed c r s"
  shows "\<exists>s'. (case find_section sid secs of
      Some (payload, later) \<Rightarrow> wasmbin_jump_to_section s sid = Some (length payload, s') \<and>
        placed c (payload @ concat (map section_bytes later)) s'
    | None \<Rightarrow> wasmbin_jump_to_section s sid = Some (0, s') \<and> placed c [] s')"
proof -
  have "8 \<le> length c" "drop 8 c = concat (map section_bytes secs)"
    using assms(1,2) by (simp_all add: wf_module_def module_bytes_def)
  then obtain s' where "wasmbin_jump_to_section s sid = wasm_section_loop sid (length c) s'"
      "placed c (concat (map section_bytes secs)) s'"
    using jump_start [OF assms(3), of sid] by auto
  with section_loop_finds [of secs c s' sid] assms(1) show ?thesis
    by (cases "find_section sid secs") (auto simp: wf_module_def)
qed

section \<open>Truncated modules\<close>

text \<open>A search that comes restart to the start of the file never ends.\<close>

interpretation sections: program_loop "section_round sid fsize" "wasm_section_loop sid fsize" for sid fsize
proof (unfold_locales, goal_cases)
  case (1 s)
  show ?case
    by (subst wasm_section_loop.simps) (simp add: section_round_def Let_def split: Option.bind_split prod.split)
next
  case (2 s y)
  then show ?case
  proof (rule wasm_section_loop.raw_induct [where P = "\<lambda>sid fsize s y. \<exists>k. rounds (section_round sid fsize) k s = Some (Inr y)", rotated])
    fix f sid fsize s y
    assume IH: "\<And>sid fsize s y. f sid fsize s = Some y \<Longrightarrow> \<exists>k. rounds (section_round sid fsize) k s = Some (Inr y)"
      and body: "do { (id, s1) \<leftarrow> fread_byte8 s; (section_len, s2) \<leftarrow> fread_LEB128 fread_byte8 False s1;
         (if id = sid then Some (unat section_len, s2)
          else (let s3 = snd (fseek_buffer s2 (int (unat section_len)) SEEK_CUR) in
                if ftell_buffer s3 < fsize then f sid fsize s3 else Some (0, s3))) } = Some y"
    show "\<exists>k. rounds (section_round sid fsize) k s = Some (Inr y)"
    proof (cases "section_round sid fsize s")
      case None
      with body show ?thesis by (auto simp: section_round_def Let_def split: bind_splits if_split_asm)
    next
      case (Some x)
      show ?thesis
      proof (cases x)
        case (Inl t)
        with Some body have "f sid fsize t = Some y" by (auto simp: section_round_def Let_def split: bind_splits if_split_asm)
        from IH [OF this] obtain k where "rounds (section_round sid fsize) k t = Some (Inr y)" by blast
        with Some Inl have "rounds (section_round sid fsize) (Suc k) s = Some (Inr y)" by simp
        then show ?thesis by blast
      next
        case (Inr z)
        with Some body have "z = y" by (auto simp: section_round_def Let_def split: bind_splits if_split_asm)
        with Some Inr have "rounds (section_round sid fsize) 1 s = Some (Inr y)" by simp
        then show ?thesis by blast
      qed
    qed
  qed
qed

lemma search_restarts:
  fixes rest :: "byte list"
  assumes c: "c = [0x00, 0x61, 0x73, 0x6D] @ version @ i # l @ rest"
    and leb: "leb_of n l" and over: "length rest < n" "n < 2 ^ 63" and small: "length c < 99"
    and sid: "sid \<noteq> i" "sid \<noteq> 0" and s: "placed c c s \<or> placed c (i # l @ rest) s"
  shows "\<exists>s'. section_round sid (length c) s = Some (Inl s') \<and> placed c c s'"
proof -
  have restart: "ftell_buffer t < length c" if "placed c c t" for t
    using placed_pos [OF that] c by (simp add: ftell_buffer_def)
  from s show ?thesis
  proof
    assume s: "placed c c s"
    obtain s1 where s1: "fread_byte8 s = Some (0, s1)" "placed c ([0x61] @ drop 2 c) s1"
      using placed_byte [of c 0 "[0x61] @ drop 2 c" s] s c by auto
    have "leb_of 97 [0x61]" by (simp add: leb_of_def leb_val.simps)
    then obtain s2 where s2: "fread_LEB128 fread_byte8 False s1 = Some (97, s2)" "placed c (drop 2 c) s2"
      using placed_leb [OF _ s1(2), of 97] by auto
    have p: "placed c c (snd (fseek_buffer s2 (int 97) SEEK_CUR))"
      using placed_overshoot [OF s2(2), of 97] small by simp
    with s1 s2 sid restart [OF p] show ?thesis by (auto simp: section_round_def Let_def)
  next
    assume s: "placed c (i # l @ rest) s"
    obtain s1 where s1: "fread_byte8 s = Some (i, s1)" "placed c (l @ rest) s1" using placed_byte [OF s] by blast
    obtain s2 where s2: "fread_LEB128 fread_byte8 False s1 = Some (of_nat n, s2)" "placed c rest s2"
      using placed_leb [OF leb s1(2)] by blast
    have n: "unat (of_nat n :: u64) = n" "uint (of_nat n :: u64) = int n"
      using leb_of_word [OF leb] .
    have p: "placed c c (snd (fseek_buffer s2 (int n) SEEK_CUR))" using placed_overshoot [OF s2(2) over] .
    with s1 s2 sid restart [OF p] n show ?thesis by (auto simp: section_round_def Let_def)
  qed
qed

section \<open>Memory limits and imports\<close>

definition enc_name :: "byte list \<Rightarrow> bool" where
  "enc_name bs \<longleftrightarrow> (\<exists>l x. bs = l @ x \<and> leb_of (length x) l)"

definition enc_limits :: "nat \<times> nat \<times> nat \<Rightarrow> byte list \<Rightarrow> bool" where
  "enc_limits lm bs \<longleftrightarrow> (case lm of (flags, base, mx) \<Rightarrow>
     \<exists>f b m. bs = f @ b @ m \<and> leb_of flags f \<and> leb_of base b \<and> (if bit flags 0 then leb_of mx m else m = []))"

datatype import_desc = Imp_func | Imp_table | Imp_memory "nat \<times> nat \<times> nat" | Imp_global | Imp_tag

fun enc_desc :: "import_desc \<Rightarrow> byte list \<Rightarrow> bool" where
  "enc_desc Imp_func bs \<longleftrightarrow> (\<exists>v l. bs = 0 # l \<and> leb_of v l)"
| "enc_desc Imp_table bs \<longleftrightarrow> (\<exists>t lm l. bs = 1 # t # l \<and> enc_limits lm l)"
| "enc_desc (Imp_memory lm) bs \<longleftrightarrow> (\<exists>l. bs = 2 # l \<and> enc_limits lm l)"
| "enc_desc Imp_global bs \<longleftrightarrow> (\<exists>t u. bs = [3, t, u])"
| "enc_desc Imp_tag bs \<longleftrightarrow> (\<exists>a v l. bs = 4 # a # l \<and> leb_of v l)"

fun enc_imports :: "import_desc list \<Rightarrow> byte list \<Rightarrow> bool" where
  "enc_imports [] bs \<longleftrightarrow> bs = []"
| "enc_imports (d # ds) bs \<longleftrightarrow>
     (\<exists>m n e rest. bs = m @ n @ e @ rest \<and> enc_name m \<and> enc_name n \<and> enc_desc d e \<and> enc_imports ds rest)"

fun first_memory :: "import_desc list \<Rightarrow> (nat \<times> nat \<times> nat) option" where
  "first_memory [] = None"
| "first_memory (Imp_memory lm # ds) = Some lm"
| "first_memory (d # ds) = first_memory ds"

definition info_of :: "bool \<Rightarrow> nat \<times> nat \<times> nat \<Rightarrow> wasmbin_memory_info_t" where
  "info_of imp lm = (case lm of (flags, base, mx) \<Rightarrow>
     \<lparr>base_pages = of_nat base, max_pages = (if bit flags 0 then of_nat mx else 0), maximum_present = bit flags 0,
      shared = bit flags 1, imported = imp, memory64 = bit flags 2\<rparr>)"

lemma ucast_of_nat32: "(ucast (of_nat n :: u64) :: u32) = of_nat n"
  by (rule bit_eqI) (simp add: bit_simps)

lemma and_flag: "(of_nat f AND 1 :: u32) = 0 \<longleftrightarrow> \<not> bit f 0" "(of_nat f AND 2 :: u32) = 0 \<longleftrightarrow> \<not> bit f 1"
    "(of_nat f AND 4 :: u32) = 0 \<longleftrightarrow> \<not> bit f 2"
  using and_exp_eq_0_iff_not_bit [of "of_nat f :: u32" 0] and_exp_eq_0_iff_not_bit [of "of_nat f :: u32" 1]
    and_exp_eq_0_iff_not_bit [of "of_nat f :: u32" 2]
  by (simp_all add: bit_simps)

lemma read_name:
  assumes "enc_name m" "placed c (m @ r) s"
  shows "\<exists>s'. wasmbin_skip_name s = Some s' \<and> placed c r s'"
proof -
  obtain l x where m: "m = l @ x" and leb: "leb_of (length x) l" using assms(1) by (auto simp: enc_name_def)
  obtain s1 where "fread_LEB128 fread_byte8 False s = Some (of_nat (length x), s1)" "placed c (x @ r) s1"
    using placed_leb [OF leb, of c "x @ r" s] assms(2) m by auto
  with placed_skip [of c x r s1] leb_of_word [OF leb] show ?thesis by (simp add: wasmbin_skip_name_def)
qed

lemma read_memory_type:
  assumes "enc_limits lm bs" "placed c (bs @ r) s"
  shows "\<exists>s'. wasmbin_read_memory_type s empty_memory_info = Some (info_of False lm, s') \<and> placed c r s'"
proof -
  obtain flags base mx where lm: "lm = (flags, base, mx)" by (cases lm)
  obtain f b m where bs: "bs = f @ b @ m" and f: "leb_of flags f" and b: "leb_of base b"
      and m: "if bit flags 0 then leb_of mx m else m = []"
    using assms(1) lm by (auto simp: enc_limits_def)
  obtain s1 where s1: "fread_LEB128 fread_byte8 False s = Some (of_nat flags, s1)" "placed c (b @ m @ r) s1"
    using placed_leb [OF f, of c "b @ m @ r" s] assms(2) bs by auto
  obtain s2 where s2: "fread_LEB128 fread_byte8 False s1 = Some (of_nat base, s2)" "placed c (m @ r) s2"
    using placed_leb [OF b s1(2)] by auto
  note code = wasmbin_read_memory_type_def Let_def ucast_of_nat32 and_flag info_of_def lm empty_memory_info_def
  show ?thesis
  proof (cases "bit flags 0")
    case True
    then obtain s3 where "fread_LEB128 fread_byte8 False s2 = Some (of_nat mx, s3)" "placed c r s3"
      using placed_leb [of mx m c r s2] m s2(2) by auto
    with True s1(1) s2(1) show ?thesis by (simp add: code)
  next
    case False
    with m s1(1) s2 show ?thesis by (simp add: code)
  qed
qed

lemma skip_table_type:
  assumes "enc_limits lm bs" "placed c (t # bs @ r) s"
  shows "\<exists>s'. wasmbin_skip_table_type s = Some s' \<and> placed c r s'"
proof -
  obtain flags base mx where lm: "lm = (flags, base, mx)" by (cases lm)
  obtain f b m where bs: "bs = f @ b @ m" and f: "leb_of flags f" and b: "leb_of base b"
      and m: "if bit flags 0 then leb_of mx m else m = []"
    using assms(1) lm by (auto simp: enc_limits_def)
  obtain s0 where s0: "fread_byte8 s = Some (t, s0)" "placed c (f @ b @ m @ r) s0"
    using placed_byte [OF assms(2)] bs by auto
  obtain s1 where s1: "fread_LEB128 fread_byte8 False s0 = Some (of_nat flags, s1)" "placed c (b @ m @ r) s1"
    using placed_leb [OF f s0(2)] by auto
  obtain s2 where s2: "fread_LEB128 fread_byte8 False s1 = Some (of_nat base, s2)" "placed c (m @ r) s2"
    using placed_leb [OF b s1(2)] by auto
  note code = wasmbin_skip_table_type_def ucast_of_nat32 and_flag
  show ?thesis
  proof (cases "bit flags 0")
    case True
    then obtain s3 where "fread_LEB128 fread_byte8 False s2 = Some (of_nat mx, s3)" "placed c r s3"
      using placed_leb [of mx m c r s2] m s2(2) by auto
    with True s0(1) s1(1) s2(1) show ?thesis by (simp add: code)
  next
    case False
    with m s0(1) s1(1) s2 show ?thesis by (simp add: code)
  qed
qed

lemma skip_import_type:
  assumes "enc_desc d (k # e)" "\<And>lm. d \<noteq> Imp_memory lm" "placed c (e @ r) s"
  shows "k \<in> {0, 1, 3, 4} \<and> k \<noteq> 2 \<and> (\<exists>s'. wasmbin_skip_import_type k s = Some s' \<and> placed c r s')"
proof (cases d)
  case Imp_func
  with assms obtain v where "k = 0" "leb_of v e" by auto
  with placed_leb [OF this(2) assms(3)] show ?thesis by (auto simp: wasmbin_skip_import_type_def)
next
  case Imp_table
  with assms obtain t lm l where k: "k = 1" "e = t # l" "enc_limits lm l" by auto
  with skip_table_type [OF k(3)] assms(3) show ?thesis by (simp add: wasmbin_skip_import_type_def)
next
  case Imp_global
  with assms obtain t u where k: "k = 3" "e = [t, u]" by auto
  obtain s1 where s1: "fread_byte8 s = Some (t, s1)" "placed c (u # r) s1"
    using placed_byte [of c t "u # r" s] assms(3) k by auto
  obtain s2 where "fread_byte8 s1 = Some (u, s2)" "placed c r s2" using placed_byte [OF s1(2)] by auto
  with s1 k show ?thesis by (simp add: wasmbin_skip_import_type_def)
next
  case Imp_tag
  with assms obtain a v l where k: "k = 4" "e = a # l" "leb_of v l" by auto
  obtain s1 where s1: "fread_byte8 s = Some (a, s1)" "placed c (l @ r) s1"
    using placed_byte [of c a "l @ r" s] assms(3) k by auto
  obtain s2 where "fread_LEB128 fread_byte8 False s1 = Some (of_nat v, s2)" "placed c r s2"
    using placed_leb [OF k(3) s1(2)] by auto
  with s1 k show ?thesis by (simp add: wasmbin_skip_import_type_def)
qed (use assms(2) in simp)

lemma scan_imports:
  assumes "enc_imports ds bs" "placed c (bs @ r) s"
  shows "\<exists>s' r'. placed c r' s' \<and> wasmbin_scan_imports (length ds) s empty_memory_info =
    Some (case first_memory ds of None \<Rightarrow> Import_none | Some lm \<Rightarrow> Import_memory (info_of True lm), s')"
  using assms
proof (induction ds arbitrary: bs s)
  case Nil
  then show ?case by auto
next
  case (Cons d ds)
  obtain m n e rest where bs: "bs = m @ n @ e @ rest" "enc_name m" "enc_name n" "enc_desc d e" "enc_imports ds rest"
    using Cons.prems(1) by auto
  obtain s1 where s1: "wasmbin_skip_name s = Some s1" "placed c (n @ e @ rest @ r) s1"
    using read_name [OF bs(2), of c "n @ e @ rest @ r" s] Cons.prems(2) bs(1) by auto
  obtain s2 where s2: "wasmbin_skip_name s1 = Some s2" "placed c (e @ rest @ r) s2"
    using read_name [OF bs(3) s1(2)] by auto
  obtain k e' where e: "e = k # e'" using bs(4) by (cases d) auto
  obtain s3 where s3: "fread_byte8 s2 = Some (k, s3)" "placed c (e' @ rest @ r) s3"
    using placed_byte [of c k "e' @ rest @ r" s2] s2(2) e by auto
  show ?case
  proof (cases "\<exists>lm. d = Imp_memory lm")
    case True
    then obtain lm where d: "d = Imp_memory lm" by blast
    then have k: "k = 2" "enc_limits lm e'" using bs(4) e by auto
    obtain s4 where "wasmbin_read_memory_type s3 empty_memory_info = Some (info_of False lm, s4)" "placed c (rest @ r) s4"
      using read_memory_type [OF k(2) s3(2)] by auto
    with s1(1) s2(1) s3(1) k d show ?thesis
      by (auto simp: info_of_def split: prod.splits)
  next
    case False
    obtain s4 where s4: "k \<in> {0, 1, 3, 4}" "k \<noteq> 2" "wasmbin_skip_import_type k s3 = Some s4" "placed c (rest @ r) s4"
      using skip_import_type [of d k e' c "rest @ r" s3] bs(4) e s3(2) False by auto
    have "first_memory (d # ds) = first_memory ds" using False by (cases d) auto
    with Cons.IH [OF bs(5) s4(4)] s1(1) s2(1) s3(1) s4(1,2,3) show ?thesis by simp
  qed
qed

text \<open>What the import and memory sections of a module declare.\<close>

definition declares_imports :: "wsection list \<Rightarrow> import_desc list \<Rightarrow> bool" where
  "declares_imports secs ds \<longleftrightarrow>
     (case find_section 2 secs of
        None \<Rightarrow> ds = []
      | Some (p, _) \<Rightarrow> (p = [] \<and> ds = []) \<or> (\<exists>l e. p = l @ e \<and> leb_of (length ds) l \<and> enc_imports ds e))"

definition declares_memories :: "wsection list \<Rightarrow> (nat \<times> nat \<times> nat) list \<Rightarrow> bool" where
  "declares_memories secs ms \<longleftrightarrow>
     (case find_section 5 secs of
        None \<Rightarrow> ms = []
      | Some (p, _) \<Rightarrow> (p = [] \<and> ms = []) \<or>
          (\<exists>l es. p = l @ concat es \<and> leb_of (length ms) l \<and> list_all2 enc_limits ms es))"

lemma jump_payload:
  assumes "wf_module header secs" "c = module_bytes header secs" "placed c r s"
  shows "find_section sid secs = None \<Longrightarrow> \<exists>s'. wasmbin_jump_to_section s sid = Some (0, s') \<and> placed c [] s'"
    and "find_section sid secs = Some (p, later) \<Longrightarrow>
      \<exists>s' r'. wasmbin_jump_to_section s sid = Some (length p, s') \<and> placed c (p @ r') s'"
  using jump_to_section_finds [OF assms, of sid] by auto

lemma read_imports:
  assumes "wf_module header secs" "c = module_bytes header secs" "placed c r s" "declares_imports secs ds"
  shows "\<exists>n s1 s' r'. wasmbin_jump_to_section s 2 = Some (n, s1) \<and> placed c r' s' \<and>
    (if n \<noteq> 0
     then do { (k, t) \<leftarrow> fread_LEB128 fread_byte8 False s1; wasmbin_scan_imports (unat k) t empty_memory_info }
     else Some (Import_none, s1)) =
    Some (case first_memory ds of None \<Rightarrow> Import_none | Some lm \<Rightarrow> Import_memory (info_of True lm), s')"
proof (cases "find_section 2 secs")
  case None
  with jump_payload(1) [OF assms(1-3) None] assms(4) show ?thesis
    by (auto simp: declares_imports_def)
next
  case (Some pl)
  obtain p later where pl: "pl = (p, later)" by (cases pl)
  obtain s1 r1 where s1: "wasmbin_jump_to_section s 2 = Some (length p, s1)" "placed c (p @ r1) s1"
    using jump_payload(2) [OF assms(1-3)] Some pl by blast
  show ?thesis
  proof (cases "p = []")
    case True
    have "ds = []" if "leb_of (length ds) []" using that by (simp add: leb_of_def)
    with True s1 assms(4) Some pl show ?thesis by (auto simp: declares_imports_def)
  next
    case False
    then obtain l e where p: "p = l @ e" "leb_of (length ds) l" "enc_imports ds e"
      using assms(4) Some pl by (auto simp: declares_imports_def)
    obtain s2 where s2: "fread_LEB128 fread_byte8 False s1 = Some (of_nat (length ds), s2)" "placed c (e @ r1) s2"
      using placed_leb [OF p(2), of c "e @ r1" s1] s1(2) p(1) by auto
    with scan_imports [OF p(3) s2(2)] s1(1) False leb_of_word [OF p(2)] show ?thesis by auto
  qed
qed

lemma read_memory_section:
  assumes "wf_module header secs" "c = module_bytes header secs" "placed c r s" "declares_memories secs ms"
  shows "\<exists>n s1 s'. wasmbin_jump_to_section s 5 = Some (n, s1) \<and>
    (if n = 0 then Some (False, Some empty_memory_info, s1)
     else do {
       (count, s) \<leftarrow> fread_LEB128 fread_byte8 False s1;
       (if count = 0 then Some (False, Some empty_memory_info, s)
        else do { (i, s) \<leftarrow> wasmbin_read_memory_type s empty_memory_info; Some (True, Some i, s) }) }) =
    Some (case ms of [] \<Rightarrow> (False, Some empty_memory_info, s') | lm # _ \<Rightarrow> (True, Some (info_of False lm), s'))"
proof (cases "find_section 5 secs")
  case None
  with jump_payload(1) [OF assms(1-3) None] assms(4) show ?thesis
    by (auto simp: declares_memories_def)
next
  case (Some pl)
  obtain p later where pl: "pl = (p, later)" by (cases pl)
  obtain s1 r1 where s1: "wasmbin_jump_to_section s 5 = Some (length p, s1)" "placed c (p @ r1) s1"
    using jump_payload(2) [OF assms(1-3)] Some pl by blast
  show ?thesis
  proof (cases "p = []")
    case True
    have "\<not> leb_of (length ms) []" by (simp add: leb_of_def)
    with True s1 assms(4) Some pl show ?thesis by (auto simp: declares_memories_def)
  next
    case False
    then obtain l es where p: "p = l @ concat es" "leb_of (length ms) l" "list_all2 enc_limits ms es"
      using assms(4) Some pl by (auto simp: declares_memories_def)
    obtain s2 where s2: "fread_LEB128 fread_byte8 False s1 = Some (of_nat (length ms), s2)" "placed c (concat es @ r1) s2"
      using placed_leb [OF p(2), of c "concat es @ r1" s1] s1(2) p(1) by auto
    show ?thesis
    proof (cases ms)
      case Nil
      with s1(1) s2(1) False show ?thesis by auto
    next
      case (Cons lm ms')
      then obtain e es' where es: "es = e # es'" "enc_limits lm e" using p(3) by (auto simp: list_all2_Cons1)
      obtain s3 where "wasmbin_read_memory_type s2 empty_memory_info = Some (info_of False lm, s3)"
        using read_memory_type [OF es(2), of c "concat es' @ r1" s2] s2(2) es(1) by auto
      moreover have "of_nat (length ms) \<noteq> (0 :: u64)"
        using leb_of_word(1) [OF p(2)] Cons by (metis length_Cons nat.distinct(1) unat_0)
      ultimately show ?thesis using s1(1) s2(1) False Cons by auto
    qed
  qed
qed

section \<open>Data segments\<close>

fun enc_passive :: "byte list list \<Rightarrow> byte list \<Rightarrow> bool" where
  "enc_passive [] bs \<longleftrightarrow> bs = []"
| "enc_passive (x # xs) bs \<longleftrightarrow>
     (\<exists>m l rest. bs = m @ l @ x @ rest \<and> leb_of 1 m \<and> leb_of (length x) l \<and> enc_passive xs rest)"

lemma passive_segments:
  assumes "enc_passive xs bs" "placed c (bs @ r) s"
  shows "\<exists>s'. placed c r s' \<and> wasmbin_passive_segments (length xs + n) s = wasmbin_passive_segments n s'"
  using assms
proof (induction xs arbitrary: bs s)
  case Nil
  then show ?case by auto
next
  case (Cons x xs)
  obtain m l rest where bs: "bs = m @ l @ x @ rest" "leb_of 1 m" "leb_of (length x) l" "enc_passive xs rest"
    using Cons.prems(1) by auto
  obtain s1 where s1: "fread_LEB128 fread_byte8 False s = Some (1, s1)" "placed c (l @ x @ rest @ r) s1"
    using placed_leb [OF bs(2), of c "l @ x @ rest @ r" s] Cons.prems(2) bs(1) by auto
  obtain s2 where s2: "fread_LEB128 fread_byte8 False s1 = Some (of_nat (length x), s2)" "placed c (x @ rest @ r) s2"
    using placed_leb [OF bs(3) s1(2)] by auto
  from Cons.IH [OF bs(4) placed_skip [OF s2(2)]] s1(1) s2(1) leb_of_word [OF bs(3)] show ?case by simp
qed

text \<open>The data section starts with \<open>xs\<close> passive segments out of \<open>n\<close>, and the next one, if any, is active.\<close>

definition declares_data :: "wsection list \<Rightarrow> nat \<Rightarrow> byte list list \<Rightarrow> bool" where
  "declares_data secs n xs \<longleftrightarrow>
     (case find_section 11 secs of
        None \<Rightarrow> n = 0 \<and> xs = []
      | Some (p, _) \<Rightarrow>
          \<exists>l e rest. p = l @ e @ rest \<and> leb_of n l \<and> enc_passive xs e \<and>
            (n = length xs \<or> (length xs < n \<and> (\<exists>mode m t. rest = m @ t \<and> leb_of mode m \<and> mode \<noteq> 1))))"

lemma only_passive_data:
  assumes wf: "wf_module header secs" "c = module_bytes header secs" "placed c r s" and data: "declares_data secs n xs"
  shows "\<exists>s'. wasmbin_has_only_passive_data s = Some (n = length xs, s')"
proof (cases "find_section 11 secs")
  case None
  with jump_payload(1) [OF wf None] data show ?thesis
    by (auto simp: declares_data_def wasmbin_has_only_passive_data_def)
next
  case (Some pl)
  obtain p later where pl: "pl = (p, later)" by (cases pl)
  obtain l e rest where p: "p = l @ e @ rest" "leb_of n l" "enc_passive xs e"
      "n = length xs \<or> (length xs < n \<and> (\<exists>mode m t. rest = m @ t \<and> leb_of mode m \<and> mode \<noteq> 1))"
    using data unfolding declares_data_def Some pl option.case prod.case by blast
  have ne: "p \<noteq> []" using p(1,2) by (auto simp: leb_of_def)
  obtain s1 r1 where s1: "wasmbin_jump_to_section s 11 = Some (length p, s1)" "placed c (p @ r1) s1"
    using jump_payload(2) [OF wf] Some pl by blast
  obtain s2 where s2: "fread_LEB128 fread_byte8 False s1 = Some (of_nat n, s2)" "placed c (e @ rest @ r1) s2"
    using placed_leb [OF p(2), of c "e @ rest @ r1" s1] s1(2) p(1) by auto
  obtain s3 where s3: "placed c (rest @ r1) s3"
      "wasmbin_passive_segments (length xs + (n - length xs)) s2 = wasmbin_passive_segments (n - length xs) s3"
    using passive_segments [OF p(3) s2(2), of "n - length xs"] by blast
  have seg: "wasmbin_passive_segments n s2 = wasmbin_passive_segments (n - length xs) s3"
    using s3(2) p(4) by auto
  have "\<exists>s'. wasmbin_passive_segments (n - length xs) s3 = Some (n = length xs, s')"
  proof (cases "n = length xs")
    case False
    then obtain mode m t k where m: "rest = m @ t" "leb_of mode m" "mode \<noteq> 1" "n - length xs = Suc k"
      using p(4) by (metis Suc_diff_Suc)
    obtain s4 where s4: "fread_LEB128 fread_byte8 False s3 = Some (of_nat mode, s4)"
      using placed_leb [OF m(2), of c "t @ r1" s3] s3(1) m(1) by auto
    have "of_nat mode \<noteq> (1 :: u64)" using leb_of_word(1) [OF m(2)] m(3) by (metis unat_1)
    with s4 m(4) False show ?thesis by simp
  qed simp
  with s1(1) s2(1) seg ne leb_of_word [OF p(2)] show ?thesis
    by (simp add: wasmbin_has_only_passive_data_def)
qed

section \<open>Properties\<close>

text \<open>
  C33. Section search: on a well-formed module the search, started anywhere, finds the first
  section with the given id and leaves the stream at its payload, and reports zero and the
  end of the file when there is none.
\<close>

theorem jump_to_section_correct:
  assumes "wf_module header secs" and "placed (module_bytes header secs) r s"
  shows "\<exists>s'. (case find_section sid secs of
      Some (payload, later) \<Rightarrow> wasmbin_jump_to_section s sid = Some (length payload, s') \<and>
        unread s' = payload @ concat (map section_bytes later)
    | None \<Rightarrow> wasmbin_jump_to_section s sid = Some (0, s') \<and> unread s' = [])"
  using jump_to_section_finds [OF assms(1) refl assms(2), of sid]
  by (cases "find_section sid secs") (auto simp: placed_def)

abbreviation sample_header :: "byte list" where
  "sample_header \<equiv> [0x00, 0x61, 0x73, 0x6D, 0x01, 0x00, 0x00, 0x00]"

text \<open>A module with a shared memory import and a memory-free second section.\<close>

abbreviation sample_sections :: "wsection list" where
  "sample_sections \<equiv> [(2, [8], [1, 1, 0x65, 0, 2, 3, 1, 4]), (11, [4], [1, 1, 1, 0x2A])]"

lemma sample_wf: "wf_module sample_header sample_sections"
  by (simp add: wf_module_def wf_section_def module_bytes_def leb_of_def leb_val.simps)

lemma sample_placed:
  "placed (module_bytes sample_header sample_sections) (module_bytes sample_header sample_sections)
     (buffer_of (module_bytes sample_header sample_sections))"
  by (simp add: placed_def module_bytes_def)

theorem jump_to_section_correct_witness:
  "\<exists>s'. wasmbin_jump_to_section (buffer_of (module_bytes sample_header sample_sections)) 11 =
       Some (length [1, 1, 1, 0x2A :: byte], s') \<and>
     unread s' = [1, 1, 1, 0x2A]"
  using jump_to_section_correct [OF sample_wf sample_placed, of 11] by simp

text \<open>
  C34. Memory limits: on a well-formed module \<open>wasmbin_read_memory_info\<close> reports the limits of the first
  imported memory if there is one, else those of the first memory the module defines, else failure.
\<close>

theorem read_memory_info_correct:
  assumes "wf_module header secs" and "placed (module_bytes header secs) r s"
    and "declares_imports secs ds" and "declares_memories secs ms"
  shows "\<exists>s'. wasmbin_read_memory_info s (Some i0) =
    Some (case first_memory ds of
            Some lm \<Rightarrow> (True, Some (info_of True lm), s')
          | None \<Rightarrow> (case ms of
              [] \<Rightarrow> (False, Some empty_memory_info, s')
            | lm # _ \<Rightarrow> (True, Some (info_of False lm), s')))"
proof -
  obtain n s1 s2 r2 where imp: "wasmbin_jump_to_section s 2 = Some (n, s1)" "placed (module_bytes header secs) r2 s2"
    "(if n \<noteq> 0
      then do { (k, t) \<leftarrow> fread_LEB128 fread_byte8 False s1; wasmbin_scan_imports (unat k) t empty_memory_info }
      else Some (Import_none, s1)) =
     Some (case first_memory ds of None \<Rightarrow> Import_none | Some lm \<Rightarrow> Import_memory (info_of True lm), s2)"
    using read_imports [OF assms(1) refl assms(2,3)] by blast
  show ?thesis
  proof (cases "first_memory ds")
    case None
    from read_memory_section [OF assms(1) refl imp(2) assms(4)] imp(1,3) None show ?thesis
      by (auto simp: wasmbin_read_memory_info_def split: list.splits)
  next
    case (Some lm)
    with imp(1,3) show ?thesis by (auto simp: wasmbin_read_memory_info_def)
  qed
qed

theorem read_memory_info_correct_witness:
  "\<exists>s'. wasmbin_read_memory_info (buffer_of (module_bytes sample_header sample_sections)) (Some empty_memory_info) =
     Some (True, Some \<lparr>base_pages = 1, max_pages = 4, maximum_present = True, shared = True,
       imported = True, memory64 = False\<rparr>, s')"
proof -
  have leb: "leb_of (length [0x65 :: byte]) [1]" "leb_of 3 [3]" "leb_of 1 [1]" "leb_of 4 [4]" "leb_of (length ([] :: byte list)) [0]"
    by (simp_all add: leb_of_def leb_val.simps)
  have limits: "enc_limits (3, 1, 4) [3, 1, 4]"
    unfolding enc_limits_def prod.case
    by (rule exI [of _ "[3]"], rule exI [of _ "[1]"], rule exI [of _ "[4]"]) (use leb in \<open>simp add: bit_1_iff bit_simps\<close>)
  have names: "enc_name [1, 0x65]" "enc_name [0]"
    unfolding enc_name_def
    by (rule exI [of _ "[1]"], rule exI [of _ "[0x65]"], use leb in simp)
      (rule exI [of _ "[0]"], rule exI [of _ "[]"], use leb in simp)
  have desc: "enc_desc (Imp_memory (3, 1, 4)) [2, 3, 1, 4]"
    using limits by simp
  have "enc_imports [Imp_memory (3, 1, 4)] [1, 0x65, 0, 2, 3, 1, 4]"
    unfolding enc_imports.simps
    by (rule exI [of _ "[1, 0x65]"], rule exI [of _ "[0]"], rule exI [of _ "[2, 3, 1, 4]"], rule exI [of _ "[]"])
      (use names desc in simp)
  then have "\<exists>l e. [1, 1, 0x65, 0, 2, 3, 1, 4] = l @ e \<and> leb_of (length [Imp_memory (3, 1, 4)]) l \<and>
      enc_imports [Imp_memory (3, 1, 4)] e"
    by (intro exI [of _ "[1 :: byte]"] exI [of _ "[1 :: byte, 0x65, 0, 2, 3, 1, 4]"]) (use leb in simp)
  then have imps: "declares_imports sample_sections [Imp_memory (3, 1, 4)]"
    by (simp add: declares_imports_def)
  have memories: "declares_memories sample_sections []"
    by (simp add: declares_memories_def)
  from read_memory_info_correct [OF sample_wf sample_placed imps memories, of empty_memory_info]
  show ?thesis by (simp add: info_of_def bit_0)
qed

text \<open>
  C35. The passive-data check answers yes exactly when every data segment of the module is passive.
\<close>

theorem only_passive_data_correct:
  assumes "wf_module header secs" and "placed (module_bytes header secs) r s" and "declares_data secs n xs"
  shows "\<exists>s'. wasmbin_has_only_passive_data s = Some (n = length xs, s')"
  using only_passive_data [OF assms(1) refl assms(2,3)] .

theorem only_passive_data_correct_witness:
  "\<exists>s'. wasmbin_has_only_passive_data (buffer_of (module_bytes sample_header sample_sections)) = Some (True, s')"
proof -
  have leb: "leb_of 1 [1]" by (simp add: leb_of_def leb_val.simps)
  have "enc_passive [[0x2A]] [1, 1, 0x2A]"
    unfolding enc_passive.simps
    by (rule exI [of _ "[1]"], rule exI [of _ "[1]"], rule exI [of _ "[]"]) (use leb in simp)
  then have "\<exists>l e rest. [1, 1, 1, 0x2A] = l @ e @ rest \<and> leb_of 1 l \<and> enc_passive [[0x2A]] e \<and>
      (1 = length [[0x2A :: byte]] \<or> length [[0x2A :: byte]] < 1 \<and> (\<exists>mode m t. rest = m @ t \<and> leb_of mode m \<and> mode \<noteq> 1))"
    by (intro exI [of _ "[1 :: byte]"] exI [of _ "[1 :: byte, 1, 0x2A]"] exI [of _ "[] :: byte list"]) (use leb in simp)
  then have "declares_data sample_sections 1 [[0x2A]]"
    by (simp add: declares_data_def)
  from only_passive_data_correct [OF sample_wf sample_placed this] show ?thesis by simp
qed



text \<open>
  \<open>wasmbin_read_stack_pointer\<close> ignores the outcome of the search: on a well-formed module without a
  global section it goes on to read past the end of the file.
\<close>

theorem read_stack_pointer_past_end:
  assumes "wf_module header secs" and "placed (module_bytes header secs) r s" and "find_section 6 secs = None"
  shows "wasmbin_read_stack_pointer s = None"
proof -
  obtain s' where s': "wasmbin_jump_to_section s 6 = Some (0, s')" "placed (module_bytes header secs) [] s'"
    using jump_payload(1) [OF assms(1) refl assms(2,3)] by blast
  have "fread_LEB128 fread_byte8 False s' = None"
    using placed_end [OF s'(2)] by (simp add: fread_LEB128_def LEB128_bytes.simps)
  with s'(1) show ?thesis by (simp add: wasmbin_read_stack_pointer_def)
qed

theorem read_stack_pointer_past_end_witness:
  "wasmbin_read_stack_pointer (buffer_of (module_bytes sample_header sample_sections)) = None"
  by (rule read_stack_pointer_past_end [OF sample_wf sample_placed]) simp

end
