(* ===== verification/Unicode_Text.thy ===== *)
theory Unicode_Text
  imports Program_Loop
begin

text \<open>
  The conversions between UTF-8, UTF-16 and code points of \<open>rl_utils/fopen_utf8.c\<close> and \<open>rl_utils/misc.c\<close>. An array is a list with
  its terminator; indexes wrap as \<open>size_t\<close> and one outside the array is undefined.
\<close>

section \<open>The code\<close>

text \<open>An element of an array; an index outside it is undefined.\<close>

definition elem_at :: "'a list \<Rightarrow> u64 \<Rightarrow> 'a option" where
  "elem_at xs i = (if unat i < length xs then Some (xs ! unat i) else None)"

fun put_all :: "'a list \<Rightarrow> u64 \<Rightarrow> 'a list \<Rightarrow> 'a list option" where
  "put_all xs i [] = Some xs"
| "put_all xs i (v # vs) = (if unat i < length xs then put_all (xs[unat i := v]) (i + 1) vs else None)"

text \<open>The bytes that encode a code point, terminator included when the code point is not zero.\<close>

definition sprint_unicode :: "u32 \<Rightarrow> byte list" where
  "sprint_unicode c =
     (let m6 = (63 :: byte); c10x = (0x80 :: byte); c110x = (0xC0 :: byte); c1110x = (0xE0 :: byte); c11110x = (0xF0 :: byte);
          low = (\<lambda>c :: u32. (ucast c AND m6) OR c10x)
      in if c < 0x80 then (if c > 0 then [ucast c, 0] else [ucast c])
         else if c < 0x800 then [ucast (drop_bit 6 c) OR c110x, low c, 0]
         else if c < 0x10000 then [ucast (drop_bit 12 c) OR c1110x, low (drop_bit 6 c), low c, 0]
         else if c < 0x200000
         then [ucast (drop_bit 18 c) OR c11110x, low (drop_bit 12 c), low (drop_bit 6 c), low c, 0]
         else [0])"

definition codepoint_utf8_size :: "u32 \<Rightarrow> u64" where
  "codepoint_utf8_size c =
     (if c < 0x80 then 1 else if c < 0x800 then 2 else if c < 0x10000 then 3 else if c < 0x110000 then 4 else 0)"

definition utf16_char_size :: "u16 list \<Rightarrow> u64 \<Rightarrow> u64 option" where
  "utf16_char_size str i =
     do {
       c0 \<leftarrow> elem_at str i;
       (if c0 \<le> 0xD7FF \<or> c0 \<ge> 0xE000 then Some 1
        else do { c1 \<leftarrow> elem_at str (i + 1); Some (if c1 = 0 then 1 else 2) })
     }"

text \<open>The code point at an index, and the index of its last element.\<close>

definition utf16_to_unicode32 :: "u16 list \<Rightarrow> u64 \<Rightarrow> (u32 \<times> u64) option" where
  "utf16_to_unicode32 str i =
     do {
       sz \<leftarrow> utf16_char_size str i;
       c0 \<leftarrow> elem_at str i;
       (if sz = 1 then Some (ucast c0, i)
        else do {
          c1 \<leftarrow> elem_at str (i + 1);
          Some ((push_bit 10 (ucast c0 AND 0x3FF) OR (ucast c1 AND 0x3FF)) + 0x10000, i + 1)
        })
     }"

partial_function (option) strlen_utf16_to_utf8_from :: "u16 list \<Rightarrow> u64 \<Rightarrow> u64 \<Rightarrow> u64 option" where
  "strlen_utf16_to_utf8_from str i count =
     do {
       s \<leftarrow> elem_at str i;
       (if s = 0 then Some count
        else do {
          (c, i1) \<leftarrow> utf16_to_unicode32 str i;
          strlen_utf16_to_utf8_from str (i1 + 1) (count + codepoint_utf8_size c)
        })
     }"

definition strlen_utf16_to_utf8 :: "u16 list \<Rightarrow> u64 option" where
  "strlen_utf16_to_utf8 str = strlen_utf16_to_utf8_from str 0 0"

partial_function (option) utf16_to_utf8_from :: "u16 list \<Rightarrow> u64 \<Rightarrow> u64 \<Rightarrow> byte list \<Rightarrow> byte list option" where
  "utf16_to_utf8_from utf16 i j utf8 =
     do {
       (c, i1) \<leftarrow> utf16_to_unicode32 utf16 i;
       utf8a \<leftarrow> put_all utf8 j (sprint_unicode c);
       (if c = 0 then Some utf8a
        else utf16_to_utf8_from utf16 (i1 + 1) (j + codepoint_utf8_size c) utf8a)
     }"

text \<open>The destination is the caller's buffer or a new one of the exact size.\<close>

definition utf16_to_utf8 :: "u16 list option \<Rightarrow> byte list option \<Rightarrow> byte list option option" where
  "utf16_to_utf8 utf16 utf8 =
     (case utf16 of
        None \<Rightarrow> Some None
      | Some src \<Rightarrow>
          do {
            dst \<leftarrow> (case utf8 of
                      Some b \<Rightarrow> Some b
                    | None \<Rightarrow> map_option (\<lambda>n. replicate (unat (n + 1)) 0) (strlen_utf16_to_utf8 src));
            map_option Some (utf16_to_utf8_from src 0 0 dst)
          })"

text \<open>
  The size of the character at an index: zero for a byte that starts none, minus one, as a \<open>size_t\<close>, when the
  bytes that should follow do not.
\<close>

fun continues :: "byte list \<Rightarrow> u64 \<Rightarrow> nat \<Rightarrow> bool option" where
  "continues c i 0 = Some True"
| "continues c i (Suc n) = do { b \<leftarrow> elem_at c i; (if b AND 0xC0 = 0x80 then continues c (i + 1) n else Some False) }"

definition utf8_char_size :: "byte list \<Rightarrow> u64 \<Rightarrow> u64 option" where
  "utf8_char_size c i =
     do {
       c0 \<leftarrow> elem_at c i;
       (if c0 AND 0x80 = 0 then Some 1
        else do {
          two \<leftarrow> (if c0 AND 0xE0 = 0xC0 then continues c (i + 1) 1 else Some False);
          (if two then Some 2
           else do {
             three \<leftarrow> (if c0 AND 0xF0 = 0xE0 then continues c (i + 1) 2 else Some False);
             (if three then Some 3
              else do {
                four \<leftarrow> (if c0 AND 0xF8 = 0xF0 then continues c (i + 1) 3 else Some False);
                Some (if four then 4 else if c0 AND 0xC0 = 0x80 then 0 else - 1)
              })
           })
        })
     }"

definition utf8_to_unicode32 :: "byte list \<Rightarrow> u64 \<Rightarrow> (u32 \<times> u64) option" where
  "utf8_to_unicode32 c i =
     do {
       sz \<leftarrow> utf8_char_size c i;
       (let i1 = (if sz > 0 then i + (sz - 1) else i);
            tail = (\<lambda>v b. push_bit 6 v OR (ucast b AND 63))
        in if sz = 1 then do { c0 \<leftarrow> elem_at c i; Some (ucast c0, i1) }
           else if sz = 2
           then do { c0 \<leftarrow> elem_at c i; c1 \<leftarrow> elem_at c (i + 1); Some (tail (ucast (c0 AND 31)) c1, i1) }
           else if sz = 3
           then do { c0 \<leftarrow> elem_at c i; c1 \<leftarrow> elem_at c (i + 1); c2 \<leftarrow> elem_at c (i + 2);
                  Some (tail (tail (ucast (c0 AND 15)) c1) c2, i1) }
           else if sz = 4
           then do { c0 \<leftarrow> elem_at c i; c1 \<leftarrow> elem_at c (i + 1); c2 \<leftarrow> elem_at c (i + 2); c3 \<leftarrow> elem_at c (i + 3);
                  Some (tail (tail (tail (ucast (c0 AND 7)) c1) c2) c3, i1) }
           else Some (- 1, i1))
     }"

definition codepoint_utf16_size :: "u32 \<Rightarrow> u64" where
  "codepoint_utf16_size c = (if c < 0x10000 then 1 else if c < 0x110000 then 2 else 0)"

definition sprint_utf16 :: "u32 \<Rightarrow> u16 list" where
  "sprint_utf16 c =
     (let c_size = codepoint_utf16_size c in
      if c_size = 1 then (if c > 0 then [ucast c, 0] else [ucast c])
      else if c_size = 2
      then (let d = c - 0x10000 in [0xD800 + ucast (drop_bit 10 d), 0xDC00 + ucast (d AND 0x3FF), 0])
      else [0])"

partial_function (option) strlen_utf8_to_utf16_from :: "byte list \<Rightarrow> u64 \<Rightarrow> u64 \<Rightarrow> u64 option" where
  "strlen_utf8_to_utf16_from str i count =
     do {
       s \<leftarrow> elem_at str i;
       (if s = 0 then Some count
        else do {
          (c, i1) \<leftarrow> utf8_to_unicode32 str i;
          strlen_utf8_to_utf16_from str (i1 + 1) (count + codepoint_utf16_size c)
        })
     }"

text \<open>One round of that loop: the index and the count it goes on with, or the count it returns.\<close>

definition measure_round :: "byte list \<Rightarrow> u64 \<times> u64 \<Rightarrow> (u64 \<times> u64 + u64) option" where
  "measure_round str = (\<lambda>(i, count).
     do {
       s \<leftarrow> elem_at str i;
       (if s = 0 then Some (Inr count)
        else do {
          (c, i1) \<leftarrow> utf8_to_unicode32 str i;
          Some (Inl (i1 + 1, count + codepoint_utf16_size c))
        })
     })"

definition strlen_utf8_to_utf16 :: "byte list \<Rightarrow> u64 option" where
  "strlen_utf8_to_utf16 str = strlen_utf8_to_utf16_from str 0 0"

partial_function (option) utf8_to_utf16_from :: "byte list \<Rightarrow> u64 \<Rightarrow> u64 \<Rightarrow> u16 list \<Rightarrow> u16 list option" where
  "utf8_to_utf16_from utf8 i j utf16 =
     do {
       (c, i1) \<leftarrow> utf8_to_unicode32 utf8 i;
       utf16a \<leftarrow> put_all utf16 j (sprint_utf16 c);
       (if c = 0 then Some utf16a
        else utf8_to_utf16_from utf8 (i1 + 1) (j + codepoint_utf16_size c) utf16a)
     }"

definition utf8_to_utf16 :: "byte list option \<Rightarrow> u16 list option \<Rightarrow> u16 list option option" where
  "utf8_to_utf16 utf8 utf16 =
     (case utf8 of
        None \<Rightarrow> Some None
      | Some src \<Rightarrow>
          do {
            dst \<leftarrow> (case utf16 of
                      Some b \<Rightarrow> Some b
                    | None \<Rightarrow> map_option (\<lambda>n. replicate (unat (n + 1)) 0) (strlen_utf8_to_utf16 src));
            map_option Some (utf8_to_utf16_from src 0 0 dst)
          })"

section \<open>Bits\<close>

lemma small_bits: "(c :: 'a :: len word) < w \<Longrightarrow> unat w \<le> 2 ^ k \<Longrightarrow> k \<le> n \<Longrightarrow> \<not> bit c n"
proof -
  assume a: "c < w" "unat w \<le> 2 ^ k" "k \<le> n"
  have "unat c < 2 ^ k" using a(1,2) by (simp add: word_less_nat_alt)
  also have "(2 :: nat) ^ k \<le> 2 ^ n" using a(3) by simp
  finally have "unat c div 2 ^ n = 0" by simp
  then have "\<not> bit (unat c) n" by (simp add: bit_iff_odd)
  then show ?thesis using bit_imp_le_length [of c n] by (auto simp: bit_unsigned_iff)
qed

lemma eq8: "(a :: byte) = b \<longleftrightarrow> (\<forall>n < 8. bit a n = bit b n)"
  by (auto intro: bit_word_eqI)

lemma eq16: "(a :: u16) = b \<longleftrightarrow> (\<forall>n < 16. bit a n = bit b n)"
  by (auto intro: bit_word_eqI)

lemma eq32: "(a :: u32) = b \<longleftrightarrow> (\<forall>n < 32. bit a n = bit b n)"
  by (auto intro: bit_word_eqI)

lemma all_below: "(\<forall>n < numeral k. P n) \<longleftrightarrow> (\<forall>n < pred_numeral k. P n) \<and> P (pred_numeral k)" "(\<forall>n < 0. P n) \<longleftrightarrow> True"
  "(\<forall>n < Suc m. P n) \<longleftrightarrow> (\<forall>n < m. P n) \<and> P (m :: nat)"
  by (auto simp: numeral_eq_Suc less_Suc_eq)

text \<open>The parts of an encoding: lead bytes by their size, continuation bytes, and what decoding reads from them.\<close>

definition low_bits :: "u32 \<Rightarrow> byte" where
  "low_bits c = (ucast c AND 63) OR 0x80"

lemma low_bits: "low_bits c AND 0xC0 = 0x80" "low_bits c AND 0x80 \<noteq> 0" "ucast (low_bits c) AND (63 :: u32) = c AND 63"
  by (simp_all add: low_bits_def eq8 eq32 all_below bit_simps)

lemma lead2:
  fixes c :: u32 assumes "c < 0x800"
  shows "(ucast (drop_bit 6 c) OR 0xC0 :: byte) AND 0x80 \<noteq> 0" "(ucast (drop_bit 6 c) OR 0xC0 :: byte) AND 0xE0 = 0xC0"
    "push_bit 6 (ucast ((ucast (drop_bit 6 c) OR 0xC0 :: byte) AND 31)) OR (c AND 63) = c"
  using small_bits [OF assms, of 11] by (auto simp: eq8 eq32 all_below bit_simps)

lemma lead3:
  fixes c :: u32 assumes "c < 0x10000"
  shows "(ucast (drop_bit 12 c) OR 0xE0 :: byte) AND 0x80 \<noteq> 0" "(ucast (drop_bit 12 c) OR 0xE0 :: byte) AND 0xE0 \<noteq> 0xC0"
    "(ucast (drop_bit 12 c) OR 0xE0 :: byte) AND 0xF0 = 0xE0"
    "push_bit 6 (push_bit 6 (ucast ((ucast (drop_bit 12 c) OR 0xE0 :: byte) AND 15)) OR (drop_bit 6 c AND 63)) OR (c AND 63) = c"
  using small_bits [OF assms, of 16] by (auto simp: eq8 eq32 all_below bit_simps)

lemma lead4:
  fixes c :: u32 assumes "c < 0x200000"
  shows "(ucast (drop_bit 18 c) OR 0xF0 :: byte) AND 0x80 \<noteq> 0" "(ucast (drop_bit 18 c) OR 0xF0 :: byte) AND 0xE0 \<noteq> 0xC0"
    "(ucast (drop_bit 18 c) OR 0xF0 :: byte) AND 0xF0 \<noteq> 0xE0" "(ucast (drop_bit 18 c) OR 0xF0 :: byte) AND 0xF8 = 0xF0"
    "push_bit 6 (push_bit 6 (push_bit 6 (ucast ((ucast (drop_bit 18 c) OR 0xF0 :: byte) AND 7)) OR (drop_bit 12 c AND 63)) OR
       (drop_bit 6 c AND 63)) OR (c AND 63) = c"
  using small_bits [OF assms, of 21] by (auto simp: eq8 eq32 all_below bit_simps)

lemma single:
  fixes c :: u32 assumes "c < 0x80"
  shows "ucast (ucast c :: byte) = c" "(ucast c :: byte) AND 0x80 = 0"
  using small_bits [OF assms, of 7] by (auto simp: eq8 eq32 all_below bit_simps)

section \<open>Decoding what was encoded\<close>

definition utf8_of :: "u32 \<Rightarrow> byte list" where
  "utf8_of c = butlast (sprint_unicode c)"

definition utf16_of :: "u32 \<Rightarrow> u16 list" where
  "utf16_of c = butlast (sprint_utf16 c)"

lemma elem_at_append:
  assumes "length pre + k < 2 ^ 64"
  shows "elem_at (pre @ xs) (of_nat (length pre) + of_nat k) = (if k < length xs then Some (xs ! k) else None)"
proof -
  have "unat (of_nat (length pre) + of_nat k :: u64) = length pre + k"
    using assms by (simp add: unat_of_nat take_bit_eq_mod flip: of_nat_add)
  then show ?thesis by (simp add: elem_at_def nth_append)
qed

lemma elem_at_simps:
  assumes "length pre + 4 < 2 ^ 64"
  shows "elem_at (pre @ xs) (of_nat (length pre)) = (if xs = [] then None else Some (hd xs))"
    "elem_at (pre @ xs) (of_nat (length pre) + 1) = (if 1 < length xs then Some (xs ! 1) else None)"
    "elem_at (pre @ xs) (of_nat (length pre) + 2) = (if 2 < length xs then Some (xs ! 2) else None)"
    "elem_at (pre @ xs) (of_nat (length pre) + 3) = (if 3 < length xs then Some (xs ! 3) else None)"
    "elem_at (pre @ xs) (2 + of_nat (length pre)) = (if 2 < length xs then Some (xs ! 2) else None)"
    "elem_at (pre @ xs) (3 + of_nat (length pre)) = (if 3 < length xs then Some (xs ! 3) else None)"
  using elem_at_append [of pre 0 xs] elem_at_append [of pre 1 xs] elem_at_append [of pre 2 xs] elem_at_append [of pre 3 xs] assms
  by (simp_all add: hd_conv_nth add.commute)

lemma utf8_sizes:
  assumes "c < 0x110000" "c \<noteq> 0"
  shows "length (utf8_of c) = unat (codepoint_utf8_size c)" "codepoint_utf8_size c \<noteq> 0" "sprint_unicode c = utf8_of c @ [0]"
    "length (utf8_of c) \<le> 4" "hd (utf8_of c) \<noteq> 0" "utf8_of c \<noteq> []"
proof -
  have c: "c < 0x200000" "0 < c" using assms by (simp_all add: word_less_nat_alt word_neq_0_conv)
  have h: "c < 0x80 \<Longrightarrow> (ucast c :: byte) \<noteq> 0" using single(1) [of c] assms(2) by auto
  show "length (utf8_of c) = unat (codepoint_utf8_size c)" "codepoint_utf8_size c \<noteq> 0" "sprint_unicode c = utf8_of c @ [0]"
    "length (utf8_of c) \<le> 4" "utf8_of c \<noteq> []"
    using assms c by (simp_all add: utf8_of_def sprint_unicode_def codepoint_utf8_size_def Let_def)
  show "hd (utf8_of c) \<noteq> 0" using c h lead2(1) [of c] lead3(1) [of c] lead4(1) [of c]
    by (auto simp: utf8_of_def sprint_unicode_def Let_def)
qed

lemma utf16_sizes:
  assumes "c < 0x110000" "c \<noteq> 0"
  shows "length (utf16_of c) = unat (codepoint_utf16_size c)" "codepoint_utf16_size c \<noteq> 0" "sprint_utf16 c = utf16_of c @ [0]"
    "length (utf16_of c) \<le> 2" "utf16_of c \<noteq> []"
  using assms by (auto simp: utf16_of_def sprint_utf16_def codepoint_utf16_size_def Let_def word_neq_0_conv)

lemma continues_simps:
  "continues c i 1 = do { b \<leftarrow> elem_at c i; Some (b AND 0xC0 = 0x80) }"
  "continues c i 2 = do { b \<leftarrow> elem_at c i; if b AND 0xC0 = 0x80 then continues c (i + 1) 1 else Some False }"
  "continues c i 3 = do { b \<leftarrow> elem_at c i; if b AND 0xC0 = 0x80 then continues c (i + 1) 2 else Some False }"
  by (simp_all add: numeral_3_eq_3 numeral_2_eq_2 bind_eq_Some_conv if_distrib cong: if_cong) (auto split: Option.bind_split)

lemma decode1:
  assumes n: "length pre + 4 < 2 ^ 64"
  shows "b0 AND 0x80 = 0 \<Longrightarrow> utf8_to_unicode32 (pre @ b0 # rest) (of_nat (length pre)) = Some (ucast b0, of_nat (length pre))"
  by (simp add: utf8_to_unicode32_def utf8_char_size_def elem_at_simps [OF n])

lemma decode2:
  assumes n: "length pre + 4 < 2 ^ 64"
  shows "b0 AND 0x80 \<noteq> 0 \<Longrightarrow> b0 AND 0xE0 = 0xC0 \<Longrightarrow> b1 AND 0xC0 = 0x80 \<Longrightarrow>
  utf8_to_unicode32 (pre @ b0 # b1 # rest) (of_nat (length pre)) =
    Some (push_bit 6 (ucast (b0 AND 31)) OR (ucast b1 AND 63), of_nat (length pre) + 1)"
  by (simp add: utf8_to_unicode32_def utf8_char_size_def elem_at_simps [OF n] continues_simps)

lemma decode3:
  assumes n: "length pre + 4 < 2 ^ 64"
  shows "b0 AND 0x80 \<noteq> 0 \<Longrightarrow> b0 AND 0xE0 \<noteq> 0xC0 \<Longrightarrow> b0 AND 0xF0 = 0xE0 \<Longrightarrow> b1 AND 0xC0 = 0x80 \<Longrightarrow> b2 AND 0xC0 = 0x80 \<Longrightarrow>
  utf8_to_unicode32 (pre @ b0 # b1 # b2 # rest) (of_nat (length pre)) =
    Some (push_bit 6 (push_bit 6 (ucast (b0 AND 15)) OR (ucast b1 AND 63)) OR (ucast b2 AND 63), of_nat (length pre) + 2)"
  by (simp add: utf8_to_unicode32_def utf8_char_size_def elem_at_simps [OF n] continues_simps)

lemma decode4:
  assumes n: "length pre + 4 < 2 ^ 64"
  shows "b0 AND 0x80 \<noteq> 0 \<Longrightarrow> b0 AND 0xE0 \<noteq> 0xC0 \<Longrightarrow> b0 AND 0xF0 \<noteq> 0xE0 \<Longrightarrow> b0 AND 0xF8 = 0xF0 \<Longrightarrow>
  b1 AND 0xC0 = 0x80 \<Longrightarrow> b2 AND 0xC0 = 0x80 \<Longrightarrow> b3 AND 0xC0 = 0x80 \<Longrightarrow>
  utf8_to_unicode32 (pre @ b0 # b1 # b2 # b3 # rest) (of_nat (length pre)) =
    Some (push_bit 6 (push_bit 6 (push_bit 6 (ucast (b0 AND 7)) OR (ucast b1 AND 63)) OR (ucast b2 AND 63)) OR (ucast b3 AND 63),
      of_nat (length pre) + 3)"
  by (simp add: utf8_to_unicode32_def utf8_char_size_def elem_at_simps [OF n] continues_simps)

lemma utf8_of_parts:
  "c < 0x80 \<Longrightarrow> c \<noteq> 0 \<Longrightarrow> utf8_of c = [ucast c]"
  "\<not> c < 0x80 \<Longrightarrow> c < 0x800 \<Longrightarrow> utf8_of c = [ucast (drop_bit 6 c) OR 0xC0, low_bits c]"
  "\<not> c < 0x80 \<Longrightarrow> \<not> c < 0x800 \<Longrightarrow> c < 0x10000 \<Longrightarrow> utf8_of c = [ucast (drop_bit 12 c) OR 0xE0, low_bits (drop_bit 6 c), low_bits c]"
  "\<not> c < 0x80 \<Longrightarrow> \<not> c < 0x800 \<Longrightarrow> \<not> c < 0x10000 \<Longrightarrow> c < 0x200000 \<Longrightarrow>
     utf8_of c = [ucast (drop_bit 18 c) OR 0xF0, low_bits (drop_bit 12 c), low_bits (drop_bit 6 c), low_bits c]"
  by (simp_all add: utf8_of_def sprint_unicode_def Let_def low_bits_def word_neq_0_conv)

lemma decode_utf8:
  assumes c: "c < 0x110000" "c \<noteq> 0" and n: "length pre + 4 < 2 ^ 64"
  shows "utf8_to_unicode32 (pre @ utf8_of c @ rest) (of_nat (length pre)) = Some (c, of_nat (length pre) + (codepoint_utf8_size c - 1))"
proof -
  have c2: "c < 0x200000" using c by (simp add: word_less_nat_alt)
  consider "c < 0x80" | "\<not> c < 0x80" "c < 0x800" | "\<not> c < 0x80" "\<not> c < 0x800" "c < 0x10000"
    | "\<not> c < 0x80" "\<not> c < 0x800" "\<not> c < 0x10000" by blast
  then show ?thesis
  proof cases
    case 1
    show ?thesis using decode1 [OF n single(2) [OF 1]] 1
      by (simp only: utf8_of_parts(1) [OF 1 c(2)] single(1) [OF 1]) (simp add: codepoint_utf8_size_def)
  next
    case 2
    show ?thesis using 2
      by (simp only: utf8_of_parts(2) [OF 2] append_Cons append_Nil decode2 [OF n lead2(1,2) [OF 2(2)] low_bits(1)] low_bits(3) lead2(3) [OF 2(2)])
        (simp add: codepoint_utf8_size_def)
  next
    case 3
    show ?thesis using 3
      by (simp only: utf8_of_parts(3) [OF 3] append_Cons append_Nil decode3 [OF n lead3(1-3) [OF 3(3)] low_bits(1) low_bits(1)] low_bits(3)
          lead3(4) [OF 3(3)]) (simp add: codepoint_utf8_size_def)
  next
    case 4
    show ?thesis using 4 c c2
      by (simp only: utf8_of_parts(4) [OF 4 c2] append_Cons append_Nil decode4 [OF n lead4(1-4) [OF c2] low_bits(1) low_bits(1) low_bits(1)] low_bits(3)
          lead4(5) [OF c2]) (simp add: codepoint_utf8_size_def)
  qed
qed

text \<open>A code point other than a surrogate survives UTF-16.\<close>

lemma surrogate_units:
  fixes d :: u32 assumes "d < 0x100000"
  shows "0xD800 + ucast (drop_bit 10 d) = (0xD800 OR ucast (drop_bit 10 d) :: u16)" "0xDC00 + ucast (d AND 0x3FF) = (0xDC00 OR ucast (d AND 0x3FF) :: u16)"
    "push_bit 10 (ucast (0xD800 OR ucast (drop_bit 10 d) :: u16) AND 0x3FF) OR (ucast (0xDC00 OR ucast (d AND 0x3FF) :: u16) AND 0x3FF) = d"
proof -
  have z: "(0xD800 :: u16) AND ucast (drop_bit 10 d) = 0" "(0xDC00 :: u16) AND ucast (d AND 0x3FF) = 0"
    using small_bits [OF assms, of 20] by (auto simp: eq16 all_below bit_simps)
  show "0xD800 + ucast (drop_bit 10 d) = (0xD800 OR ucast (drop_bit 10 d) :: u16)" "0xDC00 + ucast (d AND 0x3FF) = (0xDC00 OR ucast (d AND 0x3FF) :: u16)"
    by (rule disjunctive_add_eq_or, rule z)+
qed (use small_bits [OF assms, of 20] in \<open>auto simp: eq32 all_below bit_simps\<close>)

definition scalar :: "u32 \<Rightarrow> bool" where
  "scalar c \<longleftrightarrow> c \<noteq> 0 \<and> c < 0x110000 \<and> \<not> (0xD800 \<le> c \<and> c < 0xE000)"

lemma elem_at_simps16: "elem_at (pre @ x # xs) (of_nat (length pre)) = Some x"
  "elem_at (pre @ x # y # ys) (of_nat (length pre) + 1) = Some y" if "length pre + 4 < 2 ^ 64"
  using elem_at_simps [OF that] by simp_all

lemma decode_utf16:
  assumes c: "scalar c" and n: "length pre + 4 < 2 ^ 64"
  shows "utf16_to_unicode32 (pre @ utf16_of c @ rest) (of_nat (length pre)) = Some (c, of_nat (length pre) + (codepoint_utf16_size c - 1))"
proof (cases "c < 0x10000")
  case True
  have u: "unat (ucast c :: u16) = unat c" using True by (simp add: unsigned_ucast_eq take_bit_eq_mod word_less_nat_alt)
  have "(ucast c :: u16) \<le> 0xD7FF \<or> (ucast c :: u16) \<ge> 0xE000"
    using c by (simp add: scalar_def word_le_nat_alt word_less_nat_alt u) linarith
  moreover have "ucast (ucast c :: u16) = c" using small_bits [OF True, of 16] by (auto simp: eq32 all_below bit_simps)
  ultimately show ?thesis using True c
    by (simp add: utf16_of_def sprint_utf16_def codepoint_utf16_size_def utf16_to_unicode32_def utf16_char_size_def elem_at_simps16 [OF n] scalar_def
        word_neq_0_conv)
next
  case False
  define d where "d = c - 0x10000"
  have d: "d < 0x100000" "c = d + 0x10000" using False c by (auto simp: d_def scalar_def word_less_nat_alt unat_sub_if')
  note units = surrogate_units [OF d(1)]
  define x where "x = (ucast (drop_bit 10 d) :: u16)"
  define lo where "lo = (0xDC00 + ucast (d AND 0x3FF) :: u16)"
  have x: "unat x < 0x400"
  proof -
    have "unat x \<le> unat d div 1024"
      by (simp add: x_def unsigned_ucast_eq take_bit_eq_mod unat_drop_bit_eq drop_bit_eq_div unat_div)
    moreover have "unat d div 1024 < 0x400" using d(1) by (simp add: word_less_nat_alt less_mult_imp_div_less)
    ultimately show ?thesis by simp
  qed
  then have "unat (0xD800 + x) = 0xD800 + unat x" by (simp add: unat_word_ariths)
  with x have h: "\<not> 0xD800 + x \<le> 0xD7FF" "\<not> 0xE000 \<le> 0xD800 + x" by (simp_all add: word_le_nat_alt)
  have "bit lo 15" unfolding lo_def units(2) by (simp add: bit_simps)
  then have l: "lo \<noteq> 0" by auto
  have "utf16_of c = [0xD800 + x, lo]" "codepoint_utf16_size c = 2"
    using False c by (simp_all add: utf16_of_def sprint_utf16_def codepoint_utf16_size_def scalar_def x_def lo_def d_def Let_def)
  moreover have "push_bit 10 (ucast (0xD800 + x) AND 0x3FF) OR (ucast lo AND 0x3FF) = d"
    using units(3) unfolding x_def lo_def units(1,2) .
  ultimately show ?thesis
    using h l d(2) by (simp add: utf16_to_unicode32_def utf16_char_size_def elem_at_simps16 [OF n])
qed

section \<open>Transcoding a text\<close>

text \<open>Both directions are the same loop over a decoder and an encoder.\<close>

lemma put_all_append:
  assumes "length vs \<le> length zs" "length q + length zs < 2 ^ 64"
  shows "put_all (q @ zs) (of_nat (length q)) vs = Some (q @ vs @ drop (length vs) zs)"
  using assms
proof (induction vs arbitrary: q zs)
  case (Cons v vs)
  from Cons.prems obtain z zs' where zs: "zs = z # zs'" by (cases zs) auto
  have u: "unat (of_nat (length q) :: u64) = length q" using Cons.prems by (simp add: unat_of_nat take_bit_eq_mod)
  have "put_all ((q @ [v]) @ zs') (of_nat (length (q @ [v]))) vs = Some ((q @ [v]) @ vs @ drop (length vs) zs')"
    using Cons.prems zs by (intro Cons.IH) auto
  then show ?case using u zs by (simp add: add.commute)
qed simp

locale transcoding =
  fixes decode :: "('a :: zero) list \<Rightarrow> u64 \<Rightarrow> (u32 \<times> u64) option"
    and source_units :: "u32 \<Rightarrow> 'a list"
    and put :: "u32 \<Rightarrow> ('b :: zero) list" and units :: "u32 \<Rightarrow> 'b list" and unit_count :: "u32 \<Rightarrow> u64"
    and measure_from :: "'a list \<Rightarrow> u64 \<Rightarrow> u64 \<Rightarrow> u64 option"
    and convert_from :: "'a list \<Rightarrow> u64 \<Rightarrow> u64 \<Rightarrow> 'b list \<Rightarrow> 'b list option"
  assumes measure_step: "measure_from str i n =
      do { x \<leftarrow> elem_at str i;
           (if x = 0 then Some n else do { (c, i1) \<leftarrow> decode str i; measure_from str (i1 + 1) (n + unit_count c) }) }"
    and convert_step: "convert_from str i j dst =
      do { (c, i1) \<leftarrow> decode str i; dst1 \<leftarrow> put_all dst j (put c);
           (if c = 0 then Some dst1 else convert_from str (i1 + 1) (j + unit_count c) dst1) }"
    and decode_units: "scalar c \<Longrightarrow> length pre + 4 < 2 ^ 64 \<Longrightarrow>
      decode (pre @ source_units c @ rest) (of_nat (length pre)) = Some (c, of_nat (length pre) + of_nat (length (source_units c)) - 1)"
    and decode_end: "length pre + 4 < 2 ^ 64 \<Longrightarrow> decode (pre @ [0]) (of_nat (length pre)) = Some (0, of_nat (length pre))"
    and source_units_start: "scalar c \<Longrightarrow> source_units c \<noteq> [] \<and> hd (source_units c) \<noteq> 0"
    and put_units: "scalar c \<Longrightarrow> put c = units c @ [0]" "put 0 = [0]"
    and unit_count: "scalar c \<Longrightarrow> unit_count c = of_nat (length (units c))"
begin

abbreviation source :: "u32 list \<Rightarrow> 'a list" where
  "source cs \<equiv> concat (map source_units cs)"

abbreviation target :: "u32 list \<Rightarrow> 'b list" where
  "target cs \<equiv> concat (map units cs)"

lemma measure:
  assumes "list_all scalar cs" "length pre + length (source cs) + 5 < 2 ^ 64"
  shows "measure_from (pre @ source cs @ [0]) (of_nat (length pre)) n = Some (n + of_nat (length (target cs)))"
  using assms
proof (induction cs arbitrary: pre n)
  case Nil
  then show ?case using elem_at_simps(1) [of pre "[0 :: 'a]"] by (subst measure_step) simp
next
  case (Cons c cs)
  then have c: "scalar c" "list_all scalar cs" by simp_all
  have "measure_from ((pre @ source_units c) @ source cs @ [0]) (of_nat (length (pre @ source_units c))) (n + unit_count c) =
      Some (n + unit_count c + of_nat (length (target cs)))"
    using Cons.prems c by (intro Cons.IH) auto
  moreover have "elem_at (pre @ source_units c @ source cs @ [0]) (of_nat (length pre)) = Some (hd (source_units c))"
    using elem_at_simps(1) [of pre "source_units c @ source cs @ [0]"] source_units_start [OF c(1)] Cons.prems by simp
  moreover have "decode (pre @ source_units c @ source cs @ [0]) (of_nat (length pre)) =
      Some (c, of_nat (length pre) + of_nat (length (source_units c)) - 1)"
    using Cons.prems by (intro decode_units [OF c(1)]) auto
  ultimately show ?case
    using source_units_start [OF c(1)] by (subst measure_step) (simp add: unit_count [OF c(1)] add.assoc)
qed

lemma convert:
  assumes "list_all scalar cs" "length pre + length (source cs) + 5 < 2 ^ 64" "length q + length zs < 2 ^ 64"
    and "length zs = length (target cs) + 1"
  shows "convert_from (pre @ source cs @ [0]) (of_nat (length pre)) (of_nat (length q)) (q @ zs) = Some (q @ target cs @ [0])"
  using assms
proof (induction cs arbitrary: pre q zs)
  case Nil
  then show ?case using decode_end [of pre] put_all_append [of "[0]" zs q] by (subst convert_step) (simp add: put_units(2))
next
  case (Cons c cs)
  then have c: "scalar c" "list_all scalar cs" by simp_all
  let ?zs = "0 # drop (length (units c) + 1) zs"
  have len: "length (units c) + 1 \<le> length zs" "length ?zs = length (target cs) + 1"
    using Cons.prems by (auto simp: Suc_diff_le)
  have "convert_from ((pre @ source_units c) @ source cs @ [0]) (of_nat (length (pre @ source_units c))) (of_nat (length (q @ units c)))
      ((q @ units c) @ ?zs) = Some ((q @ units c) @ target cs @ [0])"
    using Cons.prems c len by (intro Cons.IH) auto
  moreover have "put_all (q @ zs) (of_nat (length q)) (put c) = Some ((q @ units c) @ ?zs)"
    using put_all_append [of "put c" zs q] len Cons.prems by (simp add: put_units(1) [OF c(1)])
  moreover have "decode (pre @ source_units c @ source cs @ [0]) (of_nat (length pre)) =
      Some (c, of_nat (length pre) + of_nat (length (source_units c)) - 1)"
    using Cons.prems by (intro decode_units [OF c(1)]) auto
  ultimately show ?case
    using c(1) by (subst convert_step) (simp add: unit_count [OF c(1)] scalar_def)
qed

end

text \<open>The two directions.\<close>

lemma decode_nul8: "length pre + 4 < 2 ^ 64 \<Longrightarrow> utf8_to_unicode32 (pre @ [0]) (of_nat (length pre)) = Some (0, of_nat (length pre))"
  using decode1 [of pre 0 "[]"] by simp

lemma decode_nul16: "length pre + 4 < 2 ^ 64 \<Longrightarrow> utf16_to_unicode32 (pre @ [0]) (of_nat (length pre)) = Some (0, of_nat (length pre))"
  using elem_at_simps16(1) [of pre 0 "[]"] by (simp add: utf16_to_unicode32_def utf16_char_size_def)

lemma utf16_of_start: "scalar c \<Longrightarrow> hd (utf16_of c) \<noteq> 0"
proof -
  assume c: "scalar c"
  show ?thesis
  proof (cases "c < 0x10000")
    case True
    then have "ucast (ucast c :: u16) = c" using small_bits [OF True, of 16] by (auto simp: eq32 all_below bit_simps)
    moreover have "c \<noteq> 0" using c by (simp add: scalar_def)
    ultimately have "(ucast c :: u16) \<noteq> 0" by (metis unsigned_0)
    then show ?thesis using True c by (auto simp: utf16_of_def sprint_utf16_def codepoint_utf16_size_def scalar_def word_neq_0_conv)
  next
    case False
    then have d: "c - 0x10000 < 0x100000" using c by (auto simp: scalar_def word_less_nat_alt unat_sub_if')
    have "bit (0xD800 + ucast (drop_bit 10 (c - 0x10000)) :: u16) 15" unfolding surrogate_units(1) [OF d] by (simp add: bit_simps)
    then have "0xD800 + ucast (drop_bit 10 (c - 0x10000)) \<noteq> (0 :: u16)" by auto
    then show ?thesis using False c by (simp add: utf16_of_def sprint_utf16_def codepoint_utf16_size_def scalar_def Let_def)
  qed
qed

lemma put_zero: "sprint_utf16 0 = [0]" "sprint_unicode 0 = [0]"
  by (simp_all add: sprint_utf16_def sprint_unicode_def codepoint_utf16_size_def)

interpretation utf8_utf16: transcoding utf8_to_unicode32 utf8_of sprint_utf16 utf16_of codepoint_utf16_size strlen_utf8_to_utf16_from utf8_to_utf16_from
proof unfold_locales
  fix c and pre rest :: "byte list"
  assume "scalar c" "length pre + 4 < 2 ^ 64"
  then show "utf8_to_unicode32 (pre @ utf8_of c @ rest) (of_nat (length pre)) = Some (c, of_nat (length pre) + of_nat (length (utf8_of c)) - 1)"
    using decode_utf8 [of c pre rest] utf8_sizes(1) [of c] by (simp add: scalar_def)
qed (rule strlen_utf8_to_utf16_from.simps, rule utf8_to_utf16_from.simps, auto simp: scalar_def utf8_sizes utf16_sizes decode_nul8 put_zero)

interpretation utf16_utf8: transcoding utf16_to_unicode32 utf16_of sprint_unicode utf8_of codepoint_utf8_size strlen_utf16_to_utf8_from utf16_to_utf8_from
proof unfold_locales
  fix c and pre rest :: "u16 list"
  assume "scalar c" "length pre + 4 < 2 ^ 64"
  then show "utf16_to_unicode32 (pre @ utf16_of c @ rest) (of_nat (length pre)) = Some (c, of_nat (length pre) + of_nat (length (utf16_of c)) - 1)"
    using decode_utf16 [of c pre rest] utf16_sizes(1) [of c] by (simp add: scalar_def)
qed (rule strlen_utf16_to_utf8_from.simps, rule utf16_to_utf8_from.simps, auto simp: utf16_of_start scalar_def utf8_sizes utf16_sizes decode_nul16 put_zero)

definition utf8_text :: "u32 list \<Rightarrow> byte list" where
  "utf8_text cs = concat (map utf8_of cs) @ [0]"

lemma utf8_length: "list_all scalar cs \<Longrightarrow> length (concat (map utf8_of cs)) \<le> 4 * length cs"
  by (induction cs) (use utf8_sizes(4) in \<open>force simp: scalar_def\<close>)+

lemma utf16_length: "list_all scalar cs \<Longrightarrow> length (concat (map utf16_of cs)) \<le> 2 * length cs"
  by (induction cs) (use utf16_sizes(4) in \<open>force simp: scalar_def\<close>)+

lemma unat_plus_one: "n < 2 ^ 63 \<Longrightarrow> unat (of_nat n + 1 :: u64) = n + 1"
proof -
  assume "n < 2 ^ 63"
  then have "unat (of_nat (n + 1) :: u64) = n + 1" by (simp add: unat_of_nat take_bit_eq_mod del: of_nat_Suc of_nat_add)
  then show ?thesis by (simp add: add.commute)
qed

text \<open>
  C36. A text of valid code points goes through UTF-16 and back unchanged: converting its UTF-8 form to UTF-16
  and that to UTF-8 allocates exactly what is needed each time and gives the original bytes.
\<close>

theorem utf8_through_utf16:
  assumes "list_all scalar cs" and "length cs < 2 ^ 60"
  shows "\<exists>units. utf8_to_utf16 (Some (utf8_text cs)) None = Some (Some units) \<and>
    length units = length (concat (map utf16_of cs)) + 1 \<and> utf16_to_utf8 (Some units) None = Some (Some (utf8_text cs))"
proof -
  let ?u8 = "concat (map utf8_of cs)" and ?u16 = "concat (map utf16_of cs)"
  have len: "length ?u8 < 2 ^ 63" "length ?u16 < 2 ^ 63"
    using utf8_length [OF assms(1)] utf16_length [OF assms(1)] assms(2) by simp_all
  have n: "unat (of_nat (length ?u8) + 1 :: u64) = length ?u8 + 1" "unat (of_nat (length ?u16) + 1 :: u64) = length ?u16 + 1"
    using len unat_plus_one [of "length ?u8"] unat_plus_one [of "length ?u16"] by simp_all
  have "strlen_utf8_to_utf16 (utf8_text cs) = Some (of_nat (length ?u16))"
    using utf8_utf16.measure [OF assms(1), of "[]" 0] len by (simp add: strlen_utf8_to_utf16_def utf8_text_def)
  moreover have "utf8_to_utf16_from (utf8_text cs) 0 0 (replicate (length ?u16 + 1) 0) = Some (?u16 @ [0])"
    using utf8_utf16.convert [OF assms(1), of "[]" "[]" "replicate (length ?u16 + 1) 0"] len by (simp add: utf8_text_def)
  ultimately have there: "utf8_to_utf16 (Some (utf8_text cs)) None = Some (Some (?u16 @ [0]))"
    by (simp add: utf8_to_utf16_def n)
  have "strlen_utf16_to_utf8 (?u16 @ [0]) = Some (of_nat (length ?u8))"
    using utf16_utf8.measure [OF assms(1), of "[]" 0] len by (simp add: strlen_utf16_to_utf8_def)
  moreover have "utf16_to_utf8_from (?u16 @ [0]) 0 0 (replicate (length ?u8 + 1) 0) = Some (?u8 @ [0])"
    using utf16_utf8.convert [OF assms(1), of "[]" "[]" "replicate (length ?u8 + 1) 0"] len by simp
  ultimately have back_again: "utf16_to_utf8 (Some (?u16 @ [0])) None = Some (Some (utf8_text cs))"
    by (simp add: utf16_to_utf8_def n utf8_text_def)
  show ?thesis using there back_again by auto
qed

theorem utf8_through_utf16_witness:
  "\<exists>units. utf8_to_utf16 (Some (utf8_text [0x41, 0xE9, 0x20AC, 0x1F600])) None = Some (Some units) \<and> length units = 6 \<and>
     utf16_to_utf8 (Some units) None = Some (Some [0x41, 0xC3, 0xA9, 0xE2, 0x82, 0xAC, 0xF0, 0x9F, 0x98, 0x80, 0])"
proof -
  have "list_all scalar [0x41, 0xE9, 0x20AC, 0x1F600]" by (simp add: scalar_def)
  moreover have "utf8_text [0x41, 0xE9, 0x20AC, 0x1F600] = [0x41, 0xC3, 0xA9, 0xE2, 0x82, 0xAC, 0xF0, 0x9F, 0x98, 0x80, 0]"
    by code_simp
  moreover have "length (concat (map utf16_of [0x41, 0xE9, 0x20AC, 0x1F600])) = 5" by code_simp
  ultimately show ?thesis using utf8_through_utf16 [of "[0x41, 0xE9, 0x20AC, 0x1F600]"] by simp
qed

section \<open>A corrupt text\<close>

interpretation measuring: program_loop "measure_round str" "\<lambda>(i, n). strlen_utf8_to_utf16_from str i n" for str
proof (unfold_locales, goal_cases)
  case (1 s)
  show ?case
    by (cases s) (subst strlen_utf8_to_utf16_from.simps, simp add: measure_round_def split: Option.bind_split prod.split)
next
  case (2 s y)
  then have "strlen_utf8_to_utf16_from str (fst s) (snd s) = Some y" by (simp add: case_prod_unfold)
  then have "\<exists>k. rounds (measure_round str) k (fst s, snd s) = Some (Inr y)"
  proof (rule strlen_utf8_to_utf16_from.raw_induct [where P = "\<lambda>str i n y. \<exists>k. rounds (measure_round str) k (i, n) = Some (Inr y)", rotated])
    fix f str i n y
    assume IH: "\<And>str i n y. f str i n = Some y \<Longrightarrow> \<exists>k. rounds (measure_round str) k (i, n) = Some (Inr y)"
      and body: "do { s \<leftarrow> elem_at str i; if s = 0 then Some n
          else do { (c, i1) \<leftarrow> utf8_to_unicode32 str i; f str (i1 + 1) (n + codepoint_utf16_size c) } } = Some y"
    show "\<exists>k. rounds (measure_round str) k (i, n) = Some (Inr y)"
    proof (cases "measure_round str (i, n)")
      case None
      with body show ?thesis by (auto simp: measure_round_def split: bind_splits if_split_asm)
    next
      case (Some x)
      show ?thesis
      proof (cases x)
        case (Inl t)
        with Some body have "f str (fst t) (snd t) = Some y" by (auto simp: measure_round_def split: bind_splits if_split_asm)
        from IH [OF this] obtain k where "rounds (measure_round str) k t = Some (Inr y)" by auto
        with Some Inl have "rounds (measure_round str) (Suc k) (i, n) = Some (Inr y)" by simp
        then show ?thesis by blast
      next
        case (Inr z)
        with Some body have "z = y" by (auto simp: measure_round_def split: bind_splits if_split_asm)
        with Some Inr have "rounds (measure_round str) 1 (i, n) = Some (Inr y)" by simp
        then show ?thesis by blast
      qed
    qed
  qed
  then show ?case by simp
qed

text \<open>What the size of a character depends on.\<close>

lemma elem_at_shift:
  assumes "length pre + unat j < 2 ^ 64"
  shows "elem_at (pre @ xs) (of_nat (length pre) + j) = elem_at xs j"
proof -
  have "unat (of_nat (length pre) + j :: u64) = length pre + unat j"
    using assms by (simp add: unat_word_ariths(1) unat_of_nat take_bit_eq_mod)
  then show ?thesis by (simp add: elem_at_def nth_append)
qed

lemma char_size_shift:
  assumes "length pre + 4 < 2 ^ 64"
  shows "utf8_char_size (pre @ xs) (of_nat (length pre)) = utf8_char_size xs 0"
proof -
  have e: "elem_at (pre @ xs) (of_nat (length pre) + 1) = elem_at xs 1"
    "elem_at (pre @ xs) (of_nat (length pre) + 1 + 1) = elem_at xs (1 + 1)"
    "elem_at (pre @ xs) (of_nat (length pre) + 1 + 1 + 1) = elem_at xs (1 + 1 + 1)"
    using elem_at_shift [of pre 1 xs] elem_at_shift [of pre 2 xs] elem_at_shift [of pre 3 xs] assms by (simp_all add: add.assoc)
  have "elem_at (pre @ xs) (of_nat (length pre)) = elem_at xs 0" using elem_at_shift [of pre 0 xs] assms by simp
  then show ?thesis by (simp only: utf8_char_size_def continues_simps e add_0)
qed

text \<open>A valid character is passed in one round.\<close>

lemma measure_valid:
  assumes "scalar c" "length pre + 4 < 2 ^ 64"
  shows "measure_round (pre @ utf8_of c @ rest) (of_nat (length pre), n) =
    Some (Inl (of_nat (length (pre @ utf8_of c)), n + codepoint_utf16_size c))"
proof -
  have "utf8_of c \<noteq> []" "hd (utf8_of c) \<noteq> 0" using utf8_sizes(5,6) [of c] assms(1) by (auto simp: scalar_def)
  then have "elem_at (pre @ utf8_of c @ rest) (of_nat (length pre)) = Some (hd (utf8_of c))" "hd (utf8_of c) \<noteq> 0"
    using elem_at_simps(1) [OF assms(2), of "utf8_of c @ rest"] by simp_all
  then show ?thesis using utf8_utf16.decode_units [OF assms, of rest] by (simp add: measure_round_def)
qed

lemma measure_prefix:
  assumes "list_all scalar cs" "length pre + length (concat (map utf8_of cs)) + 4 < 2 ^ 64"
    and "\<And>m. never_ends (measure_round (pre @ concat (map utf8_of cs) @ rest)) (of_nat (length (pre @ concat (map utf8_of cs))), m)"
  shows "never_ends (measure_round (pre @ concat (map utf8_of cs) @ rest)) (of_nat (length pre), n)"
  using assms
proof (induction cs arbitrary: pre n)
  case (Cons c cs)
  have "never_ends (measure_round ((pre @ utf8_of c) @ concat (map utf8_of cs) @ rest)) (of_nat (length (pre @ utf8_of c)), n + codepoint_utf16_size c)"
    using Cons.prems by (intro Cons.IH) (simp_all add: add.assoc)
  then have later: "never_ends (measure_round (pre @ concat (map utf8_of (c # cs)) @ rest)) (of_nat (length (pre @ utf8_of c)), n + codepoint_utf16_size c)"
    by simp
  have "measure_round (pre @ concat (map utf8_of (c # cs)) @ rest) (of_nat (length pre), n) =
      Some (Inl (of_nat (length (pre @ utf8_of c)), n + codepoint_utf16_size c))"
    using measure_valid [of c pre "concat (map utf8_of cs) @ rest" n] Cons.prems(1,2) by simp
  then show ?case using later by (rule never_ends_step)
qed simp

text \<open>The plain character before a byte whose size is minus one: the next round steps back to it.\<close>

lemma measure_stuck:
  assumes "a \<noteq> 0" "a AND 0x80 = 0" "utf8_char_size bad 0 = Some (- 1)" "length pre + 5 < 2 ^ 64"
  shows "never_ends (measure_round (pre @ a # bad)) (of_nat (length pre), n)"
proof -
  let ?str = "pre @ a # bad" and ?i = "of_nat (length pre) :: u64"
  have ahead: "measure_round ?str (?i, n) = Some (Inl (?i + 1, n + codepoint_utf16_size (ucast a)))" for n
    using decode1 [of pre a bad] elem_at_simps(1) [of pre "a # bad"] assms by (simp add: measure_round_def)
  have size: "utf8_char_size ?str (?i + 1) = Some (- 1)"
    using char_size_shift [of "pre @ [a]" bad] assms(3,4) by (simp add: add.commute)
  obtain b where b: "elem_at bad 0 = Some b" "b AND 0x80 \<noteq> 0"
    using assms(3) by (auto simp: utf8_char_size_def split: bind_splits if_split_asm)
  have "elem_at ?str (?i + 1) = elem_at bad 0" using elem_at_shift [of "pre @ [a]" 0 bad] assms(4) by (simp add: add.commute)
  moreover have "b \<noteq> 0" using b(2) by auto
  ultimately have again: "measure_round ?str (?i + 1, n) = Some (Inl (?i, n + codepoint_utf16_size (- 1)))" for n
    using b(1) size by (simp add: measure_round_def utf8_to_unicode32_def word_gt_0)
  show ?thesis
    by (rule never_ends_invariant [where I = "\<lambda>s. fst s = ?i \<or> fst s = ?i + 1"]) (use ahead again in force)+
qed

text \<open>
  C37. Measuring a text whose valid part ends in an ASCII character and goes on with a byte of size minus one
  (a lead byte without its continuation, or no lead byte at all) never ends: every round of the loop is defined, and from that byte it
  steps back to the character before.
\<close>

theorem measure_corrupt_never_ends:
  assumes "text = concat (map utf8_of cs) @ a # bad" and "list_all scalar cs"
    and "a \<noteq> 0" and "a AND 0x80 = 0" and "utf8_char_size bad 0 = Some (- 1)" and "length text + 5 < 2 ^ 64"
  shows "never_ends (measure_round text) (0, 0) \<and> strlen_utf8_to_utf16 text = None"
proof -
  have "never_ends (measure_round text) (of_nat (length (concat (map utf8_of cs))), m)" for m
    unfolding assms(1) using measure_stuck [OF assms(3-5), of "concat (map utf8_of cs)" m] assms(1,6) by simp
  then have never: "never_ends (measure_round text) (0, 0)"
    using measure_prefix [of cs "[]" "a # bad" 0] assms(1,2,6) by simp
  from measuring.never_returns [OF this] have "strlen_utf8_to_utf16 text = None" by (simp add: strlen_utf8_to_utf16_def)
  with never show ?thesis by blast
qed

theorem measure_corrupt_never_ends_witness:
  "never_ends (measure_round [0xC3, 0xA9, 0x61, 0xC3, 0x62, 0]) (0, 0) \<and> strlen_utf8_to_utf16 [0xC3, 0xA9, 0x61, 0xC3, 0x62, 0] = None"
proof (rule measure_corrupt_never_ends [where cs = "[0xE9]" and a = "0x61" and bad = "[0xC3, 0x62, 0]"])
  show "[0xC3, 0xA9, 0x61, 0xC3, 0x62, 0] = concat (map utf8_of [0xE9]) @ 0x61 # [0xC3, 0x62, 0]" by code_simp
qed (simp_all add: scalar_def utf8_char_size_def elem_at_def continues_simps)

end
