(* ===== verification/Text_Util.thy ===== *)
theory Text_Util
  imports Xxh64
begin

text \<open>
  The string, path and file-content helpers of \<open>wahelib/rl_utils/misc.c\<close>. A C string that is only
  read is the list of its characters without the terminator, a null pointer is \<^const>\<open>None\<close>, and a
  pointer into a string is the suffix it points to. Where the code writes into a string, the
  object is modelled with its terminator.
\<close>

section \<open>The C library functions the helpers use\<close>

fun strstr :: "string \<Rightarrow> string \<Rightarrow> string option" where
  "strstr s sub =
     (if take (length sub) s = sub then Some s
      else (case s of [] \<Rightarrow> None | _ # t \<Rightarrow> strstr t sub))"

declare strstr.simps [simp del]

fun strchr :: "string \<Rightarrow> char \<Rightarrow> string option" where
  "strchr [] c = None"
| "strchr (x # s) c = (if x = c then Some (x # s) else strchr s c)"

text \<open>The bytes of a string, and the characters at an object up to its terminator.\<close>

definition bytes_of_string :: "string \<Rightarrow> byte list" where
  "bytes_of_string s = map of_char s"

lemma length_bytes_of_string [simp]: "length (bytes_of_string s) = length s"
  by (simp add: bytes_of_string_def)

lemma bytes_of_string_append [simp]: "bytes_of_string (s @ t) = bytes_of_string s @ bytes_of_string t"
  by (simp add: bytes_of_string_def)

lemma bytes_of_string_Nil [simp]: "bytes_of_string [] = []"
  by (simp add: bytes_of_string_def)

fun c_string :: "string \<Rightarrow> string option" where
  "c_string [] = None"
| "c_string (c # s) = (if c = CHR 0x00 then Some [] else map_option ((#) c) (c_string s))"

section \<open>Copies, lines and fields\<close>

definition make_string_copy :: "string option \<Rightarrow> string option" where
  "make_string_copy orig = (case orig of None \<Rightarrow> None | Some s \<Rightarrow> Some (take (length s) s))"

definition make_string_copy_len :: "string option \<Rightarrow> nat \<Rightarrow> string option" where
  "make_string_copy_len orig len = (case orig of None \<Rightarrow> None | Some s \<Rightarrow> Some (take (min len (length s)) s))"

definition get_string_linecount :: "string option \<Rightarrow> nat \<Rightarrow> nat" where
  "get_string_linecount txt len =
     (case txt of
        None \<Rightarrow> 0
      | Some s \<Rightarrow>
          if s = [] then 0
          else (let n = (if len = 0 then length s else len)
                in 1 + length (List.filter (\<lambda>c. c = CHR ''\<newline>'') (take (n - 1) s))))"

text \<open>
  \<open>arrayise_text\<close> on the characters of the text: the loop keeps the text as it is changed, the
  array of line starts and the next array index; an index outside the array is \<^const>\<open>None\<close>. The
  result is the array, the line count and the changed text with its terminator.
\<close>

fun arrayise_loop :: "nat \<Rightarrow> nat \<Rightarrow> nat list \<Rightarrow> nat \<Rightarrow> string \<Rightarrow> (nat list \<times> string) option" where
  "arrayise_loop 0 i array ia txt = Some (array, txt)"
| "arrayise_loop (Suc n) i array ia txt =
     (if txt ! i = CHR ''\<newline>''
      then (if ia < length array
            then arrayise_loop n (i + 1) (array[ia := i + 1]) (ia + 1) (txt[i := CHR 0x00])
            else None)
      else arrayise_loop n (i + 1) array ia txt)"

definition arrayise_text :: "string option \<Rightarrow> (nat list option \<times> nat \<times> string) option" where
  "arrayise_text txt =
     (case txt of
        None \<Rightarrow> Some (None, 0, [])
      | Some s \<Rightarrow>
          let len = length s in
          if len = 0 then Some (Some [0], 0, [CHR 0x00])
          else (let linecount = get_string_linecount (Some s) len in
                do {
                  (array, txt') \<leftarrow> arrayise_loop (len - 1) 0 (replicate linecount 0) 1 (s @ [CHR 0x00]);
                  Some (Some array, linecount,
                        if txt' ! (len - 1) = CHR ''\<newline>'' then txt'[len - 1 := CHR 0x00] else txt')
                }))"

text \<open>The strings the array entries point to.\<close>

definition array_strings :: "nat list \<Rightarrow> string \<Rightarrow> string option list" where
  "array_strings array txt = map (\<lambda>k. c_string (drop k txt)) array"

definition strstr_after :: "string option \<Rightarrow> string option \<Rightarrow> string option" where
  "strstr_after fullstr substr =
     (case (fullstr, substr) of
        (Some f, Some s) \<Rightarrow> (case strstr f s of Some p \<Rightarrow> Some (drop (length s) p) | None \<Rightarrow> None)
      | _ \<Rightarrow> None)"

text \<open>The field count loops for ever on an empty delimiter.\<close>

partial_function (option) count_fields_loop :: "string option \<Rightarrow> string \<Rightarrow> nat \<Rightarrow> nat option" where
  "count_fields_loop p delim count =
     (case p of
        None \<Rightarrow> Some count
      | Some q \<Rightarrow> count_fields_loop (strstr_after (Some q) (Some delim)) delim (count + 1))"

definition string_count_fields :: "string option \<Rightarrow> string \<Rightarrow> nat option" where
  "string_count_fields str delim = count_fields_loop str delim 0"

fun find_string_from :: "string \<Rightarrow> string list \<Rightarrow> nat \<Rightarrow> int" where
  "find_string_from str [] i = -1"
| "find_string_from str (a # as) i = (if str = a then int i else find_string_from str as (i + 1))"

definition find_string_in_string_array :: "string \<Rightarrow> string list \<Rightarrow> nat \<Rightarrow> int" where
  "find_string_in_string_array str array count = find_string_from str (take count array) 0"

section \<open>Paths\<close>

definition is_dirchar :: "char \<Rightarrow> bool" where
  "is_dirchar c \<longleftrightarrow> c = CHR ''/'' \<or> c = CHR 0x5C"

fun last_dirchar_below :: "string \<Rightarrow> nat \<Rightarrow> nat option" where
  "last_dirchar_below path 0 = None"
| "last_dirchar_below path (Suc i) = (if is_dirchar (path ! i) then Some i else last_dirchar_below path i)"

text \<open>The returned pointer is the offset into the path.\<close>

definition find_last_dirchar :: "string \<Rightarrow> bool \<Rightarrow> nat option" where
  "find_last_dirchar path ignore_trailing =
     (let len = int (length path) - (if ignore_trailing then 1 else 0)
      in if len \<le> 0 then Some 0 else last_dirchar_below path (nat len))"

text \<open>An offset past the terminator is a pointer that may not be read: \<^const>\<open>None\<close> inside the result.\<close>

definition get_filename_from_path :: "string option \<Rightarrow> string option option" where
  "get_filename_from_path fullpath =
     (case fullpath of
        None \<Rightarrow> Some None
      | Some path \<Rightarrow>
          (case find_last_dirchar path False of
             Some p \<Rightarrow> if p + 1 \<le> length path then Some (Some (drop (p + 1) path)) else None
           | None \<Rightarrow> Some (Some path)))"

text \<open>
  The caller's buffer, if it gives one, holds \<open>cap\<close> characters; the result is the contents of
  the returned buffer and of the caller's one.
\<close>

definition remove_name_from_path :: "nat option \<Rightarrow> string option \<Rightarrow> (string option \<times> string) option" where
  "remove_name_from_path cap fullpath =
     (case fullpath of
        None \<Rightarrow> Some (None, [])
      | Some path \<Rightarrow>
          (case find_last_dirchar path True of
             None \<Rightarrow> Some (None, [])
           | Some p \<Rightarrow>
               (case cap of
                  Some n \<Rightarrow> if p < n then Some (Some (take p path), take p path) else None
                | None \<Rightarrow> Some (Some (take p path), []))))"

definition DIR_CHAR :: char where "DIR_CHAR = CHR ''/''"

text \<open>The appended path, for a freshly allocated or a large enough destination.\<close>

definition append_name_to_path :: "string option \<Rightarrow> string option \<Rightarrow> string" where
  "append_name_to_path path name =
     (case (path, name) of
        (None, None) \<Rightarrow> []
      | (Some p, None) \<Rightarrow> p
      | (None, Some n) \<Rightarrow> n
      | (Some p, Some n) \<Rightarrow>
          if p \<noteq> [] \<and> last p = DIR_CHAR then p @ n else p @ [DIR_CHAR] @ n)"

definition MAX_PATH :: nat where "MAX_PATH = 4096"

text \<open>
  Creating directories, over a file system given by its two calls: whether a directory can be
  opened, and \<open>mkdir\<close>, which returns the new state and whether it succeeded.
\<close>

definition create_dir :: "('f \<Rightarrow> string \<Rightarrow> 'f \<times> bool) \<Rightarrow> 'f \<Rightarrow> string \<Rightarrow> 'f \<times> int" where
  "create_dir mkdir fs path = (let (fs', ok) = mkdir fs path in (fs', if ok then 0 else -1))"

lemma last_dirchar_below_less: "last_dirchar_below path n = Some k \<Longrightarrow> k < n \<and> is_dirchar (path ! k)"
  by (induction n) (auto split: if_splits)

lemma remove_name_shorter:
  assumes "remove_name_from_path cap (Some path) = Some (r, parent)" "path \<noteq> []"
  shows "length parent < length path"
proof (cases "find_last_dirchar path True")
  case None
  with assms show ?thesis by (auto simp: remove_name_from_path_def)
next
  case (Some p)
  have "p < length path"
    using Some assms(2) last_dirchar_below_less [of path "length path - 1" p]
    by (auto simp: find_last_dirchar_def Let_def nat_diff_distrib split: if_splits)
  with Some assms show ?thesis by (auto simp: remove_name_from_path_def split: option.splits if_splits)
qed

function create_dir_recursive ::
    "('f \<Rightarrow> string \<Rightarrow> bool) \<Rightarrow> ('f \<Rightarrow> string \<Rightarrow> 'f \<times> bool) \<Rightarrow> 'f \<Rightarrow> string option \<Rightarrow> ('f \<times> int) option" where
  "create_dir_recursive dir_exists mkdir fs path =
     (case path of
        None \<Rightarrow> Some (fs, -1)
      | Some s \<Rightarrow>
          if s = [] then Some (fs, -1)
          else if dir_exists fs s then Some (fs, 0)
          else (case create_dir mkdir fs s of
                  (fs1, r) \<Rightarrow>
                    if r = 0 then Some (fs1, 0)
                    else (case remove_name_from_path (Some (MAX_PATH * 4)) (Some s) of
                            None \<Rightarrow> None
                          | Some (_, parent_path) \<Rightarrow>
                              (case create_dir_recursive dir_exists mkdir fs1 (Some parent_path) of
                                 None \<Rightarrow> None
                               | Some (fs2, r) \<Rightarrow>
                                   if r \<noteq> 0 then Some (fs2, -1) else Some (create_dir mkdir fs2 s)))))"
  by pat_completeness auto
termination
  by (relation "measure (\<lambda>(_, _, _, path). case path of None \<Rightarrow> 0 | Some s \<Rightarrow> length s)")
    (auto dest: remove_name_shorter)

declare create_dir_recursive.simps [simp del]

definition create_dirs_for_file ::
    "('f \<Rightarrow> string \<Rightarrow> bool) \<Rightarrow> ('f \<Rightarrow> string \<Rightarrow> 'f \<times> bool) \<Rightarrow> 'f \<Rightarrow> string \<Rightarrow> ('f \<times> int) option" where
  "create_dirs_for_file dir_exists mkdir fs filepath =
     (case remove_name_from_path (Some (MAX_PATH * 4)) (Some filepath) of
        None \<Rightarrow> None
      | Some (_, parent_path) \<Rightarrow> create_dir_recursive dir_exists mkdir fs (Some parent_path))"

text \<open>\<open>make_appdata_path\<close> on the platforms without a system call for the folder.\<close>

definition make_appdata_path ::
    "('f \<Rightarrow> string \<Rightarrow> 'f \<times> bool) \<Rightarrow> 'f \<Rightarrow> string \<Rightarrow> string option \<Rightarrow> bool \<Rightarrow> 'f \<times> string" where
  "make_appdata_path mkdir fs dirname filename make_subdir =
     (let dirpath = append_name_to_path (Some ''~/.config/'') (Some dirname);
          fs1 = (if make_subdir then fst (create_dir mkdir fs dirpath) else fs)
      in (fs1, case filename of None \<Rightarrow> dirpath | Some f \<Rightarrow> append_name_to_path (Some dirpath) (Some f)))"

section \<open>File contents\<close>

text \<open>\<open>load_raw_file\<close> on the contents of the file, which the one \<open>fread\<close> may cut short.\<close>

definition load_raw_file :: "byte list option \<Rightarrow> byte list \<Rightarrow> (byte list \<times> nat) option" where
  "load_raw_file file got =
     (case file of
        None \<Rightarrow> None
      | Some bs \<Rightarrow> Some (overwrite (replicate (length bs + 1) 0) 0 (take (length bs) got), length bs))"

fun dos_conv_loop :: "byte list \<Rightarrow> byte \<Rightarrow> nat \<Rightarrow> nat \<Rightarrow> byte list \<Rightarrow> byte list \<times> nat" where
  "dos_conv_loop [] byte1 i off dat = (dat, off)"
| "dos_conv_loop (b # bs) byte1 i off dat =
     (let off' = (if byte1 = 13 \<and> b = 10 then off + 1 else off)
      in dos_conv_loop bs b (i + 1) off' (dat[i - off' := b]))"

definition load_raw_file_dos_conv :: "byte list option \<Rightarrow> (byte list \<times> nat) option" where
  "load_raw_file_dos_conv file =
     (case file of
        None \<Rightarrow> None
      | Some bs \<Rightarrow>
          let fsize = length bs;
              (dat, off) = dos_conv_loop bs 0 0 0 (replicate (fsize + 1) 0)
          in Some (take (fsize - off + 1) dat, fsize - off))"

section \<open>Hashing\<close>

definition get_buffer_hash :: "byte list \<Rightarrow> u64 option" where
  "get_buffer_hash bs = XXH64 (Some bs) (length bs) 0"

definition get_string_hash :: "string \<Rightarrow> u64 option" where
  "get_string_hash s = get_buffer_hash (bytes_of_string s)"

section \<open>Lines\<close>

text \<open>The lines of a text; a line break at the very end starts no further line.\<close>

fun text_lines :: "string \<Rightarrow> string list" where
  "text_lines [] = [[]]"
| "text_lines (c # s) =
     (if c = CHR ''\<newline>'' then (if s = [] then [[]] else [] # text_lines s)
      else (case text_lines s of [] \<Rightarrow> [[c]] | l # ls \<Rightarrow> (c # l) # ls))"

definition break_to_nul :: "char \<Rightarrow> char" where
  "break_to_nul c = (if c = CHR ''\<newline>'' then CHR 0x00 else c)"

fun line_starts :: "nat \<Rightarrow> string \<Rightarrow> nat list" where
  "line_starts k [] = []"
| "line_starts k (c # s) = (if c = CHR ''\<newline>'' \<and> s \<noteq> [] then [k + 1] else []) @ line_starts (k + 1) s"

lemma text_lines_nonempty [simp]: "text_lines s \<noteq> []"
  by (cases s) (auto split: list.splits)

lemma break_to_nul_simps [simp]: "break_to_nul CHR ''\<newline>'' = CHR 0x00" "c \<noteq> CHR ''\<newline>'' \<Longrightarrow> break_to_nul c = c"
  by (simp_all add: break_to_nul_def)

lemma length_line_starts: "length (line_starts k s) = length (List.filter (\<lambda>c. c = CHR ''\<newline>'') (butlast s))"
  by (induction s arbitrary: k) auto

lemma length_text_lines: "length (text_lines s) = 1 + length (line_starts k s)"
proof (induction s arbitrary: k)
  case (Cons c s)
  from Cons.IH [of "k + 1"] show ?case
    by (cases "text_lines s") (auto split: list.splits)
qed simp

lemma c_string_no_nul: "CHR 0x00 \<notin> set s \<Longrightarrow> c_string (s @ CHR 0x00 # r) = Some s"
  by (induction s) auto

lemma line_starts_strings:
  "CHR 0x00 \<notin> set s \<Longrightarrow> length pre = k \<Longrightarrow>
   array_strings (k # line_starts k s) (pre @ map break_to_nul s @ [CHR 0x00]) = map Some (text_lines s)"
proof (induction s arbitrary: k pre)
  case (Cons c s)
  have IH: "array_strings (Suc k # line_starts (Suc k) s) (pre @ break_to_nul c # map break_to_nul s @ [CHR 0x00]) =
      map Some (text_lines s)"
    using Cons.IH [of "pre @ [break_to_nul c]" "Suc k"] Cons.prems by simp
  obtain l ls where lines: "text_lines s = l # ls" by (cases "text_lines s") auto
  show ?case
    using IH lines Cons.prems by (auto simp: array_strings_def)
qed (simp add: array_strings_def)

lemma arrayise_loop_invariant:
  assumes "i + n = length s - 1" "s \<noteq> []" "buf = map break_to_nul (take i s) @ drop i s @ [CHR 0x00]"
    and "length array = ia + length (line_starts i (drop i s))"
  shows "arrayise_loop n i array ia buf =
     Some (take ia array @ line_starts i (drop i s), map break_to_nul (butlast s) @ [last s] @ [CHR 0x00])"
  using assms
proof (induction n arbitrary: i array ia buf)
  case 0
  then have "drop i s = [last s]" "take i s = butlast s"
    by (simp_all add: butlast_conv_take last_conv_nth) (metis Cons_nth_drop_Suc One_nat_def Suc_pred drop_eq_Nil le_refl length_greater_0_conv lessI)
  with 0 show ?case by (simp split: if_splits)
next
  case (Suc n)
  then have i: "i < length s - 1" by simp
  then have i': "i < length s" by simp
  have d: "drop i s = s ! i # drop (Suc i) s" using i' by (simp add: Cons_nth_drop_Suc)
  have ne: "drop (Suc i) s \<noteq> []" using i by simp
  have at_i: "buf ! i = s ! i" using Suc.prems(3) i' by (simp add: nth_append)
  have t: "take (Suc i) s = take i s @ [s ! i]" using i' by (simp add: take_Suc_conv_app_nth)
  show ?case
  proof (cases "s ! i = CHR ''\<newline>''")
    case True
    let ?array = "array[ia := Suc i]"
    have ia: "ia < length array" using Suc.prems(4) d ne True by simp
    have buf_eq: "buf[i := CHR 0x00] = map break_to_nul (take (Suc i) s) @ drop (Suc i) s @ [CHR 0x00]"
      using Suc.prems(3) i' True d by (simp add: t break_to_nul_def list_update_append)
    have "take (Suc ia) ?array = take ia array @ [Suc i]"
      using ia by (simp add: take_Suc_conv_app_nth)
    then show ?thesis
      using Suc.IH [of "Suc i" "buf[i := CHR 0x00]" ?array "Suc ia"] Suc.prems buf_eq True ia at_i d ne by simp
  next
    case False
    have buf_eq: "buf = map break_to_nul (take (Suc i) s) @ drop (Suc i) s @ [CHR 0x00]"
      using Suc.prems(3) d False by (simp add: t break_to_nul_def)
    show ?thesis
      using Suc.IH [of "Suc i" buf array ia] Suc.prems buf_eq False at_i d by simp
  qed
qed

lemma arrayise_text_result:
  assumes "s \<noteq> []"
  shows "arrayise_text (Some s) =
    Some (Some (0 # line_starts 0 s), length (text_lines s), map break_to_nul s @ [CHR 0x00])"
proof -
  let ?n = "get_string_linecount (Some s) (length s)"
  have n: "?n = Suc (length (line_starts 0 s))"
    using assms by (simp add: get_string_linecount_def length_line_starts butlast_conv_take)
  have loop: "arrayise_loop (length s - 1) 0 (replicate ?n 0) 1 (s @ [CHR 0x00]) =
      Some (0 # line_starts 0 s, map break_to_nul (butlast s) @ [last s] @ [CHR 0x00])"
    using arrayise_loop_invariant [of 0 "length s - 1" s "s @ [CHR 0x00]" "replicate ?n 0" 1] assms n by simp
  have s: "s = butlast s @ [last s]" using assms by simp
  have last_nl: "(map break_to_nul (butlast s) @ [last s] @ [CHR 0x00]) ! (length s - 1) = last s"
    by (simp add: nth_append)
  have update: "(map break_to_nul (butlast s) @ [last s] @ [CHR 0x00])[length s - 1 := CHR 0x00] =
      map break_to_nul (butlast s) @ [CHR 0x00, CHR 0x00]"
    by (simp add: list_update_append)
  have m: "map break_to_nul s = map break_to_nul (butlast s) @ [break_to_nul (last s)]"
    by (subst s) (simp only: map_append list.map)
  show ?thesis
    using loop last_nl update m n length_text_lines [of s 0] assms
    by (cases "last s = CHR ''\<newline>''") (simp_all add: arrayise_text_def Let_def)
qed

section \<open>Fields\<close>

fun split_on :: "char \<Rightarrow> string \<Rightarrow> string list" where
  "split_on d [] = [[]]"
| "split_on d (c # s) =
     (if c = d then [] # split_on d s
      else (case split_on d s of [] \<Rightarrow> [[c]] | l # ls \<Rightarrow> (c # l) # ls))"

lemma split_on_nonempty [simp]: "split_on d s \<noteq> []"
  by (cases s) (auto split: list.splits)

lemma strstr_char: "strstr s [d] = strchr s d"
  by (induction s) (simp_all add: strstr.simps [of _ "[d]"])

lemma split_on_strchr:
  "length (split_on d s) = (case strchr s d of None \<Rightarrow> 1 | Some p \<Rightarrow> Suc (length (split_on d (tl p))))"
  by (induction s) (auto split: list.splits option.splits)

lemma strchr_shorter: "strchr s d = Some p \<Longrightarrow> length (tl p) < length s"
  by (induction s) (auto split: if_splits)

lemma count_fields: "count_fields_loop (Some s) [d] n = Some (n + length (split_on d s))"
proof (induction s arbitrary: n rule: length_induct)
  case (1 s)
  show ?case
  proof (cases "strchr s d")
    case None
    then show ?thesis
      by (simp add: count_fields_loop.simps [of "Some s"] count_fields_loop.simps [of None] strstr_after_def strstr_char split_on_strchr)
  next
    case (Some p)
    then have "count_fields_loop (Some s) [d] n = count_fields_loop (Some (tl p)) [d] (n + 1)"
      by (simp add: count_fields_loop.simps [of "Some s"] strstr_after_def strstr_char drop_Suc)
    then show ?thesis using 1 strchr_shorter [OF Some] split_on_strchr [of d s] Some by simp
  qed
qed

lemma string_count_fields: "string_count_fields (Some s) [d] = Some (length (split_on d s))"
  by (simp add: string_count_fields_def count_fields)

section \<open>Line-break conversion\<close>

fun dos2unix :: "byte list \<Rightarrow> byte list" where
  "dos2unix (a # b # bs) = (if a = 13 \<and> b = 10 then dos2unix (b # bs) else a # dos2unix (b # bs))"
| "dos2unix bs = bs"

lemma dos2unix_Cons [simp]: "a \<noteq> 13 \<Longrightarrow> dos2unix (a # bs) = a # dos2unix bs"
  by (cases bs) auto

lemma dos_conv_loop_result:
  "off \<le> i \<Longrightarrow> length out = i - off \<Longrightarrow> (p = 13 \<longrightarrow> (\<exists>o'. out = o' @ [13])) \<Longrightarrow>
   dos_conv_loop bs p i off (out @ replicate (length bs + off + 1) 0) =
     (let r = (if p = 13 then butlast out @ dos2unix (13 # bs) else out @ dos2unix bs)
      in (r @ replicate (i + length bs + 1 - length r) 0, i + length bs - length r))"
proof (induction bs arbitrary: p i off out)
  case Nil
  then show ?case by (auto simp: Let_def)
next
  case (Cons b bs)
  show ?case
  proof (cases "p = 13 \<and> b = 10")
    case True
    then obtain o' where o': "out = o' @ [13]" using Cons.prems(3) by blast
    have i: "off + 1 \<le> i" "length o' = i - off - 1" using Cons.prems(1,2) o' by auto
    have upd: "(out @ replicate (length (b # bs) + off + 1) 0)[i - (off + 1) := b] =
        (o' @ [b]) @ replicate (length bs + (off + 1) + 1) 0"
      using i o' by (simp add: list_update_append)
    show ?thesis
      using Cons.IH [of "off + 1" "i + 1" "o' @ [b]" b] i True o' upd
      by (simp add: Let_def)
  next
    case False
    have upd: "(out @ replicate (length (b # bs) + off + 1) 0)[i - off := b] =
        (out @ [b]) @ replicate (length bs + off + 1) 0"
      using Cons.prems(1,2) by (simp add: list_update_append)
    from False Cons.prems(3) have r: "(if p = 13 then butlast out @ dos2unix (13 # b # bs) else out @ dos2unix (b # bs)) =
        out @ dos2unix (b # bs)"
      by auto
    show ?thesis
      using Cons.IH [of off "i + 1" "out @ [b]" b] Cons.prems(1,2) False upd r
      by (auto simp: Let_def Suc_diff_le)
  qed
qed

lemma dos_conv_result:
  "load_raw_file_dos_conv (Some bs) = Some (dos2unix bs @ [0], length (dos2unix bs))"
proof -
  have le: "length (dos2unix bs) \<le> length bs" by (induction bs rule: dos2unix.induct) auto
  show ?thesis
    using dos_conv_loop_result [of 0 0 "[]" 0 bs] le by (simp add: load_raw_file_dos_conv_def Let_def)
qed

section \<open>Paths\<close>

lemma last_dirchar_below_none: "last_dirchar_below path n = None \<Longrightarrow> k < n \<Longrightarrow> \<not> is_dirchar (path ! k)"
  by (induction n) (auto split: if_splits simp: less_Suc_eq)

lemma last_dirchar_below_last:
  "last_dirchar_below path n = Some p \<Longrightarrow> p < k \<Longrightarrow> k < n \<Longrightarrow> \<not> is_dirchar (path ! k)"
  by (induction n) (auto split: if_splits simp: less_Suc_eq)


definition file_name :: "string \<Rightarrow> string" where
  "file_name path = rev (takeWhile (\<lambda>c. \<not> is_dirchar c) (rev path))"

lemma file_name_no_dirchar: "(\<forall>c \<in> set path. \<not> is_dirchar c) \<Longrightarrow> file_name path = path"
  unfolding file_name_def by (subst takeWhile_eq_all_conv [THEN iffD2]) auto

lemma file_name_after: "is_dirchar c \<Longrightarrow> (\<forall>c \<in> set name. \<not> is_dirchar c) \<Longrightarrow> file_name (dir @ c # name) = name"
  unfolding file_name_def by (subst rev_append, simp, subst takeWhile_append2) auto

lemma last_dirchar_file_name:
  "file_name path = (case last_dirchar_below path (length path) of None \<Rightarrow> path | Some p \<Rightarrow> drop (p + 1) path)"
proof (cases "last_dirchar_below path (length path)")
  case None
  then have "\<forall>c \<in> set path. \<not> is_dirchar c"
    using last_dirchar_below_none [OF None] by (metis in_set_conv_nth)
  then show ?thesis using None file_name_no_dirchar by simp
next
  case (Some p)
  then have p: "p < length path" "is_dirchar (path ! p)" using last_dirchar_below_less [OF Some] by simp_all
  have "\<not> is_dirchar c" if c: "c \<in> set (drop (p + 1) path)" for c
  proof -
    obtain k where k: "k < length (drop (p + 1) path)" "drop (p + 1) path ! k = c"
      using c unfolding in_set_conv_nth by blast
    then have "c = path ! (p + 1 + k)" by (simp add: add.commute)
    moreover have "\<not> is_dirchar (path ! (p + 1 + k))"
      by (rule last_dirchar_below_last [OF Some]) (use k(1) in simp_all)
    ultimately show ?thesis by simp
  qed
  then have "file_name (take p path @ path ! p # drop (p + 1) path) = drop (p + 1) path"
    using file_name_after [OF p(2)] by blast
  moreover have "take p path @ path ! p # drop (p + 1) path = path"
    using id_take_nth_drop [OF p(1)] by simp
  ultimately show ?thesis using Some by (simp only: option.case)
qed

section \<open>Properties\<close>

text \<open>
  Splitting a text into lines: the array has one entry per line, every index into it is in
  bounds, and each entry points to the null-terminated line.
\<close>

theorem arrayise_text_lines:
  assumes "s \<noteq> []" and "CHR 0x00 \<notin> set s"
  shows "\<exists>array buf. arrayise_text (Some s) = Some (Some array, length (text_lines s), buf) \<and>
    array_strings array buf = map Some (text_lines s)"
  using arrayise_text_result [OF assms(1)] line_starts_strings [OF assms(2), of "[]" 0] by simp

theorem arrayise_text_lines_witness:
  "\<exists>array buf. arrayise_text (Some ''Print\<newline>Init memory\<newline>'') = Some (Some array, 2, buf) \<and>
    array_strings array buf = [Some ''Print'', Some ''Init memory'']"
  using arrayise_text_lines [of "''Print\<newline>Init memory\<newline>''"] by (simp add: numeral_2_eq_2)

text \<open>
  Line-break conversion: the loaded data is the file with every carriage return that precedes a
  line feed removed, followed by a terminator, and the reported size is its length.
\<close>

theorem load_raw_file_dos_conv_correct:
  "load_raw_file_dos_conv (Some bs) = Some (dos2unix bs @ [0], length (dos2unix bs))"
  by (rule dos_conv_result)

text \<open>
  The name of a path is what follows its last directory separator; for the empty path the
  code returns a pointer past the terminator.
\<close>

theorem get_filename_from_path_correct:
  "get_filename_from_path (Some path) = (if path = [] then None else Some (Some (file_name path)))"
proof (cases "path = []")
  case False
  then show ?thesis
    using last_dirchar_file_name [of path] last_dirchar_below_less [of path "length path"]
    by (auto simp: get_filename_from_path_def find_last_dirchar_def Let_def split: option.split)
qed (simp add: get_filename_from_path_def find_last_dirchar_def)

end
