(* ===== verification/C_Memory.thy ===== *)
theory C_Memory
  imports Text_Util "HOL-Library.Monad_Syntax"
begin

text \<open>
  The host's byte-addressed memory, shared by the host and by every module: \<^const>\<open>None\<close> is an
  address that may not be accessed. Block copies and null-terminated strings are read and
  written as the C library does; an access outside the mapped memory has no result. A locale states
  what the message transfer needs of a memory, and the map from addresses to bytes provides it.
\<close>

type_synonym memory = "u64 \<Rightarrow> byte option"

definition mapped_range :: "memory \<Rightarrow> u64 \<Rightarrow> nat \<Rightarrow> bool" where
  "mapped_range m p n \<longleftrightarrow> list_all (\<lambda>i. m (p + of_nat i) \<noteq> None) [0..<n]"

definition mem_load :: "memory \<Rightarrow> u64 \<Rightarrow> nat \<Rightarrow> byte list option" where
  "mem_load m p n = (if mapped_range m p n then Some (map (\<lambda>i. the (m (p + of_nat i))) [0..<n]) else None)"

definition mem_store :: "memory \<Rightarrow> u64 \<Rightarrow> byte list \<Rightarrow> memory option" where
  "mem_store m p bs =
     (if mapped_range m p (length bs)
      then Some (\<lambda>q. if unat (q - p) < length bs then Some (bs ! unat (q - p)) else m q)
      else None)"

text \<open>Copying between overlapping blocks is undefined.\<close>

definition memcpy :: "memory \<Rightarrow> u64 \<Rightarrow> u64 \<Rightarrow> nat \<Rightarrow> memory option" where
  "memcpy m dst src n =
     (if n \<noteq> 0 \<and> (unat (dst - src) < n \<or> unat (src - dst) < n) then None
      else do { bs \<leftarrow> mem_load m src n; mem_store m dst bs })"

definition char_of_byte :: "byte \<Rightarrow> char" where
  "char_of_byte b = char_of (unat b)"

text \<open>The characters before the terminator, and the first terminator within a bound.\<close>

partial_function (option) c_text :: "memory \<Rightarrow> u64 \<Rightarrow> string option" where
  "c_text m p =
     do {
       b \<leftarrow> m p;
       if b = 0 then Some [] else do { s \<leftarrow> c_text m (p + 1); Some (char_of_byte b # s) }
     }"

fun memchr_nul :: "memory \<Rightarrow> u64 \<Rightarrow> nat \<Rightarrow> nat option option" where
  "memchr_nul m p 0 = Some None"
| "memchr_nul m p (Suc n) =
     (case m p of
        None \<Rightarrow> None
      | Some b \<Rightarrow>
          if b = 0 then Some (Some 0)
          else (case memchr_nul m (p + 1) n of
                  None \<Rightarrow> None
                | Some r \<Rightarrow> Some (map_option Suc r)))"

section \<open>Reading and writing blocks\<close>

definition in_block :: "u64 \<Rightarrow> nat \<Rightarrow> u64 \<Rightarrow> bool" where
  "in_block p n q \<longleftrightarrow> unat (q - p) < n"

definition disjoint_blocks :: "u64 \<Rightarrow> nat \<Rightarrow> u64 \<Rightarrow> nat \<Rightarrow> bool" where
  "disjoint_blocks p n q k \<longleftrightarrow> (\<forall>x. \<not> (in_block p n x \<and> in_block q k x))"

lemma in_block_sub:
  assumes "in_block (p + d) n q" "unat d + n \<le> sz" "sz \<le> 2 ^ 64"
  shows "in_block p sz q"
proof -
  have q: "q - p = (q - (p + d)) + d" by simp
  have lt: "unat (q - (p + d)) + unat d < sz" using assms by (simp add: in_block_def)
  then have "unat (q - p) = unat (q - (p + d)) + unat d"
    unfolding q using assms(3) by (subst unat_word_ariths(1)) simp
  with lt show ?thesis by (simp add: in_block_def)
qed

lemma in_block_bounds:
  assumes "unat p + n \<le> 2 ^ 64"
  shows "in_block p n q \<longleftrightarrow> unat p \<le> unat q \<and> unat q < unat p + n"
proof (cases "p \<le> q")
  case True
  then show ?thesis by (auto simp: in_block_def unat_sub word_le_nat_alt)
next
  case False
  then have "unat q < unat p" by (simp add: word_le_nat_alt)
  moreover have "unat (q - p) = unat q + 2 ^ 64 - unat p"
    using calculation by (simp add: unat_sub_if' )
  ultimately show ?thesis using assms by (simp add: in_block_def)
qed

lemma mapped_range_iff: "mapped_range m p n \<longleftrightarrow> (\<forall>i < n. m (p + of_nat i) \<noteq> None)"
  by (auto simp: mapped_range_def list_all_iff)

lemma mem_load_iff:
  "mem_load m p n = Some bs \<longleftrightarrow> length bs = n \<and> (\<forall>i < n. m (p + of_nat i) = Some (bs ! i))"
proof
  assume "mem_load m p n = Some bs"
  then show "length bs = n \<and> (\<forall>i < n. m (p + of_nat i) = Some (bs ! i))"
    by (auto simp: mem_load_def mapped_range_iff split: if_splits)
next
  assume r: "length bs = n \<and> (\<forall>i < n. m (p + of_nat i) = Some (bs ! i))"
  then have "map (\<lambda>i. the (m (p + of_nat i))) [0..<n] = bs"
    by (intro nth_equalityI) auto
  with r show "mem_load m p n = Some bs" by (simp add: mem_load_def mapped_range_iff)
qed

lemma mem_load_append:
  "mem_load m p (j + k) = Some (xs @ ys) \<longleftrightarrow> mem_load m p j = Some xs \<and> mem_load m (p + of_nat j) k = Some ys"
  if "length xs = j"
proof -
  have "(\<forall>i < j + k. m (p + of_nat i) = Some ((xs @ ys) ! i)) \<longleftrightarrow>
      (\<forall>i < j. m (p + of_nat i) = Some (xs ! i)) \<and> (\<forall>i < k. m (p + of_nat j + of_nat i) = Some (ys ! i))"
    if "length ys = k"
  proof (intro iffI conjI allI impI)
    fix i assume all: "\<forall>i < j + k. m (p + of_nat i) = Some ((xs @ ys) ! i)"
    {
      assume "i < j"
      with all [rule_format, of i] \<open>length xs = j\<close> show "m (p + of_nat i) = Some (xs ! i)" by (simp add: nth_append)
    next
      assume "i < k"
      with all [rule_format, of "j + i"] \<open>length xs = j\<close> show "m (p + of_nat j + of_nat i) = Some (ys ! i)"
        by (simp add: nth_append add.assoc)
    }
  next
    fix i assume a: "(\<forall>i < j. m (p + of_nat i) = Some (xs ! i)) \<and> (\<forall>i < k. m (p + of_nat j + of_nat i) = Some (ys ! i))"
      and i: "i < j + k"
    show "m (p + of_nat i) = Some ((xs @ ys) ! i)"
    proof (cases "i < j")
      case True
      then show ?thesis using a \<open>length xs = j\<close> by (simp add: nth_append)
    next
      case False
      then obtain d where d: "i = j + d" "d < k" using i by (metis add_less_cancel_left le_Suc_ex not_less)
      have "m (p + of_nat j + of_nat d) = Some (ys ! d)" using a d(2) by blast
      then show ?thesis using d(1) \<open>length xs = j\<close> by (simp add: nth_append add.assoc)
    qed
  qed
  then show ?thesis using that by (auto simp: mem_load_iff)
qed

lemma mem_load_cong:
  "(\<And>q. in_block p n q \<Longrightarrow> m' q = m q) \<Longrightarrow> n \<le> 2 ^ 64 \<Longrightarrow> mem_load m' p n = mem_load m p n"
proof -
  assume eq: "\<And>q. in_block p n q \<Longrightarrow> m' q = m q" and n: "n \<le> 2 ^ 64"
  have "m' (p + of_nat i) = m (p + of_nat i)" if "i < n" for i
  proof (rule eq)
    have "unat (of_nat i :: u64) = i" using that n by (simp add: unat_of_nat take_bit_eq_mod)
    with that show "in_block p n (p + of_nat i)" by (simp add: in_block_def)
  qed
  then show ?thesis by (simp add: mem_load_def mapped_range_iff)
qed

lemma mem_store_effect:
  assumes "mem_store m p bs = Some m'"
  shows "\<not> in_block p (length bs) q \<Longrightarrow> m' q = m q"
    and "m' q = None \<longleftrightarrow> m q = None"
proof -
  from assms have m': "m' = (\<lambda>q. if unat (q - p) < length bs then Some (bs ! unat (q - p)) else m q)"
    and mapped: "mapped_range m p (length bs)"
    by (auto simp: mem_store_def split: if_splits)
  show "\<not> in_block p (length bs) q \<Longrightarrow> m' q = m q" by (simp add: m' in_block_def)
  show "m' q = None \<longleftrightarrow> m q = None"
  proof (cases "unat (q - p) < length bs")
    case True
    then have "m (p + of_nat (unat (q - p))) \<noteq> None" using mapped unfolding mapped_range_iff by blast
    with True show ?thesis by (simp add: m')
  qed (simp add: m')
qed

lemma mem_store_load:
  assumes "mem_store m p bs = Some m'" "length bs \<le> 2 ^ 64"
  shows "mem_load m' p (length bs) = Some bs"
proof -
  have "unat (of_nat i :: u64) = i" if "i < length bs" for i
    using that assms(2) by (simp add: unat_of_nat take_bit_eq_mod)
  with assms(1) show ?thesis by (auto simp: mem_load_iff mem_store_def split: if_splits)
qed

lemma mem_store_possible:
  assumes "\<And>q. in_block p (length bs) q \<Longrightarrow> m q \<noteq> None" "length bs \<le> 2 ^ 64"
  shows "\<exists>m'. mem_store m p bs = Some m'"
proof -
  have "m (p + of_nat i) \<noteq> None" if "i < length bs" for i
  proof (rule assms(1))
    have "unat (of_nat i :: u64) = i" using that assms(2) by (simp add: unat_of_nat take_bit_eq_mod)
    with that show "in_block p (length bs) (p + of_nat i)" by (simp add: in_block_def)
  qed
  then show ?thesis by (simp add: mem_store_def mapped_range_iff)
qed

section \<open>The memory interface\<close>

text \<open>
  What a client that fills a block of memory relies on: a store that stays inside mapped memory
  succeeds, is read back, and changes nothing outside its block.
\<close>

locale byte_memory =
  fixes load :: "'m \<Rightarrow> u64 \<Rightarrow> nat \<Rightarrow> byte list option"
    and put :: "'m \<Rightarrow> u64 \<Rightarrow> byte list \<Rightarrow> 'm option"
    and mapped :: "'m \<Rightarrow> u64 \<Rightarrow> bool"
  assumes put_ok: "\<forall>q. in_block p (length bs) q \<longrightarrow> mapped m q \<Longrightarrow> length bs \<le> 2 ^ 64 \<Longrightarrow> \<exists>m'. put m p bs = Some m'"
    and put_mapped: "put m p bs = Some m' \<Longrightarrow> mapped m' = mapped m"
    and load_put_same: "put m p bs = Some m' \<Longrightarrow> length bs \<le> 2 ^ 64 \<Longrightarrow> load m' p (length bs) = Some bs"
    and load_put_other: "put m p bs = Some m' \<Longrightarrow> disjoint_blocks p (length bs) q n \<Longrightarrow> n \<le> 2 ^ 64 \<Longrightarrow> load m' q n = load m q n"
begin

text \<open>Storing a list of blocks, each at its address.\<close>

fun put_all :: "'m \<Rightarrow> (u64 \<times> byte list) list \<Rightarrow> 'm option" where
  "put_all m [] = Some m"
| "put_all m ((p, bs) # rest) = (case put m p bs of None \<Rightarrow> None | Some m' \<Rightarrow> put_all m' rest)"

fun separate :: "(u64 \<times> byte list) list \<Rightarrow> bool" where
  "separate [] = True"
| "separate ((p, bs) # rest) \<longleftrightarrow>
     list_all (\<lambda>(q, cs). disjoint_blocks p (length bs) q (length cs)) rest \<and> separate rest"

lemma put_all_keeps:
  assumes "put_all m blocks = Some m'" "n \<le> 2 ^ 64"
    and "list_all (\<lambda>(p, bs). disjoint_blocks p (length bs) q n) blocks"
  shows "load m' q n = load m q n"
  using assms
proof (induction blocks arbitrary: m)
  case (Cons b blocks)
  obtain p bs where b: "b = (p, bs)" by (cases b)
  then obtain m1 where m1: "put m p bs = Some m1" "put_all m1 blocks = Some m'"
    using Cons.prems(1) by (auto split: option.splits)
  with Cons b load_put_other [OF m1(1)] show ?case by simp
qed simp

lemma put_all_ok:
  assumes "list_all (\<lambda>(p, bs). length bs \<le> 2 ^ 64 \<and> (\<forall>q. in_block p (length bs) q \<longrightarrow> mapped m q)) blocks"
  shows "\<exists>m'. put_all m blocks = Some m'"
  using assms
proof (induction blocks arbitrary: m)
  case (Cons b blocks)
  obtain p bs where b: "b = (p, bs)" by (cases b)
  then obtain m1 where m1: "put m p bs = Some m1" using Cons.prems put_ok by fastforce
  have "list_all (\<lambda>(p, bs). length bs \<le> 2 ^ 64 \<and> (\<forall>q. in_block p (length bs) q \<longrightarrow> mapped m1 q)) blocks"
    using Cons.prems put_mapped [OF m1] by simp
  with Cons.IH b m1 show ?case by simp
qed simp

lemma put_all_loads:
  assumes "put_all m blocks = Some m'" "separate blocks" "(p, bs) \<in> set blocks" "list_all (\<lambda>(p, bs). length bs \<le> 2 ^ 64) blocks"
  shows "load m' p (length bs) = Some bs"
  using assms
proof (induction blocks arbitrary: m)
  case (Cons b blocks)
  obtain q cs where b: "b = (q, cs)" by (cases b)
  then obtain m1 where m1: "put m q cs = Some m1" "put_all m1 blocks = Some m'"
    using Cons.prems(1) by (auto split: option.splits)
  show ?case
  proof (cases "(p, bs) = b")
    case True
    have len: "length bs \<le> 2 ^ 64" using Cons.prems(4) b True by simp
    have "list_all (\<lambda>(r, ds). disjoint_blocks r (length ds) p (length bs)) blocks"
      using Cons.prems(2) b True by (auto simp: list_all_iff disjoint_blocks_def)
    then have "load m' p (length bs) = load m1 p (length bs)" using put_all_keeps [OF m1(2) len] by simp
    with load_put_same [OF m1(1)] True b len show ?thesis by simp
  next
    case False
    with Cons b m1 show ?thesis by auto
  qed
qed simp

end

interpretation hm: byte_memory mem_load mem_store "\<lambda>m q. m q \<noteq> None"
proof (unfold_locales, goal_cases)
  case (1 p bs m) then show ?case using mem_store_possible [of p bs m] by blast
next
  case (2 m p bs m') then show ?case using mem_store_effect(2) [OF 2] by (intro ext) auto
next
  case (3 m p bs m') then show ?case by (rule mem_store_load)
next
  case (4 m p bs m' q n)
  then show ?case
    using mem_store_effect(1) [OF 4(1)] by (intro mem_load_cong) (auto simp: disjoint_blocks_def)
qed

end
