(* ===== verification/Module_State.thy ===== *)
theory Module_State
  imports C_Memory
begin

text \<open>
  The state of the host, from \<open>wahelib/wahe/wahe_core.h\<close>, and the memory and runner bookkeeping of
  \<open>wahe_core.c\<close>, in the build with Wasmtime on a POSIX system. A module pointer is the index of
  its slot in the group, the null pointer \<^const>\<open>None\<close>. One thread is followed at a time: the
  thread-local variables are fields of the state and a mutex is the number of times it is
  held.

  Wasmtime, the loaded libraries, the code of the modules and the operating system are the
  functions of the record \<open>env\<close>; a module's code may change any part of the state, its own
  private part included. An operation that does not return has no result: the thread parks or
  the process exits after a module failure, or the C code is undefined.
\<close>

section \<open>Data\<close>

datatype wahe_eo_type = WAHE_EO_MODULE_FUNC | WAHE_EO_CHAIN_INPUT_MSG | WAHE_EO_UNKNOWN

datatype wahe_func_id =
    WAHE_FUNC_NONE | WAHE_FUNC_MALLOC | WAHE_FUNC_REALLOC | WAHE_FUNC_FREE
  | WAHE_FUNC_INPUT | WAHE_FUNC_PROC_CMD | WAHE_FUNC_DRAW | WAHE_FUNC_PROC_IMAGE
  | WAHE_FUNC_PROC_SOUND | WAHE_FUNC_THREAD_ENTRY | WAHE_FUNC_COUNT

definition wahe_eo_name :: "string list" where
  "wahe_eo_name = [''module_func'', ''chain_input_msg'']"

definition wahe_func_name :: "string list" where
  "wahe_func_name = [''(none)'', ''malloc'', ''realloc'', ''free'', ''input'', ''proc_cmd'', ''draw'',
     ''proc_image'', ''proc_sound'', ''thread_entry'']"

text \<open>The enumerations in the order of their names; an index the array search did not find is no value.\<close>

definition eo_types :: "wahe_eo_type list" where
  "eo_types = [WAHE_EO_MODULE_FUNC, WAHE_EO_CHAIN_INPUT_MSG]"

definition func_ids :: "wahe_func_id list" where
  "func_ids = [WAHE_FUNC_NONE, WAHE_FUNC_MALLOC, WAHE_FUNC_REALLOC, WAHE_FUNC_FREE, WAHE_FUNC_INPUT,
     WAHE_FUNC_PROC_CMD, WAHE_FUNC_DRAW, WAHE_FUNC_PROC_IMAGE, WAHE_FUNC_PROC_SOUND, WAHE_FUNC_THREAD_ENTRY]"

datatype wahe_module_type =
    WAHE_MODULE_NONE | WAHE_MODULE_WASMTIME | WAHE_MODULE_WAMR
  | WAHE_MODULE_WASM_TO_NATIVE | WAHE_MODULE_NATIVE

datatype wahe_wasm2native_mode =
    WAHE_WASM2NATIVE_OFF | WAHE_WASM2NATIVE_CACHED | WAHE_WASM2NATIVE_AUTO | WAHE_WASM2NATIVE_ALWAYS

datatype wahe_module_backend = WAHE_BACKEND_DEFAULT | WAHE_BACKEND_NATIVE | WAHE_BACKEND_SANDBOXED

record wahe_wasm_decomp_runner_t =
  dr_instance :: bool
  dr_thread_id :: nat
  dr_stack_alloc :: u64
  dr_tls_alloc :: u64
  dr_input_addr :: u64
  dr_thread_handle :: bool
  dr_thread_reply :: "string option"
  dr_in_use :: bool
  dr_mutex_initialized :: bool
  dr_creating :: bool
  dr_joining :: bool

record wahe_wasmtime_runner_t =
  wr_memory_set :: bool
  wr_func :: "wahe_func_id \<Rightarrow> bool"
  wr_stack_pointer :: "u64 option"
  wr_thread_id :: nat
  wr_stack_alloc :: u64
  wr_stack_start :: u64
  wr_stack_size :: u64
  wr_tls_alloc :: u64
  wr_input_addr :: u64
  wr_thread_handle :: bool
  wr_thread_reply :: "string option"
  wr_creating :: bool
  wr_joining :: bool
  wr_call_depth :: nat

text \<open>
  \<open>runtime_size\<close> and \<open>runtime_pages\<close> are what Wasmtime reports for the module's memory, and
  \<open>memory_size\<close> the host's cached copy. A null runner array is the empty list.
\<close>

record wahe_module_t =
  valid :: bool
  mod_name :: string
  wahe_name :: "string option"
  native_translation_path :: "string option"
  module_id :: int
  mtype :: wahe_module_type
  runner_count :: nat
  memory_ptr :: u64
  stack_base :: u64
  data_end :: u64
  heap_base :: u64
  memory_size :: nat
  memory_reserve_size :: nat
  memory_size_addr :: u64
  stack_ptr_addr :: u64
  cita_time_addr :: u64
  memory_bits :: nat
  has_host_mem_access :: bool
  page_count_initial :: nat
  page_count_max :: nat
  shared_memory :: bool
  runtime_size :: nat
  runtime_pages :: nat
  runner :: "wahe_wasmtime_runner_t option list"
  initial_runner_count :: nat
  next_thread_id :: nat
  thread_memory_safe :: bool
  threads_stopping :: bool
  memory_is_shared :: bool
  memory_reclaim_pending :: bool
  address_bits :: nat
  dl_func :: "wahe_func_id \<Rightarrow> bool"
  wasm_decomp_instance :: bool
  wasm_decomp_runner :: "wahe_wasm_decomp_runner_t list"
  decomp_initial_runner_count :: nat
  decomp_runner_capacity :: nat
  decomp_next_thread_id :: nat
  decomp_threads_stopping :: bool

record wahe_connection_t =
  src_eo :: int
  dst_eo :: int

datatype wahe_host_cmd =
    Cmd_init_memory | Cmd_enlarge_memory | Cmd_shrink_memory | Cmd_run_chain | Cmd_thread_create
  | Cmd_thread_join | Cmd_get_thread_id | Cmd_copy | Cmd_get_memory_address | Cmd_get_heap_base
  | Cmd_get_data_end | Cmd_get_stack_base | Cmd_get_stack_pointer | Cmd_get_stack_pointer_address
  | Cmd_get_memory_size | Cmd_get_memory_size_address | Cmd_load_raw_file | Cmd_save_raw_file
  | Cmd_get_raw_time | Cmd_benchmark | Cmd_print | Cmd_change_command_registration

datatype wahe_cmd_target = Target_module int | Target_host wahe_host_cmd

datatype wahe_host_cmd_result =
    WAHE_HOST_CMD_NOT_HANDLED | WAHE_HOST_CMD_HANDLED | WAHE_HOST_CMD_RETURN

record wahe_cmd_reg_t =
  reg_hash :: u64
  reg_word_count :: nat
  reg_sequence :: nat
  reg_runtime :: bool
  reg_target :: wahe_cmd_target

record wahe_exec_order_t =
  eo_type :: wahe_eo_type
  eo_module_id :: int
  eo_func_id :: wahe_func_id
  eo_runner_id :: nat
  dst_msg_addr :: u64
  ret_msg_addr :: u64
  cmd_proc_id :: "int list"

text \<open>The array of execution orders may be larger than their number: the rest keeps what was written there.\<close>

record wahe_chain_t =
  chain_name :: "string option"
  has_group :: bool
  connection :: "wahe_connection_t list"
  exec_order :: "wahe_exec_order_t list"
  exec_order_rest :: "wahe_exec_order_t list"
  current_eo :: int
  current_cmd_proc_id :: nat
  current_func :: wahe_func_id

text \<open>The registry part of the group, then the group with the rest of the host.\<close>

record wahe_registry =
  cmd_reg :: "wahe_cmd_reg_t list"
  cmd_reg_sequence :: nat
  max_cmd_word_count :: nat
  host_commands_registered :: bool

text \<open>The settings and the library of \<open>wahe_wasm2native.c\<close>.\<close>

record wahe_wasm2native_t =
  mode_set :: bool
  native_mode :: wahe_wasm2native_mode
  cache_dir :: "string option"
  lib_path :: "string option"
  load_attempted :: bool
  lib_loaded :: bool
  default_cache_dir :: "string option"

datatype lock = Module_lock nat | Runner_lock nat nat

record 'g world =
  host_mem :: memory
  modules :: "wahe_module_t list"
  chains :: "wahe_chain_t list"
  registry :: wahe_registry
  module_array :: u64
  module_as :: nat
  cita_index :: "u64 \<times> nat"
  translation :: wahe_wasm2native_t
  cur_chain :: "nat option"
  cur_native_module :: "nat option"
  cur_native_runner_id :: nat
  cur_wasmtime_runner :: "(nat \<times> nat) option"
  execution_failed :: bool
  locks :: "lock \<Rightarrow> nat"
  guest :: 'g

section \<open>The environment\<close>

datatype guest_outcome = Returned u64 | Wrong_result_kind | Trapped

text \<open>
  A call into a module: its index, the runner, the function and the arguments. The value of a
  call of \<open>free\<close>, which returns nothing, is arbitrary.
\<close>

record 'g env =
  guest_call :: "nat \<Rightarrow> nat \<Rightarrow> wahe_func_id \<Rightarrow> u64 list \<Rightarrow> 'g world \<Rightarrow> (guest_outcome \<times> 'g world) option"
  timestamp :: "'g world \<Rightarrow> 32 word"
  host_realloc_ok :: "nat \<Rightarrow> bool"

section \<open>Access\<close>

definition module_at :: "'g world \<Rightarrow> int \<Rightarrow> nat option" where
  "module_at w i = (if 0 \<le> i \<and> nat i < length (modules w) then Some (nat i) else None)"

definition upd_module :: "nat \<Rightarrow> (wahe_module_t \<Rightarrow> wahe_module_t) \<Rightarrow> 'g world \<Rightarrow> 'g world" where
  "upd_module m f w = w\<lparr>modules := (modules w)[m := f (modules w ! m)]\<rparr>"

definition upd_runner :: "nat \<Rightarrow> (wahe_wasmtime_runner_t \<Rightarrow> wahe_wasmtime_runner_t) \<Rightarrow> wahe_module_t \<Rightarrow> wahe_module_t" where
  "upd_runner r f ctx = ctx\<lparr>runner := (runner ctx)[r := map_option f (runner ctx ! r)]\<rparr>"

definition upd_chain :: "nat \<Rightarrow> (wahe_chain_t \<Rightarrow> wahe_chain_t) \<Rightarrow> 'g world \<Rightarrow> 'g world" where
  "upd_chain c f w = w\<lparr>chains := (chains w)[c := f (chains w ! c)]\<rparr>"

definition acquire :: "lock \<Rightarrow> 'g world \<Rightarrow> 'g world" where
  "acquire l w = w\<lparr>locks := (locks w)(l := locks w l + 1)\<rparr>"

definition release :: "lock \<Rightarrow> 'g world \<Rightarrow> 'g world" where
  "release l w = w\<lparr>locks := (locks w)(l := locks w l - 1)\<rparr>"

lemma upd_module_simps [simp]:
  "host_mem (upd_module m f w) = host_mem w" "chains (upd_module m f w) = chains w"
  "registry (upd_module m f w) = registry w" "cur_chain (upd_module m f w) = cur_chain w"
  "cur_native_module (upd_module m f w) = cur_native_module w"
  "cur_native_runner_id (upd_module m f w) = cur_native_runner_id w"
  "cur_wasmtime_runner (upd_module m f w) = cur_wasmtime_runner w"
  "execution_failed (upd_module m f w) = execution_failed w" "locks (upd_module m f w) = locks w"
  "guest (upd_module m f w) = guest w" "length (modules (upd_module m f w)) = length (modules w)"
  "modules (upd_module m f w) = (modules w)[m := f (modules w ! m)]"
  by (simp_all add: upd_module_def)

lemma upd_chain_simps [simp]:
  "host_mem (upd_chain c f w) = host_mem w" "modules (upd_chain c f w) = modules w"
  "registry (upd_chain c f w) = registry w" "cur_chain (upd_chain c f w) = cur_chain w"
  "cur_native_module (upd_chain c f w) = cur_native_module w"
  "cur_native_runner_id (upd_chain c f w) = cur_native_runner_id w"
  "cur_wasmtime_runner (upd_chain c f w) = cur_wasmtime_runner w"
  "execution_failed (upd_chain c f w) = execution_failed w" "locks (upd_chain c f w) = locks w"
  "guest (upd_chain c f w) = guest w" "length (chains (upd_chain c f w)) = length (chains w)"
  "chains (upd_chain c f w) = (chains w)[c := f (chains w ! c)]"
  by (simp_all add: upd_chain_def)

lemma lock_simps [simp]:
  "host_mem (acquire l w) = host_mem w" "modules (acquire l w) = modules w" "chains (acquire l w) = chains w"
  "registry (acquire l w) = registry w" "cur_chain (acquire l w) = cur_chain w"
  "cur_native_module (acquire l w) = cur_native_module w" "cur_native_runner_id (acquire l w) = cur_native_runner_id w"
  "cur_wasmtime_runner (acquire l w) = cur_wasmtime_runner w" "execution_failed (acquire l w) = execution_failed w"
  "host_mem (release l w) = host_mem w" "modules (release l w) = modules w" "chains (release l w) = chains w"
  "registry (release l w) = registry w" "cur_chain (release l w) = cur_chain w"
  "cur_native_module (release l w) = cur_native_module w" "cur_native_runner_id (release l w) = cur_native_runner_id w"
  "cur_wasmtime_runner (release l w) = cur_wasmtime_runner w" "execution_failed (release l w) = execution_failed w"
  by (simp_all add: acquire_def release_def)

section \<open>Failure and validity\<close>

text \<open>A thread that finds the failure flag set parks; calling an invalid module ends the process.\<close>

definition wahe_wait_after_execution_failure :: "'g world \<Rightarrow> unit option" where
  "wahe_wait_after_execution_failure w = (if execution_failed w then None else Some ())"

definition wahe_claim_execution_failure :: "'g world \<Rightarrow> bool \<times> 'g world" where
  "wahe_claim_execution_failure w = (\<not> execution_failed w, w\<lparr>execution_failed := True\<rparr>)"

definition wahe_require_valid_module :: "nat option \<Rightarrow> 'g world \<Rightarrow> unit option" where
  "wahe_require_valid_module ctx w =
     do {
       wahe_wait_after_execution_failure w;
       (case ctx of
          None \<Rightarrow> Some ()
        | Some m \<Rightarrow> if m < length (modules w) \<and> valid (modules w ! m) then Some () else None)
     }"

section \<open>Runners and memory size\<close>

definition wahe_active_native_runner_id :: "nat option \<Rightarrow> 'g world \<Rightarrow> nat" where
  "wahe_active_native_runner_id ctx w =
     (if ctx \<noteq> None \<and> ctx = cur_native_module w then cur_native_runner_id w else 0)"

definition runner_object :: "wahe_module_t \<Rightarrow> nat \<Rightarrow> wahe_wasmtime_runner_t option" where
  "runner_object ctx r = (if r < runner_count ctx \<and> r < length (runner ctx) then runner ctx ! r else None)"

text \<open>The result is the runner's index, which is stable, or null.\<close>

definition wahe_get_wasmtime_runner :: "nat option \<Rightarrow> nat \<Rightarrow> 'g world \<Rightarrow> nat option" where
  "wahe_get_wasmtime_runner ctx r w =
     (case ctx of
        None \<Rightarrow> None
      | Some m \<Rightarrow>
          if mtype (modules w ! m) \<noteq> WAHE_MODULE_WASMTIME then None
          else if cur_wasmtime_runner w = Some (m, r) then Some r
          else (case runner_object (modules w ! m) r of
                  None \<Rightarrow> None
                | Some ro \<Rightarrow> if wr_thread_id ro \<noteq> 0 then None else Some r))"

definition wahe_active_runner_id :: "nat option \<Rightarrow> 'g world \<Rightarrow> nat" where
  "wahe_active_runner_id ctx w =
     (case (ctx, cur_wasmtime_runner w) of
        (Some m, Some (cm, cr)) \<Rightarrow>
          if mtype (modules w ! m) = WAHE_MODULE_WASMTIME \<and> cm = m then cr
          else wahe_active_native_runner_id ctx w
      | _ \<Rightarrow> wahe_active_native_runner_id ctx w)"

definition wasmtime_val_set_address :: "wahe_module_t \<Rightarrow> u64 \<Rightarrow> u64" where
  "wasmtime_val_set_address ctx address =
     (if address_bits ctx = 32 then ucast (ucast address :: u32) else address)"

text \<open>Wasmtime's value union holds a 32-bit value as a signed integer, so reading it sign-extends.\<close>

definition wasmtime_val_get_address :: "wahe_module_t \<Rightarrow> u64 \<Rightarrow> u64" where
  "wasmtime_val_get_address ctx val =
     (if address_bits ctx = 32 then scast (ucast val :: u32) else val)"

definition wahe_refresh_module_memory_size :: "nat option \<Rightarrow> 'g world \<Rightarrow> 'g world" where
  "wahe_refresh_module_memory_size ctx w =
     (case ctx of
        None \<Rightarrow> w
      | Some m \<Rightarrow>
          if mtype (modules w ! m) \<noteq> WAHE_MODULE_WASMTIME then w
          else if \<not> shared_memory (modules w ! m) \<and> wahe_get_wasmtime_runner ctx 0 w = None then w
          else upd_module m (\<lambda>x. x\<lparr>memory_size := runtime_size x\<rparr>) w)"

definition wahe_get_module_memory_size :: "nat option \<Rightarrow> 'g world \<Rightarrow> nat" where
  "wahe_get_module_memory_size ctx w =
     (case ctx of
        None \<Rightarrow> 0
      | Some m \<Rightarrow>
          let x = modules w ! m in
          if mtype x = WAHE_MODULE_WASMTIME \<and> shared_memory x then runtime_size x else memory_size x)"

definition WAHE_STACK_BLANK_PATTERN :: byte where
  "WAHE_STACK_BLANK_PATTERN = 0x01"

definition wahe_blank_module_stack :: "nat option \<Rightarrow> 'g world \<Rightarrow> (bool \<times> 'g world) option" where
  "wahe_blank_module_stack ctx w =
     (case ctx of
        None \<Rightarrow> Some (True, w)
      | Some m \<Rightarrow>
          let x = modules w ! m in
          if mtype x \<notin> {WAHE_MODULE_WASMTIME, WAHE_MODULE_WAMR, WAHE_MODULE_WASM_TO_NATIVE} then Some (True, w)
          else if stack_base x = 0 then Some (True, w)
          else if memory_ptr x = 0 \<or> unat (stack_base x) > memory_size x then Some (False, w)
          else (let stack_start = (if data_end x < stack_base x then data_end x else 0) in
                do {
                  m' \<leftarrow> mem_store (host_mem w) (memory_ptr x + stack_start)
                         (replicate (unat (stack_base x) - unat stack_start) WAHE_STACK_BLANK_PATTERN);
                  Some (True, w\<lparr>host_mem := m'\<rparr>)
                }))"

end
