(* ===== verification/Module_Dispatch.thy ===== *)
theory Module_Dispatch
  imports Module_State
begin

text \<open>
  Calls into modules, from \<open>wahe_core.c\<close>: \<open>call_module_func_core_on_runner\<close> and the functions on
  top of it. A call sets the thread-local current module or runner and the chain's current
  function, holds the runner's mutex while the module's code runs, and restores them; the
  pointer a function returns is checked against the memory of the module.
\<close>

section \<open>The code\<close>

text \<open>The dispatch through the native signatures: a missing argument is undefined.\<close>

definition native_args :: "wahe_func_id \<Rightarrow> u64 list \<Rightarrow> u64 list option" where
  "native_args func_id arg =
     (let n = (if func_id = WAHE_FUNC_REALLOC then 2 else 1)
      in if n \<le> length arg then Some (take n arg) else None)"

definition native_result :: "wahe_func_id \<Rightarrow> guest_outcome \<Rightarrow> u64 option" where
  "native_result func_id outcome =
     (case outcome of
        Returned v \<Rightarrow> Some (if func_id = WAHE_FUNC_FREE then 0 else v)
      | _ \<Rightarrow> None)"

text \<open>
  Entering a translated module locks its runner, if it has runners, and makes it the current
  native module; leaving restores what was current in the state \<open>w0\<close> before the call.
\<close>

definition enter_native :: "nat \<Rightarrow> nat \<Rightarrow> 'g world \<Rightarrow> 'g world" where
  "enter_native m runner_id w =
     (if mtype (modules w ! m) = WAHE_MODULE_WASM_TO_NATIVE
      then (if wasm_decomp_runner (modules w ! m) \<noteq> [] then acquire (Runner_lock m runner_id) w else w)
             \<lparr>cur_native_module := Some m, cur_native_runner_id := runner_id\<rparr>
      else w)"

definition leave_native :: "nat \<Rightarrow> nat \<Rightarrow> 'g world \<Rightarrow> 'g world \<Rightarrow> 'g world" where
  "leave_native m runner_id w0 w =
     (if mtype (modules w0 ! m) = WAHE_MODULE_WASM_TO_NATIVE
      then (let w1 = w\<lparr>cur_native_module := cur_native_module w0, cur_native_runner_id := cur_native_runner_id w0\<rparr>
            in if wasm_decomp_runner (modules w0 ! m) \<noteq> [] then release (Runner_lock m runner_id) w1 else w1)
      else w)"

definition call_native ::
    "'g env \<Rightarrow> nat \<Rightarrow> nat \<Rightarrow> u64 list \<Rightarrow> wahe_func_id \<Rightarrow> 'g world \<Rightarrow> (u64 \<times> 'g world) option" where
  "call_native E m runner_id arg func_id w =
     (let ctx = modules w ! m in
      if runner_count ctx \<le> runner_id \<or> (mtype ctx = WAHE_MODULE_NATIVE \<and> runner_id \<noteq> 0) \<or>
         (runner_id \<noteq> 0 \<and> wasm_decomp_runner ctx = [])
      then Some (0, w)
      else if \<not> dl_func ctx func_id then Some (0, w)
      else if mtype ctx = WAHE_MODULE_WASM_TO_NATIVE \<and> \<not> wasm_decomp_instance ctx then Some (0, w)
      else do {
        a \<leftarrow> native_args func_id arg;
        (outcome, w1) \<leftarrow> guest_call E m runner_id func_id a (enter_native m runner_id w);
        v \<leftarrow> native_result func_id outcome;
        Some (v, leave_native m runner_id w w1)
      })"

text \<open>The timestamp CIT Alloc reads is stored in the module's memory before each call.\<close>

definition timestamp_bytes :: "32 word \<Rightarrow> byte list" where
  "timestamp_bytes t = map (\<lambda>i. ucast (drop_bit (8 * i) t)) [0..<4]"

definition publish_timestamp :: "'g env \<Rightarrow> nat \<Rightarrow> 'g world \<Rightarrow> 'g world option" where
  "publish_timestamp E m w =
     (let ctx = modules w ! m in
      if cita_time_addr ctx = 0 then Some w
      else do {
        h \<leftarrow> mem_store (host_mem w) (memory_ptr ctx + cita_time_addr ctx) (timestamp_bytes (timestamp E w));
        Some (w\<lparr>host_mem := h\<rparr>)
      })"

text \<open>The chain's current function around a call; a chain that is gone by then is undefined.\<close>

definition set_current_func :: "nat option \<Rightarrow> wahe_func_id \<Rightarrow> 'g world \<Rightarrow> 'g world option" where
  "set_current_func chain f w =
     (case chain of
        None \<Rightarrow> Some w
      | Some c \<Rightarrow> if c < length (chains w) then Some (upd_chain c (\<lambda>x. x\<lparr>current_func := f\<rparr>) w) else None)"

definition call_depth_change :: "nat \<Rightarrow> nat \<Rightarrow> (nat \<Rightarrow> nat) \<Rightarrow> 'g world \<Rightarrow> 'g world" where
  "call_depth_change m r d w = upd_module m (upd_runner r (\<lambda>x. x\<lparr>wr_call_depth := d (wr_call_depth x)\<rparr>)) w"

definition wasmtime_result :: "wahe_module_t \<Rightarrow> wahe_func_id \<Rightarrow> guest_outcome \<Rightarrow> u64 option" where
  "wasmtime_result ctx func_id outcome =
     (case outcome of
        Trapped \<Rightarrow> None
      | Wrong_result_kind \<Rightarrow> Some 0
      | Returned v \<Rightarrow> Some (wasmtime_val_get_address ctx v))"

text \<open>
  Entering a Wasmtime runner records the chain's function, locks the runner, makes it current
  and counts the call; leaving undoes each of them, from the state \<open>w0\<close> before the call.
\<close>

definition enter_wasmtime :: "nat \<Rightarrow> nat \<Rightarrow> wahe_func_id \<Rightarrow> 'g world \<Rightarrow> 'g world option" where
  "enter_wasmtime m r func_id w =
     do {
       w1 \<leftarrow> set_current_func (cur_chain w) func_id w;
       Some (call_depth_change m r Suc ((acquire (Runner_lock m r) w1)\<lparr>cur_wasmtime_runner := Some (m, r)\<rparr>))
     }"

definition leave_wasmtime :: "nat \<Rightarrow> nat \<Rightarrow> 'g world \<Rightarrow> 'g world \<Rightarrow> 'g world option" where
  "leave_wasmtime m r w0 w =
     (let prev_func = (case cur_chain w0 of None \<Rightarrow> WAHE_FUNC_NONE | Some c \<Rightarrow> current_func (chains w0 ! c));
          w1 = (call_depth_change m r (\<lambda>d. d - 1) w)\<lparr>cur_wasmtime_runner := cur_wasmtime_runner w0\<rparr>
      in set_current_func (cur_chain w0) prev_func (release (Runner_lock m r) w1))"

definition call_wasmtime ::
    "'g env \<Rightarrow> nat \<Rightarrow> nat \<Rightarrow> u64 list \<Rightarrow> wahe_func_id \<Rightarrow> 'g world \<Rightarrow> (u64 \<times> 'g world) option" where
  "call_wasmtime E m runner_id arg func_id w =
     (let ctx = modules w ! m in
      case wahe_get_wasmtime_runner (Some m) runner_id w of
        None \<Rightarrow> Some (0, w)
      | Some r \<Rightarrow>
          do {
            ro \<leftarrow> runner_object ctx r;
            (if \<not> wr_func ro func_id then Some (0, w)
             else do {
               w1 \<leftarrow> enter_wasmtime m r func_id w;
               wahe_wait_after_execution_failure w1;
               (outcome, w2) \<leftarrow> guest_call E m r func_id (map (wasmtime_val_set_address ctx) arg) w1;
               w3 \<leftarrow> leave_wasmtime m r w w2;
               v \<leftarrow> wasmtime_result ctx func_id outcome;
               wahe_wait_after_execution_failure w3;
               Some (v, wahe_refresh_module_memory_size (Some m) w3)
             })
          })"

definition call_module_func_core_on_runner ::
    "'g env \<Rightarrow> nat option \<Rightarrow> nat \<Rightarrow> u64 list \<Rightarrow> wahe_func_id \<Rightarrow> 'g world \<Rightarrow> (u64 \<times> 'g world) option" where
  "call_module_func_core_on_runner E ctx runner_id arg func_id w =
     do {
       wahe_wait_after_execution_failure w;
       (case ctx of
          None \<Rightarrow> Some (0, w)
        | Some m \<Rightarrow>
            if func_id = WAHE_FUNC_NONE \<or> func_id = WAHE_FUNC_COUNT then Some (0, w)
            else if 2 < length arg then Some (0, w)
            else do {
              wahe_require_valid_module (Some m) w;
              (let ty = mtype (modules w ! m) in
               if ty = WAHE_MODULE_WASM_TO_NATIVE \<or> ty = WAHE_MODULE_NATIVE
               then call_native E m runner_id arg func_id w
               else do {
                 w1 \<leftarrow> publish_timestamp E m w;
                 (if ty \<noteq> WAHE_MODULE_WASMTIME then Some (0, w1)
                  else call_wasmtime E m runner_id arg func_id w1)
               })
            })
     }"

definition call_module_malloc_on_runner ::
    "'g env \<Rightarrow> nat option \<Rightarrow> nat \<Rightarrow> u64 \<Rightarrow> 'g world \<Rightarrow> (u64 \<times> 'g world) option" where
  "call_module_malloc_on_runner E ctx runner_id sz w =
     call_module_func_core_on_runner E ctx runner_id [sz] WAHE_FUNC_MALLOC w"

definition call_module_realloc_on_runner ::
    "'g env \<Rightarrow> nat option \<Rightarrow> nat \<Rightarrow> u64 \<Rightarrow> u64 \<Rightarrow> 'g world \<Rightarrow> (u64 \<times> 'g world) option" where
  "call_module_realloc_on_runner E ctx runner_id address sz w =
     call_module_func_core_on_runner E ctx runner_id [address, sz] WAHE_FUNC_REALLOC w"

definition call_module_free_on_runner :: "'g env \<Rightarrow> nat option \<Rightarrow> nat \<Rightarrow> u64 \<Rightarrow> 'g world \<Rightarrow> 'g world option" where
  "call_module_free_on_runner E ctx runner_id address w =
     map_option snd (call_module_func_core_on_runner E ctx runner_id [address] WAHE_FUNC_FREE w)"

text \<open>
  The returned pointer, null or a host address. With \<open>call_from_eo\<close> the return address is also
  stored in the current execution order of the current chain, which was found before the call.
\<close>

definition store_ret_addr :: "(nat \<times> nat) option \<Rightarrow> u64 \<Rightarrow> 'g world \<Rightarrow> 'g world" where
  "store_ret_addr slot v w =
     (case slot of
        None \<Rightarrow> w
      | Some (c, e) \<Rightarrow>
          upd_chain c (\<lambda>x. x\<lparr>exec_order := (exec_order x)[e := (exec_order x ! e)\<lparr>ret_msg_addr := v\<rparr>]\<rparr>) w)"

definition ret_slot :: "bool \<Rightarrow> 'g world \<Rightarrow> (nat \<times> nat) option option" where
  "ret_slot call_from_eo w =
     (if call_from_eo
      then (case cur_chain w of
              None \<Rightarrow> None
            | Some c \<Rightarrow>
                (let e = current_eo (chains w ! c) in
                 if 0 \<le> e \<and> nat e < length (exec_order (chains w ! c)) then Some (Some (c, nat e)) else None))
      else Some None)"

definition returned_message :: "nat \<Rightarrow> (nat \<times> nat) option \<Rightarrow> u64 \<Rightarrow> 'g world \<Rightarrow> u64 \<times> 'g world" where
  "returned_message m slot ret w =
     (if mtype (modules w ! m) = WAHE_MODULE_NATIVE then (ret, w)
      else if ret = 0 then (0, w)
      else (let w1 = wahe_refresh_module_memory_size (Some m) w;
                mem_size = wahe_get_module_memory_size (Some m) w1;
                ctx = modules w1 ! m
            in if mtype ctx \<notin> {WAHE_MODULE_WASMTIME, WAHE_MODULE_WAMR, WAHE_MODULE_WASM_TO_NATIVE} \<or>
                  memory_ptr ctx = 0 \<or> mem_size \<le> unat ret
               then (0, store_ret_addr slot 0 w1)
               else (memory_ptr ctx + ret, w1)))"

definition call_module_func_on_runner ::
    "'g env \<Rightarrow> nat \<Rightarrow> nat \<Rightarrow> u64 \<Rightarrow> wahe_func_id \<Rightarrow> bool \<Rightarrow> 'g world \<Rightarrow> (u64 \<times> 'g world) option" where
  "call_module_func_on_runner E m runner_id message_addr func_id call_from_eo w =
     do {
       slot \<leftarrow> ret_slot call_from_eo w;
       (ret, w1) \<leftarrow> call_module_func_core_on_runner E (Some m) runner_id [message_addr] func_id w;
       Some (returned_message m slot ret (store_ret_addr slot ret w1))
     }"

text \<open>The wrappers that use the runner active on this thread, or runner zero.\<close>

definition call_module_malloc :: "'g env \<Rightarrow> nat option \<Rightarrow> u64 \<Rightarrow> 'g world \<Rightarrow> (u64 \<times> 'g world) option" where
  "call_module_malloc E ctx sz w = call_module_malloc_on_runner E ctx (wahe_active_runner_id ctx w) sz w"

definition call_module_realloc :: "'g env \<Rightarrow> nat option \<Rightarrow> u64 \<Rightarrow> u64 \<Rightarrow> 'g world \<Rightarrow> (u64 \<times> 'g world) option" where
  "call_module_realloc E ctx address sz w =
     call_module_realloc_on_runner E ctx (wahe_active_runner_id ctx w) address sz w"

definition call_module_free :: "'g env \<Rightarrow> nat option \<Rightarrow> u64 \<Rightarrow> 'g world \<Rightarrow> 'g world option" where
  "call_module_free E ctx address w = call_module_free_on_runner E ctx (wahe_active_runner_id ctx w) address w"

definition call_module_func ::
    "'g env \<Rightarrow> nat \<Rightarrow> u64 \<Rightarrow> wahe_func_id \<Rightarrow> bool \<Rightarrow> 'g world \<Rightarrow> (u64 \<times> 'g world) option" where
  "call_module_func E m message_addr func_id call_from_eo w =
     call_module_func_on_runner E m (wahe_active_runner_id (Some m) w) message_addr func_id call_from_eo w"

text \<open>
  Formatted messages, for a text that is already formatted: it is allocated in the module with
  its terminator and written there.
\<close>

definition module_vsprintf_alloc_on_runner ::
    "'g env \<Rightarrow> nat \<Rightarrow> nat \<Rightarrow> string \<Rightarrow> 'g world \<Rightarrow> (u64 \<times> 'g world) option" where
  "module_vsprintf_alloc_on_runner E m runner_id s w =
     do {
       (addr, w1) \<leftarrow> call_module_malloc_on_runner E (Some m) runner_id (of_nat (length s + 1)) w;
       (if addr = 0 then Some (0, w1)
        else (let ctx = modules w1 ! m;
                  p = (if mtype ctx = WAHE_MODULE_NATIVE then addr else memory_ptr ctx + addr)
              in do {
                h \<leftarrow> mem_store (host_mem w1) p (bytes_of_string s @ [0]);
                Some (addr, w1\<lparr>host_mem := h\<rparr>)
              }))
     }"

definition module_sprintf_alloc :: "'g env \<Rightarrow> nat \<Rightarrow> string \<Rightarrow> 'g world \<Rightarrow> (u64 \<times> 'g world) option" where
  "module_sprintf_alloc E m s w = module_vsprintf_alloc_on_runner E m (wahe_active_runner_id (Some m) w) s w"

definition wahe_send_input :: "'g env \<Rightarrow> nat \<Rightarrow> string \<Rightarrow> 'g world \<Rightarrow> (u64 \<times> 'g world) option" where
  "wahe_send_input E m s w =
     do {
       (message_addr, w1) \<leftarrow> module_sprintf_alloc E m s w;
       (return_msg, w2) \<leftarrow> call_module_func E m message_addr WAHE_FUNC_INPUT False w1;
       w3 \<leftarrow> call_module_free E (Some m) message_addr w2;
       Some (return_msg, w3)
     }"

text \<open>\<open>wahe_copy_between_memories\<close>: a null module means direct host addresses.\<close>

definition block_address :: "nat option \<Rightarrow> u64 \<Rightarrow> 'g world \<Rightarrow> u64" where
  "block_address ctx a w = (case ctx of None \<Rightarrow> a | Some m \<Rightarrow> memory_ptr (modules w ! m) + a)"

definition range_rejected :: "nat option \<Rightarrow> u64 \<Rightarrow> nat \<Rightarrow> 'g world \<Rightarrow> bool" where
  "range_rejected ctx a n w =
     (case ctx of
        None \<Rightarrow> False
      | Some m \<Rightarrow>
          let sz = wahe_get_module_memory_size ctx w
          in memory_ptr (modules w ! m) = 0 \<or> sz < unat a \<or> sz - unat a < n)"

definition wahe_copy_between_memories ::
    "nat option \<Rightarrow> u64 \<Rightarrow> nat \<Rightarrow> nat option \<Rightarrow> u64 \<Rightarrow> 'g world \<Rightarrow> 'g world option" where
  "wahe_copy_between_memories src_module src_addr copy_size dst_module dst_addr w =
     do {
       wahe_require_valid_module src_module w;
       wahe_require_valid_module dst_module w;
       (let w1 = wahe_refresh_module_memory_size dst_module (wahe_refresh_module_memory_size src_module w) in
        if range_rejected src_module src_addr copy_size w1 then Some w1
        else if range_rejected dst_module dst_addr copy_size w1 then Some w1
        else if (src_module = None \<and> src_addr = 0 \<and> copy_size \<noteq> 0) \<or>
                (dst_module = None \<and> dst_addr = 0 \<and> copy_size \<noteq> 0) then Some w1
        else do {
          h \<leftarrow> memcpy (host_mem w1) (block_address dst_module dst_addr w1) (block_address src_module src_addr w1) copy_size;
          Some (w1\<lparr>host_mem := h\<rparr>)
        })
     }"

section \<open>What a call leaves in place\<close>

text \<open>
  The execution context of the thread: the current chain, module and runner, the held
  mutexes and the function each chain is in.
\<close>

definition same_context :: "'g world \<Rightarrow> 'g world \<Rightarrow> bool" where
  "same_context w w' \<longleftrightarrow>
     cur_chain w' = cur_chain w \<and> cur_native_module w' = cur_native_module w \<and>
     cur_native_runner_id w' = cur_native_runner_id w \<and> cur_wasmtime_runner w' = cur_wasmtime_runner w \<and>
     locks w' = locks w \<and> map current_func (chains w') = map current_func (chains w)"

definition guest_keeps_context :: "'g env \<Rightarrow> bool" where
  "guest_keeps_context E \<longleftrightarrow>
     (\<forall>m r f a w out w'. guest_call E m r f a w = Some (out, w') \<longrightarrow> same_context w w')"

lemma same_context_refl [simp]: "same_context w w"
  by (simp add: same_context_def)

lemma same_context_trans: "same_context a b \<Longrightarrow> same_context b c \<Longrightarrow> same_context a c"
  by (simp add: same_context_def)

lemma same_context_upd_module [simp]: "same_context w (upd_module m f w)"
  by (simp add: same_context_def)

lemma same_context_refresh [simp]: "same_context w (wahe_refresh_module_memory_size ctx w)"
  by (simp add: wahe_refresh_module_memory_size_def split: option.split)

lemma same_context_host_mem [simp]: "same_context w (w\<lparr>host_mem := h\<rparr>)"
  by (simp add: same_context_def)

lemma release_acquire_locks: "locks w' = locks (acquire l w) \<Longrightarrow> locks (release l w') = locks w"
  by (simp add: acquire_def release_def fun_eq_iff)

lemma publish_timestamp_context: "publish_timestamp E m w = Some w' \<Longrightarrow> same_context w w'"
  by (auto simp: publish_timestamp_def Let_def split: if_splits option.splits bind_splits)


lemma current_func_restored:
  "map current_func (cs'[c := (cs' ! c)\<lparr>current_func := current_func (cs ! c)\<rparr>]) = map current_func cs"
  if "map current_func cs' = map current_func (cs[c := x])" "c < length cs"
proof -
  have "map current_func (cs'[c := (cs' ! c)\<lparr>current_func := current_func (cs ! c)\<rparr>]) =
      (map current_func (cs[c := x]))[c := current_func (cs ! c)]"
    by (simp add: map_update that(1))
  also have "\<dots> = map current_func (cs[c := cs ! c])" by (simp only: map_update list_update_overwrite)
  finally show ?thesis by simp
qed

lemma native_context:
  "same_context (enter_native m r w) w' \<Longrightarrow> same_context w (leave_native m r w w')"
  by (auto simp: same_context_def enter_native_def leave_native_def acquire_def release_def fun_eq_iff split: if_splits)

lemma wasmtime_context:
  assumes "enter_wasmtime m r f w = Some w1" "same_context w1 w2" "leave_wasmtime m r w w2 = Some w3"
  shows "same_context w w3"
proof (cases "cur_chain w")
  case None
  with assms show ?thesis
    by (auto simp: enter_wasmtime_def leave_wasmtime_def set_current_func_def call_depth_change_def same_context_def
        upd_module_def acquire_def release_def Let_def fun_eq_iff)
next
  case (Some c)
  from assms Some have c: "c < length (chains w)" "c < length (chains w2)"
    by (auto simp: enter_wasmtime_def leave_wasmtime_def set_current_func_def call_depth_change_def Let_def
        upd_module_def acquire_def release_def split: if_splits)
  have w1: "cur_chain w1 = Some c" "cur_native_module w1 = cur_native_module w"
      "cur_native_runner_id w1 = cur_native_runner_id w" "locks w1 = locks (acquire (Runner_lock m r) w)"
      "chains w1 = (chains w)[c := (chains w ! c)\<lparr>current_func := f\<rparr>]"
    using assms(1) Some c
    by (auto simp: enter_wasmtime_def set_current_func_def call_depth_change_def acquire_def)
  have w3: "cur_chain w3 = cur_chain w2" "cur_native_module w3 = cur_native_module w2"
      "cur_native_runner_id w3 = cur_native_runner_id w2" "cur_wasmtime_runner w3 = cur_wasmtime_runner w"
      "locks w3 = locks (release (Runner_lock m r) w2)"
      "chains w3 = (chains w2)[c := (chains w2 ! c)\<lparr>current_func := current_func (chains w ! c)\<rparr>]"
    using assms(3) Some c
    by (auto simp: leave_wasmtime_def set_current_func_def call_depth_change_def Let_def release_def)
  have "map current_func (chains w3) = map current_func (chains w)"
    unfolding w3(6) using assms(2) w1(5) c(1) by (intro current_func_restored) (auto simp: same_context_def)
  moreover have "locks w3 = locks w"
    using assms(2) w1(4) w3(5) release_acquire_locks [of w2 "Runner_lock m r" w] by (simp add: same_context_def)
  ultimately show ?thesis using assms(2) w1 w3 Some by (simp add: same_context_def)
qed

lemma call_native_context:
  assumes "guest_keeps_context E" "call_native E m r arg f w = Some (v, w')"
  shows "same_context w w'"
  using assms native_context
  by (fastforce simp: call_native_def Let_def guest_keeps_context_def split: if_splits bind_splits)

lemma call_wasmtime_context:
  assumes keeps: "guest_keeps_context E" and call: "call_wasmtime E m r arg f w = Some (v, w')"
  shows "same_context w w'"
proof (cases "wahe_get_wasmtime_runner (Some m) r w")
  case (Some r')
  with call have "w' = w \<or> (\<exists>w1 out w2 w3. enter_wasmtime m r' f w = Some w1 \<and>
      guest_call E m r' f (map (wasmtime_val_set_address (modules w ! m)) arg) w1 = Some (out, w2) \<and>
      leave_wasmtime m r' w w2 = Some w3 \<and> w' = wahe_refresh_module_memory_size (Some m) w3)"
    by (auto simp: call_wasmtime_def Let_def split: if_splits bind_splits)
  then show ?thesis
  proof (elim disjE exE conjE)
    fix w1 out w2 w3
    assume e: "enter_wasmtime m r' f w = Some w1"
        "guest_call E m r' f (map (wasmtime_val_set_address (modules w ! m)) arg) w1 = Some (out, w2)"
        "leave_wasmtime m r' w w2 = Some w3" "w' = wahe_refresh_module_memory_size (Some m) w3"
    have "same_context w1 w2" using keeps e(2) unfolding guest_keeps_context_def by blast
    then have "same_context w w3" by (rule wasmtime_context [OF e(1) _ e(3)])
    then show ?thesis unfolding e(4) by (rule same_context_trans) simp
  qed simp
qed (use call in \<open>simp add: call_wasmtime_def Let_def\<close>)

lemma call_core_context:
  assumes keeps: "guest_keeps_context E" and call: "call_module_func_core_on_runner E ctx r arg f w = Some (v, w')"
  shows "same_context w w'"
proof -
  have "w' = w \<or> (\<exists>m. call_native E m r arg f w = Some (v, w')) \<or>
      (\<exists>m w1. publish_timestamp E m w = Some w1 \<and> (w' = w1 \<or> call_wasmtime E m r arg f w1 = Some (v, w')))"
    using call by (auto simp: call_module_func_core_on_runner_def Let_def split: if_splits bind_splits option.splits)
  then show ?thesis
    using call_native_context [OF keeps] call_wasmtime_context [OF keeps] publish_timestamp_context same_context_trans
    by (metis same_context_refl)
qed

lemma same_context_store_ret [simp]: "same_context w (store_ret_addr slot v w)"
  by (auto simp: store_ret_addr_def same_context_def upd_chain_def map_update split: option.split)
     (metis list_update_id map_update)

lemma same_context_returned: "returned_message m slot ret w = (v, w') \<Longrightarrow> same_context w w'"
  by (auto simp: returned_message_def Let_def split: if_splits intro: same_context_trans [OF same_context_refresh same_context_store_ret])

lemma call_func_context:
  assumes "guest_keeps_context E" "call_module_func_on_runner E m r a f eo w = Some (v, w')"
  shows "same_context w w'"
proof -
  obtain slot ret w1 where core: "call_module_func_core_on_runner E (Some m) r [a] f w = Some (ret, w1)"
    and w': "returned_message m slot ret (store_ret_addr slot ret w1) = (v, w')"
    using assms(2) by (auto simp: call_module_func_on_runner_def split: bind_splits)
  have "same_context w w1" by (rule call_core_context [OF assms(1) core])
  moreover have "same_context w1 w'"
    by (rule same_context_trans [OF same_context_store_ret same_context_returned [OF w']])
  ultimately show ?thesis by (rule same_context_trans)
qed

section \<open>Returned pointers\<close>

lemma store_ret_slot:
  assumes "store_ret_addr (Some (c, e)) v w = w'" "c < length (chains w)" "e < length (exec_order (chains w ! c))"
  shows "ret_msg_addr (exec_order (chains w' ! c) ! e) = v"
  using assms by (auto simp: store_ret_addr_def)

lemma get_size_refreshed:
  "mtype (modules w ! m) = WAHE_MODULE_WASMTIME \<Longrightarrow> m < length (modules w) \<Longrightarrow>
   shared_memory (modules w ! m) \<or> wahe_get_wasmtime_runner (Some m) 0 w \<noteq> None \<Longrightarrow>
   wahe_get_module_memory_size (Some m) (wahe_refresh_module_memory_size (Some m) w) = runtime_size (modules w ! m)"
  by (auto simp: wahe_refresh_module_memory_size_def wahe_get_module_memory_size_def Let_def)

section \<open>Copies between memories\<close>

lemma memcpy_effect:
  assumes "memcpy m dst src n = Some m'" "n \<le> 2 ^ 64"
  shows "\<not> in_block dst n q \<Longrightarrow> m' q = m q" and "mem_load m' dst n = mem_load m src n" and "mem_load m src n \<noteq> None"
proof -
  obtain bs where bs: "mem_load m src n = Some bs" "mem_store m dst bs = Some m'"
    using assms(1) by (auto simp: memcpy_def split: if_splits bind_splits)
  have len: "length bs = n" using bs(1) by (simp add: mem_load_iff)
  show "\<not> in_block dst n q \<Longrightarrow> m' q = m q" using mem_store_effect(1) [OF bs(2)] len by simp
  show "mem_load m' dst n = mem_load m src n" using mem_store_load [OF bs(2)] len assms(2) bs(1) by simp
  show "mem_load m src n \<noteq> None" using bs(1) by simp
qed

lemma refresh_host_mem [simp]: "host_mem (wahe_refresh_module_memory_size ctx w) = host_mem w"
  by (simp add: wahe_refresh_module_memory_size_def split: option.split)

lemma nth_beyond: "length xs = length ys \<Longrightarrow> length xs \<le> j \<Longrightarrow> xs ! j = ys ! j"
proof (induction xs ys arbitrary: j rule: list_induct2)
  case (Cons x xs y ys)
  then show ?case by (cases j) auto
qed simp

lemma update_same_field:
  "g (f (xs ! k)) = g (xs ! k) \<Longrightarrow> g (xs[k := f (xs ! k)] ! j) = g (xs ! j)"
proof (cases "j < length xs")
  case False
  then show ?thesis using nth_beyond [of "xs[k := f (xs ! k)]" xs j] by simp
qed (cases "k = j", simp_all)

lemma refresh_cases:
  obtains "wahe_refresh_module_memory_size ctx w = w"
  | m where "ctx = Some m" "wahe_refresh_module_memory_size ctx w = upd_module m (\<lambda>x. x\<lparr>memory_size := runtime_size x\<rparr>) w"
proof (cases ctx)
  case (Some m)
  show ?thesis
    by (cases "mtype (modules w ! m) \<noteq> WAHE_MODULE_WASMTIME \<or>
          \<not> shared_memory (modules w ! m) \<and> wahe_get_wasmtime_runner (Some m) 0 w = None")
      (use that Some in \<open>auto simp: wahe_refresh_module_memory_size_def\<close>)
qed (simp add: wahe_refresh_module_memory_size_def that)

lemma refresh_memory_ptr [simp]: "memory_ptr (modules (wahe_refresh_module_memory_size ctx w) ! j) = memory_ptr (modules w ! j)"
  by (rule refresh_cases [of ctx w]) (simp_all add: update_same_field [where g = memory_ptr])

lemma refresh_length [simp]: "length (modules (wahe_refresh_module_memory_size ctx w)) = length (modules w)"
  by (rule refresh_cases [of ctx w]) simp_all

lemma block_address_refresh [simp]: "block_address c a (wahe_refresh_module_memory_size ctx w) = block_address c a w"
  by (simp add: block_address_def split: option.split)

lemma copy_between_cases:
  assumes "wahe_copy_between_memories src sa n dst da w = Some w'"
  defines "w1 \<equiv> wahe_refresh_module_memory_size dst (wahe_refresh_module_memory_size src w)"
  obtains "w' = w1"
  | h where "memcpy (host_mem w) (block_address dst da w) (block_address src sa w) n = Some h" "w' = w1\<lparr>host_mem := h\<rparr>"
      "\<not> range_rejected src sa n w1" "\<not> range_rejected dst da n w1"
  using assms unfolding wahe_copy_between_memories_def
  by (simp only: Let_def block_address_refresh refresh_host_mem split: if_splits bind_splits) (auto split: bind_splits)


lemma refresh_size_stable:
  "wahe_get_module_memory_size c (w\<lparr>host_mem := h\<rparr>) = wahe_get_module_memory_size c w"
  by (simp add: wahe_get_module_memory_size_def split: option.split)

section \<open>Properties\<close>

text \<open>
  C3. A call into a module leaves the calling thread as it was: the current chain, module and runner,
  every mutex and the function each chain is in are restored, on every branch that returns, if the
  callbacks made by the module's code do the same.
\<close>

theorem call_keeps_context:
  assumes "guest_keeps_context E" and "call_module_func_on_runner E m r a f eo w = Some (v, w')"
  shows "same_context w w'"
  by (rule call_func_context [OF assms])

text \<open>
  C10. A pointer that a WebAssembly module's function is reported to return is an address inside
  the module's linear memory, at the size it has after the call.
\<close>

theorem returned_pointer_in_memory:
  assumes "call_module_func_on_runner E m r a f eo w = Some (p, w')" and "p \<noteq> 0"
    and "mtype (modules w' ! m) \<noteq> WAHE_MODULE_NATIVE"
  shows "\<exists>off. p = memory_ptr (modules w' ! m) + off \<and> off \<noteq> 0 \<and>
    unat off < wahe_get_module_memory_size (Some m) w' \<and> memory_ptr (modules w' ! m) \<noteq> 0"
proof -
  obtain slot ret w1 where "returned_message m slot ret (store_ret_addr slot ret w1) = (p, w')"
    using assms(1) by (auto simp: call_module_func_on_runner_def split: bind_splits)
  with assms(2,3) show ?thesis
    by (auto simp: returned_message_def Let_def not_le split: if_splits)
qed

text \<open>
  C4. A host copy into a module changes no byte outside the module's linear memory, and either
  changes nothing or copies the whole source range.
\<close>

theorem copy_between_memories_safe:
  assumes "wahe_copy_between_memories src sa n (Some d) da w = Some w'"
    and "wahe_get_module_memory_size (Some d) w' \<le> 2 ^ 64"
  shows "(\<forall>q. \<not> in_block (memory_ptr (modules w ! d)) (wahe_get_module_memory_size (Some d) w') q \<longrightarrow>
       host_mem w' q = host_mem w q) \<and>
    (host_mem w' = host_mem w \<or>
     mem_load (host_mem w') (memory_ptr (modules w ! d) + da) n = mem_load (host_mem w) (block_address src sa w) n)"
  using assms(1)
proof (cases rule: copy_between_cases)
  case 1
  then show ?thesis by simp
next
  case (2 h)
  let ?size = "wahe_get_module_memory_size (Some d) w'"
  have range: "unat da + n \<le> ?size"
    using 2(2,4) by (auto simp: range_rejected_def Let_def refresh_size_stable not_less)
  then have "n \<le> 2 ^ 64" using assms(2) by simp
  note copied = memcpy_effect [OF 2(1) this]
  have "h q = host_mem w q" if "\<not> in_block (memory_ptr (modules w ! d)) ?size q" for q
    using that copied(1) [of q] in_block_sub [OF _ range assms(2)] by (auto simp: block_address_def)
  with copied(2) 2(2) show ?thesis by (simp add: block_address_def)
qed

text \<open>
  C39. On a module with 32-bit addresses the runtime's result is read as a signed integer, so a
  message at an address of at least two gibibytes is refused although it lies inside the memory.
\<close>

theorem high_address_refused:
  assumes "mtype (modules w ! m) = WAHE_MODULE_WASMTIME" and "m < length (modules w)"
    and "address_bits (modules w ! m) = 32" and "2 ^ 31 \<le> unat v" and "unat v < 2 ^ 32"
    and "wahe_get_module_memory_size (Some m) (wahe_refresh_module_memory_size (Some m) w) \<le> 2 ^ 32"
  shows "fst (returned_message m slot (wasmtime_val_get_address (modules w ! m) v) w) = 0"
proof -
  let ?a = "wasmtime_val_get_address (modules w ! m) v"
  have "unat v div 2 ^ 31 = 1" using assms(4,5) by simp
  then have "bit (unat v) 31" by (simp add: bit_iff_odd)
  then have "bit v 31" by (simp add: bit_unsigned_iff)
  then have "bit ?a 63" using assms(3) by (simp add: wasmtime_val_get_address_def bit_simps)
  then have "bit (unat ?a) 63" by (simp add: bit_unsigned_iff)
  then have "2 ^ 63 \<le> unat ?a" by (metis bit_iff_odd div_less even_zero not_less)
  with assms(6) show ?thesis using assms(1)
    by (auto simp: returned_message_def Let_def)
qed

section \<open>A sample host\<close>

text \<open>A cleared module slot, as \<open>memset\<close> leaves it, and a host of one Wasmtime module that answers every call with 8.\<close>

definition zero_module :: wahe_module_t where
  "zero_module =
     \<lparr>valid = False, mod_name = [], wahe_name = None, native_translation_path = None, module_id = 0, mtype = WAHE_MODULE_NONE, runner_count = 0,
      memory_ptr = 0, stack_base = 0, data_end = 0, heap_base = 0, memory_size = 0, memory_reserve_size = 0,
      memory_size_addr = 0, stack_ptr_addr = 0, cita_time_addr = 0, memory_bits = 0, has_host_mem_access = False,
      page_count_initial = 0, page_count_max = 0, shared_memory = False, runtime_size = 0, runtime_pages = 0,
      runner = [], initial_runner_count = 0, next_thread_id = 0, thread_memory_safe = False, threads_stopping = False,
      memory_is_shared = False, memory_reclaim_pending = False, address_bits = 0, dl_func = (\<lambda>_. False),
      wasm_decomp_instance = False, wasm_decomp_runner = [], decomp_initial_runner_count = 0,
      decomp_runner_capacity = 0, decomp_next_thread_id = 0, decomp_threads_stopping = False\<rparr>"

definition zero_runner :: wahe_wasmtime_runner_t where
  "zero_runner =
     \<lparr>wr_memory_set = False, wr_func = (\<lambda>_. False), wr_stack_pointer = None, wr_thread_id = 0, wr_stack_alloc = 0,
      wr_stack_start = 0, wr_stack_size = 0, wr_tls_alloc = 0, wr_input_addr = 0, wr_thread_handle = False,
      wr_thread_reply = None, wr_creating = False, wr_joining = False, wr_call_depth = 0\<rparr>"

definition sample_module :: wahe_module_t where
  "sample_module = zero_module\<lparr>valid := True, mtype := WAHE_MODULE_WASMTIME, runner_count := 1, memory_ptr := 0x1000,
     shared_memory := True, runtime_size := 64, address_bits := 32, runner := [Some (zero_runner\<lparr>wr_func := \<lambda>_. True\<rparr>)]\<rparr>"

definition sample_memory :: memory where
  "sample_memory p = (if 0x1000 \<le> p \<and> p < 0x1080 then Some 7 else None)"

definition initial_translation :: wahe_wasm2native_t where
  "initial_translation = \<lparr>mode_set = False, native_mode = WAHE_WASM2NATIVE_OFF, cache_dir = None, lib_path = None,
     load_attempted = False, lib_loaded = False, default_cache_dir = None\<rparr>"

definition sample_world :: "unit world" where
  "sample_world = \<lparr>host_mem = sample_memory, modules = [sample_module], chains = [],
     registry = \<lparr>cmd_reg = [], cmd_reg_sequence = 0, max_cmd_word_count = 0, host_commands_registered = False\<rparr>,
     module_array = 0, module_as = 0, cita_index = (0, 0), translation = initial_translation, cur_chain = None, cur_native_module = None, cur_native_runner_id = 0,
     cur_wasmtime_runner = None, execution_failed = False, locks = (\<lambda>_. 0), guest = ()\<rparr>"

definition answering_env :: "u64 \<Rightarrow> unit env" where
  "answering_env v = \<lparr>guest_call = \<lambda>m r f a w. Some (Returned v, w), timestamp = \<lambda>_. 0, host_realloc_ok = \<lambda>_. True\<rparr>"

lemma answering_env_keeps: "guest_keeps_context (answering_env v)"
  by (simp add: guest_keeps_context_def answering_env_def)

lemmas sample_simps = sample_world_def sample_module_def zero_module_def zero_runner_def answering_env_def

lemmas dispatch_simps = call_module_func_on_runner_def call_module_func_core_on_runner_def ret_slot_def
  wahe_wait_after_execution_failure_def wahe_require_valid_module_def publish_timestamp_def call_wasmtime_def
  wahe_get_wasmtime_runner_def runner_object_def enter_wasmtime_def leave_wasmtime_def set_current_func_def
  call_depth_change_def wasmtime_result_def wasmtime_val_get_address_def store_ret_addr_def returned_message_def
  wahe_refresh_module_memory_size_def wahe_get_module_memory_size_def upd_module_def upd_runner_def acquire_def release_def

lemma sample_call:
  "\<exists>w'. call_module_func_on_runner (answering_env 8) 0 0 0 WAHE_FUNC_INPUT False sample_world = Some (0x1008, w') \<and>
     mtype (modules w' ! 0) = WAHE_MODULE_WASMTIME"
  by (simp add: dispatch_simps sample_simps Let_def)

theorem call_keeps_context_witness:
  "\<exists>v w'. call_module_func_on_runner (answering_env 8) 0 0 0 WAHE_FUNC_INPUT False sample_world = Some (v, w') \<and>
     same_context sample_world w'"
  using sample_call call_keeps_context [OF answering_env_keeps] by blast

theorem returned_pointer_in_memory_witness:
  "\<exists>w'. call_module_func_on_runner (answering_env 8) 0 0 0 WAHE_FUNC_INPUT False sample_world = Some (0x1008, w') \<and>
     (\<exists>off. 0x1008 = memory_ptr (modules w' ! 0) + off \<and> off \<noteq> 0 \<and>
        unat off < wahe_get_module_memory_size (Some 0) w' \<and> memory_ptr (modules w' ! 0) \<noteq> 0)"
proof -
  obtain w' where w': "call_module_func_on_runner (answering_env 8) 0 0 0 WAHE_FUNC_INPUT False sample_world = Some (0x1008, w')"
      "mtype (modules w' ! 0) = WAHE_MODULE_WASMTIME"
    using sample_call by blast
  from w' show ?thesis using returned_pointer_in_memory [OF w'(1)] by simp
qed

lemma sample_copy:
  "\<exists>w'. wahe_copy_between_memories None 0x1040 16 (Some 0) 0 sample_world = Some w' \<and>
     wahe_get_module_memory_size (Some 0) w' \<le> 2 ^ 64"
  by (simp add: wahe_copy_between_memories_def dispatch_simps sample_simps Let_def range_rejected_def block_address_def
      memcpy_def mem_load_def mem_store_def mapped_range_def sample_memory_def upt_rec [of _ "16"] upt_rec)

theorem copy_between_memories_safe_witness:
  "\<exists>w'. wahe_copy_between_memories None 0x1040 16 (Some 0) 0 sample_world = Some w' \<and>
     (\<forall>q. \<not> in_block 0x1000 (wahe_get_module_memory_size (Some 0) w') q \<longrightarrow> host_mem w' q = sample_memory q)"
proof -
  obtain w' where w': "wahe_copy_between_memories None 0x1040 16 (Some 0) 0 sample_world = Some w'"
      "wahe_get_module_memory_size (Some 0) w' \<le> 2 ^ 64"
    using sample_copy by blast
  then show ?thesis using copy_between_memories_safe [OF w'] by (auto simp: sample_simps)
qed

theorem high_address_refused_witness:
  "fst (returned_message 0 None (wasmtime_val_get_address (modules (sample_world\<lparr>modules := [sample_module\<lparr>runtime_size := 2 ^ 32\<rparr>]\<rparr>) ! 0) 0x80000008)
     (sample_world\<lparr>modules := [sample_module\<lparr>runtime_size := 2 ^ 32\<rparr>]\<rparr>)) = 0"
  by (rule high_address_refused) (simp_all add: dispatch_simps sample_simps Let_def)

end
