(* ===== verification/Virtual_Memory.thy ===== *)
theory Virtual_Memory
  imports C_Memory
begin

text \<open>
  Reservations of virtual memory, from \<open>wahelib/wahe/wahe_virtual_memory.c\<close> in its POSIX build: an
  address range is reserved inaccessible and a prefix of it is made accessible, enlarged and
  reduced page by page. The operating system's calls are a parameter, and \<open>posix_vm\<close> states what
  POSIX and Linux document of them.
\<close>

section \<open>The code\<close>

text \<open>
  The operating system's calls, on the memory and a private part. \<open>os_mmap\<close> maps inaccessible
  anonymous pages at an address it chooses; the boolean of \<open>os_mprotect\<close> asks for read and write access,
  or for none. Each call says whether it succeeded.
\<close>

record 'o vm_os =
  os_page_size :: int
  os_mmap :: "nat \<Rightarrow> 'o \<times> memory \<Rightarrow> u64 \<times> ('o \<times> memory)"
  os_mprotect :: "u64 \<Rightarrow> nat \<Rightarrow> bool \<Rightarrow> 'o \<times> memory \<Rightarrow> bool \<times> ('o \<times> memory)"
  os_madvise :: "u64 \<Rightarrow> nat \<Rightarrow> 'o \<times> memory \<Rightarrow> bool \<times> ('o \<times> memory)"
  os_munmap :: "u64 \<Rightarrow> nat \<Rightarrow> 'o \<times> memory \<Rightarrow> bool \<times> ('o \<times> memory)"

definition MAP_FAILED :: u64 where
  "MAP_FAILED = - 1"

definition wahe_virtual_memory_page_size :: "'o vm_os \<Rightarrow> nat" where
  "wahe_virtual_memory_page_size os = (if 0 < os_page_size os then nat (os_page_size os) else 0)"

text \<open>No value is the failure return.\<close>

definition wahe_align_size_to_page :: "nat \<Rightarrow> nat \<Rightarrow> nat option" where
  "wahe_align_size_to_page sz page_size =
     (if page_size = 0 \<or> SIZE_MAX - (page_size - 1) < sz then None
      else Some ((sz + page_size - 1) div page_size * page_size))"

definition wahe_virtual_memory_commit :: "'o vm_os \<Rightarrow> u64 \<Rightarrow> nat \<Rightarrow> 'o \<times> memory \<Rightarrow> bool \<times> ('o \<times> memory)" where
  "wahe_virtual_memory_commit os memory commit_size s =
     (if commit_size = 0 then (True, s)
      else if memory = 0 then (False, s)
      else os_mprotect os memory commit_size True s)"

definition wahe_virtual_memory_decommit ::
    "'o vm_os \<Rightarrow> u64 \<Rightarrow> nat \<Rightarrow> nat \<Rightarrow> 'o \<times> memory \<Rightarrow> bool \<times> ('o \<times> memory)" where
  "wahe_virtual_memory_decommit os memory commit_size previous_commit_size s =
     (if previous_commit_size < commit_size \<or> memory = 0 then (False, s)
      else if commit_size = previous_commit_size then (True, s)
      else (let page_size = wahe_virtual_memory_page_size os in
            case (wahe_align_size_to_page commit_size page_size, wahe_align_size_to_page previous_commit_size page_size) of
              (Some decommit_start, Some decommit_end) \<Rightarrow>
                if decommit_start = decommit_end then (True, s)
                else (let decommit_address = memory + of_nat decommit_start;
                          decommit_size = decommit_end - decommit_start;
                          (advised, s1) = os_madvise os decommit_address decommit_size s
                      in if \<not> advised then (False, s1)
                         else os_mprotect os decommit_address decommit_size False s1)
            | _ \<Rightarrow> (False, s)))"

definition wahe_virtual_memory_free :: "'o vm_os \<Rightarrow> u64 \<Rightarrow> nat \<Rightarrow> 'o \<times> memory \<Rightarrow> bool \<times> ('o \<times> memory)" where
  "wahe_virtual_memory_free os memory reserve_size s =
     (if memory = 0 then (True, s)
      else if reserve_size = 0 then (False, s)
      else os_munmap os memory reserve_size s)"

definition wahe_virtual_memory_alloc :: "'o vm_os \<Rightarrow> nat \<Rightarrow> nat \<Rightarrow> 'o \<times> memory \<Rightarrow> u64 \<times> ('o \<times> memory)" where
  "wahe_virtual_memory_alloc os commit_size reserve_size s =
     (if reserve_size = 0 \<or> reserve_size < commit_size then (0, s)
      else (let (mapped, s1) = os_mmap os reserve_size s;
                memory = (if mapped = MAP_FAILED then 0 else mapped)
            in if memory = 0 then (0, s1)
               else (let (committed, s2) = wahe_virtual_memory_commit os memory commit_size s1
                     in if committed then (memory, s2)
                        else (0, snd (wahe_virtual_memory_free os memory reserve_size s2)))))"

section \<open>Pages\<close>

definition page_up :: "nat \<Rightarrow> nat \<Rightarrow> nat" where
  "page_up ps n = (n + ps - 1) div ps * ps"

lemma page_up_dvd [simp]: "ps dvd page_up ps n"
  by (simp add: page_up_def)

lemma page_up_mono: "a \<le> b \<Longrightarrow> page_up ps a \<le> page_up ps b"
  by (simp add: page_up_def div_le_mono)

lemma page_up_0 [simp]: "0 < ps \<Longrightarrow> page_up ps 0 = 0"
  by (simp add: page_up_def)

lemma page_up_bounds: "0 < ps \<Longrightarrow> n \<le> page_up ps n \<and> page_up ps n < n + ps"
proof -
  assume ps: "0 < ps"
  have "(n + ps - 1) div ps * ps + (n + ps - 1) mod ps = n + ps - 1" by simp
  moreover have "(n + ps - 1) mod ps < ps" using ps by simp
  ultimately show ?thesis unfolding page_up_def using ps by linarith
qed

lemma page_up_aligned [simp]: "0 < ps \<Longrightarrow> ps dvd n \<Longrightarrow> page_up ps n = n"
proof -
  assume "0 < ps" "ps dvd n"
  then obtain k where k: "n = k * ps" by (metis dvd_def mult.commute)
  then have eq: "n + ps - 1 = ps - 1 + k * ps" using \<open>0 < ps\<close> by simp
  have "(ps - 1 + k * ps) div ps = k" using \<open>0 < ps\<close> by (subst div_mult_self1) auto
  then have "(n + ps - 1) div ps = k" unfolding eq .
  with k show ?thesis by (simp add: page_up_def)
qed

lemma page_up_least: "0 < ps \<Longrightarrow> ps dvd k \<Longrightarrow> n \<le> k \<Longrightarrow> page_up ps n \<le> k"
  using page_up_mono [of n k ps] by simp

lemma align_size:
  "0 < ps \<Longrightarrow> ps < 2 ^ 64 \<Longrightarrow>
    wahe_align_size_to_page n ps = (if n + (ps - 1) < 2 ^ 64 then Some (page_up ps n) else None)"
  by (auto simp: wahe_align_size_to_page_def page_up_def)

section \<open>What the system promises\<close>

text \<open>
  Success applies to every page of the range; a call that fails may have changed some of them.
  Making a page accessible keeps the bytes it already showed.
\<close>

definition byte_protected :: "bool \<Rightarrow> byte option \<Rightarrow> byte option \<Rightarrow> bool" where
  "byte_protected acc b b' \<longleftrightarrow> (if acc then b' \<noteq> None \<and> (b \<noteq> None \<longrightarrow> b' = b) else b' = None)"

definition range_effect :: "nat \<Rightarrow> (byte option \<Rightarrow> byte option \<Rightarrow> bool) \<Rightarrow> u64 \<Rightarrow> nat \<Rightarrow> bool \<Rightarrow> memory \<Rightarrow> memory \<Rightarrow> bool" where
  "range_effect ps R a n ok m m' \<longleftrightarrow>
     (\<forall>q. if in_block a (page_up ps n) q then R (m q) (m' q) \<or> (\<not> ok \<and> m' q = m q) else m' q = m q)"

definition page_range :: "nat \<Rightarrow> u64 \<Rightarrow> nat \<Rightarrow> bool" where
  "page_range ps a n \<longleftrightarrow> 0 < n \<and> ps dvd unat a \<and> unat a + page_up ps n \<le> 2 ^ 64"

definition posix_vm :: "'o vm_os \<Rightarrow> nat \<Rightarrow> bool" where
  "posix_vm os ps \<longleftrightarrow> 0 < ps \<and> ps < 2 ^ 64 \<and> os_page_size os = int ps \<and>
     (\<forall>a n acc s. page_range ps a n \<longrightarrow>
        range_effect ps (byte_protected acc) a n (fst (os_mprotect os a n acc s)) (snd s) (snd (snd (os_mprotect os a n acc s)))) \<and>
     (\<forall>a n s. page_range ps a n \<longrightarrow>
        range_effect ps (\<lambda>b b'. b' = map_option (\<lambda>_. 0) b) a n (fst (os_madvise os a n s)) (snd s) (snd (snd (os_madvise os a n s)))) \<and>
     (\<forall>a n s. page_range ps a n \<longrightarrow>
        range_effect ps (\<lambda>b b'. b' = None) a n (fst (os_munmap os a n s)) (snd s) (snd (snd (os_munmap os a n s)))) \<and>
     (\<forall>n s. snd (snd (os_mmap os n s)) = snd s \<and>
        (fst (os_mmap os n s) \<noteq> MAP_FAILED \<longrightarrow> 0 < n \<longrightarrow>
           page_range ps (fst (os_mmap os n s)) n \<and>
           (\<forall>q. in_block (fst (os_mmap os n s)) (page_up ps n) q \<longrightarrow> snd s q = None)))"

lemma posix_page_size: "posix_vm os ps \<Longrightarrow> wahe_virtual_memory_page_size os = ps"
  by (simp add: posix_vm_def wahe_virtual_memory_page_size_def)

lemma posix_effects:
  assumes "posix_vm os ps" "page_range ps a n"
  shows "os_mprotect os a n acc s = (ok, s') \<Longrightarrow> range_effect ps (byte_protected acc) a n ok (snd s) (snd s')"
    and "os_madvise os a n s = (ok, s') \<Longrightarrow> range_effect ps (\<lambda>b b'. b' = map_option (\<lambda>_. 0) b) a n ok (snd s) (snd s')"
    and "os_munmap os a n s = (ok, s') \<Longrightarrow> range_effect ps (\<lambda>b b'. b' = None) a n ok (snd s) (snd s')"
  using assms unfolding posix_vm_def by (metis fst_conv snd_conv)+

lemma range_effectD:
  "range_effect ps R a n ok m m' \<Longrightarrow> \<not> in_block a (page_up ps n) q \<Longrightarrow> m' q = m q"
  "range_effect ps R a n ok m m' \<Longrightarrow> in_block a (page_up ps n) q \<Longrightarrow> R (m q) (m' q) \<or> \<not> ok \<and> m' q = m q"
  unfolding range_effect_def by presburger+

section \<open>A reservation\<close>

definition reserved :: "nat \<Rightarrow> memory \<Rightarrow> u64 \<Rightarrow> nat \<Rightarrow> nat \<Rightarrow> bool" where
  "reserved ps m base commit reserve \<longleftrightarrow> base \<noteq> 0 \<and> page_range ps base reserve \<and> commit \<le> reserve \<and>
     (\<forall>q. in_block base (page_up ps reserve) q \<longrightarrow> (m q \<noteq> None \<longleftrightarrow> in_block base (page_up ps commit) q))"

text \<open>The bytes of two memories agree outside a range.\<close>

definition agree_outside :: "u64 \<Rightarrow> nat \<Rightarrow> memory \<Rightarrow> memory \<Rightarrow> bool" where
  "agree_outside a n m m' \<longleftrightarrow> (\<forall>q. \<not> in_block a n q \<longrightarrow> m' q = m q)"

lemma in_block_mono: "in_block a n q \<Longrightarrow> n \<le> k \<Longrightarrow> in_block a k q"
  by (simp add: in_block_def)

lemma commit_effect:
  assumes "posix_vm os ps" and "page_range ps base reserve" "base \<noteq> 0" "n \<le> reserve"
    and "wahe_virtual_memory_commit os base n s = (ok, s')"
  shows "agree_outside base (page_up ps n) (snd s) (snd s') \<and>
    (\<forall>q. snd s q \<noteq> None \<longrightarrow> snd s' q = snd s q) \<and>
    (ok \<longrightarrow> (\<forall>q. in_block base (page_up ps n) q \<longrightarrow> snd s' q \<noteq> None))"
proof (cases "n = 0")
  case True
  have "0 < ps" using assms(1) by (simp add: posix_vm_def)
  with True assms(5) show ?thesis by (auto simp: wahe_virtual_memory_commit_def agree_outside_def in_block_def)
next
  case False
  then have call: "os_mprotect os base n True s = (ok, s')" using assms by (simp add: wahe_virtual_memory_commit_def)
  have "page_range ps base n" using assms(2,4) False page_up_mono [of n reserve ps] by (auto simp: page_range_def)
  from posix_effects(1) [OF assms(1) this call]
  have e: "range_effect ps (byte_protected True) base n ok (snd s) (snd s')" .
  have keep: "snd s' q = snd s q" if "snd s q \<noteq> None" for q
    using range_effectD [OF e, of q] that by (cases "in_block base (page_up ps n) q") (auto simp: byte_protected_def)
  show ?thesis
    using range_effectD [OF e] keep unfolding agree_outside_def byte_protected_def by metis
qed

lemma alloc_reserved:
  assumes os: "posix_vm os ps" and a: "wahe_virtual_memory_alloc os commit reserve s = (base, s')" "base \<noteq> 0"
  shows "reserved ps (snd s') base commit reserve \<and> agree_outside base (page_up ps reserve) (snd s) (snd s')"
proof -
  obtain s1 where s1: "os_mmap os reserve s = (base, s1)" "base \<noteq> MAP_FAILED"
      "wahe_virtual_memory_commit os base commit s1 = (True, s')" "reserve \<noteq> 0" "commit \<le> reserve"
    using a by (auto simp: wahe_virtual_memory_alloc_def Let_def split: if_splits prod.splits)
  have mm: "snd s1 = snd s" "page_range ps base reserve" "\<forall>q. in_block base (page_up ps reserve) q \<longrightarrow> snd s q = None"
    using os s1(1,2,4) unfolding posix_vm_def by (metis fst_conv snd_conv neq0_conv)+
  note c = commit_effect [OF os mm(2) a(2) s1(5) s1(3)]
  have le: "page_up ps commit \<le> page_up ps reserve" using s1(5) by (rule page_up_mono)
  have "snd s' q \<noteq> None \<longleftrightarrow> in_block base (page_up ps commit) q" if q: "in_block base (page_up ps reserve) q" for q
    using c mm(1,3) q unfolding agree_outside_def by metis
  moreover have "snd s' q = snd s q" if "\<not> in_block base (page_up ps reserve) q" for q
    using c that le mm(1) unfolding agree_outside_def by (metis in_block_mono)
  ultimately show ?thesis using mm(2) s1(5) a(2) by (auto simp: reserved_def agree_outside_def)
qed

lemma commit_reserved:
  assumes os: "posix_vm os ps" and r: "reserved ps (snd s) base commit reserve"
    and c: "wahe_virtual_memory_commit os base n s = (True, s')" "commit \<le> n" "n \<le> reserve"
  shows "reserved ps (snd s') base n reserve"
proof -
  have b: "page_range ps base reserve" "base \<noteq> 0" using r by (simp_all add: reserved_def)
  note e = commit_effect [OF os b c(3,1)]
  have le: "page_up ps commit \<le> page_up ps n" using c(2) by (rule page_up_mono)
  have "snd s' q \<noteq> None \<longleftrightarrow> in_block base (page_up ps n) q" if q: "in_block base (page_up ps reserve) q" for q
    using e r q in_block_mono [OF _ le, of base q] unfolding agree_outside_def reserved_def by metis
  with b c(3) show ?thesis by (simp add: reserved_def)
qed

lemma in_block_shift:
  assumes "unat base + k \<le> 2 ^ 64" "j < k"
  shows "in_block (base + of_nat j) (k - j) q \<longleftrightarrow> in_block base k q \<and> \<not> in_block base j q"
proof -
  have j: "unat (base + of_nat j) = unat base + j" using assms by (subst unat_word_ariths(1)) (simp add: unat_of_nat take_bit_eq_mod)
  have "in_block (base + of_nat j) (k - j) q \<longleftrightarrow> unat base + j \<le> unat q \<and> unat q < unat base + k"
    using assms j by (subst in_block_bounds) auto
  moreover have "in_block base k q \<longleftrightarrow> unat base \<le> unat q \<and> unat q < unat base + k" using assms by (subst in_block_bounds) auto
  moreover have "in_block base j q \<longleftrightarrow> unat base \<le> unat q \<and> unat q < unat base + j" using assms by (subst in_block_bounds) auto
  ultimately show ?thesis by auto
qed

text \<open>Whether it succeeds or not, a decommitment only touches the pages between the new and the old size.\<close>

lemma decommit_effect:
  assumes os: "posix_vm os ps" and b: "page_range ps base reserve" "commit \<le> reserve"
    and d: "wahe_virtual_memory_decommit os base n commit s = (ok, s')"
  shows "(\<forall>q. in_block base (page_up ps n) q \<or> \<not> in_block base (page_up ps commit) q \<longrightarrow> snd s' q = snd s q) \<and>
    (ok \<longrightarrow> n \<le> commit \<and> (\<forall>q. in_block base (page_up ps commit) q \<and> \<not> in_block base (page_up ps n) q \<longrightarrow> snd s' q = None))"
proof (cases "commit < n \<or> base = 0 \<or> n = commit \<or> page_up ps n = page_up ps commit \<or>
    \<not> n + (ps - 1) < 2 ^ 64 \<or> \<not> commit + (ps - 1) < 2 ^ 64")
  case True
  have ps: "0 < ps" "ps < 2 ^ 64" using os by (simp_all add: posix_vm_def)
  have "s' = s \<and> (ok \<longrightarrow> n \<le> commit \<and> page_up ps n = page_up ps commit)"
    using d True by (auto simp: wahe_virtual_memory_decommit_def posix_page_size [OF os] align_size [OF ps] Let_def split: if_splits)
  then show ?thesis by auto
next
  case False
  have ps: "0 < ps" "ps < 2 ^ 64" using os by (simp_all add: posix_vm_def)
  let ?lo = "page_up ps n" and ?hi = "page_up ps commit"
  let ?a = "base + of_nat ?lo"
  have lt: "?lo < ?hi" using False page_up_mono [of n commit ps] by linarith
  have hi: "?hi \<le> page_up ps reserve" using b(2) by (rule page_up_mono)
  have bound: "unat base + ?hi \<le> 2 ^ 64" using b(1) hi by (simp add: page_range_def)
  have blk: "in_block ?a (?hi - ?lo) q \<longleftrightarrow> in_block base ?hi q \<and> \<not> in_block base ?lo q" for q
    by (rule in_block_shift [OF bound lt])
  have addr: "unat ?a = unat base + ?lo"
    using bound lt by (subst unat_word_ariths(1)) (simp add: unat_of_nat take_bit_eq_mod)
  have up: "page_up ps (?hi - ?lo) = ?hi - ?lo" using ps by (simp add: dvd_diff_nat)
  have pr: "page_range ps ?a (?hi - ?lo)"
    using lt bound up addr b(1) by (simp add: page_range_def)
  obtain adv s1 where adv: "os_madvise os ?a (?hi - ?lo) s = (adv, s1)" by (metis surj_pair)
  have e1: "range_effect ps (\<lambda>b b'. b' = map_option (\<lambda>_. 0) b) ?a (?hi - ?lo) adv (snd s) (snd s1)"
    by (rule posix_effects(2) [OF os pr adv])
  have step: "(ok, s') = (if \<not> adv then (False, s1) else os_mprotect os ?a (?hi - ?lo) False s1)"
    using d False adv by (simp add: wahe_virtual_memory_decommit_def posix_page_size [OF os] align_size [OF ps] Let_def not_less)
  have out: "snd s' q = snd s q" if "\<not> in_block ?a (?hi - ?lo) q" for q
  proof (cases adv)
    case True
    with step have "os_mprotect os ?a (?hi - ?lo) False s1 = (ok, s')" by simp
    from range_effectD(1) [OF posix_effects(1) [OF os pr this], of q] range_effectD(1) [OF e1, of q] that up show ?thesis by simp
  qed (use step range_effectD(1) [OF e1, of q] that up in simp)
  have gone: "snd s' q = None" if "ok" "in_block ?a (?hi - ?lo) q" for q
  proof -
    from step that(1) have call: "os_mprotect os ?a (?hi - ?lo) False s1 = (ok, s')" by (auto split: if_splits)
    from range_effectD(2) [OF posix_effects(1) [OF os pr call], of q] that up show ?thesis by (simp add: byte_protected_def)
  qed
  show ?thesis using out gone False unfolding blk by auto
qed

lemma decommit_reserved:
  assumes os: "posix_vm os ps" and r: "reserved ps (snd s) base commit reserve"
    and d: "wahe_virtual_memory_decommit os base n commit s = (True, s')"
  shows "reserved ps (snd s') base n reserve"
proof -
  have b: "page_range ps base reserve" "commit \<le> reserve" using r by (simp_all add: reserved_def)
  note e = decommit_effect [OF os b d]
  have le: "page_up ps n \<le> page_up ps commit" using e by (intro page_up_mono) simp
  have "snd s' q \<noteq> None \<longleftrightarrow> in_block base (page_up ps n) q" if q: "in_block base (page_up ps reserve) q" for q
    using e r q in_block_mono [OF _ le, of base q] unfolding reserved_def by metis
  with b e r show ?thesis by (simp add: reserved_def)
qed

section \<open>Properties\<close>

text \<open>A reservation and the operations that succeeded on it, with the size it has committed.\<close>

inductive reservation :: "'o vm_os \<Rightarrow> u64 \<Rightarrow> nat \<Rightarrow> nat \<Rightarrow> 'o \<times> memory \<Rightarrow> bool" for os base reserve where
  reservation_alloc: "wahe_virtual_memory_alloc os commit reserve s = (base, s') \<Longrightarrow> base \<noteq> 0 \<Longrightarrow> reservation os base reserve commit s'"
| reservation_commit: "reservation os base reserve commit s \<Longrightarrow> commit \<le> n \<Longrightarrow> n \<le> reserve \<Longrightarrow>
    wahe_virtual_memory_commit os base n s = (True, s') \<Longrightarrow> reservation os base reserve n s'"
| reservation_decommit: "reservation os base reserve commit s \<Longrightarrow>
    wahe_virtual_memory_decommit os base n commit s = (True, s') \<Longrightarrow> reservation os base reserve n s'"

lemma reservation_reserved:
  assumes "posix_vm os ps" and "reservation os base reserve commit s"
  shows "reserved ps (snd s) base commit reserve"
  using assms(2)
proof induction
  case reservation_alloc
  then show ?case using alloc_reserved [OF assms(1)] by blast
next
  case reservation_commit
  then show ?case using commit_reserved [OF assms(1)] by blast
next
  case reservation_decommit
  then show ?case using decommit_reserved [OF assms(1)] by blast
qed

text \<open>
  C19. In a reservation, whatever allocations, enlargements and reductions succeeded, exactly the
  pages of the committed size are accessible: an access past them is caught, and the committed
  size never exceeds the reservation.
\<close>

theorem reservation_pages:
  assumes "posix_vm os ps" and "reservation os base reserve commit s"
  shows "commit \<le> reserve \<and> (\<forall>q. in_block base (page_up ps reserve) q \<longrightarrow>
    (snd s q \<noteq> None \<longleftrightarrow> in_block base (page_up ps commit) q))"
  using reservation_reserved [OF assms] by (simp add: reserved_def)

text \<open>A system that succeeds while the only range it hands out is free.\<close>

definition sample_os :: "unit vm_os" where
  "sample_os = \<lparr>os_page_size = 4096,
     os_mmap = (\<lambda>n s. (if n \<le> 65536 \<and> list_all (\<lambda>i. snd s (0x10000 + of_nat i) = None) [0..<page_up 4096 n] then 0x10000 else MAP_FAILED, s)),
     os_mprotect = (\<lambda>a n acc s. (True, fst s, \<lambda>q. if in_block a (page_up 4096 n) q
        then (if acc then Some (case snd s q of None \<Rightarrow> 0 | Some v \<Rightarrow> v) else None) else snd s q)),
     os_madvise = (\<lambda>a n s. (True, fst s, \<lambda>q. if in_block a (page_up 4096 n) q then map_option (\<lambda>_. 0) (snd s q) else snd s q)),
     os_munmap = (\<lambda>a n s. (True, fst s, \<lambda>q. if in_block a (page_up 4096 n) q then None else snd s q))\<rparr>"

lemma sample_os_posix: "posix_vm sample_os 4096"
proof -
  have "page_up 4096 n \<le> 18446744073709486080" if "n \<le> 65536" for n using page_up_least [of 4096 65536 n] that by simp
  moreover have "snd s q = None"
    if "list_all (\<lambda>i. snd s (0x10000 + of_nat i) = None) [0..<k]" "in_block 0x10000 k q" for s :: "unit \<times> memory" and k q
  proof -
    have "unat (q - 0x10000) < k" using that(2) by (simp add: in_block_def)
    moreover have "of_nat (unat (q - 0x10000)) = q - 0x10000" by (rule word_unat_eq_iff [THEN iffD2]) (simp add: unat_of_nat take_bit_eq_mod)
    moreover have "\<forall>i < k. snd s (0x10000 + of_nat i) = None" using that(1) by (simp add: list_all_iff)
    ultimately have "snd s (0x10000 + (q - 0x10000)) = None" by metis
    then show ?thesis by simp
  qed
  ultimately show ?thesis
    by (auto simp: posix_vm_def sample_os_def range_effect_def byte_protected_def page_range_def MAP_FAILED_def split: option.split)
qed

theorem reservation_pages_witness:
  "\<exists>s. reservation sample_os 0x10000 65536 4096 s \<and> snd s 0x10fff \<noteq> None \<and> snd s 0x11000 = None"
proof -
  define s0 :: "unit \<times> memory" where "s0 = ((), \<lambda>_. None)"
  obtain s1 where s1: "wahe_virtual_memory_alloc sample_os 8192 65536 s0 = (0x10000, s1)"
    by (simp add: wahe_virtual_memory_alloc_def wahe_virtual_memory_commit_def sample_os_def s0_def MAP_FAILED_def Let_def list_all_iff page_up_def)
  then have r1: "reservation sample_os 0x10000 65536 8192 s1" by (rule reservation_alloc) simp
  obtain s2 where "wahe_virtual_memory_decommit sample_os 0x10000 4096 8192 s1 = (True, s2)"
    by (simp add: wahe_virtual_memory_decommit_def wahe_virtual_memory_page_size_def sample_os_def wahe_align_size_to_page_def Let_def)
  with r1 have r2: "reservation sample_os 0x10000 65536 4096 s2" by (rule reservation_decommit)
  have all: "\<forall>q. in_block 0x10000 65536 q \<longrightarrow> (snd s2 q \<noteq> None \<longleftrightarrow> in_block 0x10000 4096 q)"
    using reservation_pages [OF sample_os_posix r2] by (simp add: page_up_def)
  have "snd s2 0x10fff \<noteq> None \<and> snd s2 0x11000 = None" using all [rule_format, of "0x10fff"] all [rule_format, of "0x11000"] by (simp add: in_block_def)
  with r2 show ?thesis by blast
qed

text \<open>
  C20. Reducing the committed size never loses a byte below the new size, nor touches a byte outside
  the pages given back, even when one of the system's calls fails half way.
\<close>

theorem decommit_keeps_rest:
  assumes "posix_vm os ps" and "reservation os base reserve commit s"
    and "wahe_virtual_memory_decommit os base n commit s = (ok, s')"
    and "unat (q - base) < n \<or> page_up ps commit \<le> unat (q - base)"
  shows "snd s' q = snd s q"
proof -
  have ps: "0 < ps" using assms(1) by (simp add: posix_vm_def)
  have "page_range ps base reserve" "commit \<le> reserve"
    using reservation_reserved [OF assms(1,2)] by (simp_all add: reserved_def)
  note e = decommit_effect [OF assms(1) this assms(3)]
  have "in_block base (page_up ps n) q \<or> \<not> in_block base (page_up ps commit) q"
    using assms(4) page_up_bounds [OF ps, of n] by (auto simp: in_block_def)
  with e show ?thesis by blast
qed

theorem decommit_keeps_rest_witness:
  "\<exists>s1 s2. wahe_virtual_memory_alloc sample_os 8192 65536 ((), \<lambda>_. None) = (0x10000, s1) \<and>
     wahe_virtual_memory_decommit sample_os 0x10000 4096 8192 s1 = (True, s2) \<and> snd s2 0x10fff = snd s1 0x10fff"
proof -
  obtain s1 where s1: "wahe_virtual_memory_alloc sample_os 8192 65536 ((), \<lambda>_. None) = (0x10000, s1)"
    by (simp add: wahe_virtual_memory_alloc_def wahe_virtual_memory_commit_def sample_os_def MAP_FAILED_def Let_def list_all_iff page_up_def)
  then have r1: "reservation sample_os 0x10000 65536 8192 s1" by (rule reservation_alloc) simp
  obtain s2 where s2: "wahe_virtual_memory_decommit sample_os 0x10000 4096 8192 s1 = (True, s2)"
    by (simp add: wahe_virtual_memory_decommit_def wahe_virtual_memory_page_size_def sample_os_def wahe_align_size_to_page_def Let_def)
  have "snd s2 0x10fff = snd s1 0x10fff" by (rule decommit_keeps_rest [OF sample_os_posix r1 s2]) simp
  with s1 s2 show ?thesis by blast
qed

end
