(* ===== verification/Module_Services.thy ===== *)
theory Module_Services
  imports Module_Dispatch Virtual_Memory
begin

text \<open>
  What the host calls besides the code of the modules: the operating system's virtual memory, the dynamic
  loader and the instances of translated modules, Wasmtime's stores, exports and memories, threads, files,
  the clock and the standard output. None of it is code of the repository, so each is a function of a
  record; calls that run module code may not return. The operating system's private state is the
  \<open>guest\<close> part of the world.
\<close>

text \<open>What a Wasmtime linker finds under a name; a global comes with whether it is 32-bit and its value.\<close>

datatype wasm_extern =
    Extern_func | Extern_global bool u64 | Extern_memory | Extern_sharedmemory | Extern_other

text \<open>The steps that create a module and a runner's store and instance.\<close>

datatype runtime_step =
    Engine_new | Module_new | Memorytype_new | Sharedmemory_new | Store_new | Linker_define_wasi | Context_set_wasi | Define_callback | Define_shared_memory
  | Instantiate_first | Instantiate_later | Define_instance

text \<open>The options of the translator; the other fields of the C record stay zero.\<close>

record wahe_wasm2native_options_t =
  opt_cache_dir :: "string option"
  opt_cache_only :: bool

record 'g services =
  calls :: "'g env"
  vm :: "'g vm_os"
  \<comment> \<open>the dynamic loader: the address of a symbol of a module's library, or null\<close>
  dynlib_open :: "nat \<Rightarrow> string \<Rightarrow> 'g world \<Rightarrow> (bool \<times> 'g world) option"
  dynlib_find_symbol :: "nat \<Rightarrow> string \<Rightarrow> 'g world \<Rightarrow> u64"
  \<comment> \<open>translated instances: creation gives the memory pointer and the size's address\<close>
  instance_create :: "nat \<Rightarrow> 'g world \<Rightarrow> ((bool \<times> u64 \<times> u64) \<times> 'g world) option"
  instance_create_runner :: "nat \<Rightarrow> nat \<Rightarrow> 'g world \<Rightarrow> (bool \<times> 'g world) option"
  instance_destroy :: "nat \<Rightarrow> nat \<Rightarrow> 'g world \<Rightarrow> 'g world"
  instance_global_address :: "nat \<Rightarrow> nat \<Rightarrow> u64 \<Rightarrow> 'g world \<Rightarrow> u64"
  instance_run :: "nat \<Rightarrow> nat \<Rightarrow> string \<Rightarrow> u64 list \<Rightarrow> 'g world \<Rightarrow> 'g world option"
  \<comment> \<open>Wasmtime, by module and runner\<close>
  runtime_do :: "runtime_step \<Rightarrow> nat \<Rightarrow> nat \<Rightarrow> 'g world \<Rightarrow> (bool \<times> 'g world) option"
  linker_get :: "nat \<Rightarrow> nat \<Rightarrow> string \<Rightarrow> 'g world \<Rightarrow> wasm_extern option"
  global_set :: "nat \<Rightarrow> nat \<Rightarrow> string \<Rightarrow> u64 \<Rightarrow> 'g world \<Rightarrow> bool \<times> 'g world"
  func_type :: "nat \<Rightarrow> nat \<Rightarrow> wahe_func_id \<Rightarrow> 'g world \<Rightarrow> nat list \<times> nat list"
  call_export :: "nat \<Rightarrow> nat \<Rightarrow> string \<Rightarrow> u64 list \<Rightarrow> 'g world \<Rightarrow> (bool \<times> 'g world) option"
  memory_data :: "nat \<Rightarrow> 'g world \<Rightarrow> u64"
  memory_shrink :: "nat \<Rightarrow> nat \<Rightarrow> 'g world \<Rightarrow> bool \<times> 'g world"
  memory_reclaim :: "nat \<Rightarrow> 'g world \<Rightarrow> bool \<times> 'g world"
  \<comment> \<open>threads, by module and runner\<close>
  thread_create :: "nat \<Rightarrow> nat \<Rightarrow> 'g world \<Rightarrow> bool \<times> 'g world"
  thread_join :: "nat \<Rightarrow> nat \<Rightarrow> 'g world \<Rightarrow> (bool \<times> 'g world) option"
  thread_pause :: "'g world \<Rightarrow> 'g world"
  host_alloc_ok :: "nat \<Rightarrow> bool"
  \<comment> \<open>files by handle, the time as text and the standard output\<close>
  file_open :: "string \<Rightarrow> string \<Rightarrow> 'g world \<Rightarrow> nat option \<times> 'g world"
  file_seek_end :: "nat \<Rightarrow> 'g world \<Rightarrow> bool \<times> 'g world"
  file_tell :: "nat \<Rightarrow> 'g world \<Rightarrow> int"
  file_rewind :: "nat \<Rightarrow> 'g world \<Rightarrow> 'g world"
  file_read :: "nat \<Rightarrow> nat \<Rightarrow> 'g world \<Rightarrow> byte list \<times> 'g world"
  file_write :: "nat \<Rightarrow> byte list \<Rightarrow> 'g world \<Rightarrow> nat \<times> 'g world"
  file_close :: "nat \<Rightarrow> 'g world \<Rightarrow> 'g world"
  raw_time :: "'g world \<Rightarrow> string"
  print_out :: "string \<Rightarrow> 'g world \<Rightarrow> 'g world"
  memory_size_field :: "nat \<Rightarrow> u64"
  \<comment> \<open>whole files and directories; the host addresses of modules and of the callback, and the size of a module\<close>
  raw_file :: "string \<Rightarrow> 'g world \<Rightarrow> byte list option"
  make_dir :: "'g world \<Rightarrow> string \<Rightarrow> 'g world \<times> bool"
  module_address :: "nat \<Rightarrow> u64"
  name_address :: "nat \<Rightarrow> u64"
  wahe_name_address :: "nat \<Rightarrow> u64"
  callback_address :: u64
  module_struct_size :: nat
  \<comment> \<open>the translator's library: its environment variable, loading, entry points, and a build in this or another thread\<close>
  translation_variable :: "'g world \<Rightarrow> string option"
  translator_open :: "string \<Rightarrow> 'g world \<Rightarrow> bool \<times> 'g world"
  translator_symbol :: "string \<Rightarrow> 'g world \<Rightarrow> bool"
  compile_file :: "string \<Rightarrow> wahe_wasm2native_options_t \<Rightarrow> 'g world \<Rightarrow> (string option \<times> 'g world) option"
  build_thread :: "string \<Rightarrow> wahe_wasm2native_options_t \<Rightarrow> 'g world \<Rightarrow> bool \<times> 'g world"

section \<open>Words in the host's memory\<close>

definition load_u32 :: "memory \<Rightarrow> u64 \<Rightarrow> u32 option" where
  "load_u32 m p = do { bs \<leftarrow> mem_load m p 4; read_LE32 bs 0 }"

definition load_u64 :: "memory \<Rightarrow> u64 \<Rightarrow> u64 option" where
  "load_u64 m p = do { bs \<leftarrow> mem_load m p 8; read_LE64 bs 0 }"

definition le_bytes :: "nat \<Rightarrow> u64 \<Rightarrow> byte list" where
  "le_bytes n v = map (\<lambda>i. ucast (drop_bit (8 * i) v)) [0..<n]"

text \<open>An address of a module with 32-bit or 64-bit memory, as the host reads and writes it through a pointer.\<close>

definition load_address :: "nat \<Rightarrow> memory \<Rightarrow> u64 \<Rightarrow> u64 option" where
  "load_address bits m p = (if bits = 32 then map_option ucast (load_u32 m p) else load_u64 m p)"

definition store_address :: "nat \<Rightarrow> u64 \<Rightarrow> u64 \<Rightarrow> 'g world \<Rightarrow> 'g world option" where
  "store_address bits p v w =
     do {
       h \<leftarrow> mem_store (host_mem w) p (le_bytes (if bits = 32 then 4 else 8) v);
       Some (w\<lparr>host_mem := h\<rparr>)
     }"

section \<open>Virtual memory of the world\<close>

definition with_vm :: "(('g \<times> memory) \<Rightarrow> 'a \<times> ('g \<times> memory)) \<Rightarrow> 'g world \<Rightarrow> 'a \<times> 'g world" where
  "with_vm f w = (case f (guest w, host_mem w) of (r, (g, h)) \<Rightarrow> (r, w\<lparr>guest := g, host_mem := h\<rparr>))"

lemma with_vm_modules [simp]: "with_vm f w = (r, w') \<Longrightarrow> modules w' = modules w"
  by (auto simp: with_vm_def split: prod.splits)

text \<open>A stored address is read back.\<close>

lemma le_bytes_LE64: "read_LE64 (le_bytes 8 v) 0 = Some v"
proof -
  have "push_bit 32 (ucast (push_bit 24 (ucast (ucast (drop_bit 56 v) :: byte)) OR push_bit 16 (ucast (ucast (drop_bit 48 v) :: byte)) OR
          push_bit 8 (ucast (ucast (drop_bit 40 v) :: byte)) OR ucast (ucast (drop_bit 32 v) :: byte) :: u32)) OR
        ucast (push_bit 24 (ucast (ucast (drop_bit 24 v) :: byte)) OR push_bit 16 (ucast (ucast (drop_bit 16 v) :: byte)) OR
          push_bit 8 (ucast (ucast (drop_bit 8 v) :: byte)) OR ucast (ucast v :: byte) :: u32) = (v :: u64)"
  proof (rule bit_word_eqI)
    fix n assume n: "n < LENGTH(64)"
    then have "n < 8 \<or> 8 \<le> n \<and> n < 16 \<or> 16 \<le> n \<and> n < 24 \<or> 24 \<le> n \<and> n < 32 \<or> 32 \<le> n \<and> n < 40 \<or>
        40 \<le> n \<and> n < 48 \<or> 48 \<le> n \<and> n < 56 \<or> 56 \<le> n \<and> n < 64" by simp linarith
    then show "bit (push_bit 32 (ucast (push_bit 24 (ucast (ucast (drop_bit 56 v) :: byte)) OR push_bit 16 (ucast (ucast (drop_bit 48 v) :: byte)) OR
          push_bit 8 (ucast (ucast (drop_bit 40 v) :: byte)) OR ucast (ucast (drop_bit 32 v) :: byte) :: u32)) OR
        ucast (push_bit 24 (ucast (ucast (drop_bit 24 v) :: byte)) OR push_bit 16 (ucast (ucast (drop_bit 16 v) :: byte)) OR
          push_bit 8 (ucast (ucast (drop_bit 8 v) :: byte)) OR ucast (ucast v :: byte) :: u32) :: u64) n = bit v n"
      by (elim disjE) (auto simp: bit_or_iff bit_push_bit_iff bit_ucast_iff bit_drop_bit_eq)
  qed
  moreover have "le_bytes 8 v = map (\<lambda>k. ucast (drop_bit k v)) [0, 8, 16, 24, 32, 40, 48, 56]"
    by (simp add: le_bytes_def upt_rec)
  ultimately show ?thesis by (simp add: read_LE64_def read_LE32_def)
qed

lemma load_u64_stored: "mem_store m p (le_bytes 8 v) = Some m' \<Longrightarrow> load_u64 m' p = Some v"
proof -
  assume "mem_store m p (le_bytes 8 v) = Some m'"
  then have "mem_load m' p (length (le_bytes 8 v)) = Some (le_bytes 8 v)"
    by (rule mem_store_load) (simp add: le_bytes_def)
  moreover have "length (le_bytes 8 v) = 8" by (simp add: le_bytes_def)
  ultimately show ?thesis by (simp add: load_u64_def le_bytes_LE64)
qed

end
