(* ===== verification/Module_Memory.thy ===== *)
theory Module_Memory
  imports Module_Services
begin

text \<open>
  The memory and the symbols of a module, from \<open>wahe_core.c\<close>: finding the memory of an instance, a
  module's request to shrink it and the reclaiming of its backing, and the lookup of globals and functions in
  the library or the runtime, with Wasmtime's coordinated shrinking. A mutex that is only held inside one
  operation is not represented.
\<close>

section \<open>The code\<close>

text \<open>The address of a value read from a Wasmtime global, whose own kind decides how it is read.\<close>

definition global_address :: "bool \<Rightarrow> u64 \<Rightarrow> u64" where
  "global_address is32 v = (if is32 then scast (ucast v :: u32) else v)"

definition wahe_init_module_memory :: "'g services \<Rightarrow> nat option \<Rightarrow> 'g world \<Rightarrow> (bool \<times> 'g world) option" where
  "wahe_init_module_memory S ctx w =
     (case ctx of
        None \<Rightarrow> Some (True, w)
      | Some m \<Rightarrow>
          let x = modules w ! m;
              take_shared = (\<lambda>x. x\<lparr>shared_memory := True, memory_ptr := memory_data S m w, memory_size := runtime_size x\<rparr>)
          in (case mtype x of
                WAHE_MODULE_WASM_TO_NATIVE \<Rightarrow>
                  if memory_ptr x = 0 then Some (False, w)
                  else if memory_size_addr x = 0 then Some (True, w)
                  else do {
                    v \<leftarrow> load_u64 (host_mem w) (memory_size_addr x);
                    Some (True, upd_module m (\<lambda>x. x\<lparr>memory_size := unat v\<rparr>) w)
                  }
              | WAHE_MODULE_NATIVE \<Rightarrow> Some (True, w)
              | WAHE_MODULE_WASMTIME \<Rightarrow>
                  if shared_memory x then Some (True, upd_module m take_shared w)
                  else (case wahe_get_wasmtime_runner (Some m) 0 w of
                          None \<Rightarrow> Some (False, w)
                        | Some r \<Rightarrow>
                            (case linker_get S m r ''memory'' w of
                               Some Extern_memory \<Rightarrow>
                                 Some (True, upd_module m (\<lambda>x. (upd_runner r (\<lambda>ro. ro\<lparr>wr_memory_set := True\<rparr>) x)
                                     \<lparr>memory_ptr := memory_data S m w, memory_size := runtime_size x\<rparr>) w)
                             | Some Extern_sharedmemory \<Rightarrow> Some (True, upd_module m take_shared w)
                             | _ \<Rightarrow> Some (False, w)))
              | _ \<Rightarrow> Some (False, w)))"

text \<open>The page count a module's request to shrink asks Wasmtime for, or none; a page size of zero divides by zero.\<close>

definition shrink_target :: "wahe_module_t \<Rightarrow> nat \<Rightarrow> nat option option" where
  "shrink_target x shrink_size =
     (let current_size = runtime_size x; current_pages = runtime_pages x in
      if current_size < shrink_size then Some None
      else if current_pages = 0 then Some None
      else (let page_size = current_size div current_pages in
            if page_size = 0 then None
            else (let target_pages = shrink_size div page_size + (if shrink_size mod page_size \<noteq> 0 then 1 else 0) in
                  Some (Some (if target_pages < page_count_initial x then page_count_initial x else target_pages)))))"

definition wahe_wasmtime_request_memory_shrink :: "'g services \<Rightarrow> nat \<Rightarrow> nat \<Rightarrow> 'g world \<Rightarrow> 'g world option" where
  "wahe_wasmtime_request_memory_shrink S m shrink_size w =
     (case wahe_get_wasmtime_runner (Some m) (wahe_active_runner_id (Some m) w) w of
        None \<Rightarrow> Some w
      | Some r \<Rightarrow>
          let x = modules w ! m in
          do {
            ro \<leftarrow> runner_object x r;
            (if \<not> shared_memory x \<and> \<not> wr_memory_set ro then Some w
             else do {
               target \<leftarrow> shrink_target x shrink_size;
               Some (wahe_refresh_module_memory_size (Some m)
                 (case target of
                    None \<Rightarrow> w
                  | Some target_pages \<Rightarrow>
                      (case memory_shrink S m target_pages w of
                         (ok, w1) \<Rightarrow>
                           if shared_memory x \<and> ok then upd_module m (\<lambda>x. x\<lparr>memory_reclaim_pending := True\<rparr>) w1 else w1)))
             })
          })"

definition wahe_reclaim_module_memory :: "'g services \<Rightarrow> nat option \<Rightarrow> 'g world \<Rightarrow> bool \<times> 'g world" where
  "wahe_reclaim_module_memory S ctx w =
     (case ctx of
        None \<Rightarrow> (True, w)
      | Some m \<Rightarrow>
          let x = modules w ! m in
          if mtype x \<noteq> WAHE_MODULE_WASMTIME \<or> \<not> shared_memory x then (True, w)
          else if (case cur_wasmtime_runner w of None \<Rightarrow> False | Some (cm, cr) \<Rightarrow> cm = m) then (False, w)
          else if \<not> memory_reclaim_pending x then (True, w)
          else (case memory_reclaim S m w of
                  (ok, w1) \<Rightarrow> (ok, if ok then upd_module m (\<lambda>x. x\<lparr>memory_reclaim_pending := False\<rparr>) w1 else w1)))"

section \<open>Symbols\<close>

definition wahe_get_module_symbol_address_on_runner :: "'g services \<Rightarrow> nat \<Rightarrow> nat \<Rightarrow> string \<Rightarrow> 'g world \<Rightarrow> u64" where
  "wahe_get_module_symbol_address_on_runner S m runner_id symbol_name w =
     (case mtype (modules w ! m) of
        WAHE_MODULE_WASM_TO_NATIVE \<Rightarrow> dynlib_find_symbol S m symbol_name w
      | WAHE_MODULE_NATIVE \<Rightarrow> dynlib_find_symbol S m symbol_name w
      | WAHE_MODULE_WASMTIME \<Rightarrow>
          (case wahe_get_wasmtime_runner (Some m) runner_id w of
             None \<Rightarrow> 0
           | Some r \<Rightarrow>
               (case linker_get S m r symbol_name w of
                  Some (Extern_global is32 v) \<Rightarrow> global_address is32 v
                | _ \<Rightarrow> 0))
      | _ \<Rightarrow> 0)"

definition wahe_get_module_symbol_address :: "'g services \<Rightarrow> nat \<Rightarrow> string \<Rightarrow> 'g world \<Rightarrow> u64" where
  "wahe_get_module_symbol_address S m symbol_name w =
     wahe_get_module_symbol_address_on_runner S m (wahe_active_runner_id (Some m) w) symbol_name w"

text \<open>Wasmtime resolves a function in every runner; a null runner is undefined.\<close>

fun get_runner_funcs :: "'g services \<Rightarrow> nat \<Rightarrow> string \<Rightarrow> wahe_func_id \<Rightarrow> nat list \<Rightarrow> 'g world \<Rightarrow> 'g world option" where
  "get_runner_funcs S m func_name f [] w = Some w"
| "get_runner_funcs S m func_name f (r # rs) w =
     (if runner_object (modules w ! m) r = None then None
      else get_runner_funcs S m func_name f rs
        (if linker_get S m r func_name w = Some Extern_func
         then upd_module m (upd_runner r (\<lambda>ro. ro\<lparr>wr_func := (wr_func ro)(f := True)\<rparr>)) w
         else w))"

definition wahe_get_module_func :: "'g services \<Rightarrow> nat \<Rightarrow> string \<Rightarrow> wahe_func_id \<Rightarrow> 'g world \<Rightarrow> 'g world option" where
  "wahe_get_module_func S m func_name f w =
     (case mtype (modules w ! m) of
        WAHE_MODULE_WASM_TO_NATIVE \<Rightarrow>
          Some (upd_module m (\<lambda>x. x\<lparr>dl_func := (dl_func x)(f := dynlib_find_symbol S m func_name w \<noteq> 0)\<rparr>) w)
      | WAHE_MODULE_NATIVE \<Rightarrow>
          Some (upd_module m (\<lambda>x. x\<lparr>dl_func := (dl_func x)(f := dynlib_find_symbol S m func_name w \<noteq> 0)\<rparr>) w)
      | WAHE_MODULE_WASMTIME \<Rightarrow> get_runner_funcs S m func_name f [0..<runner_count (modules w ! m)] w
      | _ \<Rightarrow> Some w)"

definition module_funcs :: "(string \<times> wahe_func_id) list" where
  "module_funcs =
     [(''module_malloc'', WAHE_FUNC_MALLOC), (''module_realloc'', WAHE_FUNC_REALLOC),
      (''module_free'', WAHE_FUNC_FREE), (''module_message_input'', WAHE_FUNC_INPUT),
      (''module_proc_cmd'', WAHE_FUNC_PROC_CMD), (''module_draw'', WAHE_FUNC_DRAW),
      (''module_proc_image'', WAHE_FUNC_PROC_IMAGE), (''module_proc_sound'', WAHE_FUNC_PROC_SOUND),
      (''module_thread_entry'', WAHE_FUNC_THREAD_ENTRY)]"

fun get_module_funcs :: "'g services \<Rightarrow> nat \<Rightarrow> (string \<times> wahe_func_id) list \<Rightarrow> 'g world \<Rightarrow> 'g world option" where
  "get_module_funcs S m [] w = Some w"
| "get_module_funcs S m ((func_name, f) # rest) w =
     do { w1 \<leftarrow> wahe_get_module_func S m func_name f w; get_module_funcs S m rest w1 }"

text \<open>The globals of a translated module, read through the addresses its library exports.\<close>

definition read_symbol :: "'g services \<Rightarrow> nat \<Rightarrow> string \<Rightarrow> (u64 \<Rightarrow> wahe_module_t \<Rightarrow> wahe_module_t) \<Rightarrow> 'g world \<Rightarrow> 'g world option" where
  "read_symbol S m symbol_name f w =
     (let addr = wahe_get_module_symbol_address S m symbol_name w in
      if addr = 0 then Some w
      else do {
        v \<leftarrow> load_address (memory_bits (modules w ! m)) (host_mem w) addr;
        Some (upd_module m (f v) w)
      })"

definition find_stack_pointer :: "'g services \<Rightarrow> nat \<Rightarrow> 'g world \<Rightarrow> 'g world option" where
  "find_stack_pointer S m w =
     (let addr = wahe_get_module_symbol_address S m ''wasm_decomp_stack_pointer_global_index'' w in
      if addr = 0 then Some w
      else do {
        global_index \<leftarrow> load_u64 (host_mem w) addr;
        (let p = instance_global_address S m 0 global_index w;
             w1 = upd_module m (\<lambda>x. x\<lparr>stack_ptr_addr := p\<rparr>) w
         in if p = 0 then Some w1
            else do {
              v \<leftarrow> load_address (memory_bits (modules w1 ! m)) (host_mem w1) p;
              Some (upd_module m (\<lambda>x. x\<lparr>stack_base := v\<rparr>) w1)
            })
      })"

definition find_translated_globals :: "'g services \<Rightarrow> nat \<Rightarrow> 'g world \<Rightarrow> 'g world option" where
  "find_translated_globals S m w =
     (let addr = wahe_get_module_symbol_address S m ''memory_bits'' w in
      if addr = 0 then Some w
      else do {
        b \<leftarrow> host_mem w addr;
        w1 \<leftarrow> read_symbol S m ''__heap_base'' (\<lambda>v x. x\<lparr>heap_base := v\<rparr>) (upd_module m (\<lambda>x. x\<lparr>memory_bits := unat b\<rparr>) w);
        w2 \<leftarrow> find_stack_pointer S m w1;
        read_symbol S m ''__data_end'' (\<lambda>v x. x\<lparr>data_end := v\<rparr>) w2
      })"

text \<open>The reactor's initialisation runs with the module as the current native one, runner zero.\<close>

definition run_in_instance :: "'g services \<Rightarrow> nat \<Rightarrow> nat \<Rightarrow> string \<Rightarrow> u64 list \<Rightarrow> 'g world \<Rightarrow> 'g world option" where
  "run_in_instance S m r symbol_name args w =
     do {
       w1 \<leftarrow> instance_run S m r symbol_name args (w\<lparr>cur_native_module := Some m, cur_native_runner_id := r\<rparr>);
       Some (w1\<lparr>cur_native_module := cur_native_module w, cur_native_runner_id := cur_native_runner_id w\<rparr>)
     }"

definition instance_symbols :: "string list" where
  "instance_symbols = [''wasm_decomp_instance_enter'', ''wasm_decomp_instance_leave'',
     ''wasm_decomp_instance_destroy'', ''wasm_decomp_instance_global_address'']"

definition init_translated_symbols :: "'g services \<Rightarrow> nat \<Rightarrow> 'g world \<Rightarrow> (bool \<times> 'g world) option" where
  "init_translated_symbols S m w =
     (if list_ex (\<lambda>s. dynlib_find_symbol S m s w = 0) instance_symbols
      then Some (False, upd_module m (\<lambda>x. x\<lparr>valid := False\<rparr>) w)
      else do {
        ((created, ptr, size_addr), w1) \<leftarrow> instance_create S m w;
        (let w2 = upd_module m (\<lambda>x. x\<lparr>wasm_decomp_instance := created\<rparr>) w1 in
         if \<not> created \<or> ptr = 0 \<or> size_addr = 0
         then Some (False, upd_module m (\<lambda>x. x\<lparr>valid := False\<rparr>) w2)
         else do {
           sz \<leftarrow> load_u64 (host_mem w2) size_addr;
           w3 \<leftarrow> call_module_free (calls S) (Some m) 0
                   (upd_module m (\<lambda>x. x\<lparr>memory_ptr := ptr, memory_size_addr := size_addr, memory_size := unat sz\<rparr>) w2);
           w4 \<leftarrow> find_translated_globals S m w3;
           w5 \<leftarrow> (if dynlib_find_symbol S m ''_initialize'' w4 = 0 then Some w4
                  else run_in_instance S m 0 ''_initialize'' [] w4);
           Some (True, w5)
         })
      })"

definition wahe_init_all_module_symbols :: "'g services \<Rightarrow> nat \<Rightarrow> 'g world \<Rightarrow> 'g world option" where
  "wahe_init_all_module_symbols S m w =
     do {
       w1 \<leftarrow> get_module_funcs S m module_funcs w;
       (continue, w2) \<leftarrow>
         (let ty = mtype (modules w1 ! m) in
          if ty = WAHE_MODULE_WASM_TO_NATIVE \<or> ty = WAHE_MODULE_NATIVE
          then (let translated = dynlib_find_symbol S m ''wasm_decomp_instance_create'' w1 \<noteq> 0;
                    w2 = upd_module m (\<lambda>x. x\<lparr>mtype := if translated then WAHE_MODULE_WASM_TO_NATIVE else WAHE_MODULE_NATIVE\<rparr>) w1
                in if translated then init_translated_symbols S m w2 else Some (True, w2))
          else if ty = WAHE_MODULE_WASMTIME \<or> ty = WAHE_MODULE_WAMR
          then (let w2 = upd_module m (\<lambda>x. x\<lparr>heap_base := wahe_get_module_symbol_address S m ''__heap_base'' w1\<rparr>) w1
                in Some (True, upd_module m (\<lambda>x. x\<lparr>data_end := wahe_get_module_symbol_address S m ''__data_end'' w2\<rparr>) w2))
          else Some (True, w1));
       Some (if \<not> continue then w2
             else upd_module m (\<lambda>x. x\<lparr>has_host_mem_access :=
               mtype x = WAHE_MODULE_NATIVE \<or> (mtype x = WAHE_MODULE_WASM_TO_NATIVE \<and> memory_bits x = 64)\<rparr>) w2)
     }"

section \<open>Properties\<close>

text \<open>What Wasmtime documents of a shrink: it takes effect or the memory stays as it is.\<close>

definition shrinks_memory :: "'g services \<Rightarrow> nat \<Rightarrow> bool" where
  "shrinks_memory S m \<longleftrightarrow>
     (\<forall>n w. modules (snd (memory_shrink S m n w)) =
        (if fst (memory_shrink S m n w)
         then (modules w)[m := (modules w ! m)\<lparr>runtime_pages := n, runtime_size := 65536 * n\<rparr>]
         else modules w))"

lemma shrink_target_bounds:
  assumes "runtime_size x = 65536 * runtime_pages x" "page_count_initial x \<le> runtime_pages x"
    and "shrink_target x n = Some (Some t)"
  shows "page_count_initial x \<le> t \<and> t \<le> runtime_pages x \<and> n \<le> 65536 * t"
proof -
  have pos: "runtime_pages x \<noteq> 0" "n \<le> 65536 * runtime_pages x"
    using assms(1,3) by (auto simp: shrink_target_def Let_def split: if_splits)
  then have ps: "runtime_size x div runtime_pages x = 65536" using assms(1) by simp
  have t: "t = max (page_count_initial x) (n div 65536 + (if n mod 65536 \<noteq> 0 then 1 else 0))"
    using assms(3) pos unfolding shrink_target_def Let_def ps by (auto split: if_splits)
  have eq: "n = 65536 * (n div 65536) + n mod 65536" by simp
  have "n div 65536 + (if n mod 65536 \<noteq> 0 then 1 else 0) \<le> runtime_pages x"
  proof (cases "n mod 65536 = 0")
    case False
    then have "65536 * (n div 65536) < 65536 * runtime_pages x" using eq pos(2) by linarith
    then show ?thesis by simp
  qed (use eq pos(2) in \<open>simp add: div_le_mono\<close>)
  moreover have "n \<le> 65536 * (n div 65536 + (if n mod 65536 \<noteq> 0 then 1 else 0))"
    using eq mod_less_divisor [of 65536 n] by (auto simp: distrib_left)
  moreover have "65536 * (n div 65536 + (if n mod 65536 \<noteq> 0 then 1 else 0)) \<le> 65536 * t"
    unfolding t by (intro mult_le_mono le_refl max.cobounded2)
  moreover have "page_count_initial x \<le> t" unfolding t by (rule max.cobounded1)
  ultimately show ?thesis using t assms(2) by linarith
qed

lemma nth_update_if: "xs[i := v] ! j = (if i = j \<and> i < length xs then v else xs ! j)"
  by (cases "i < length xs") (auto simp: nth_list_update list_update_beyond)

lemma refresh_sizes:
  "runtime_pages (modules (wahe_refresh_module_memory_size ctx w) ! m) = runtime_pages (modules w ! m)"
  "runtime_size (modules (wahe_refresh_module_memory_size ctx w) ! m) = runtime_size (modules w ! m)"
  "memory_reclaim_pending (modules (wahe_refresh_module_memory_size ctx w) ! m) = memory_reclaim_pending (modules w ! m)"
  by (auto simp: wahe_refresh_module_memory_size_def nth_update_if split: option.split)

lemma shrink_cases:
  assumes "wahe_wasmtime_request_memory_shrink S m n w = Some w'"
  shows "w' = w \<or> w' = wahe_refresh_module_memory_size (Some m) w \<or>
    (\<exists>t ok w1. shrink_target (modules w ! m) n = Some (Some t) \<and> memory_shrink S m t w = (ok, w1) \<and>
        w' = wahe_refresh_module_memory_size (Some m)
           (if shared_memory (modules w ! m) \<and> ok then upd_module m (\<lambda>x. x\<lparr>memory_reclaim_pending := True\<rparr>) w1 else w1))"
proof (cases "wahe_get_wasmtime_runner (Some m) (wahe_active_runner_id (Some m) w) w")
  case (Some r)
  show ?thesis
  proof (cases "w' = w")
    case False
    with assms Some obtain target where t: "shrink_target (modules w ! m) n = Some target"
        "w' = wahe_refresh_module_memory_size (Some m) (case target of None \<Rightarrow> w
           | Some t \<Rightarrow> (case memory_shrink S m t w of (ok, w1) \<Rightarrow>
               if shared_memory (modules w ! m) \<and> ok then upd_module m (\<lambda>x. x\<lparr>memory_reclaim_pending := True\<rparr>) w1 else w1))"
      unfolding wahe_wasmtime_request_memory_shrink_def Let_def
      by (cases "runner_object (modules w ! m) r"; cases "shrink_target (modules w ! m) n") (auto split: if_splits)
    show ?thesis
    proof (cases target)
      case (Some t')
      obtain ok w1 where "memory_shrink S m t' w = (ok, w1)" by (rule prod.exhaust)
      with t Some show ?thesis by auto
    qed (use t in simp)
  qed simp
qed (use assms in \<open>simp add: wahe_wasmtime_request_memory_shrink_def\<close>)

text \<open>
  C22. A module's request to shrink its memory never cuts what it asked to keep: the memory stays at
  least as large as the request and the module's declared minimum, and never grows; once shared memory has
  shrunk, its backing is marked to be reclaimed.
\<close>

theorem shrink_keeps_requested:
  fixes S :: "'g services"
  assumes law: "shrinks_memory S m" and m: "m < length (modules w)"
    and x: "x = modules w ! m" "runtime_size x = 65536 * runtime_pages x" "page_count_initial x \<le> runtime_pages x"
    and call: "wahe_wasmtime_request_memory_shrink S m n w = Some w'" and x': "x' = modules w' ! m"
  shows "page_count_initial x \<le> runtime_pages x' \<and> runtime_pages x' \<le> runtime_pages x \<and>
    runtime_size x' = 65536 * runtime_pages x' \<and> (n \<le> runtime_size x \<longrightarrow> n \<le> runtime_size x') \<and>
    (shared_memory x \<and> runtime_pages x' < runtime_pages x \<longrightarrow> memory_reclaim_pending x')"
proof -
  consider "w' = w" | "w' = wahe_refresh_module_memory_size (Some m) w"
    | t ok w1 where "shrink_target x n = Some (Some t)" "memory_shrink S m t w = (ok, w1)"
        "w' = wahe_refresh_module_memory_size (Some m)
           (if shared_memory x \<and> ok then upd_module m (\<lambda>x. x\<lparr>memory_reclaim_pending := True\<rparr>) w1 else w1)"
    using shrink_cases [OF call] unfolding x(1) by metis
  then show ?thesis
  proof cases
    case 3
    have b: "page_count_initial x \<le> t" "t \<le> runtime_pages x" "n \<le> 65536 * t"
      using shrink_target_bounds [OF x(2,3) 3(1)] by simp_all
    have "modules w1 = (if ok then (modules w)[m := x\<lparr>runtime_pages := t, runtime_size := 65536 * t\<rparr>] else modules w)"
      using law 3(2) x(1) unfolding shrinks_memory_def by (metis fst_conv snd_conv)
    with b m x show ?thesis unfolding x' 3(3) by (auto simp: refresh_sizes)
  qed (use x x' in \<open>auto simp: refresh_sizes\<close>)
qed

text \<open>A single-runner module with two pages, one of them needed.\<close>

definition sample_runner :: wahe_wasmtime_runner_t where
  "sample_runner = \<lparr>wr_memory_set = True, wr_func = (\<lambda>_. True), wr_stack_pointer = None, wr_thread_id = 0,
     wr_stack_alloc = 0, wr_stack_start = 0, wr_stack_size = 0, wr_tls_alloc = 0, wr_input_addr = 0,
     wr_thread_handle = False, wr_thread_reply = None, wr_creating = False, wr_joining = False, wr_call_depth = 0\<rparr>"

definition sample_wasm_module :: wahe_module_t where
  "sample_wasm_module = \<lparr>valid = True, mod_name = ''synth.wasm'', wahe_name = None, native_translation_path = None, module_id = 0,
     mtype = WAHE_MODULE_WASMTIME, runner_count = 1, memory_ptr = 0x100000, stack_base = 0x8000, data_end = 0x9000,
     heap_base = 0x9000, memory_size = 262144, memory_reserve_size = 0, memory_size_addr = 0, stack_ptr_addr = 0,
     cita_time_addr = 0, memory_bits = 32, has_host_mem_access = False, page_count_initial = 1,
     page_count_max = 16, shared_memory = True, runtime_size = 262144, runtime_pages = 4,
     runner = [Some sample_runner], initial_runner_count = 1, next_thread_id = 1, thread_memory_safe = True,
     threads_stopping = False, memory_is_shared = True, memory_reclaim_pending = False, address_bits = 32,
     dl_func = (\<lambda>_. False), wasm_decomp_instance = False, wasm_decomp_runner = [],
     decomp_initial_runner_count = 0, decomp_runner_capacity = 0, decomp_next_thread_id = 0,
     decomp_threads_stopping = False\<rparr>"

definition sample_wasm_world :: "unit world" where
  "sample_wasm_world = \<lparr>host_mem = (\<lambda>_. None), modules = [sample_wasm_module], chains = [],
     registry = \<lparr>cmd_reg = [], cmd_reg_sequence = 0, max_cmd_word_count = 0, host_commands_registered = False\<rparr>,
     module_array = 0, module_as = 0, cita_index = (0, 0), translation = initial_translation, cur_chain = None, cur_native_module = None, cur_native_runner_id = 0,
     cur_wasmtime_runner = None, execution_failed = False, locks = (\<lambda>_. 0), guest = ()\<rparr>"

text \<open>Services on which everything succeeds and no module code has an effect.\<close>

definition sample_services :: "unit services" where
  "sample_services = \<lparr>
     calls = \<lparr>guest_call = (\<lambda>m r f a w. Some (Returned 0, w)), timestamp = (\<lambda>w. 0), host_realloc_ok = (\<lambda>n. True)\<rparr>,
     vm = sample_os,
     dynlib_open = (\<lambda>m p w. Some (True, w)), dynlib_find_symbol = (\<lambda>m s w. 0),
     instance_create = (\<lambda>m w. Some ((False, 0, 0), w)), instance_create_runner = (\<lambda>m r w. Some (False, w)),
     instance_destroy = (\<lambda>m r w. w), instance_global_address = (\<lambda>m r i w. 0), instance_run = (\<lambda>m r s a w. Some w),
     runtime_do = (\<lambda>st m r w. Some (True, w)),
     linker_get = (\<lambda>m r s w. if s = ''__stack_pointer'' then Some (Extern_global True 0x8000)
        else if s = ''__data_end'' then Some (Extern_global True 0x9000) else None),
     global_set = (\<lambda>m r s v w. (True, w)), func_type = (\<lambda>m r f w. ([32], [32])),
     call_export = (\<lambda>m r s a w. Some (True, w)), memory_data = (\<lambda>m w. 0x100000),
     memory_shrink = (\<lambda>m n w. (True, upd_module m (\<lambda>x. x\<lparr>runtime_pages := n, runtime_size := 65536 * n\<rparr>) w)),
     memory_reclaim = (\<lambda>m w. (True, w)),
     thread_create = (\<lambda>m r w. (True, w)), thread_join = (\<lambda>m r w. Some (True, w)), thread_pause = (\<lambda>w. w),
     host_alloc_ok = (\<lambda>n. True),
     file_open = (\<lambda>p m w. (None, w)), file_seek_end = (\<lambda>f w. (False, w)), file_tell = (\<lambda>f w. 0),
     file_rewind = (\<lambda>f w. w), file_read = (\<lambda>f n w. ([], w)), file_write = (\<lambda>f b w. (0, w)), file_close = (\<lambda>f w. w),
     raw_time = (\<lambda>w. ''0''), print_out = (\<lambda>s w. w), memory_size_field = (\<lambda>m. 0),
     raw_file = (\<lambda>p w. None), make_dir = (\<lambda>w p. (w, True)), module_address = (\<lambda>m. 0x600000 + of_nat m * 0x1000),
     name_address = (\<lambda>m. 0x500000), wahe_name_address = (\<lambda>m. 0x510000), callback_address = 0x400000, module_struct_size = 2048,
     translation_variable = (\<lambda>w. None), translator_open = (\<lambda>p w. (True, w)), translator_symbol = (\<lambda>s w. True),
     compile_file = (\<lambda>p opts w. Some (Some ''module.so'', w)), build_thread = (\<lambda>p opts w. (True, w))\<rparr>"

theorem shrink_keeps_requested_witness:
  "\<exists>w'. wahe_wasmtime_request_memory_shrink sample_services 0 100000 sample_wasm_world = Some w' \<and>
     100000 \<le> runtime_size (modules w' ! 0)"
proof -
  have law: "shrinks_memory sample_services 0" by (auto simp: shrinks_memory_def sample_services_def)
  obtain w' where w': "wahe_wasmtime_request_memory_shrink sample_services 0 100000 sample_wasm_world = Some w'"
    by (simp add: wahe_wasmtime_request_memory_shrink_def sample_wasm_world_def sample_wasm_module_def
        wahe_get_wasmtime_runner_def wahe_active_runner_id_def wahe_active_native_runner_id_def runner_object_def
        sample_runner_def shrink_target_def)
  have "100000 \<le> runtime_size (modules w' ! 0)"
    using shrink_keeps_requested [OF law _ refl _ _ w' refl] by (simp add: sample_wasm_world_def sample_wasm_module_def)
  with w' show ?thesis by blast
qed

end
