(* ===== verification/C_Numbers.thy ===== *)
theory C_Numbers
  imports Text_Util
begin

text \<open>
  The number conversions of the C library that the messages use: \<open>strtoumax\<close> and \<open>strtoimax\<close> in base
  10 and with the base detected, and the output of the formats \<open>%zu\<close>, \<open>%#zx\<close> and \<open>PRIdMAX\<close>. Leading
  blanks and plus signs are not needed: every caller has looked at the first character.
\<close>

section \<open>Reading\<close>

definition digit_value :: "char \<Rightarrow> nat option" where
  "digit_value c =
     (let n = of_char c :: nat in
      if 48 \<le> n \<and> n < 58 then Some (n - 48)
      else if 97 \<le> n \<and> n < 123 then Some (n - 87)
      else if 65 \<le> n \<and> n < 91 then Some (n - 55)
      else None)"

definition is_digit_in :: "nat \<Rightarrow> char \<Rightarrow> bool" where
  "is_digit_in base c \<longleftrightarrow> (case digit_value c of None \<Rightarrow> False | Some v \<Rightarrow> v < base)"

text \<open>The value of the longest digit prefix, and its length.\<close>

fun scan_digits :: "nat \<Rightarrow> nat \<Rightarrow> string \<Rightarrow> nat \<times> nat" where
  "scan_digits base acc [] = (acc, 0)"
| "scan_digits base acc (c # s) =
     (if is_digit_in base c
      then (case scan_digits base (acc * base + the (digit_value c)) s of (v, n) \<Rightarrow> (v, Suc n))
      else (acc, 0))"

text \<open>With base 0, a leading \<open>0x\<close> before a hexadecimal digit selects base 16 and another leading zero base 8.\<close>

definition scan_number :: "nat \<Rightarrow> string \<Rightarrow> nat \<times> nat" where
  "scan_number base s =
     (if base \<noteq> 0 then scan_digits base 0 s
      else (case s of
              z # x # h # t \<Rightarrow>
                if z = CHR ''0'' \<and> (x = CHR ''x'' \<or> x = CHR ''X'') \<and> is_digit_in 16 h
                then (case scan_digits 16 0 (h # t) of (v, n) \<Rightarrow> (v, n + 2))
                else scan_digits (if z = CHR ''0'' then 8 else 10) 0 s
            | z # _ \<Rightarrow> scan_digits (if z = CHR ''0'' then 8 else 10) 0 s
            | [] \<Rightarrow> (0, 0)))"

text \<open>The value, the number of characters consumed, and whether \<open>errno\<close> is \<open>ERANGE\<close>.\<close>

definition strtoumax :: "string \<Rightarrow> nat \<Rightarrow> u64 \<times> nat \<times> bool" where
  "strtoumax s base = (case scan_number base s of (v, n) \<Rightarrow>
     if 2 ^ 64 \<le> v then (- 1, n, True) else (of_nat v, n, False))"

definition strtoimax_minus :: "string \<Rightarrow> nat \<Rightarrow> u64 \<times> nat \<times> bool" where
  "strtoimax_minus s base = (case scan_number base (tl s) of (v, n) \<Rightarrow>
     if n = 0 then (0, 0, False)
     else if 2 ^ 63 < v then (2 ^ 63, n + 1, True)
     else (- of_nat v, n + 1, False))"

section \<open>Printing\<close>

definition digit_char :: "nat \<Rightarrow> char" where
  "digit_char d = char_of (if d < 10 then d + 48 else d + 87)"

fun print_base :: "nat \<Rightarrow> nat \<Rightarrow> string" where
  "print_base base n =
     (if n < base \<or> base < 2 then [digit_char n] else print_base base (n div base) @ [digit_char (n mod base)])"

declare print_base.simps [simp del]

definition print_zu :: "nat \<Rightarrow> string" where
  "print_zu n = print_base 10 n"

definition print_zx :: "u64 \<Rightarrow> string" where
  "print_zx v = (if v = 0 then ''0'' else ''0x'' @ print_base 16 (unat v))"

definition print_intmax :: "u64 \<Rightarrow> string" where
  "print_intmax v = (if sint v < 0 then CHR ''-'' # print_base 10 (nat (- sint v)) else print_base 10 (unat v))"

section \<open>Reading back what was printed\<close>

lemma unat_lt64: "unat v < 2 ^ 64" for v :: u64
  using unsigned_less [of v] by simp

lemma digit_value_char: "d < 16 \<Longrightarrow> digit_value (digit_char d) = Some d"
  by (auto simp: digit_value_def digit_char_def Let_def of_char_of take_bit_eq_mod)

lemma is_digit_char: "d < base \<Longrightarrow> d < 16 \<Longrightarrow> is_digit_in base (digit_char d)"
  by (simp add: is_digit_in_def digit_value_char)

lemma print_base_nonempty [simp]: "print_base b n \<noteq> []"
  by (subst print_base.simps) simp

lemma print_base_digits: "2 \<le> b \<Longrightarrow> b \<le> 16 \<Longrightarrow> c \<in> set (print_base b n) \<Longrightarrow> \<exists>d < b. c = digit_char d"
proof (induction b n rule: print_base.induct)
  case (1 b n)
  show ?case
  proof (cases "n < b")
    case True
    then show ?thesis using 1 by (auto simp: print_base.simps [of b n])
  next
    case False
    moreover have "n mod b < b" using 1(2) by simp
    ultimately show ?thesis using 1 by (fastforce simp: print_base.simps [of b n])
  qed
qed

definition value_of :: "nat \<Rightarrow> nat \<Rightarrow> string \<Rightarrow> nat" where
  "value_of b acc s = foldl (\<lambda>a c. a * b + the (digit_value c)) acc s"

lemma scan_digits_all:
  assumes "\<forall>c \<in> set s. is_digit_in b c" "r = [] \<or> \<not> is_digit_in b (hd r)"
  shows "scan_digits b acc (s @ r) = (value_of b acc s, length s)"
  using assms
proof (induction s arbitrary: acc)
  case Nil
  then show ?case by (cases r) (auto simp: value_of_def)
next
  case (Cons c s)
  then show ?case by (simp add: value_of_def)
qed

lemma value_of_print: "2 \<le> b \<Longrightarrow> b \<le> 16 \<Longrightarrow> value_of b 0 (print_base b n) = n"
proof (induction b n rule: print_base.induct)
  case (1 b n)
  show ?case
  proof (cases "n < b")
    case True
    then show ?thesis using 1(3) by (simp add: print_base.simps [of b n] value_of_def digit_value_char)
  next
    case False
    have "n mod b < b" using 1(2) by simp
    then have d: "n mod b < 16" using 1(3) by simp
    have "value_of b 0 (print_base b (n div b) @ [digit_char (n mod b)]) = n"
      using 1 False d digit_value_char [OF d] by (simp add: value_of_def)
    then show ?thesis using False 1(2) by (simp add: print_base.simps [of b n])
  qed
qed

lemma scan_print:
  assumes "2 \<le> b" "b \<le> 16" "r = [] \<or> \<not> is_digit_in b (hd r)"
  shows "scan_digits b 0 (print_base b n @ r) = (n, length (print_base b n))"
proof -
  have "is_digit_in b c" if c: "c \<in> set (print_base b n)" for c
  proof -
    obtain d where "d < b" "c = digit_char d" using print_base_digits [OF assms(1,2) c] by blast
    then show ?thesis using is_digit_char assms(2) by simp
  qed
  then have "\<forall>c \<in> set (print_base b n). is_digit_in b c" by blast
  from scan_digits_all [OF this assms(3)] value_of_print [OF assms(1,2)] show ?thesis by simp
qed

text \<open>A character that can follow a number without becoming part of it.\<close>

definition ends_number :: "string \<Rightarrow> bool" where
  "ends_number r \<longleftrightarrow> r = [] \<or> (\<not> is_digit_in 16 (hd r) \<and> hd r \<noteq> CHR ''x'' \<and> hd r \<noteq> CHR ''X'')"

lemma is_digit_mono: "is_digit_in a c \<Longrightarrow> a \<le> b \<Longrightarrow> is_digit_in b c"
  by (auto simp: is_digit_in_def split: option.splits)

lemma ends_number_digit: "ends_number r \<Longrightarrow> b \<le> 16 \<Longrightarrow> r = [] \<or> \<not> is_digit_in b (hd r)"
  using is_digit_mono by (auto simp: ends_number_def)

lemma print_base_hd: "2 \<le> b \<Longrightarrow> b \<le> 16 \<Longrightarrow> \<exists>d < b. hd (print_base b n) = digit_char d"
  using print_base_digits [of b "hd (print_base b n)" n] by (simp add: hd_in_set)

lemma print_base_hd_nonzero: "2 \<le> b \<Longrightarrow> b \<le> 16 \<Longrightarrow> 0 < n \<Longrightarrow> \<exists>d. 0 < d \<and> d < b \<and> hd (print_base b n) = digit_char d"
proof (induction b n rule: print_base.induct)
  case (1 b n)
  show ?case
  proof (cases "n < b")
    case True
    then show ?thesis using 1 by (auto simp: print_base.simps [of b n])
  next
    case False
    then have "0 < n div b" using 1(2) by (simp add: div_greater_zero_iff)
    with False 1 show ?thesis by (simp add: print_base.simps [of b n])
  qed
qed

lemma strtoumax_print_zx:
  assumes "ends_number r"
  shows "strtoumax (print_zx v @ r) 0 = (v, length (print_zx v), False)"
proof (cases "v = 0")
  case True
  have "scan_number 0 (CHR ''0'' # r) = (0, 1)"
  proof (cases r)
    case (Cons c r')
    then have "\<not> is_digit_in 8 c" "c \<noteq> CHR ''x''" "c \<noteq> CHR ''X''"
      using assms ends_number_digit [OF assms, of 8] by (auto simp: ends_number_def)
    with Cons show ?thesis
      by (cases r') (simp_all add: scan_number_def is_digit_in_def digit_value_def Let_def)
  qed (simp add: scan_number_def is_digit_in_def digit_value_def Let_def)
  with True show ?thesis by (simp add: strtoumax_def print_zx_def)
next
  case False
  obtain h t where ht: "print_base 16 (unat v) = h # t" by (cases "print_base 16 (unat v)") auto
  have "is_digit_in 16 h" using print_base_hd [of 16 "unat v"] ht is_digit_char by auto
  moreover have "scan_digits 16 0 (h # t @ r) = (unat v, Suc (length t))"
    using scan_print [of 16 r "unat v"] ends_number_digit [OF assms, of 16] ht by simp
  ultimately have "scan_number 0 (print_zx v @ r) = (unat v, length (print_zx v))"
    using False ht by (simp add: scan_number_def print_zx_def)
  moreover have "unat v < 2 ^ 64" using unat_lt64 [of v] by simp
  ultimately show ?thesis by (simp add: strtoumax_def)
qed

lemma scan_number_dec:
  assumes "0 < n" "ends_number r"
  shows "scan_number 0 (print_base 10 n @ r) = (n, length (print_base 10 n))"
proof -
  obtain h t where ht: "print_base 10 n = h # t" by (cases "print_base 10 n") auto
  obtain d where d: "0 < d" "d < 10" "h = digit_char d" using print_base_hd_nonzero [of 10 n] assms(1) ht by auto
  have "digit_value h = Some d" using d digit_value_char [of d] by simp
  moreover have "digit_value CHR ''0'' = Some 0" by (simp add: digit_value_def Let_def)
  ultimately have "h \<noteq> CHR ''0''" using d(1) by auto
  then have "scan_number 0 (print_base 10 n @ r) = scan_digits 10 0 (print_base 10 n @ r)"
    using ht by (auto simp: scan_number_def split: list.split)
  then show ?thesis using scan_print [of 10 r n] ends_number_digit [OF assms(2), of 10] by simp
qed

lemma strtoimax_print_negative:
  assumes "bit v 63" "ends_number r"
  shows "strtoimax_minus (print_intmax v @ r) 0 = (v, length (print_intmax v), False)"
    and "hd (print_intmax v) = CHR ''-''"
proof -
  let ?n = "nat (- sint v)"
  have neg: "sint v < 0" using assms(1) bit_last_iff [of v] by simp
  have ge: "- (2 ^ 63) \<le> sint v" using sint_ge [of v] by simp
  have p: "print_intmax v = CHR ''-'' # print_base 10 ?n" using neg by (simp add: print_intmax_def)
  have scan: "scan_number 0 (print_base 10 ?n @ r) = (?n, length (print_base 10 ?n))"
    using scan_number_dec [OF _ assms(2), of ?n] neg by simp
  have le: "\<not> 2 ^ 63 < ?n" using ge by (simp add: nat_less_iff)
  have "(- of_nat ?n :: u64) = of_int (sint v)" using neg by (simp add: of_nat_nat)
  then have "(- of_nat ?n :: u64) = v" by simp
  with p scan le show "strtoimax_minus (print_intmax v @ r) 0 = (v, length (print_intmax v), False)"
    by (simp add: strtoimax_minus_def)
  show "hd (print_intmax v) = CHR ''-''" by (simp add: p)
qed

text \<open>The printed lengths, which bound the room an address needs.\<close>

lemma length_print_base: "2 \<le> b \<Longrightarrow> 0 < k \<Longrightarrow> n < b ^ k \<Longrightarrow> length (print_base b n) \<le> k"
proof (induction b n arbitrary: k rule: print_base.induct)
  case (1 b n)
  show ?case
  proof (cases "n < b")
    case True
    then show ?thesis using 1(3) by (simp add: print_base.simps [of b n])
  next
    case False
    then have "k \<noteq> 1" using 1(4) by auto
    then obtain j where j: "k = Suc j" "0 < j" using 1(3) by (cases k) auto
    have "n div b < b ^ j" using 1(2,4) j(1) by (simp add: less_mult_imp_div_less mult.commute)
    with 1(1) [OF _ 1(2) j(2)] False 1(2) j(1) show ?thesis by (simp add: print_base.simps [of b n])
  qed
qed

lemma length_print_zx: "length (print_zx v) \<le> 18"
  using length_print_base [of 16 16 "unat v"] unat_lt64 [of v] by (simp add: print_zx_def)

lemma length_print_intmax: "length (print_intmax v) \<le> 21"
proof -
  have "- (2 ^ 63) \<le> sint v" using sint_ge [of v] by simp
  then have "nat (- sint v) < 10 ^ 20" by (simp add: nat_less_iff)
  then have "length (print_base 10 (nat (- sint v))) \<le> 20" by (intro length_print_base) simp_all
  moreover have "unat v < 10 ^ 20" using unat_lt64 [of v] by simp
  then have "length (print_base 10 (unat v)) \<le> 20" by (intro length_print_base) simp_all
  ultimately show ?thesis by (simp add: print_intmax_def)
qed

end
