(* ===== verification/Runner_Stack.thy ===== *)
theory Runner_Stack
  imports Module_Memory C_Numbers
begin

text \<open>
  Creating the instances of a module, from \<open>wahe_core.c\<close>: a Wasmtime runner's store and instance, the
  runners of a translated module, their stacks and their thread-local storage. The configured runners
  share the stack region the module was linked with, in equal slices; a thread has a stack of its own.
\<close>

section \<open>The code\<close>

definition wahe_set_wasmtime_runner_stack :: "'g services \<Rightarrow> nat \<Rightarrow> nat \<Rightarrow> 'g world \<Rightarrow> (bool \<times> 'g world) option" where
  "wahe_set_wasmtime_runner_stack S m r w =
     (let x = modules w ! m in
      case runner_object x r of
        None \<Rightarrow> None
      | Some ro \<Rightarrow>
          (case linker_get S m r ''__stack_pointer'' w of
             Some (Extern_global is32 v) \<Rightarrow>
               (let w1 = upd_module m (upd_runner r (\<lambda>ro. ro\<lparr>wr_stack_pointer := Some v\<rparr>)) w in
                if wr_thread_id ro \<noteq> 0
                then Some (global_set S m r ''__stack_pointer''
                       (wasmtime_val_set_address x (wr_stack_start ro + wr_stack_size ro)) w1)
                else (let linked_stack_top = global_address is32 v;
                          w2 = (if r = 0 then upd_module m (\<lambda>x. x\<lparr>stack_base := linked_stack_top\<rparr>) w1 else w1);
                          base = stack_base (modules w2 ! m)
                      in if linked_stack_top \<noteq> base then Some (False, w2)
                         else if initial_runner_count x = 1 then Some (True, w2)
                         else if wahe_get_module_symbol_address_on_runner S m r ''__data_end'' w2 < base then Some (False, w2)
                         else if initial_runner_count x = 0 \<and> base \<noteq> 0 then None
                         else if base = 0 \<or> unat base mod initial_runner_count x \<noteq> 0 then Some (False, w2)
                         else (let slice_size = unat base div initial_runner_count x in
                               if slice_size < 16 \<or> slice_size mod 16 \<noteq> 0 then Some (False, w2)
                               else Some (global_set S m r ''__stack_pointer''
                                      (wasmtime_val_set_address x (of_nat (slice_size * (r + 1)))) w2))))
           | _ \<Rightarrow> Some (initial_runner_count x = 1 \<and> wr_thread_id ro = 0, w)))"

text \<open>The steps that create the store and the instance, each of which may fail; the first instance runs the constructors.\<close>

fun run_runtime_steps :: "'g services \<Rightarrow> nat \<Rightarrow> nat \<Rightarrow> runtime_step list \<Rightarrow> 'g world \<Rightarrow> (bool \<times> 'g world) option" where
  "run_runtime_steps S m r [] w = Some (True, w)"
| "run_runtime_steps S m r (st # sts) w =
     do {
       (ok, w1) \<leftarrow> runtime_do S st m r w;
       (if ok then run_runtime_steps S m r sts w1 else Some (False, w1))
     }"

definition runner_steps :: "bool \<Rightarrow> nat \<Rightarrow> runtime_step list" where
  "runner_steps shared r =
     [Store_new, Linker_define_wasi, Context_set_wasi, Define_callback] @
     (if shared then [Define_shared_memory] else []) @
     (if r = 0 then [Instantiate_first] else [Instantiate_later, Define_instance])"

definition wahe_init_wasmtime_runner :: "'g services \<Rightarrow> nat \<Rightarrow> nat \<Rightarrow> 'g world \<Rightarrow> (bool \<times> 'g world) option" where
  "wahe_init_wasmtime_runner S m r w =
     do {
       (ok, w1) \<leftarrow> run_runtime_steps S m r (runner_steps (shared_memory (modules w ! m)) r) w;
       (if ok then wahe_set_wasmtime_runner_stack S m r w1 else Some (False, w1))
     }"

text \<open>Rounding an address up to an alignment, which is a power of two.\<close>

definition align_address :: "u64 \<Rightarrow> u64 \<Rightarrow> u64" where
  "align_address a align = (a + align - 1) AND NOT (align - 1)"

text \<open>The thread-local storage of a translated runner; the allocation, or null, is the second result.\<close>

definition wahe_init_translated_tls ::
    "'g services \<Rightarrow> nat \<Rightarrow> nat \<Rightarrow> bool \<Rightarrow> 'g world \<Rightarrow> ((bool \<times> u64) \<times> 'g world) option" where
  "wahe_init_translated_tls S m r required w =
     (let bits = memory_bits (modules w ! m);
          size_ptr = dynlib_find_symbol S m ''__tls_size'' w;
          align_ptr = dynlib_find_symbol S m ''__tls_align'' w;
          init_tls = dynlib_find_symbol S m ''__wasm_init_tls'' w
      in if size_ptr = 0 then Some ((\<not> required, 0), w)
         else do {
           sz \<leftarrow> load_address bits (host_mem w) size_ptr;
           (if sz = 0 then Some ((True, 0), w)
            else if align_ptr = 0 \<or> init_tls = 0 then Some ((False, 0), w)
            else do {
              align \<leftarrow> load_address bits (host_mem w) align_ptr;
              (if align = 0 \<or> align AND (align - 1) \<noteq> 0 \<or> SIZE_MAX - unat align < unat sz then Some ((False, 0), w)
               else do {
                 (tls_alloc, w1) \<leftarrow> call_module_malloc (calls S) (Some m) (sz + align - 1) w;
                 (if tls_alloc = 0 then Some ((False, 0), w1)
                  else (let tls_addr = align_address tls_alloc align in
                        do {
                          w2 \<leftarrow> run_in_instance S m r ''__wasm_init_tls''
                                  [if bits = 32 then ucast (ucast tls_addr :: u32) else tls_addr]
                                  (acquire (Runner_lock m r) w1);
                          Some ((True, tls_alloc), release (Runner_lock m r) w2)
                        }))
               })
            })
         })"

definition WAHE_TRANSLATED_MAX_THREADS :: nat where
  "WAHE_TRANSLATED_MAX_THREADS = 256"

definition free_translated_runner :: wahe_wasm_decomp_runner_t where
  "free_translated_runner = \<lparr>dr_instance = False, dr_thread_id = 0, dr_stack_alloc = 0, dr_tls_alloc = 0,
     dr_input_addr = 0, dr_thread_handle = False, dr_thread_reply = None, dr_in_use = False,
     dr_mutex_initialized = False, dr_creating = False, dr_joining = False\<rparr>"

text \<open>The stack size of each runner of a translated module: zero for one runner, nothing when it cannot be split.\<close>

definition translated_stack_size :: "'g services \<Rightarrow> nat \<Rightarrow> 'g world \<Rightarrow> nat option option" where
  "translated_stack_size S m w =
     (let x = modules w ! m;
          shared_ptr = dynlib_find_symbol S m ''wasm_decomp_memory_is_shared'' w
      in if runner_count x \<le> 1 then Some (Some 0)
         else if dynlib_find_symbol S m ''wasm_decomp_instance_create_runner'' w = 0 \<or> shared_ptr = 0 then Some None
         else do {
           shared \<leftarrow> host_mem w shared_ptr;
           (if shared = 0 then Some None
            else if stack_ptr_addr x = 0 \<or> stack_base x = 0 \<or> data_end x < stack_base x \<or>
                    unat (stack_base x) mod runner_count x \<noteq> 0 then Some None
            else (let slice_size = unat (stack_base x) div runner_count x in
                  if slice_size < 16 \<or> slice_size mod 16 \<noteq> 0 then Some None else Some (Some slice_size)))
         })"

text \<open>Creating the instances in order: the runners made so far come back, with whether all of them could be made.\<close>

fun create_translated_runners ::
    "'g services \<Rightarrow> nat \<Rightarrow> nat \<Rightarrow> u64 \<Rightarrow> nat list \<Rightarrow> 'g world \<Rightarrow> ((bool \<times> nat) \<times> 'g world) option" where
  "create_translated_runners S m slice_size stack_index [] w = Some ((True, 0), w)"
| "create_translated_runners S m slice_size stack_index (i # is) w =
     do {
       (created, w1) \<leftarrow> (if i \<noteq> 0 then instance_create_runner S m i w
                          else Some (wasm_decomp_instance (modules w ! m), w));
       (if \<not> created then Some ((False, 0), w1)
        else if runner_count (modules w ! m) = 1
        then do {
          ((ok, made), w2) \<leftarrow> create_translated_runners S m slice_size stack_index is w1;
          Some ((ok, made + 1), w2)
        }
        else do {
          p \<leftarrow> (if stack_index = 0 then Some 0
                else do { ix \<leftarrow> load_u64 (host_mem w1) stack_index; Some (instance_global_address S m i ix w1) });
          (if p = 0 then Some ((False, 1), w1)
           else do {
             w2 \<leftarrow> store_address (memory_bits (modules w ! m)) p (of_nat (slice_size * (i + 1))) w1;
             ((ok, made), w3) \<leftarrow> create_translated_runners S m slice_size stack_index is w2;
             Some ((ok, made + 1), w3)
           })
        })
     }"

fun destroy_runners :: "'g services \<Rightarrow> nat \<Rightarrow> nat list \<Rightarrow> 'g world \<Rightarrow> 'g world" where
  "destroy_runners S m [] w = w"
| "destroy_runners S m (i # is) w = destroy_runners S m is (if i \<noteq> 0 then instance_destroy S m i w else w)"

fun init_runners_tls :: "'g services \<Rightarrow> nat \<Rightarrow> nat list \<Rightarrow> 'g world \<Rightarrow> (bool \<times> 'g world) option" where
  "init_runners_tls S m [] w = Some (True, w)"
| "init_runners_tls S m (i # is) w =
     do {
       ((ok, tls_alloc), w1) \<leftarrow> wahe_init_translated_tls S m i False w;
       (let w2 = upd_module m (\<lambda>x. x\<lparr>wasm_decomp_runner :=
              (wasm_decomp_runner x)[i := (wasm_decomp_runner x ! i)\<lparr>dr_tls_alloc := tls_alloc\<rparr>]\<rparr>) w1
        in if ok then init_runners_tls S m is w2
           else Some (False, upd_module m (\<lambda>x. x\<lparr>wasm_decomp_runner := []\<rparr>) w2))
     }"

definition wahe_init_translated_runners :: "'g services \<Rightarrow> nat \<Rightarrow> 'g world \<Rightarrow> (bool \<times> 'g world) option" where
  "wahe_init_translated_runners S m w =
     do {
       split \<leftarrow> translated_stack_size S m w;
       (case split of
          None \<Rightarrow> Some (False, w)
        | Some slice_size \<Rightarrow>
            let n = runner_count (modules w ! m); capacity = n + WAHE_TRANSLATED_MAX_THREADS in
            if \<not> host_alloc_ok S capacity then Some (False, w)
            else do {
              ((ok, made), w1) \<leftarrow> create_translated_runners S m slice_size
                  (dynlib_find_symbol S m ''wasm_decomp_stack_pointer_global_index'' w) [0..<n] w;
              (if \<not> ok then Some (False, destroy_runners S m [0..<made] w1)
               else do {
                 (ok, w2) \<leftarrow> init_runners_tls S m [1..<n] (upd_module m (\<lambda>x. x\<lparr>
                      wasm_decomp_runner := replicate n (free_translated_runner\<lparr>dr_instance := True, dr_in_use := True, dr_mutex_initialized := True\<rparr>) @
                        replicate WAHE_TRANSLATED_MAX_THREADS free_translated_runner,
                      decomp_runner_capacity := capacity, decomp_initial_runner_count := n, decomp_next_thread_id := 1\<rparr>) w1);
                 Some (ok, if ok then w2 else destroy_runners S m [0..<n] w2)
               })
            })
     }"

section \<open>Alignment\<close>

lemma unat_of_nat64: "n < 2 ^ 64 \<Longrightarrow> unat (of_nat n :: u64) = n"
  by (simp add: unat_of_nat take_bit_eq_mod)

lemma unat_pow2: "k < 64 \<Longrightarrow> unat (2 ^ k :: u64) = 2 ^ k"
proof -
  assume k: "k < 64"
  then have "(2 :: nat) ^ k < 2 ^ 64" by (intro power_strict_increasing) auto
  then have "unat (of_nat (2 ^ k) :: u64) = 2 ^ k" by (rule unat_of_nat64)
  then show ?thesis by (simp only: of_nat_power of_nat_numeral)
qed

lemma nat_odd_and: "odd q \<Longrightarrow> q AND (q - 1) = (q - 1 :: nat)"
proof -
  assume "odd q"
  then obtain h where q: "q = 2 * h + 1" by (metis oddE)
  have "bit (2 * h + 1) n \<and> bit (2 * h) n \<longleftrightarrow> bit (2 * h) n" for n :: nat
    by (cases n) (auto simp: bit_0 bit_Suc)
  then show ?thesis unfolding q by (intro bit_eqI) (simp add: bit_and_iff)
qed

lemma odd_part: "A \<noteq> 0 \<Longrightarrow> \<exists>k q. A = 2 ^ k * q \<and> odd (q :: nat)"
proof (induction A rule: less_induct)
  case (less A)
  show ?case
  proof (cases "odd A")
    case False
    then obtain h where h: "A = 2 * h" by (metis evenE)
    with less.prems less.IH [of h] obtain k q where "h = 2 ^ k * q" "odd q" by auto
    with h show ?thesis by (intro exI [of _ "Suc k"] exI [of _ q]) simp
  qed (intro exI [of _ 0] exI [of _ A], simp)
qed

lemma power_of_two:
  fixes align :: u64
  assumes "align \<noteq> 0" "align AND (align - 1) = 0"
  shows "\<exists>k < 64. align = 2 ^ k"
proof -
  define A where "A = unat align"
  have A: "A \<noteq> 0" "A < 2 ^ 64" using assms(1) unat_lt64 [of align] by (auto simp: A_def unat_eq_0)
  have "unat (align AND (align - 1)) = A AND (A - 1)"
    using A(1) unfolding A_def by (subst unsigned_and_eq, subst unat_sub_if') auto
  with assms(2) have z: "A AND (A - 1) = 0" by simp
  obtain k q where kq: "A = 2 ^ k * q" "odd q"
    using odd_part [OF A(1)] by blast
  have "drop_bit k A = q" using kq(1) by (simp add: drop_bit_eq_div)
  moreover have "drop_bit k (A - 1) = q - 1"
  proof -
    obtain q' where q': "q = Suc q'" using kq(2) by (cases q) auto
    have "A - 1 = (2 ^ k - 1) + 2 ^ k * q'" unfolding kq(1) q' by simp
    moreover have "(2 ^ k - 1 + 2 ^ k * q') div 2 ^ k = (q' :: nat)" by (subst div_mult_self2) auto
    ultimately show ?thesis by (simp add: drop_bit_eq_div q')
  qed
  moreover have "drop_bit k (A AND (A - 1)) = 0" using z by simp
  ultimately have "q AND (q - 1) = 0" by (simp add: drop_bit_and)
  then have "q = 1" using nat_odd_and [OF kq(2)] kq(2) by (cases q) auto
  then have a: "A = 2 ^ k" using kq(1) by simp
  have k: "k < 64" using A(2) unfolding a by (rule power_less_imp_less_exp [rotated]) simp
  have "align = 2 ^ k" using a k by (intro word_unat_eq_iff [THEN iffD2]) (simp add: A_def unat_pow2)
  with k show ?thesis by blast
qed

lemma align_address_pow2:
  assumes "k < 64" "unat a + 2 ^ k \<le> 2 ^ 64"
  shows "unat (align_address a (2 ^ k)) = (unat a + 2 ^ k - 1) div 2 ^ k * 2 ^ k"
proof -
  define x where "x = a + 2 ^ k - 1"
  have x: "unat x = unat a + 2 ^ k - 1"
  proof -
    have "unat (2 ^ k - 1 :: u64) = 2 ^ k - 1" using unat_pow2 [OF assms(1)] by (simp add: unat_sub_if')
    moreover have "x = a + (2 ^ k - 1)" by (simp add: x_def)
    ultimately show ?thesis using assms(2) by (simp add: unat_word_ariths(1))
  qed
  have "align_address a (2 ^ k) = push_bit k (drop_bit k x)"
    unfolding align_address_def x_def [symmetric] mask_eq_exp_minus_1 [symmetric]
    by (rule bit_word_eqI) (auto simp: bit_and_iff bit_not_iff bit_mask_iff bit_push_bit_iff bit_drop_bit_eq)
  also have "unat \<dots> = unat x div 2 ^ k * 2 ^ k"
  proof -
    have "unat x div 2 ^ k * 2 ^ k < 2 ^ 64" using unat_lt64 [of x] by (metis div_times_less_eq_dividend order_le_less_trans)
    moreover have "unat (drop_bit k x) = unat x div 2 ^ k" by (metis unat_drop_bit_eq drop_bit_eq_div)
    ultimately show ?thesis
      by (simp add: push_bit_eq_mult unat_word_ariths(2) unat_pow2 [OF assms(1)] del: unat_drop_bit_eq drop_bit_eq_div)
  qed
  finally show ?thesis by (simp add: x)
qed

lemma align_address_bounds:
  assumes "k < 64" "unat a + 2 ^ k \<le> 2 ^ 64"
  shows "2 ^ k dvd unat (align_address a (2 ^ k)) \<and> unat a \<le> unat (align_address a (2 ^ k)) \<and>
    unat (align_address a (2 ^ k)) < unat a + 2 ^ k"
  unfolding align_address_pow2 [OF assms] using page_up_bounds [of "2 ^ k" "unat a"] by (simp add: page_up_def)

section \<open>Properties\<close>

text \<open>The stack of a configured runner: the stack region is divided equally, runner zero at the bottom.\<close>

definition stack_slice :: "u64 \<Rightarrow> nat \<Rightarrow> nat \<Rightarrow> nat set" where
  "stack_slice base n r = {unat base div n * r ..< unat base div n * (r + 1)}"

lemma stack_slices:
  assumes "unat base mod n = 0" "r < n"
  shows "stack_slice base n r \<subseteq> {0 ..< unat base}"
    and "r' \<noteq> r \<Longrightarrow> stack_slice base n r \<inter> stack_slice base n r' = {}"
proof -
  have "unat base div n * (r + 1) \<le> unat base div n * n" using assms(2) by (intro mult_le_mono) auto
  also have "\<dots> \<le> unat base" by (rule div_times_less_eq_dividend)
  finally show "stack_slice base n r \<subseteq> {0 ..< unat base}" by (auto simp: stack_slice_def)
  have ord: "unat base div n * (a + 1) \<le> unat base div n * b" if "a < b" for a b
    using that by (intro mult_le_mono) auto
  show "stack_slice base n r \<inter> stack_slice base n r' = {}" if "r' \<noteq> r"
  proof (cases "r < r'")
    case True
    with ord [of r r'] show ?thesis by (auto simp: stack_slice_def)
  next
    case False
    with that ord [of r' r] show ?thesis by (auto simp: stack_slice_def)
  qed
qed

lemma refused:
  assumes "Some (True, w') = (if A then Some (False, u) else R)"
  shows "\<not> A" and "Some (True, w') = R"
  using assms by (simp_all split: if_splits)

text \<open>The module once a runner has found its stack pointer and runner zero has recorded the top of the linked stack.\<close>

definition stack_pointer_recorded :: "nat \<Rightarrow> nat \<Rightarrow> bool \<Rightarrow> u64 \<Rightarrow> 'g world \<Rightarrow> 'g world" where
  "stack_pointer_recorded m r is32 v w =
     (let w1 = upd_module m (upd_runner r (\<lambda>ro. ro\<lparr>wr_stack_pointer := Some v\<rparr>)) w in
      if r = 0 then upd_module m (\<lambda>x. x\<lparr>stack_base := global_address is32 v\<rparr>) w1 else w1)"

lemma stack_base_recorded:
  assumes "m < length (modules w)"
  shows "stack_base (modules (stack_pointer_recorded m r is32 v w) ! m) =
    (if r = 0 then global_address is32 v else stack_base (modules w ! m))"
  using assms by (simp add: stack_pointer_recorded_def upd_module_def upd_runner_def Let_def)

lemma set_stack_checks:
  assumes "wahe_set_wasmtime_runner_stack S m r w = Some (True, w')"
    and "modules w ! m = x" and "runner_object x r = Some ro" and "wr_thread_id ro = 0"
    and "initial_runner_count x = n" and "1 < n"
  obtains is32 v w2 base where "linker_get S m r ''__stack_pointer'' w = Some (Extern_global is32 v)"
    "w2 = stack_pointer_recorded m r is32 v w" "base = global_address is32 v"
    "base = stack_base (modules w2 ! m)" "base \<noteq> 0" "unat base mod n = 0"
    "base \<le> wahe_get_module_symbol_address_on_runner S m r ''__data_end'' w2"
    "16 \<le> unat base div n" "16 dvd unat base div n"
    "global_set S m r ''__stack_pointer'' (wasmtime_val_set_address x (of_nat (unat base div n * (r + 1)))) w2 = (True, w')"
proof -
  obtain is32 v where l: "linker_get S m r ''__stack_pointer'' w = Some (Extern_global is32 v)"
    using assms by (auto simp: wahe_set_wasmtime_runner_stack_def split: option.splits wasm_extern.splits)
  define w2 where "w2 = stack_pointer_recorded m r is32 v w"
  define base where "base = stack_base (modules w2 ! m)"
  define q where "q = unat base div n"
  have "wahe_set_wasmtime_runner_stack S m r w =
      (if global_address is32 v \<noteq> base then Some (False, w2)
       else if n = 1 then Some (True, w2)
       else if wahe_get_module_symbol_address_on_runner S m r ''__data_end'' w2 < base then Some (False, w2)
       else if n = 0 \<and> base \<noteq> 0 then None
       else if base = 0 \<or> unat base mod n \<noteq> 0 then Some (False, w2)
       else if q < 16 \<or> q mod 16 \<noteq> 0 then Some (False, w2)
       else Some (global_set S m r ''__stack_pointer'' (wasmtime_val_set_address x (of_nat (q * (r + 1)))) w2))"
    by (simp only: wahe_set_wasmtime_runner_stack_def assms(2-5) l Let_def option.case wasm_extern.case simp_thms if_False
        w2_def [unfolded stack_pointer_recorded_def Let_def, symmetric] base_def [symmetric] q_def [symmetric])
  note chain = this [unfolded assms(1)]
  from refused [OF chain] have s1: "global_address is32 v = base"
    and s2: "Some (True, w') = (if wahe_get_module_symbol_address_on_runner S m r ''__data_end'' w2 < base then Some (False, w2)
       else if n = 0 \<and> base \<noteq> 0 then None
       else if base = 0 \<or> unat base mod n \<noteq> 0 then Some (False, w2)
       else if q < 16 \<or> q mod 16 \<noteq> 0 then Some (False, w2)
       else Some (global_set S m r ''__stack_pointer'' (wasmtime_val_set_address x (of_nat (q * (r + 1)))) w2))"
    using assms(6) by simp_all
  from refused [OF s2] have s3: "\<not> wahe_get_module_symbol_address_on_runner S m r ''__data_end'' w2 < base"
    and s4: "Some (True, w') = (if base = 0 \<or> unat base mod n \<noteq> 0 then Some (False, w2)
       else if q < 16 \<or> q mod 16 \<noteq> 0 then Some (False, w2)
       else Some (global_set S m r ''__stack_pointer'' (wasmtime_val_set_address x (of_nat (q * (r + 1)))) w2))"
    using assms(6) by simp_all
  note s5 = refused [OF s4] refused [OF refused(2) [OF s4]]
  have g: "\<not> wahe_get_module_symbol_address_on_runner S m r ''__data_end'' w2 < base" "base \<noteq> 0"
      "unat base mod n = 0" "\<not> q < 16" "q mod 16 = 0"
      "global_set S m r ''__stack_pointer'' (wasmtime_val_set_address x (of_nat (q * (r + 1)))) w2 = (True, w')"
    using s3 s5 by (simp_all only: option.inject de_Morgan_disj not_not simp_thms)
  have le: "base \<le> wahe_get_module_symbol_address_on_runner S m r ''__data_end'' w2" using g(1) by (rule linorder_not_less [THEN iffD1])
  have q: "16 \<le> q" "16 dvd q" using g(4,5) by (simp_all add: dvd_eq_mod_eq_0)
  show thesis by (rule that [OF l w2_def s1 [symmetric] base_def g(2,3) le q [unfolded q_def] g(6) [unfolded q_def]])
qed

text \<open>
  C21. When a module with several runners starts, each runner whose stack could be set has its stack
  pointer at the top of a slice of its own. The slices divide the linked stack region, from zero to the value the module's
  stack pointer was linked with: runner zero records that top, any other runner must find the same one. They are
  16-byte aligned, lie below the module's data, and no two of them overlap.
\<close>

theorem runner_stack_slices:
  assumes "wahe_set_wasmtime_runner_stack S m r w = Some (True, w')" and "m < length (modules w)"
    and "modules w ! m = x" and "runner_object x r = Some ro" and "wr_thread_id ro = 0"
    and "initial_runner_count x = n" and "1 < n" and "r < n"
  shows "\<exists>is32 v. linker_get S m r ''__stack_pointer'' w = Some (Extern_global is32 v) \<and>
    (let base = global_address is32 v; w1 = stack_pointer_recorded m r is32 v w
     in (r \<noteq> 0 \<longrightarrow> stack_base x = base) \<and> stack_base (modules w1 ! m) = base \<and>
       base \<le> wahe_get_module_symbol_address_on_runner S m r ''__data_end'' w1 \<and>
       (\<exists>top. global_set S m r ''__stack_pointer'' (wasmtime_val_set_address x top) w1 = (True, w') \<and>
          unat top = unat base div n * (r + 1) \<and> 16 \<le> unat base div n \<and> 16 dvd unat top) \<and>
       stack_slice base n r \<subseteq> {0 ..< unat base} \<and>
       (\<forall>r'. r' \<noteq> r \<longrightarrow> stack_slice base n r \<inter> stack_slice base n r' = {}))"
proof -
  obtain is32 v w2 base where l: "linker_get S m r ''__stack_pointer'' w = Some (Extern_global is32 v)"
      and e: "w2 = stack_pointer_recorded m r is32 v w" "base = global_address is32 v"
      and g: "base = stack_base (modules w2 ! m)" "base \<noteq> 0" "unat base mod n = 0"
      "base \<le> wahe_get_module_symbol_address_on_runner S m r ''__data_end'' w2" "16 \<le> unat base div n" "16 dvd unat base div n"
      "global_set S m r ''__stack_pointer'' (wasmtime_val_set_address x (of_nat (unat base div n * (r + 1)))) w2 = (True, w')"
    by (rule set_stack_checks [OF assms(1,3-7)])
  define top :: u64 where "top = of_nat (unat base div n * (r + 1))"
  have "unat base div n * (r + 1) \<le> unat base div n * n" using assms(8) by (intro mult_le_mono) auto
  also have "\<dots> \<le> unat base" by (rule div_times_less_eq_dividend)
  also have "\<dots> < 2 ^ 64" by (rule unat_lt64)
  finally have top: "unat top = unat base div n * (r + 1)" unfolding top_def by (rule unat_of_nat64)
  have al: "16 dvd unat top" unfolding top using g(6) by (rule dvd_mult2)
  have same: "r \<noteq> 0 \<longrightarrow> stack_base x = base" using g(1) unfolding e(1) stack_base_recorded [OF assms(2)] assms(3) by simp
  have slice: "stack_slice base n r \<subseteq> {0 ..< unat base} \<and> (\<forall>r'. r' \<noteq> r \<longrightarrow> stack_slice base n r \<inter> stack_slice base n r' = {})"
    using stack_slices [OF g(3) assms(8)] by blast
  show ?thesis
    using l same slice g(1) [symmetric] g(4) g(7) [folded top_def] top g(5) al unfolding e Let_def by blast
qed

definition pair_module :: wahe_module_t where
  "pair_module = sample_wasm_module\<lparr>runner_count := 2, initial_runner_count := 2, runner := [Some sample_runner, Some sample_runner]\<rparr>"

theorem runner_stack_slices_witness:
  "\<exists>w'. wahe_set_wasmtime_runner_stack sample_services 0 1 (sample_wasm_world\<lparr>modules := [pair_module]\<rparr>) = Some (True, w') \<and>
     stack_slice 0x8000 2 1 \<inter> stack_slice 0x8000 2 0 = {}"
proof -
  let ?w = "sample_wasm_world\<lparr>modules := [pair_module]\<rparr>"
  obtain w' where w': "wahe_set_wasmtime_runner_stack sample_services 0 1 ?w = Some (True, w')"
    by (simp add: wahe_set_wasmtime_runner_stack_def sample_services_def sample_wasm_world_def pair_module_def sample_wasm_module_def
        runner_object_def sample_runner_def global_address_def wahe_get_module_symbol_address_on_runner_def
        wahe_get_wasmtime_runner_def upd_module_def upd_runner_def Let_def)
  obtain is32 v where "(1 :: nat) \<noteq> 0 \<longrightarrow> stack_base pair_module = global_address is32 v"
      and "\<forall>r'. r' \<noteq> 1 \<longrightarrow> stack_slice (global_address is32 v) 2 1 \<inter> stack_slice (global_address is32 v) 2 r' = {}"
    using runner_stack_slices [OF w', of pair_module sample_runner 2]
    by (auto simp: pair_module_def sample_wasm_module_def runner_object_def sample_runner_def Let_def)
  then have "stack_slice (stack_base pair_module) 2 1 \<inter> stack_slice (stack_base pair_module) 2 0 = {}" by simp
  then show ?thesis using w' by (simp add: pair_module_def sample_wasm_module_def)
qed

text \<open>
  The thread-local storage of a translated runner is initialised at an address that is aligned as
  the module asks, and the whole of it lies inside the block allocated for it.
\<close>

theorem translated_tls_block:
  assumes init: "wahe_init_translated_tls S m r required w = Some ((True, a), w')" and a: "a \<noteq> 0"
    and bits: "bits = memory_bits (modules w ! m)"
    and sz: "load_address bits (host_mem w) (dynlib_find_symbol S m ''__tls_size'' w) = Some sz"
    and align: "load_address bits (host_mem w) (dynlib_find_symbol S m ''__tls_align'' w) = Some align"
    and room: "unat a + unat sz + unat align \<le> 2 ^ 64"
  shows "\<exists>k tls w1 w2. align = 2 ^ k \<and> call_module_malloc (calls S) (Some m) (sz + align - 1) w = Some (a, w1) \<and>
    run_in_instance S m r ''__wasm_init_tls'' [if bits = 32 then ucast (ucast tls :: u32) else tls]
      (acquire (Runner_lock m r) w1) = Some w2 \<and>
    2 ^ k dvd unat tls \<and> unat a \<le> unat tls \<and> unat tls + unat sz \<le> unat a + unat (sz + align - 1)"
proof -
  from init a bits sz align obtain w1 w2 where
    g: "align \<noteq> 0" "align AND (align - 1) = 0" "\<not> SIZE_MAX - unat align < unat sz"
      "call_module_malloc (calls S) (Some m) (sz + align - 1) w = Some (a, w1)"
      "run_in_instance S m r ''__wasm_init_tls''
         [if bits = 32 then ucast (ucast (align_address a align) :: u32) else align_address a align]
         (acquire (Runner_lock m r) w1) = Some w2"
    by (auto simp: wahe_init_translated_tls_def Let_def split: if_splits bind_splits)
  obtain k where k: "k < 64" "align = 2 ^ k" using power_of_two [OF g(1,2)] by blast
  have al: "unat align = 2 ^ k" unfolding k(2) by (rule unat_pow2 [OF k(1)])
  have al1: "unat (align - 1) = 2 ^ k - 1" using al by (simp add: unat_sub_if')
  have "unat sz + (2 ^ k - 1) < 2 ^ 64" using g(3) unat_lt64 [of align] unfolding al by linarith
  moreover have "sz + align - 1 = sz + (align - 1)" by simp
  ultimately have blk: "unat (sz + align - 1) = unat sz + (2 ^ k - 1)" by (simp only: unat_word_ariths(1) al1) simp
  have b: "2 ^ k dvd unat (align_address a align) \<and> unat a \<le> unat (align_address a align) \<and>
      unat (align_address a align) < unat a + 2 ^ k"
    unfolding k(2) by (rule align_address_bounds [OF k(1)]) (use room al in linarith)
  then have "unat (align_address a align) + unat sz \<le> unat a + unat (sz + align - 1)" unfolding blk by linarith
  with b g k show ?thesis by blast
qed

definition tls_memory :: memory where
  "tls_memory = (\<lambda>q. if unat (q - 0x1000) < 8 then Some ([100, 0, 0, 0, 16, 0, 0, 0] ! unat (q - 0x1000)) else None)"

definition tls_services :: "unit services" where
  "tls_services = sample_services\<lparr>
     calls := \<lparr>guest_call = (\<lambda>m r f a w. Some (Returned 0x5008, w)), timestamp = (\<lambda>w. 0), host_realloc_ok = (\<lambda>n. True)\<rparr>,
     dynlib_find_symbol := (\<lambda>m s w. if s = ''__tls_size'' then 0x1000 else if s = ''__tls_align'' then 0x1004 else 0x2000)\<rparr>"

definition tls_world :: "unit world" where
  "tls_world = sample_wasm_world\<lparr>host_mem := tls_memory, modules := [sample_wasm_module\<lparr>
     mtype := WAHE_MODULE_WASM_TO_NATIVE, dl_func := (\<lambda>_. True), wasm_decomp_instance := True\<rparr>]\<rparr>"

theorem translated_tls_block_witness:
  "\<exists>w'. wahe_init_translated_tls tls_services 0 0 True tls_world = Some ((True, 0x5008), w') \<and>
     unat (align_address 0x5008 16) + 100 \<le> 0x5008 + 115"
proof -
  have sz: "load_address 32 (host_mem tls_world) (dynlib_find_symbol tls_services 0 ''__tls_size'' tls_world) = Some 100"
    by (simp add: tls_world_def tls_services_def load_address_def load_u32_def mem_load_def mapped_range_def tls_memory_def
        upt_rec read_LE32_def)
  have al: "load_address 32 (host_mem tls_world) (dynlib_find_symbol tls_services 0 ''__tls_align'' tls_world) = Some 16"
    by (simp add: tls_world_def tls_services_def load_address_def load_u32_def mem_load_def mapped_range_def tls_memory_def
        upt_rec read_LE32_def)
  have bits: "32 = memory_bits (modules tls_world ! 0)" by (simp add: tls_world_def sample_wasm_module_def)
  obtain w' where w': "wahe_init_translated_tls tls_services 0 0 True tls_world = Some ((True, 0x5008), w')"
    using sz al unfolding wahe_init_translated_tls_def bits [symmetric] Let_def
    by (simp add: tls_services_def call_module_malloc_def call_module_malloc_on_runner_def
        call_module_func_core_on_runner_def wahe_wait_after_execution_failure_def wahe_require_valid_module_def call_native_def
        native_args_def native_result_def tls_world_def sample_wasm_world_def sample_wasm_module_def wahe_active_runner_id_def
        wahe_active_native_runner_id_def enter_native_def leave_native_def Let_def run_in_instance_def sample_services_def)
  show ?thesis using translated_tls_block [OF w' _ bits sz al] w' by (auto simp: align_address_def)
qed

end
