(* ===== verification/Threads.thy ===== *)
theory Threads
  imports Runner_Stack
begin

text \<open>
  Threads of a module, from \<open>wahe_threads.c\<close>: creating a runner for a new thread, the thread's own entry
  point, joining it and releasing what it had. The calling thread is followed: what other threads do in the
  meantime is part of what the environment's functions do to the world.
\<close>

section \<open>Threads of a Wasmtime module\<close>

definition set_runner :: "nat \<Rightarrow> nat \<Rightarrow> (wahe_wasmtime_runner_t \<Rightarrow> wahe_wasmtime_runner_t) \<Rightarrow> 'g world \<Rightarrow> 'g world" where
  "set_runner m r f w = upd_module m (upd_runner r f) w"

text \<open>The runner object is read again at each use, since the module's code may have changed it; using one that is gone is undefined.\<close>

definition the_runner :: "nat \<Rightarrow> nat \<Rightarrow> 'g world \<Rightarrow> wahe_wasmtime_runner_t option" where
  "the_runner m r w = runner_object (modules w ! m) r"

definition wahe_delete_thread_runner :: "'g services \<Rightarrow> nat \<Rightarrow> nat \<Rightarrow> 'g world \<Rightarrow> 'g world option" where
  "wahe_delete_thread_runner S m r w =
     do {
       ro \<leftarrow> the_runner m r w;
       w1 \<leftarrow> call_module_free (calls S) (Some m) (wr_input_addr ro) w;
       ro1 \<leftarrow> the_runner m r w1;
       w2 \<leftarrow> call_module_free (calls S) (Some m) (wr_tls_alloc ro1) w1;
       ro2 \<leftarrow> the_runner m r w2;
       w3 \<leftarrow> call_module_free (calls S) (Some m) (wr_stack_alloc ro2) w2;
       Some (upd_module m (\<lambda>x. x\<lparr>runner := (runner x)[r := None]\<rparr>) w3)
     }"

definition export_name :: "wahe_func_id \<Rightarrow> nat \<Rightarrow> string" where
  "export_name f i = ''module_'' @ (if f = WAHE_FUNC_INPUT then ''message_input'' else wahe_func_name ! i)"

fun find_thread_exports :: "'g services \<Rightarrow> nat \<Rightarrow> nat \<Rightarrow> nat list \<Rightarrow> 'g world \<Rightarrow> 'g world" where
  "find_thread_exports S m r [] w = w"
| "find_thread_exports S m r (i # is) w =
     find_thread_exports S m r is
       (let f = func_ids ! i in
        if linker_get S m r (export_name f i) w = Some Extern_func
        then set_runner m r (\<lambda>ro. ro\<lparr>wr_func := (wr_func ro)(f := True)\<rparr>) w else w)"

definition wahe_init_thread_exports :: "'g services \<Rightarrow> nat \<Rightarrow> nat \<Rightarrow> 'g world \<Rightarrow> (bool \<times> 'g world) option" where
  "wahe_init_thread_exports S m r w =
     (let w1 = find_thread_exports S m r [1..<10] w; bits = address_bits (modules w ! m) in
      do {
        ro \<leftarrow> the_runner m r w1;
        Some (wr_func ro WAHE_FUNC_THREAD_ENTRY \<and> func_type S m r WAHE_FUNC_THREAD_ENTRY w1 = ([bits], [bits]), w1)
      })"

definition address_max :: "nat \<Rightarrow> u64" where
  "address_max bits = (if bits = 32 then 0xFFFFFFFF else - 1)"

definition wahe_init_thread_tls :: "'g services \<Rightarrow> nat \<Rightarrow> nat \<Rightarrow> 'g world \<Rightarrow> (bool \<times> 'g world) option" where
  "wahe_init_thread_tls S m r w =
     (case linker_get S m r ''__tls_size'' w of
        Some (Extern_global size32 size_val) \<Rightarrow>
          let sz = global_address size32 size_val in
          if sz = 0 then Some (True, w)
          else (case (linker_get S m r ''__tls_align'' w, linker_get S m r ''__wasm_init_tls'' w) of
                  (Some (Extern_global align32 align_val), Some Extern_func) \<Rightarrow>
                    (let align = global_address align32 align_val; bits = address_bits (modules w ! m) in
                     if align = 0 \<or> align AND (align - 1) \<noteq> 0 \<or> address_max bits - (align - 1) < sz then Some (False, w)
                     else do {
                       (a, w1) \<leftarrow> call_module_malloc (calls S) (Some m) (sz + align - 1) w;
                       the_runner m r w1;
                       (let w2 = set_runner m r (\<lambda>ro. ro\<lparr>wr_tls_alloc := a\<rparr>) w1 in
                        if a = 0 then Some (False, w2)
                        else call_export S m r ''__wasm_init_tls'' [wasmtime_val_set_address (modules w2 ! m) (align_address a align)] w2)
                     })
                | _ \<Rightarrow> Some (False, w))
      | _ \<Rightarrow> Some (False, w))"

text \<open>The worker, with its own thread-local variables.\<close>

definition wahe_thread_main :: "'g services \<Rightarrow> nat \<Rightarrow> nat \<Rightarrow> 'g world \<Rightarrow> 'g world option" where
  "wahe_thread_main S m r w =
     do {
       ro \<leftarrow> the_runner m r w;
       (reply, w1) \<leftarrow> call_module_func_on_runner (calls S) m r (wr_input_addr ro) WAHE_FUNC_THREAD_ENTRY False
                         (w\<lparr>cur_wasmtime_runner := Some (m, r), cur_chain := None\<rparr>);
       w2 \<leftarrow> (if reply = 0 then Some w1
               else do {
                 s \<leftarrow> c_text (host_mem w1) reply;
                 the_runner m r w1;
                 Some (set_runner m r (\<lambda>ro. ro\<lparr>wr_thread_reply := Some s\<rparr>) w1)
               });
       Some (w2\<lparr>cur_wasmtime_runner := None\<rparr>)
     }"

text \<open>Claiming a slot: the failure message, or the slot and the changed world.\<close>

definition new_thread_runner :: "nat \<Rightarrow> wahe_wasmtime_runner_t" where
  "new_thread_runner thread_id = \<lparr>wr_memory_set = False, wr_func = (\<lambda>_. False), wr_stack_pointer = None,
     wr_thread_id = thread_id, wr_stack_alloc = 0, wr_stack_start = 0, wr_stack_size = 0, wr_tls_alloc = 0,
     wr_input_addr = 0, wr_thread_handle = False, wr_thread_reply = None, wr_creating = True, wr_joining = False,
     wr_call_depth = 0\<rparr>"

definition free_slot :: "wahe_module_t \<Rightarrow> nat" where
  "free_slot x = (case List.find (\<lambda>i. runner x ! i = None) [initial_runner_count x..<runner_count x] of
     Some i \<Rightarrow> i | None \<Rightarrow> max (initial_runner_count x) (runner_count x))"

definition claim_slot :: "'g services \<Rightarrow> nat \<Rightarrow> 'g world \<Rightarrow> (string + nat) \<times> 'g world" where
  "claim_slot S m w =
     (let x = modules w ! m; slot = free_slot x; grow = (slot = runner_count x) in
      if threads_stopping x then (Inl ''module is shutting down'', w)
      else if next_thread_id x = 0 then (Inl ''thread identifiers exhausted'', w)
      else if grow \<and> (slot = SIZE_MAX div 8 \<or> \<not> host_realloc_ok (calls S) ((slot + 1) * 8)) then (Inl ''host allocation failed'', w)
      else (let w1 = (if grow then upd_module m (\<lambda>x. x\<lparr>runner := take slot (runner x) @ [None], runner_count := runner_count x + 1\<rparr>) w else w) in
            if \<not> host_alloc_ok S 1 then (Inl ''host allocation failed'', w1)
            else (Inr slot, upd_module m (\<lambda>x. x\<lparr>runner := (runner x)[slot := Some (new_thread_runner (next_thread_id x))],
                      next_thread_id := (next_thread_id x + 1) mod 2 ^ 64\<rparr>) w1)))"

text \<open>The stack: allocated as asked, and with room to align it when the block is not aligned.\<close>

definition thread_stack_block :: "'g services \<Rightarrow> nat \<Rightarrow> nat \<Rightarrow> 'g world \<Rightarrow> (u64 \<times> 'g world) option" where
  "thread_stack_block S m stack_size w =
     do {
       (a, w1) \<leftarrow> call_module_malloc (calls S) (Some m) (of_nat stack_size) w;
       (if a \<noteq> 0 \<and> a AND 15 \<noteq> 0
        then do {
          w2 \<leftarrow> call_module_free (calls S) (Some m) a w1;
          call_module_malloc (calls S) (Some m) (of_nat (stack_size + 15)) w2
        }
        else Some (a, w1))
     }"

definition place_thread_stack :: "'g services \<Rightarrow> nat \<Rightarrow> nat \<Rightarrow> nat \<Rightarrow> 'g world \<Rightarrow> (bool \<times> 'g world) option" where
  "place_thread_stack S m slot stack_size w =
     do {
       (a, w1) \<leftarrow> thread_stack_block S m stack_size w;
       the_runner m slot w1;
       (let w2 = set_runner m slot (\<lambda>ro. ro\<lparr>wr_stack_alloc := a, wr_stack_size := of_nat stack_size\<rparr>) w1 in
        if a = 0 then Some (False, w2)
        else (let start = align_address a 16;
                  w3 = set_runner m slot (\<lambda>ro. ro\<lparr>wr_stack_start := start\<rparr>) w2;
                  mem_size = wahe_get_module_memory_size (Some m) w3;
                  top = unat (address_max (address_bits (modules w3 ! m)))
              in if mem_size < unat start \<or> mem_size - unat start < stack_size \<or> top < unat start \<or> top - unat start < stack_size
                 then Some (False, w3)
                 else do {
                   h \<leftarrow> mem_store (host_mem w3) (memory_ptr (modules w3 ! m) + start) (replicate stack_size WAHE_STACK_BLANK_PATTERN);
                   Some (True, w3\<lparr>host_mem := h\<rparr>)
                 }))
     }"

definition copy_entry_message :: "'g services \<Rightarrow> nat \<Rightarrow> nat \<Rightarrow> u64 \<Rightarrow> 'g world \<Rightarrow> (bool \<times> 'g world) option" where
  "copy_entry_message S m slot message w =
     do {
       s \<leftarrow> c_text (host_mem w) message;
       (a, w1) \<leftarrow> call_module_malloc (calls S) (Some m) (of_nat (length s + 1)) w;
       the_runner m slot w1;
       (let w2 = set_runner m slot (\<lambda>ro. ro\<lparr>wr_input_addr := a\<rparr>) w1 in
        if a = 0 then Some (False, w2)
        else do {
          h \<leftarrow> memcpy (host_mem w2) (memory_ptr (modules w2 ! m) + a) message (length s + 1);
          Some (True, w2\<lparr>host_mem := h\<rparr>)
        })
     }"

text \<open>The steps of the initialisation in order, each with the failure message it leaves.\<close>

fun thread_steps :: "(string \<times> ('g world \<Rightarrow> (bool \<times> 'g world) option)) list \<Rightarrow> 'g world \<Rightarrow> (string option \<times> 'g world) option" where
  "thread_steps [] w = Some (None, w)"
| "thread_steps ((failure, f) # rest) w =
     do { (ok, w1) \<leftarrow> f w; (if ok then thread_steps rest w1 else Some (Some failure, w1)) }"

definition start_thread :: "'g services \<Rightarrow> nat \<Rightarrow> nat \<Rightarrow> 'g world \<Rightarrow> (bool \<times> 'g world) option" where
  "start_thread S m slot w =
     (if \<not> host_alloc_ok S 1 then Some (False, w)
      else (case thread_create S m slot w of
              (ok, w1) \<Rightarrow> Some (ok, if ok then set_runner m slot (\<lambda>ro. ro\<lparr>wr_thread_handle := True\<rparr>) w1 else w1)))"

definition wahe_create_module_thread ::
    "'g services \<Rightarrow> nat \<Rightarrow> nat \<Rightarrow> u64 \<Rightarrow> 'g world \<Rightarrow> ((string + nat) \<times> 'g world) option" where
  "wahe_create_module_thread S m stack_size message w =
     (let x = modules w ! m in
      if \<not> valid x \<or> mtype x \<noteq> WAHE_MODULE_WASMTIME \<or> \<not> thread_memory_safe x
      then Some (Inl ''requires imported shared memory with passive data segments'', w)
      else if stack_size = 0 \<or> unat (address_max (address_bits x)) - 30 < stack_size
      then Some (Inl ''stack size must be positive and representable'', w)
      else (let rounded = (stack_size + 15) div 16 * 16 in
            case claim_slot S m w of
              (Inl failure, w1) \<Rightarrow> Some (Inl failure, w1)
            | (Inr slot, w1) \<Rightarrow>
                do {
                  (failed, w2) \<leftarrow> thread_steps
                    [(''module stack allocation failed'', place_thread_stack S m slot rounded),
                     (''runner initialization failed'', wahe_init_wasmtime_runner S m slot),
                     (''module_thread_entry must have the usual text callback signature'', wahe_init_thread_exports S m slot),
                     (''TLS initialization failed; export __tls_size, __tls_align and __wasm_init_tls'', wahe_init_thread_tls S m slot),
                     (''entry message allocation failed'', copy_entry_message S m slot message),
                     (''OS thread creation failed'', start_thread S m slot)] w1;
                  ro \<leftarrow> the_runner m slot w2;
                  (case failed of
                     Some failure \<Rightarrow> do { w3 \<leftarrow> wahe_delete_thread_runner S m slot w2; Some (Inl failure, w3) }
                   | None \<Rightarrow> Some (Inr (wr_thread_id ro), set_runner m slot (\<lambda>ro. ro\<lparr>wr_creating := False\<rparr>) w2))
                }))"

text \<open>Joining: the runner with the identifier, the last one if there were several.\<close>

definition joinable :: "wahe_module_t \<Rightarrow> nat \<Rightarrow> nat option" where
  "joinable x ident =
     List.find (\<lambda>i. case runner_object x i of
                      None \<Rightarrow> False
                    | Some ro \<Rightarrow> wr_thread_id ro = ident \<and> \<not> wr_creating ro \<and> \<not> wr_joining ro)
       (rev [initial_runner_count x..<runner_count x])"

definition wahe_join_module_thread ::
    "'g services \<Rightarrow> nat \<Rightarrow> nat \<Rightarrow> 'g world \<Rightarrow> ((string + string option) \<times> 'g world) option" where
  "wahe_join_module_thread S m ident w =
     (case joinable (modules w ! m) ident of
        None \<Rightarrow> Some (Inl ''unknown thread ID or thread already being joined'', w)
      | Some r \<Rightarrow>
          if cur_wasmtime_runner w = Some (m, r) then Some (Inl ''a thread cannot join itself'', w)
          else do {
            (joined, w1) \<leftarrow> thread_join S m r (set_runner m r (\<lambda>ro. ro\<lparr>wr_joining := True\<rparr>) w);
            ro \<leftarrow> the_runner m r w1;
            (if \<not> joined then Some (Inl ''OS thread join failed'', set_runner m r (\<lambda>ro. ro\<lparr>wr_joining := False\<rparr>) w1)
             else do {
               w2 \<leftarrow> wahe_delete_thread_runner S m r (set_runner m r (\<lambda>ro. ro\<lparr>wr_thread_reply := None\<rparr>) w1);
               Some (Inr (wr_thread_reply ro), w2)
             })
          })"

end
