(* ===== verification/State_Relation.thy ===== *)
theory State_Relation
  imports Wahe_Prelude
begin

text \<open>
  Relations between the states before and after an operation that every operation keeps, such as an invariant
  other threads rely on or the restoring of the calling context. The locale gives the rules
  by which such a relation is followed through the code of an operation; each relation of the development is
  an instance of it.
\<close>

definition result_keeps :: "('s \<Rightarrow> 's \<Rightarrow> bool) \<Rightarrow> 's \<Rightarrow> ('a \<times> 's) option \<Rightarrow> bool" where
  "result_keeps R w c \<longleftrightarrow> (\<forall>r w'. c = Some (r, w') \<longrightarrow> R w w')"

lemma result_keepsD: "result_keeps R w c \<Longrightarrow> c = Some (r, w') \<Longrightarrow> R w w'"
  by (simp add: result_keeps_def)

lemma result_keepsI: "(\<And>r w'. c = Some (r, w') \<Longrightarrow> R w w') \<Longrightarrow> result_keeps R w c"
  by (simp add: result_keeps_def)

locale state_relation =
  fixes R :: "'s \<Rightarrow> 's \<Rightarrow> bool"
  assumes same: "R w w"
    and compose: "R a b \<Longrightarrow> R b c \<Longrightarrow> R a c"
begin

text \<open>A sequence of two operations, of a computation without state, and of an operation without a result.\<close>

lemma result_bind:
  "result_keeps R w c \<Longrightarrow> (\<And>r w1. result_keeps R w1 (f (r, w1))) \<Longrightarrow> result_keeps R w (c \<bind> f)"
  unfolding result_keeps_def by (auto split: bind_splits intro: compose)

lemma result_bind_pure: "(\<And>x. result_keeps R w (f x)) \<Longrightarrow> result_keeps R w (c \<bind> f)"
  unfolding result_keeps_def by (auto split: bind_splits)

lemma result_bind_state:
  "(\<And>w1. c = Some w1 \<Longrightarrow> R w w1) \<Longrightarrow> (\<And>w1. result_keeps R w1 (f w1)) \<Longrightarrow> result_keeps R w (c \<bind> f)"
  unfolding result_keeps_def by (auto split: bind_splits intro: compose)

lemma result_start: "R w w1 \<Longrightarrow> result_keeps R w1 c \<Longrightarrow> result_keeps R w c"
  unfolding result_keeps_def using compose by blast

lemma result_basic:
  "result_keeps R w None"
  "R w w1 \<Longrightarrow> result_keeps R w (Some (r, w1))"
  "R w (snd p) \<Longrightarrow> result_keeps R w (Some p)"
  "(b \<Longrightarrow> result_keeps R w c) \<Longrightarrow> (\<not> b \<Longrightarrow> result_keeps R w d) \<Longrightarrow> result_keeps R w (if b then c else d)"
  by (auto simp: result_keeps_def)

text \<open>A computation of a new state only.\<close>

lemma state_bind: "c \<bind> f = Some w' \<Longrightarrow> (\<And>w1. c = Some w1 \<Longrightarrow> R w w1) \<Longrightarrow> (\<And>w1. f w1 = Some w' \<Longrightarrow> R w1 w') \<Longrightarrow> R w w'"
  by (auto split: bind_splits intro: compose)

end

end
