(* ===== verification/Thread_Registry.thy ===== *)
theory Thread_Registry
  imports Threads State_Relation
begin

text \<open>
  What the thread operations keep of a module's registry of runners: identifiers stay distinct and are
  never used again, and a thread that is being created or joined stays in its slot, while the module and the
  other threads run between any two steps. The stack of a thread is placed inside its block.
\<close>

section \<open>The registry of threads\<close>

definition next_id :: "wahe_module_t \<Rightarrow> nat" where
  "next_id x = (if next_thread_id x = 0 then 2 ^ 64 else next_thread_id x)"

definition thread_slot :: "wahe_module_t \<Rightarrow> nat \<Rightarrow> wahe_wasmtime_runner_t \<Rightarrow> bool" where
  "thread_slot x i ro \<longleftrightarrow> initial_runner_count x \<le> i \<and> runner_object x i = Some ro"

definition live_ids :: "wahe_module_t \<Rightarrow> nat set" where
  "live_ids x = {t. \<exists>i ro. thread_slot x i ro \<and> wr_thread_id ro = t}"

text \<open>Identifiers are distinct, not zero and below the next one.\<close>

definition registry_ok :: "wahe_module_t \<Rightarrow> bool" where
  "registry_ok x \<longleftrightarrow> initial_runner_count x \<le> runner_count x \<and> length (runner x) = runner_count x \<and>
     next_thread_id x < 2 ^ 64 \<and>
     (\<forall>i ro. thread_slot x i ro \<longrightarrow> 0 < wr_thread_id ro \<and> wr_thread_id ro < next_id x) \<and>
     (\<forall>i j ro ro'. thread_slot x i ro \<and> thread_slot x j ro' \<and> wr_thread_id ro = wr_thread_id ro' \<longrightarrow> i = j)"

definition runner_tag :: "wahe_wasmtime_runner_t \<Rightarrow> nat \<times> bool \<times> bool" where
  "runner_tag ro = (wr_thread_id ro, wr_creating ro, wr_joining ro)"

text \<open>
  What every step keeps of a module's registry, except in the slots of \<open>J\<close>: it stays well formed, no
  identifier comes back, and a thread that is being created or joined stays in its slot.
\<close>

definition keeps_registry :: "nat \<Rightarrow> nat set \<Rightarrow> 'g world \<Rightarrow> 'g world \<Rightarrow> bool" where
  "keeps_registry m J w w' \<longleftrightarrow>
     (m < length (modules w) \<and> registry_ok (modules w ! m) \<longrightarrow>
      m < length (modules w') \<and> registry_ok (modules w' ! m) \<and>
      initial_runner_count (modules w' ! m) = initial_runner_count (modules w ! m) \<and>
      next_id (modules w ! m) \<le> next_id (modules w' ! m) \<and>
      live_ids (modules w' ! m) \<subseteq> live_ids (modules w ! m) \<union> {next_id (modules w ! m)..} \<and>
      (\<forall>i ro. i \<notin> J \<and> thread_slot (modules w ! m) i ro \<and> (wr_creating ro \<or> wr_joining ro) \<longrightarrow>
         (\<exists>ro'. thread_slot (modules w' ! m) i ro' \<and> runner_tag ro' = runner_tag ro)))"

lemma keeps_refl [simp]: "keeps_registry m J w w"
  by (auto simp: keeps_registry_def)

lemma keepsD:
  assumes "keeps_registry m J w w'" "m < length (modules w)" "registry_ok (modules w ! m)"
  shows "m < length (modules w')" "registry_ok (modules w' ! m)"
    "initial_runner_count (modules w' ! m) = initial_runner_count (modules w ! m)"
    "next_id (modules w ! m) \<le> next_id (modules w' ! m)"
    "live_ids (modules w' ! m) \<subseteq> live_ids (modules w ! m) \<union> {next_id (modules w ! m)..}"
    "i \<notin> J \<Longrightarrow> thread_slot (modules w ! m) i ro \<Longrightarrow> wr_creating ro \<or> wr_joining ro \<Longrightarrow>
       \<exists>ro'. thread_slot (modules w' ! m) i ro' \<and> runner_tag ro' = runner_tag ro"
  using assms unfolding keeps_registry_def by blast+

lemma keepsI:
  assumes "m < length (modules w) \<Longrightarrow> registry_ok (modules w ! m) \<Longrightarrow>
      m < length (modules w') \<and> registry_ok (modules w' ! m) \<and>
      initial_runner_count (modules w' ! m) = initial_runner_count (modules w ! m) \<and>
      next_id (modules w ! m) \<le> next_id (modules w' ! m) \<and>
      live_ids (modules w' ! m) \<subseteq> live_ids (modules w ! m) \<union> {next_id (modules w ! m)..}"
    and "\<And>i ro. m < length (modules w) \<Longrightarrow> registry_ok (modules w ! m) \<Longrightarrow> i \<notin> J \<Longrightarrow> thread_slot (modules w ! m) i ro \<Longrightarrow>
      wr_creating ro \<or> wr_joining ro \<Longrightarrow> \<exists>ro'. thread_slot (modules w' ! m) i ro' \<and> runner_tag ro' = runner_tag ro"
  shows "keeps_registry m J w w'"
  using assms unfolding keeps_registry_def by blast

lemma keeps_trans:
  assumes "keeps_registry m J a b" "keeps_registry m J b c"
  shows "keeps_registry m J a c"
proof (rule keepsI)
  assume a: "m < length (modules a)" "registry_ok (modules a ! m)"
  note ab = keepsD [OF assms(1) a]
  note bc = keepsD [OF assms(2) ab(1,2)]
  have "live_ids (modules c ! m) \<subseteq> live_ids (modules a ! m) \<union> {next_id (modules a ! m)..}"
    using ab(4,5) bc(5) by fastforce
  with ab(3,4) bc(1-4) show "m < length (modules c) \<and> registry_ok (modules c ! m) \<and>
      initial_runner_count (modules c ! m) = initial_runner_count (modules a ! m) \<and>
      next_id (modules a ! m) \<le> next_id (modules c ! m) \<and>
      live_ids (modules c ! m) \<subseteq> live_ids (modules a ! m) \<union> {next_id (modules a ! m)..}"
    by (metis le_trans)
next
  fix i ro
  assume a: "m < length (modules a)" "registry_ok (modules a ! m)"
    and i: "i \<notin> J" "thread_slot (modules a ! m) i ro" "wr_creating ro \<or> wr_joining ro"
  note ab = keepsD [OF assms(1) a]
  obtain ro' where r: "thread_slot (modules b ! m) i ro'" "runner_tag ro' = runner_tag ro" using ab(6) [OF i] by blast
  then have "wr_creating ro' \<or> wr_joining ro'" using i(3) by (simp add: runner_tag_def)
  from keepsD(6) [OF assms(2) ab(1,2) i(1) r(1) this] r(2)
  show "\<exists>ro'. thread_slot (modules c ! m) i ro' \<and> runner_tag ro' = runner_tag ro" by metis
qed

lemma keeps_weaken: "keeps_registry m {} a b \<Longrightarrow> keeps_registry m J a b"
  unfolding keeps_registry_def by blast

text \<open>A step that only changes other parts of the modules.\<close>

definition thread_view :: "wahe_module_t \<Rightarrow> nat \<times> nat \<times> nat \<times> (nat \<times> bool \<times> bool) option list" where
  "thread_view x = (initial_runner_count x, next_thread_id x, runner_count x, map (map_option runner_tag) (runner x))"

lemma thread_view_slot:
  assumes "thread_view x' = thread_view x" "thread_slot x i ro"
  shows "\<exists>ro'. thread_slot x' i ro' \<and> runner_tag ro' = runner_tag ro"
proof -
  have v: "initial_runner_count x' = initial_runner_count x" "runner_count x' = runner_count x"
      "map (map_option runner_tag) (runner x') = map (map_option runner_tag) (runner x)"
    using assms(1) by (simp_all add: thread_view_def)
  have i: "initial_runner_count x \<le> i" "i < runner_count x" "i < length (runner x)" "runner x ! i = Some ro"
    using assms(2) by (auto simp: thread_slot_def runner_object_def split: if_splits)
  have len: "length (runner x') = length (runner x)" using v(3) by (metis length_map)
  then have "map_option runner_tag (runner x' ! i) = Some (runner_tag ro)"
    using v(3) i(3,4) by (metis nth_map option.map(2))
  then show ?thesis using i v len by (auto simp: thread_slot_def runner_object_def)
qed

lemma thread_view_keeps:
  assumes "length (modules w') = length (modules w)" "thread_view (modules w' ! m) = thread_view (modules w ! m)"
  shows "keeps_registry m J w w'"
proof -
  let ?x = "modules w ! m" and ?x' = "modules w' ! m"
  have v: "initial_runner_count ?x' = initial_runner_count ?x" "runner_count ?x' = runner_count ?x"
      "next_id ?x' = next_id ?x" "next_thread_id ?x' = next_thread_id ?x" "length (runner ?x') = length (runner ?x)"
    using assms(2) by (auto simp: thread_view_def next_id_def dest: map_eq_imp_length_eq)
  note to = thread_view_slot [OF assms(2)] and back_to = thread_view_slot [OF assms(2) [symmetric]]
  have tag: "wr_thread_id ro' = wr_thread_id ro" if "runner_tag ro' = runner_tag ro" for ro ro'
    using that by (simp add: runner_tag_def)
  have "live_ids ?x' = live_ids ?x" unfolding live_ids_def using to back_to tag by blast
  moreover have "registry_ok ?x'" if "registry_ok ?x"
    unfolding registry_ok_def v
  proof (intro conjI allI impI)
    fix i ro assume "thread_slot ?x' i ro"
    then obtain ro' where "thread_slot ?x i ro'" "runner_tag ro' = runner_tag ro" using back_to by blast
    with that tag show "0 < wr_thread_id ro" "wr_thread_id ro < next_id ?x" unfolding registry_ok_def by metis+
  next
    fix i j ro ro' assume a: "thread_slot ?x' i ro \<and> thread_slot ?x' j ro' \<and> wr_thread_id ro = wr_thread_id ro'"
    obtain r1 where r1: "thread_slot ?x i r1" "runner_tag r1 = runner_tag ro" using a back_to by blast
    obtain r2 where r2: "thread_slot ?x j r2" "runner_tag r2 = runner_tag ro'" using a back_to by blast
    have "wr_thread_id r1 = wr_thread_id r2" using a r1 r2 tag by metis
    with that r1 r2 show "i = j" unfolding registry_ok_def by blast
  qed (use that in \<open>auto simp: registry_ok_def\<close>)
  ultimately show ?thesis using assms(1) v to unfolding keeps_registry_def by auto
qed

lemma keeps_upd_module:
  assumes "\<And>x. thread_view (f x) = thread_view x"
  shows "keeps_registry m J w (upd_module k f w)"
  by (rule thread_view_keeps) (simp_all add: nth_update_if assms)

lemma thread_view_upd_runner:
  assumes "\<And>ro. runner_tag (f ro) = runner_tag ro"
  shows "thread_view (upd_runner r f x) = thread_view x"
proof -
  have "map (map_option runner_tag) ((runner x)[r := map_option f (runner x ! r)]) = map (map_option runner_tag) (runner x)"
  proof (cases "r < length (runner x)")
    case True
    have "map_option runner_tag (map_option f (runner x ! r)) = map (map_option runner_tag) (runner x) ! r"
      using True assms by (simp add: option.map_comp o_def)
    then show ?thesis by (simp add: map_update)
  qed (simp add: list_update_beyond)
  then show ?thesis by (simp add: thread_view_def upd_runner_def)
qed

lemma keeps_set_runner:
  "(\<And>ro. runner_tag (f ro) = runner_tag ro) \<Longrightarrow> keeps_registry m J w (set_runner k r f w)"
  unfolding set_runner_def by (rule keeps_upd_module) (rule thread_view_upd_runner)

lemma keeps_same_modules: "modules w' = modules w \<Longrightarrow> keeps_registry m J w w'"
  by (rule thread_view_keeps) simp_all

section \<open>The environment\<close>

text \<open>
  Other threads and the module's own calls may create and join threads in the meantime, by the same
  operations: what they do keeps the registry in the same sense.
\<close>

definition threads_environment :: "'g services \<Rightarrow> nat \<Rightarrow> bool" where
  "threads_environment S m \<longleftrightarrow>
     (\<forall>k r f a w out w'. guest_call (calls S) k r f a w = Some (out, w') \<longrightarrow> keeps_registry m {} w w') \<and>
     (\<forall>st k r w ok w'. runtime_do S st k r w = Some (ok, w') \<longrightarrow> keeps_registry m {} w w') \<and>
     (\<forall>k r s v w. keeps_registry m {} w (snd (global_set S k r s v w))) \<and>
     (\<forall>k r s a w ok w'. call_export S k r s a w = Some (ok, w') \<longrightarrow> keeps_registry m {} w w') \<and>
     (\<forall>k r w. keeps_registry m {} w (snd (thread_create S k r w))) \<and>
     (\<forall>k r w ok w'. thread_join S k r w = Some (ok, w') \<longrightarrow> keeps_registry m {} w w')"


lemma environmentD:
  assumes "threads_environment S m"
  shows "guest_call (calls S) k r f a w = Some (out, w') \<Longrightarrow> keeps_registry m J w w'"
    and "runtime_do S st k r w = Some (ok, w') \<Longrightarrow> keeps_registry m J w w'"
    and "global_set S k r s v w = (ok, w') \<Longrightarrow> keeps_registry m J w w'"
    and "call_export S k r s a w = Some (ok, w') \<Longrightarrow> keeps_registry m J w w'"
    and "thread_create S k r w = (ok, w') \<Longrightarrow> keeps_registry m J w w'"
    and "thread_join S k r w = Some (ok, w') \<Longrightarrow> keeps_registry m J w w'"
  using assms unfolding threads_environment_def by (metis keeps_weaken snd_conv)+

lemma keeps_refresh [simp]: "keeps_registry m J w (wahe_refresh_module_memory_size ctx w)"
  unfolding wahe_refresh_module_memory_size_def
  by (auto split: option.split intro!: keeps_upd_module simp: thread_view_def)

lemma keeps_store_ret [simp]: "keeps_registry m J w (store_ret_addr slot v w)"
  by (rule keeps_same_modules) (auto simp: store_ret_addr_def split: option.split)

lemma keeps_returned: "returned_message k slot ret w = (v, w') \<Longrightarrow> keeps_registry m J w w'"
  by (auto simp: returned_message_def Let_def split: if_splits intro: keeps_trans [OF keeps_refresh keeps_store_ret])

lemma keeps_call_depth [simp]: "keeps_registry m J w (call_depth_change k r d w)"
  unfolding call_depth_change_def set_runner_def [symmetric] by (rule keeps_set_runner) (simp add: runner_tag_def)

lemma modules_set_current_func: "set_current_func c f w = Some w' \<Longrightarrow> modules w' = modules w"
  by (auto simp: set_current_func_def split: option.splits if_splits)

lemma keeps_enter: "enter_wasmtime k r f w = Some w' \<Longrightarrow> keeps_registry m J w w'"
proof -
  assume "enter_wasmtime k r f w = Some w'"
  then obtain w1 where w1: "modules w1 = modules w"
      "w' = call_depth_change k r Suc ((acquire (Runner_lock k r) w1)\<lparr>cur_wasmtime_runner := Some (k, r)\<rparr>)"
    by (auto simp: enter_wasmtime_def split: bind_splits dest: modules_set_current_func)
  have "keeps_registry m J w ((acquire (Runner_lock k r) w1)\<lparr>cur_wasmtime_runner := Some (k, r)\<rparr>)"
    by (rule keeps_same_modules) (simp add: w1(1))
  then show ?thesis unfolding w1(2) by (rule keeps_trans) simp
qed

lemma keeps_leave: "leave_wasmtime k r w0 w = Some w' \<Longrightarrow> keeps_registry m J w w'"
proof -
  assume "leave_wasmtime k r w0 w = Some w'"
  then have "modules w' = modules (call_depth_change k r (\<lambda>d. d - 1) w)"
    by (auto simp: leave_wasmtime_def Let_def dest!: modules_set_current_func)
  then show ?thesis by (metis keeps_call_depth keeps_same_modules keeps_trans)
qed

lemma keeps_native: "modules (enter_native k r w) = modules w" "modules (leave_native k r w0 w) = modules w"
  by (simp_all add: enter_native_def leave_native_def Let_def)

lemma keeps_core:
  assumes env: "threads_environment S m"
    and call: "call_module_func_core_on_runner (calls S) ctx r arg f w = Some (v, w')"
  shows "keeps_registry m J w w'"
proof -
  have native: "keeps_registry m J w w'" if nat: "call_native (calls S) k r arg f w = Some (v, w')" for k
  proof -
    consider "w' = w" | a out w1 where "guest_call (calls S) k r f a (enter_native k r w) = Some (out, w1)" "w' = leave_native k r w w1"
      using nat unfolding call_native_def Let_def by (fastforce split: if_splits bind_splits)
    then show ?thesis
    proof cases
      case 2
      have "keeps_registry m J w (enter_native k r w)" by (rule keeps_same_modules) (rule keeps_native)
      moreover have "keeps_registry m J (enter_native k r w) w1" by (rule environmentD(1) [OF env 2(1)])
      moreover have "keeps_registry m J w1 w'" unfolding 2(2) by (rule keeps_same_modules) (rule keeps_native)
      ultimately show ?thesis using keeps_trans by blast
    qed simp
  qed
  have wasm: "keeps_registry m J w1 w'" if "call_wasmtime (calls S) k r arg f w1 = Some (v, w')" for k w1
  proof (cases "wahe_get_wasmtime_runner (Some k) r w1")
    case (Some r')
    with that have "w' = w1 \<or> (\<exists>w2 out w3 w4. enter_wasmtime k r' f w1 = Some w2 \<and>
        guest_call (calls S) k r' f (map (wasmtime_val_set_address (modules w1 ! k)) arg) w2 = Some (out, w3) \<and>
        leave_wasmtime k r' w1 w3 = Some w4 \<and> w' = wahe_refresh_module_memory_size (Some k) w4)"
      by (auto simp: call_wasmtime_def Let_def split: if_splits bind_splits)
    then show ?thesis
      using environmentD(1) [OF env] keeps_enter keeps_leave keeps_refresh keeps_trans keeps_refl by metis
  qed (use that in \<open>simp add: call_wasmtime_def Let_def\<close>)
  have stamp: "keeps_registry m J w w1" if "publish_timestamp (calls S) k w = Some w1" for k w1
    using that by (intro keeps_same_modules) (auto simp: publish_timestamp_def Let_def split: if_splits bind_splits)
  have "w' = w \<or> (\<exists>k. call_native (calls S) k r arg f w = Some (v, w')) \<or>
      (\<exists>k w1. publish_timestamp (calls S) k w = Some w1 \<and> (w' = w1 \<or> call_wasmtime (calls S) k r arg f w1 = Some (v, w')))"
    using call by (auto simp: call_module_func_core_on_runner_def Let_def split: if_splits bind_splits option.splits)
  then show ?thesis using native wasm stamp keeps_trans keeps_refl by metis
qed

lemma keeps_malloc: "threads_environment S m \<Longrightarrow> call_module_malloc (calls S) ctx n w = Some (a, w') \<Longrightarrow> keeps_registry m J w w'"
  unfolding call_module_malloc_def call_module_malloc_on_runner_def by (rule keeps_core)

lemma keeps_free: "threads_environment S m \<Longrightarrow> call_module_free (calls S) ctx a w = Some w' \<Longrightarrow> keeps_registry m J w w'"
  unfolding call_module_free_def call_module_free_on_runner_def using keeps_core by fastforce


section \<open>The steps of a creation\<close>

lemma keeps_tag [simp]:
  "keeps_registry m J w (set_runner k r (wr_tls_alloc_update f) w)"
  "keeps_registry m J w (set_runner k r (wr_input_addr_update f) w)"
  "keeps_registry m J w (set_runner k r (wr_stack_start_update f) w)"
  "keeps_registry m J w (set_runner k r (wr_stack_pointer_update g) w)"
  "keeps_registry m J w (set_runner k r (wr_thread_handle_update h) w)"
  "keeps_registry m J w (set_runner k r (wr_thread_reply_update i) w)"
  "keeps_registry m J w (set_runner k r (\<lambda>ro. ro\<lparr>wr_func := (wr_func ro)(fn := True)\<rparr>) w)"
  "keeps_registry m J w (set_runner k r (\<lambda>ro. ro\<lparr>wr_stack_alloc := a, wr_stack_size := n\<rparr>) w)"
  by (intro keeps_set_runner; simp add: runner_tag_def)+

lemma keeps_host_mem [simp]: "keeps_registry m J w (w\<lparr>host_mem := h\<rparr>)"
  by (rule keeps_same_modules) simp

interpretation keeps: state_relation "keeps_registry m J" for m J
  by unfold_locales (simp, rule keeps_trans)

lemma result_calls:
  assumes "threads_environment S m"
  shows "result_keeps (keeps_registry m J) w (call_module_malloc (calls S) ctx n w)"
    and "result_keeps (keeps_registry m J) w (runtime_do S st k r w)"
    and "result_keeps (keeps_registry m J) w (call_export S k r s a w)"
    and "result_keeps (keeps_registry m J) w (thread_join S k r w)"
  using keeps_malloc [OF assms] environmentD [OF assms] by (auto simp: result_keeps_def)

lemma keeps_block:
  assumes env: "threads_environment S m"
  shows "result_keeps (keeps_registry m J) w (thread_stack_block S k n w)"
  unfolding thread_stack_block_def
  by (rule keeps.result_bind [OF result_calls(1) [OF env]])
    (auto intro!: keeps.result_basic keeps.result_bind_state result_calls(1) [OF env] intro: keeps_free [OF env])

lemma keeps_place:
  assumes env: "threads_environment S m"
  shows "result_keeps (keeps_registry m J) w (place_thread_stack S k slot n w)"
proof -
  have tail: "result_keeps (keeps_registry m J) w1
      (let w2 = set_runner k slot (\<lambda>ro. ro\<lparr>wr_stack_alloc := a, wr_stack_size := of_nat n\<rparr>) w1 in
        if a = 0 then Some (False, w2)
        else (let start = align_address a 16;
                  w3 = set_runner k slot (\<lambda>ro. ro\<lparr>wr_stack_start := start\<rparr>) w2;
                  mem_size = wahe_get_module_memory_size (Some k) w3;
                  top = unat (address_max (address_bits (modules w3 ! k)))
              in if mem_size < unat start \<or> mem_size - unat start < n \<or> top < unat start \<or> top - unat start < n
                 then Some (False, w3)
                 else do {
                   h \<leftarrow> mem_store (host_mem w3) (memory_ptr (modules w3 ! k) + start) (replicate n WAHE_STACK_BLANK_PATTERN);
                   Some (True, w3\<lparr>host_mem := h\<rparr>)
                 }))" for a w1
    unfolding Let_def
    by (rule keeps.result_start [of _ _ _ "set_runner k slot (\<lambda>ro. ro\<lparr>wr_stack_alloc := a, wr_stack_size := of_nat n\<rparr>) w1"], simp)
      (intro keeps.result_basic keeps.result_bind_pure; simp add: keeps_trans [OF keeps_tag(3) keeps_host_mem])
  show ?thesis
    unfolding place_thread_stack_def
    by (rule keeps.result_bind [OF keeps_block [OF env]]) (simp only: prod.case, rule keeps.result_bind_pure, rule tail)
qed

lemma keeps_steps:
  assumes env: "threads_environment S m"
  shows "result_keeps (keeps_registry m J) w (run_runtime_steps S k r sts w)"
proof (induction sts arbitrary: w)
  case (Cons st sts)
  then show ?case
    by (auto intro!: keeps.result_bind [OF result_calls(2) [OF env]] keeps.result_basic)
qed (simp add: result_keeps_def)

lemma keeps_set_stack:
  assumes env: "threads_environment S m"
  shows "result_keeps (keeps_registry m J) w (wahe_set_wasmtime_runner_stack S k r w)"
proof (cases "runner_object (modules w ! k) r")
  case None
  then show ?thesis by (simp add: wahe_set_wasmtime_runner_stack_def keeps.result_basic)
next
  case ro: (Some ro)
  have g: "keeps_registry m J w w2 \<Longrightarrow> keeps_registry m J w (snd (global_set S k r s v w2))" for w w2 s v
    using env keeps_trans keeps_weaken unfolding threads_environment_def by metis
  show ?thesis
  proof (cases "\<exists>is32 v. linker_get S k r ''__stack_pointer'' w = Some (Extern_global is32 v)")
    case True
    then obtain is32 v where l: "linker_get S k r ''__stack_pointer'' w = Some (Extern_global is32 v)" by blast
    define w1 where "w1 = upd_module k (upd_runner r (\<lambda>ro. ro\<lparr>wr_stack_pointer := Some v\<rparr>)) w"
    define w2 where "w2 = (if r = 0 then upd_module k (\<lambda>x. x\<lparr>stack_base := global_address is32 v\<rparr>) w1 else w1)"
    have k1: "keeps_registry m J w w1" unfolding w1_def set_runner_def [symmetric] by simp
    have "keeps_registry m J w1 w2" unfolding w2_def by (auto intro!: keeps_upd_module simp: thread_view_def)
    with k1 have k2: "keeps_registry m J w w2" by (rule keeps_trans)
    show ?thesis
      unfolding wahe_set_wasmtime_runner_stack_def Let_def l ro option.case wasm_extern.case
        w1_def [symmetric] w2_def [symmetric]
      by (intro keeps.result_basic g k1 k2)
  next
    case False
    have "wahe_set_wasmtime_runner_stack S k r w =
        Some (initial_runner_count (modules w ! k) = 1 \<and> wr_thread_id ro = 0, w)"
      using False by (simp add: wahe_set_wasmtime_runner_stack_def Let_def ro split: option.split wasm_extern.split)
    then show ?thesis by (simp add: keeps.result_basic)
  qed
qed

lemma keeps_init_runner:
  assumes env: "threads_environment S m"
  shows "result_keeps (keeps_registry m J) w (wahe_init_wasmtime_runner S k r w)"
  unfolding wahe_init_wasmtime_runner_def
  by (rule keeps.result_bind [OF keeps_steps [OF env]]) (auto intro!: keeps.result_basic keeps_set_stack [OF env])

lemma keeps_find_exports [simp]: "keeps_registry m J w (find_thread_exports S k r is w)"
proof (induction "is" arbitrary: w)
  case (Cons i "is")
  have step: "keeps_registry m J w (if b then set_runner k r (\<lambda>ro. ro\<lparr>wr_func := (wr_func ro)(fn := True)\<rparr>) w else w)" for b fn
    by simp
  show ?case unfolding find_thread_exports.simps Let_def by (rule keeps_trans [OF step Cons.IH])
qed simp

lemma keeps_exports: "wahe_init_thread_exports S k r w = Some (ok, w') \<Longrightarrow> keeps_registry m J w w'"
  by (auto simp: wahe_init_thread_exports_def Let_def split: bind_splits)

lemma keeps_thread_tls:
  assumes env: "threads_environment S m"
  shows "result_keeps (keeps_registry m J) w (wahe_init_thread_tls S k r w)"
proof -
  have "result_keeps (keeps_registry m J) w (call_export S k r s args (set_runner k r (wr_tls_alloc_update f) w))" for s args f w
    by (rule keeps.result_start [OF keeps_tag(1) result_calls(3) [OF env]])
  note call = this
  have tail: "result_keeps (keeps_registry m J) w (do {
      (a, w1) \<leftarrow> call_module_malloc (calls S) (Some k) n w;
      the_runner k r w1;
      (let w2 = set_runner k r (\<lambda>ro. ro\<lparr>wr_tls_alloc := a\<rparr>) w1 in
       if a = 0 then Some (False, w2)
       else call_export S k r s [wasmtime_val_set_address (modules w2 ! k) (align_address a align)] w2)
    })" for n s align w
    by (rule keeps.result_bind [OF result_calls(1) [OF env]])
      (simp only: prod.case Let_def, rule keeps.result_bind_pure, auto intro!: keeps.result_basic call)
  show ?thesis
    unfolding wahe_init_thread_tls_def Let_def
    by (rule tail [unfolded Let_def] keeps.result_basic(1,4) | (rule keeps.result_basic(2), rule keeps_refl) | intro conjI impI allI |
        split prod.split | split option.split | split wasm_extern.split)+
qed

lemma keeps_copy_message:
  assumes env: "threads_environment S m"
  shows "result_keeps (keeps_registry m J) w (copy_entry_message S k slot msg w)"
  unfolding copy_entry_message_def Let_def
  by (rule keeps.result_bind_pure, rule keeps.result_bind [OF result_calls(1) [OF env]])
    (auto intro!: keeps.result_basic keeps.result_bind_pure intro: keeps_trans [OF keeps_tag(2) keeps_host_mem])

lemma keeps_start:
  assumes env: "threads_environment S m" and call: "start_thread S k slot w = Some (ok, w')"
  shows "keeps_registry m J w w'"
proof -
  have "w' = w \<or> (\<exists>ok w1. thread_create S k slot w = (ok, w1) \<and>
      (w' = w1 \<or> w' = set_runner k slot (\<lambda>ro. ro\<lparr>wr_thread_handle := True\<rparr>) w1))"
    using call unfolding start_thread_def by (auto split: if_splits prod.splits)
  moreover have "keeps_registry m J w1 (set_runner k slot (\<lambda>ro. ro\<lparr>wr_thread_handle := True\<rparr>) w1)" for w1 :: "'a world" by simp
  ultimately show ?thesis using environmentD(5) [OF env] keeps_trans keeps_refl by metis
qed

lemma keeps_thread_steps:
  assumes "\<And>e f w b w'. (e, f) \<in> set steps \<Longrightarrow> f w = Some (b, w') \<Longrightarrow> keeps_registry m J w w'"
    and "thread_steps steps w = Some (failed, w')"
  shows "keeps_registry m J w w'"
  using assms
proof (induction steps arbitrary: w)
  case (Cons s steps)
  obtain e f where s: "s = (e, f)" by (rule prod.exhaust)
  from Cons.prems(2) obtain b w1 where b: "f w = Some (b, w1)" "w' = w1 \<or> thread_steps steps w1 = Some (failed, w')"
    by (auto simp: s split: if_splits bind_splits)
  have "keeps_registry m J w w1" using Cons.prems(1) [of e f, OF _ b(1)] by (simp add: s)
  moreover have "keeps_registry m J w1 w'" if "thread_steps steps w1 = Some (failed, w')"
    by (rule Cons.IH [OF _ that]) (erule (1) Cons.prems(1) [OF list.set_intros(2)])
  ultimately show ?case using b(2) keeps_trans by metis
qed simp


section \<open>Claiming and releasing a slot\<close>

lemma keeps_drop:
  assumes "keeps_registry m {r} w w'"
    and "\<And>ro. thread_slot (modules w ! m) r ro \<Longrightarrow> \<not> wr_creating ro \<and> \<not> wr_joining ro"
  shows "keeps_registry m J w w'"
proof (rule keepsI)
  assume a: "m < length (modules w)" "registry_ok (modules w ! m)"
  show "m < length (modules w') \<and> registry_ok (modules w' ! m) \<and>
      initial_runner_count (modules w' ! m) = initial_runner_count (modules w ! m) \<and>
      next_id (modules w ! m) \<le> next_id (modules w' ! m) \<and>
      live_ids (modules w' ! m) \<subseteq> live_ids (modules w ! m) \<union> {next_id (modules w ! m)..}"
    using keepsD [OF assms(1) a] by simp
next
  fix i ro
  assume a: "m < length (modules w)" "registry_ok (modules w ! m)"
    and i: "thread_slot (modules w ! m) i ro" "wr_creating ro \<or> wr_joining ro"
  then have "i \<notin> {r}" using assms(2) by auto
  from keepsD(6) [OF assms(1) a this i] show "\<exists>ro'. thread_slot (modules w' ! m) i ro' \<and> runner_tag ro' = runner_tag ro" .
qed

text \<open>A change to one module whose thread slots are known.\<close>

lemma keeps_slots:
  assumes x: "m < length (modules w) \<Longrightarrow> modules w' ! m = x'" "length (modules w') = length (modules w)"
    and ok: "m < length (modules w) \<Longrightarrow> registry_ok (modules w ! m) \<Longrightarrow>
      registry_ok x' \<and> initial_runner_count x' = initial_runner_count (modules w ! m) \<and> next_id (modules w ! m) \<le> next_id x'"
    and slots: "\<And>i ro. registry_ok (modules w ! m) \<Longrightarrow> thread_slot x' i ro \<Longrightarrow>
      wr_thread_id ro \<in> live_ids (modules w ! m) \<union> {next_id (modules w ! m)..}"
    and kept: "\<And>i ro. registry_ok (modules w ! m) \<Longrightarrow> i \<notin> J \<Longrightarrow> thread_slot (modules w ! m) i ro \<Longrightarrow>
      wr_creating ro \<or> wr_joining ro \<Longrightarrow> \<exists>ro'. thread_slot x' i ro' \<and> runner_tag ro' = runner_tag ro"
  shows "keeps_registry m J w w'"
  by (rule keepsI) (use x ok slots kept in \<open>auto simp: live_ids_def\<close>)

lemma thread_slotI: "initial_runner_count x \<le> i \<Longrightarrow> i < runner_count x \<Longrightarrow> i < length (runner x) \<Longrightarrow> runner x ! i = Some ro \<Longrightarrow> thread_slot x i ro"
  by (simp add: thread_slot_def runner_object_def)

lemma thread_slot_iff:
  "thread_slot x i ro \<longleftrightarrow> initial_runner_count x \<le> i \<and> i < runner_count x \<and> i < length (runner x) \<and> runner x ! i = Some ro"
  by (auto simp: thread_slot_def runner_object_def)

lemma free_slot:
  assumes "registry_ok x"
  shows "initial_runner_count x \<le> free_slot x \<and> free_slot x \<le> runner_count x \<and>
    (free_slot x < runner_count x \<longrightarrow> runner x ! free_slot x = None)"
proof (cases "List.find (\<lambda>i. runner x ! i = None) [initial_runner_count x..<runner_count x]")
  case None
  then show ?thesis using assms by (simp add: free_slot_def registry_ok_def)
next
  case (Some i)
  then have "i \<in> set [initial_runner_count x..<runner_count x]" "runner x ! i = None"
    by (auto simp: find_Some_iff)
  with Some show ?thesis by (simp add: free_slot_def)
qed

definition grow_registry :: "nat \<Rightarrow> wahe_module_t \<Rightarrow> wahe_module_t" where
  "grow_registry slot x = x\<lparr>runner := take slot (runner x) @ [None], runner_count := runner_count x + 1\<rparr>"

lemma grow_registry:
  assumes "registry_ok x" "slot = runner_count x"
  shows "registry_ok (grow_registry slot x)" and "thread_slot (grow_registry slot x) = thread_slot x"
    and "next_id (grow_registry slot x) = next_id x" "initial_runner_count (grow_registry slot x) = initial_runner_count x"
    "next_thread_id (grow_registry slot x) = next_thread_id x" "runner_count (grow_registry slot x) = Suc slot"
    "runner (grow_registry slot x) ! slot = None"
proof -
  have len: "length (runner x) = slot" using assms by (simp add: registry_ok_def)
  show slots: "thread_slot (grow_registry slot x) = thread_slot x"
    using len assms(2) by (intro ext) (auto simp: thread_slot_iff grow_registry_def nth_append less_Suc_eq)
  show same: "next_id (grow_registry slot x) = next_id x" "initial_runner_count (grow_registry slot x) = initial_runner_count x"
      "next_thread_id (grow_registry slot x) = next_thread_id x" "runner_count (grow_registry slot x) = Suc slot"
      "runner (grow_registry slot x) ! slot = None"
    using len assms(2) by (simp_all add: grow_registry_def next_id_def nth_append)
  show "registry_ok (grow_registry slot x)"
    using assms len unfolding registry_ok_def slots same by (auto simp: grow_registry_def)
qed

definition occupy :: "nat \<Rightarrow> wahe_module_t \<Rightarrow> wahe_module_t" where
  "occupy slot x = x\<lparr>runner := (runner x)[slot := Some (new_thread_runner (next_thread_id x))],
     next_thread_id := (next_thread_id x + 1) mod 2 ^ 64\<rparr>"

lemma occupy:
  assumes ok: "registry_ok x" and slot: "initial_runner_count x \<le> slot" "slot < runner_count x" "runner x ! slot = None"
    and nz: "next_thread_id x \<noteq> 0"
  shows "registry_ok (occupy slot x)" and "next_id (occupy slot x) = next_id x + 1"
    and "initial_runner_count (occupy slot x) = initial_runner_count x"
    and "thread_slot (occupy slot x) i ro \<longleftrightarrow>
      (if i = slot then ro = new_thread_runner (next_thread_id x) else thread_slot x i ro)"
proof -
  have len: "length (runner x) = runner_count x" using ok by (simp add: registry_ok_def)
  show same: "initial_runner_count (occupy slot x) = initial_runner_count x" by (simp add: occupy_def)
  show sl: "thread_slot (occupy slot x) i ro \<longleftrightarrow>
      (if i = slot then ro = new_thread_runner (next_thread_id x) else thread_slot x i ro)" for i ro
    using slot len by (auto simp: thread_slot_iff occupy_def)
  have lt: "next_thread_id x < 2 ^ 64" using ok by (simp add: registry_ok_def)
  show nid: "next_id (occupy slot x) = next_id x + 1"
  proof (cases "next_thread_id x + 1 = 2 ^ 64")
    case False
    with lt have "next_thread_id x + 1 < 2 ^ 64" by linarith
    then show ?thesis using nz by (simp add: next_id_def occupy_def)
  qed (use nz in \<open>simp add: next_id_def occupy_def\<close>)
  have old: "wr_thread_id ro \<noteq> next_thread_id x \<and> 0 < wr_thread_id ro \<and> wr_thread_id ro < next_id x"
    if "thread_slot x i ro" for i ro
  proof -
    have "0 < wr_thread_id ro \<and> wr_thread_id ro < next_id x" using ok that unfolding registry_ok_def by blast
    then show ?thesis using nz by (auto simp: next_id_def)
  qed
  have new: "wr_thread_id (new_thread_runner t) = t" for t by (simp add: new_thread_runner_def)
  have nx: "next_id x = next_thread_id x" using nz by (simp add: next_id_def)
  show "registry_ok (occupy slot x)"
    unfolding registry_ok_def
  proof (intro conjI allI impI)
    fix i ro assume "thread_slot (occupy slot x) i ro"
    then show "0 < wr_thread_id ro" "wr_thread_id ro < next_id (occupy slot x)"
      using old [of i ro] nz nx by (auto simp: sl nid new split: if_splits)
  next
    fix i j ro ro'
    assume a: "thread_slot (occupy slot x) i ro \<and> thread_slot (occupy slot x) j ro' \<and> wr_thread_id ro = wr_thread_id ro'"
    show "i = j"
    proof (cases "i = slot \<or> j = slot")
      case True
      then show ?thesis using a old by (auto simp: sl new split: if_splits) metis+
    next
      case False
      then have "thread_slot x i ro" "thread_slot x j ro'" "wr_thread_id ro = wr_thread_id ro'" using a by (simp_all add: sl)
      with ok show ?thesis unfolding registry_ok_def by blast
    qed
  qed (use ok len in \<open>auto simp: registry_ok_def occupy_def\<close>)
qed

lemma claim_cases:
  assumes "claim_slot S m w = (res, w')"
  shows "(\<exists>e. res = Inl e) \<and> (w' = w \<or> free_slot (modules w ! m) = runner_count (modules w ! m) \<and>
      w' = upd_module m (grow_registry (free_slot (modules w ! m))) w) \<or>
    res = Inr (free_slot (modules w ! m)) \<and> next_thread_id (modules w ! m) \<noteq> 0 \<and>
      (if free_slot (modules w ! m) = runner_count (modules w ! m)
       then w' = upd_module m (occupy (free_slot (modules w ! m))) (upd_module m (grow_registry (free_slot (modules w ! m))) w)
       else w' = upd_module m (occupy (free_slot (modules w ! m))) w)"
  using assms
  by (auto simp: claim_slot_def Let_def grow_registry_def [abs_def] occupy_def [abs_def] split: if_splits)


lemma claim_slot_keeps:
  assumes m: "m < length (modules w)" and ok: "registry_ok (modules w ! m)" and call: "claim_slot S m w = (res, w')"
  shows "keeps_registry m J w w'"
    and "res = Inr slot \<Longrightarrow> thread_slot (modules w' ! m) slot (new_thread_runner (next_thread_id (modules w ! m))) \<and>
      (\<forall>ro. \<not> thread_slot (modules w ! m) slot ro) \<and> next_id (modules w ! m) = next_thread_id (modules w ! m)"
proof -
  let ?x = "modules w ! m"
  note fs = free_slot [OF ok]
  have new: "runner_tag (new_thread_runner t) = (t, True, False)" "wr_thread_id (new_thread_runner t) = t" for t
    by (simp_all add: new_thread_runner_def runner_tag_def)
  have grow: "keeps_registry m J w (upd_module m (grow_registry s) w)" if "s = runner_count ?x" for s
    by (rule keeps_slots [where x' = "grow_registry s ?x"]) (use m ok that grow_registry [OF ok that] in \<open>auto simp: live_ids_def\<close>)
  have occ: "keeps_registry m J w2 (upd_module m (occupy s) w2) \<and>
      thread_slot (modules (upd_module m (occupy s) w2) ! m) s (new_thread_runner (next_thread_id (modules w2 ! m)))"
    if o: "m < length (modules w2)" "registry_ok (modules w2 ! m)" "initial_runner_count (modules w2 ! m) \<le> s"
      "s < runner_count (modules w2 ! m)" "runner (modules w2 ! m) ! s = None" "next_thread_id (modules w2 ! m) \<noteq> 0" for w2 :: "'a world" and s
  proof -
    note oc = occupy [OF o(2-6)]
    have ne: "\<not> thread_slot (modules w2 ! m) s ro" for ro using o(5) by (simp add: thread_slot_iff)
    have "keeps_registry m J w2 (upd_module m (occupy s) w2)"
    proof (rule keeps_slots [where x' = "occupy s (modules w2 ! m)"])
      fix i ro assume "thread_slot (occupy s (modules w2 ! m)) i ro"
      then show "wr_thread_id ro \<in> live_ids (modules w2 ! m) \<union> {next_id (modules w2 ! m)..}"
        using o(6) by (auto simp: oc(4) new live_ids_def next_id_def split: if_splits)
    next
      fix i ro assume "thread_slot (modules w2 ! m) i ro" "wr_creating ro \<or> wr_joining ro"
      then show "\<exists>ro'. thread_slot (occupy s (modules w2 ! m)) i ro' \<and> runner_tag ro' = runner_tag ro"
        using ne by (intro exI [of _ ro]) (auto simp: oc(4))
    qed (use o oc in auto)
    then show ?thesis using o(1) oc(4) [of s] by simp
  qed
  consider "w' = w" "\<exists>e. res = Inl e"
    | "free_slot ?x = runner_count ?x" "w' = upd_module m (grow_registry (free_slot ?x)) w" "\<exists>e. res = Inl e"
    | "free_slot ?x \<noteq> runner_count ?x" "res = Inr (free_slot ?x)" "next_thread_id ?x \<noteq> 0" "w' = upd_module m (occupy (free_slot ?x)) w"
    | "free_slot ?x = runner_count ?x" "res = Inr (free_slot ?x)" "next_thread_id ?x \<noteq> 0"
      "w' = upd_module m (occupy (free_slot ?x)) (upd_module m (grow_registry (free_slot ?x)) w)"
    using claim_cases [OF call] by (auto split: if_splits)
  note cases = this
  have ne: "\<not> thread_slot ?x (free_slot ?x) ro" for ro using fs ok by (auto simp: thread_slot_iff registry_ok_def)
  have both: "keeps_registry m J w w' \<and>
    (res = Inr slot \<longrightarrow> thread_slot (modules w' ! m) slot (new_thread_runner (next_thread_id ?x)) \<and>
      (\<forall>ro. \<not> thread_slot ?x slot ro) \<and> next_id ?x = next_thread_id ?x)"
    using cases
  proof cases
    case 2
    then show ?thesis using grow by auto
  next
    case 3
    have "free_slot ?x < runner_count ?x" "runner ?x ! free_slot ?x = None" using 3(1) fs by simp_all
    with occ [OF m ok, of "free_slot ?x"] fs 3 ne show ?thesis by (auto simp: next_id_def)
  next
    case 4
    define w2 where "w2 = upd_module m (grow_registry (free_slot ?x)) w"
    note g = grow_registry [OF ok 4(1)]
    have x2: "modules w2 ! m = grow_registry (free_slot ?x) ?x" "m < length (modules w2)" using m by (simp_all add: w2_def)
    have "keeps_registry m J w2 w' \<and> thread_slot (modules w' ! m) (free_slot ?x) (new_thread_runner (next_thread_id ?x))"
      using occ [of w2 "free_slot ?x"] x2 g fs 4(3) unfolding 4(4) w2_def [symmetric] by simp
    moreover have "keeps_registry m J w w2" unfolding w2_def by (rule grow [OF 4(1)])
    ultimately show ?thesis using 4 ne keeps_trans by (auto simp: next_id_def)
  qed auto
  then show "keeps_registry m J w w'" by blast
  show "res = Inr slot \<Longrightarrow> thread_slot (modules w' ! m) slot (new_thread_runner (next_thread_id ?x)) \<and>
      (\<forall>ro. \<not> thread_slot ?x slot ro) \<and> next_id ?x = next_thread_id ?x"
    using both by blast
qed

text \<open>Changing or emptying one slot.\<close>

lemma keeps_set_any:
  assumes "\<And>ro. wr_thread_id (f ro) = wr_thread_id ro"
  shows "keeps_registry m {r} w (set_runner m r f w)"
proof (rule keeps_slots [where x' = "upd_runner r f (modules w ! m)"])
  let ?x = "modules w ! m"
  have sl: "thread_slot (upd_runner r f ?x) i ro \<longleftrightarrow>
      (if i = r then \<exists>ro'. thread_slot ?x r ro' \<and> ro = f ro' else thread_slot ?x i ro)" for i ro
    by (auto simp: thread_slot_iff upd_runner_def nth_update_if)
  show "modules (set_runner m r f w) ! m = upd_runner r f ?x" if "m < length (modules w)"
    using that by (simp add: set_runner_def)
  have tid: "\<exists>ro'. thread_slot ?x i ro' \<and> wr_thread_id ro' = wr_thread_id ro" if "thread_slot (upd_runner r f ?x) i ro" for i ro
    using that assms by (auto simp: sl split: if_splits)
  show "wr_thread_id ro \<in> live_ids ?x \<union> {next_id ?x..}" if "thread_slot (upd_runner r f ?x) i ro" for i ro
    using tid [OF that] by (auto simp: live_ids_def)
  show "\<exists>ro'. thread_slot (upd_runner r f ?x) i ro' \<and> runner_tag ro' = runner_tag ro"
    if "i \<notin> {r}" "thread_slot ?x i ro" for i ro using that by (auto simp: sl)
  show "registry_ok (upd_runner r f ?x) \<and> initial_runner_count (upd_runner r f ?x) = initial_runner_count ?x \<and>
      next_id ?x \<le> next_id (upd_runner r f ?x)" if "registry_ok ?x"
  proof -
    have same: "initial_runner_count (upd_runner r f ?x) = initial_runner_count ?x" "next_id (upd_runner r f ?x) = next_id ?x"
        "next_thread_id (upd_runner r f ?x) = next_thread_id ?x" "runner_count (upd_runner r f ?x) = runner_count ?x"
        "length (runner (upd_runner r f ?x)) = length (runner ?x)"
      by (simp_all add: upd_runner_def next_id_def)
    show ?thesis using that tid unfolding registry_ok_def same by (metis order_refl)
  qed
qed (simp add: set_runner_def)

lemma keeps_empty_slot:
  assumes x': "x' = (modules w ! m)\<lparr>runner := (runner (modules w ! m))[r := None]\<rparr>"
  shows "keeps_registry m {r} w (upd_module m (\<lambda>x. x\<lparr>runner := (runner x)[r := None]\<rparr>) w)"
    and "thread_slot x' i ro \<longleftrightarrow> i \<noteq> r \<and> thread_slot (modules w ! m) i ro"
proof -
  let ?x = "modules w ! m"
  show sl: "thread_slot x' i ro \<longleftrightarrow> i \<noteq> r \<and> thread_slot ?x i ro" for i ro
    by (auto simp: thread_slot_iff x' nth_update_if)
  show "keeps_registry m {r} w (upd_module m (\<lambda>x. x\<lparr>runner := (runner x)[r := None]\<rparr>) w)"
  proof (rule keeps_slots [where x' = x'])
    show "registry_ok x' \<and> initial_runner_count x' = initial_runner_count ?x \<and> next_id ?x \<le> next_id x'" if "registry_ok ?x"
    proof -
      have same: "initial_runner_count x' = initial_runner_count ?x" "next_id x' = next_id ?x"
        "next_thread_id x' = next_thread_id ?x" "runner_count x' = runner_count ?x" "length (runner x') = length (runner ?x)"
        by (simp_all add: x' next_id_def)
      show ?thesis using that unfolding registry_ok_def same by (metis sl order_refl)
    qed
  next
    show "modules (upd_module m (\<lambda>x. x\<lparr>runner := (runner x)[r := None]\<rparr>) w) ! m = x'" if "m < length (modules w)"
      using that by (simp add: x')
  qed (auto simp: sl live_ids_def)
qed


lemma delete_keeps:
  assumes env: "threads_environment S m" and m: "m < length (modules w)" "registry_ok (modules w ! m)"
    and ro: "thread_slot (modules w ! m) r ro" "wr_creating ro \<or> wr_joining ro"
    and call: "wahe_delete_thread_runner S m r w = Some w'"
  shows "keeps_registry m {r} w w'" and "wr_thread_id ro \<notin> live_ids (modules w' ! m)"
proof -
  obtain a1 w1 a2 w2 a3 w3 where c: "call_module_free (calls S) (Some m) a1 w = Some w1"
      "call_module_free (calls S) (Some m) a2 w1 = Some w2" "call_module_free (calls S) (Some m) a3 w2 = Some w3"
      "w' = upd_module m (\<lambda>x. x\<lparr>runner := (runner x)[r := None]\<rparr>) w3"
    using call by (auto simp: wahe_delete_thread_runner_def split: bind_splits)
  note free = keeps_free [OF env]
  have k3: "keeps_registry m J w w3" for J
    by (rule keeps_trans [OF free [OF c(1)] keeps_trans [OF free [OF c(2)] free [OF c(3)]]])
  note e = keeps_empty_slot [OF refl, where m = m and r = r and w = w3]
  show "keeps_registry m {r} w w'" unfolding c(4) by (rule keeps_trans [OF k3 e(1)])
  note d = keepsD [OF k3 m]
  obtain ro' where ro': "thread_slot (modules w3 ! m) r ro'" "runner_tag ro' = runner_tag ro" using d(6) [OF _ ro] by blast
  have m3: "modules w' ! m = (modules w3 ! m)\<lparr>runner := (runner (modules w3 ! m))[r := None]\<rparr>" using d(1) by (simp add: c(4))
  show "wr_thread_id ro \<notin> live_ids (modules w' ! m)"
  proof
    assume "wr_thread_id ro \<in> live_ids (modules w' ! m)"
    then obtain i ri where "i \<noteq> r" "thread_slot (modules w3 ! m) i ri" "wr_thread_id ri = wr_thread_id ro"
      unfolding live_ids_def m3 by (auto simp: e(2))
    with ro' d(2) show False unfolding registry_ok_def runner_tag_def by (metis prod.inject)
  qed
qed

lemma steps_keep:
  assumes env: "threads_environment S m"
    and call: "thread_steps
                    [(''module stack allocation failed'', place_thread_stack S m slot rounded),
                     (''runner initialization failed'', wahe_init_wasmtime_runner S m slot),
                     (''module_thread_entry must have the usual text callback signature'', wahe_init_thread_exports S m slot),
                     (''TLS initialization failed; export __tls_size, __tls_align and __wasm_init_tls'', wahe_init_thread_tls S m slot),
                     (''entry message allocation failed'', copy_entry_message S m slot message),
                     (''OS thread creation failed'', start_thread S m slot)] w = Some (failed, w')"
  shows "keeps_registry m J w w'"
proof (rule keeps_thread_steps [OF _ call])
  fix e f w b w'
  assume "(e, f) \<in> set [(''module stack allocation failed'', place_thread_stack S m slot rounded),
                     (''runner initialization failed'', wahe_init_wasmtime_runner S m slot),
                     (''module_thread_entry must have the usual text callback signature'', wahe_init_thread_exports S m slot),
                     (''TLS initialization failed; export __tls_size, __tls_align and __wasm_init_tls'', wahe_init_thread_tls S m slot),
                     (''entry message allocation failed'', copy_entry_message S m slot message),
                     (''OS thread creation failed'', start_thread S m slot)]"
  then have "f \<in> {place_thread_stack S m slot rounded, wahe_init_wasmtime_runner S m slot, wahe_init_thread_exports S m slot,
      wahe_init_thread_tls S m slot, copy_entry_message S m slot message, start_thread S m slot}" by auto
  moreover assume "f w = Some (b, w')"
  ultimately show "keeps_registry m J w w'"
    using result_keepsD [OF keeps_place [OF env]] result_keepsD [OF keeps_init_runner [OF env]] keeps_exports
      result_keepsD [OF keeps_thread_tls [OF env]] result_keepsD [OF keeps_copy_message [OF env]] keeps_start [OF env]
    by (elim insertE emptyE) auto
qed

section \<open>Properties\<close>

text \<open>What a creation that claimed a slot can come to.\<close>

lemma create_cases:
  assumes env: "threads_environment S m" and call: "wahe_create_module_thread S m stack_size message w = Some (res, w')"
  obtains (refused) "w' = w" "\<exists>e. res = Inl e"
    | (full) e where "claim_slot S m w = (Inl e, w')" "res = Inl e"
    | (failed) slot w1 w2 e where "claim_slot S m w = (Inr slot, w1)" "keeps_registry m {} w1 w2"
        "wahe_delete_thread_runner S m slot w2 = Some w'" "res = Inl e"
    | (created) slot w1 w2 ro where "claim_slot S m w = (Inr slot, w1)" "keeps_registry m {} w1 w2"
        "the_runner m slot w2 = Some ro" "res = Inr (wr_thread_id ro)"
        "w' = set_runner m slot (\<lambda>ro. ro\<lparr>wr_creating := False\<rparr>) w2"
proof (cases "claim_slot S m w")
  case (Pair c w1)
  show thesis
  proof (cases c)
    case (Inl e)
    then show thesis using call Pair refused full by (auto simp: wahe_create_module_thread_def Let_def split: if_splits)
  next
    case (Inr slot)
    then show thesis using call Pair refused failed created unfolding wahe_create_module_thread_def Let_def
      by (auto simp del: thread_steps.simps split: if_splits bind_splits option.splits dest!: steps_keep [OF env, where J = "{}"])
  qed
qed

lemma claimed_kept:
  assumes m: "m < length (modules w)" "registry_ok (modules w ! m)" and claim: "claim_slot S m w = (Inr slot, w1)"
    and keep: "keeps_registry m {} w1 w2"
  shows "m < length (modules w2) \<and> registry_ok (modules w2 ! m) \<and>
    (\<exists>ro. thread_slot (modules w2 ! m) slot ro \<and> runner_tag ro = (next_thread_id (modules w ! m), True, False))"
    and "keeps_registry m {slot} w2 w' \<Longrightarrow> keeps_registry m {} w w'"
    and "next_id (modules w ! m) = next_thread_id (modules w ! m)"
proof -
  note k = claim_slot_keeps(1) [OF m claim] claim_slot_keeps(2) [OF m claim refl]
  note d1 = keepsD [OF k(1) m]
  have "runner_tag (new_thread_runner t) = (t, True, False)" "wr_creating (new_thread_runner t)" for t
    by (simp_all add: new_thread_runner_def runner_tag_def)
  then show "m < length (modules w2) \<and> registry_ok (modules w2 ! m) \<and>
    (\<exists>ro. thread_slot (modules w2 ! m) slot ro \<and> runner_tag ro = (next_thread_id (modules w ! m), True, False))"
    using keepsD [OF keep d1(1,2)] k(2) by (metis empty_iff)
  show "keeps_registry m {slot} w2 w' \<Longrightarrow> keeps_registry m {} w w'"
    by (rule keeps_drop [OF keeps_trans [OF k(1) keeps_trans [OF keeps_weaken [OF keep]]]]) (use k(2) in auto)
  show "next_id (modules w ! m) = next_thread_id (modules w ! m)" using k(2) by simp
qed

lemma next_id_fresh: "registry_ok x \<Longrightarrow> next_id x \<notin> live_ids x"
  unfolding registry_ok_def live_ids_def by fastforce

text \<open>
  C6. Creating a thread keeps the registry well formed, whatever other threads do meanwhile and
  wherever the creation fails; a new thread's identifier is none that was in use before, and it is in use
  afterwards.
\<close>

theorem create_thread_keeps_registry:
  assumes env: "threads_environment S m" and m: "m < length (modules w)" "registry_ok (modules w ! m)"
    and call: "wahe_create_module_thread S m stack_size message w = Some (res, w')"
  shows "keeps_registry m {} w w' \<and>
    (\<forall>ident. res = Inr ident \<longrightarrow> ident = next_id (modules w ! m) \<and> ident \<notin> live_ids (modules w ! m) \<and>
       ident \<in> live_ids (modules w' ! m))"
  using env call
proof (cases rule: create_cases)
  case full
  then show ?thesis using claim_slot_keeps(1) [OF m] by auto
next
  case (failed slot w1 w2 e)
  note c = claimed_kept [OF m failed(1,2)]
  then obtain ro where ro: "m < length (modules w2)" "registry_ok (modules w2 ! m)" "thread_slot (modules w2 ! m) slot ro"
      "wr_creating ro \<or> wr_joining ro" by (auto simp: runner_tag_def)
  show ?thesis using c(2) [OF delete_keeps(1) [OF env ro failed(3)]] failed(4) by simp
next
  case (created slot w1 w2 ro)
  note c = claimed_kept [OF m created(1,2)]
  from c(1) created(3) have ro: "m < length (modules w2)" "thread_slot (modules w2 ! m) slot ro"
      "wr_thread_id ro = next_thread_id (modules w ! m)"
    by (auto simp: the_runner_def thread_slot_def runner_tag_def)
  have "keeps_registry m {slot} w2 w'" unfolding created(5) by (rule keeps_set_any) simp
  moreover have "thread_slot (modules w' ! m) slot (ro\<lparr>wr_creating := False\<rparr>)"
    using ro(1,2) by (simp add: created(5) set_runner_def thread_slot_iff upd_runner_def)
  then have "wr_thread_id ro \<in> live_ids (modules w' ! m)" unfolding live_ids_def by fastforce
  ultimately show ?thesis using c(2,3) next_id_fresh [OF m(2)] created(4) ro(3) by simp
qed auto

lemma joinable_Some:
  assumes "joinable x ident = Some r"
  shows "\<exists>ro. thread_slot x r ro \<and> wr_thread_id ro = ident \<and> \<not> wr_creating ro \<and> \<not> wr_joining ro"
proof -
  have "r \<in> set (rev [initial_runner_count x..<runner_count x]) \<and>
      (case runner_object x r of None \<Rightarrow> False | Some ro \<Rightarrow> wr_thread_id ro = ident \<and> \<not> wr_creating ro \<and> \<not> wr_joining ro)"
    using assms unfolding joinable_def find_Some_iff by (metis nth_mem)
  then show ?thesis by (auto simp: thread_slot_def split: option.splits)
qed

lemma slot_joinable:
  assumes "registry_ok x" "thread_slot x r ro" "\<not> wr_creating ro" "\<not> wr_joining ro"
  shows "joinable x (wr_thread_id ro) \<noteq> None"
proof
  assume none: "joinable x (wr_thread_id ro) = None"
  have r: "initial_runner_count x \<le> r" "runner_object x r = Some ro" using assms(2) by (simp_all add: thread_slot_def)
  then have "r < runner_count x" by (simp add: runner_object_def split: if_splits)
  with r(1) have "r \<in> set (rev [initial_runner_count x..<runner_count x])" by simp
  moreover have "\<not> (case runner_object x r of None \<Rightarrow> False
      | Some ro' \<Rightarrow> wr_thread_id ro' = wr_thread_id ro \<and> \<not> wr_creating ro' \<and> \<not> wr_joining ro')"
    using none calculation unfolding joinable_def find_None_iff by blast
  ultimately show False using r(2) assms(3,4) by simp
qed

text \<open>What a join can come to, once the thread is marked as being joined.\<close>

lemma join_cases:
  assumes env: "threads_environment S m" and m: "m < length (modules w)" "registry_ok (modules w ! m)"
    and call: "wahe_join_module_thread S m ident w = Some (res, w')"
  obtains (refused) "w' = w" "\<exists>e. res = Inl e"
    | (failed) r w1 where "joinable (modules w ! m) ident = Some r" "keeps_registry m {r} w w1"
        "w' = set_runner m r (\<lambda>ro. ro\<lparr>wr_joining := False\<rparr>) w1" "\<exists>e. res = Inl e"
        "joinable (modules w' ! m) ident \<noteq> None"
    | (joined) r w2 ro where "joinable (modules w ! m) ident = Some r" "keeps_registry m {r} w w2"
        "m < length (modules w2)" "registry_ok (modules w2 ! m)" "thread_slot (modules w2 ! m) r ro"
        "wr_creating ro \<or> wr_joining ro" "wr_thread_id ro = ident" "wahe_delete_thread_runner S m r w2 = Some w'" "\<exists>reply. res = Inr reply"
proof (cases "joinable (modules w ! m) ident")
  case None
  then have "w' = w" "\<exists>e. res = Inl e" using call by (auto simp: wahe_join_module_thread_def)
  then show thesis by (rule refused)
next
  case (Some r)
  define w0 where "w0 = set_runner m r (\<lambda>ro. ro\<lparr>wr_joining := True\<rparr>) w"
  obtain r0 where r0: "thread_slot (modules w ! m) r r0" "wr_thread_id r0 = ident" "\<not> wr_creating r0" using joinable_Some [OF Some] by blast
  have k0: "keeps_registry m {r} w w0" unfolding w0_def by (rule keeps_set_any) simp
  have s0: "thread_slot (modules w0 ! m) r (r0\<lparr>wr_joining := True\<rparr>)"
    using r0(1) m(1) by (simp add: w0_def set_runner_def thread_slot_iff upd_runner_def)
  show thesis
  proof (cases "w' = w \<and> (\<exists>e. res = Inl e)")
    case False
    then obtain ok w1 ro where t: "thread_join S m r w0 = Some (ok, w1)" "the_runner m r w1 = Some ro"
        "if ok then wahe_delete_thread_runner S m r (set_runner m r (\<lambda>ro. ro\<lparr>wr_thread_reply := None\<rparr>) w1) = Some w' \<and> (\<exists>reply. res = Inr reply)
         else w' = set_runner m r (\<lambda>ro. ro\<lparr>wr_joining := False\<rparr>) w1 \<and> (\<exists>e. res = Inl e)"
      using call Some by (auto simp: wahe_join_module_thread_def w0_def split: if_splits bind_splits)
    have k1: "keeps_registry m {} w0 w1" by (rule environmentD(6) [OF env t(1)])
    define w2 where "w2 = set_runner m r (\<lambda>ro. ro\<lparr>wr_thread_reply := None\<rparr>) w1"
    have "keeps_registry m {} w1 w2" unfolding w2_def by simp
    with k1 have k2: "keeps_registry m {} w0 w2" by (rule keeps_trans)
    note d = keepsD [OF k2 keepsD(1,2) [OF k0 m]]
    obtain r2 where "thread_slot (modules w2 ! m) r r2" "runner_tag r2 = runner_tag (r0\<lparr>wr_joining := True\<rparr>)"
      using d(6) [OF _ s0] by auto
    then have r2: "thread_slot (modules w2 ! m) r r2" "wr_creating r2 \<or> wr_joining r2" "wr_thread_id r2 = ident"
      using r0(2) by (auto simp: runner_tag_def)
    show thesis
    proof (cases ok)
      case True
      with t(3) have "wahe_delete_thread_runner S m r w2 = Some w'" "\<exists>reply. res = Inr reply" by (simp_all add: w2_def)
      then show thesis by (rule joined [OF Some keeps_trans [OF k0 keeps_weaken [OF k2]] d(1,2) r2])
    next
      case False
      with t(3) have w': "w' = set_runner m r (\<lambda>ro. ro\<lparr>wr_joining := False\<rparr>) w1" "\<exists>e. res = Inl e" by simp_all
      note d1 = keepsD [OF k1 keepsD(1,2) [OF k0 m]]
      obtain r1 where r1: "thread_slot (modules w1 ! m) r r1" "runner_tag r1 = runner_tag (r0\<lparr>wr_joining := True\<rparr>)"
        using d1(6) [OF _ s0] by auto
      then have slot': "thread_slot (modules w' ! m) r (r1\<lparr>wr_joining := False\<rparr>)"
        using d1(1) by (simp add: w'(1) set_runner_def thread_slot_iff upd_runner_def)
      have "keeps_registry m {r} w1 w'" unfolding w'(1) by (rule keeps_set_any) simp
      from keepsD(2) [OF this d1(1,2)] have ok': "registry_ok (modules w' ! m)" .
      have tag: "wr_thread_id r1 = ident" "\<not> wr_creating r1" using r1(2) r0(2,3) by (simp_all add: runner_tag_def)
      have "joinable (modules w' ! m) ident \<noteq> None" using slot_joinable [OF ok' slot'] tag by simp
      with w' show thesis by (rule failed [OF Some keeps_trans [OF k0 keeps_weaken [OF k1]]])
    qed
  qed (use refused in blast)
qed

text \<open>
  C11. Let the runtime, the modules and the other threads keep the registry in the sense of \<^const>\<open>keeps_registry\<close>
  (\<^const>\<open>threads_environment\<close>). Then a join keeps it too, and a join that succeeds ends the thread for good: its identifier
  was in use, and it is never in use again, whatever threads are created later. A join that is refused or
  fails leaves a thread joinable that was.
\<close>

theorem join_thread_final:
  assumes env: "threads_environment S m" and m: "m < length (modules w)" "registry_ok (modules w ! m)"
    and call: "wahe_join_module_thread S m ident w = Some (res, w')"
  shows "keeps_registry m {} w w' \<and>
    (case res of
       Inl failure \<Rightarrow> joinable (modules w ! m) ident \<noteq> None \<longrightarrow> joinable (modules w' ! m) ident \<noteq> None
     | Inr reply \<Rightarrow> ident \<in> live_ids (modules w ! m) \<and>
         (\<forall>w''. keeps_registry m {} w' w'' \<longrightarrow> ident \<notin> live_ids (modules w'' ! m)))"
  using env m call
proof (cases rule: join_cases)
  case (failed r w1)
  have "keeps_registry m {r} w1 w'" unfolding failed(3) by (rule keeps_set_any) simp
  then have "keeps_registry m {} w w'"
    using joinable_Some [OF failed(1)] by (intro keeps_drop [OF keeps_trans [OF failed(2)]]) (auto simp: thread_slot_def)
  then show ?thesis using failed(4,5) by auto
next
  case (joined r w2 ro)
  obtain r0 where r0: "thread_slot (modules w ! m) r r0" "wr_thread_id r0 = ident" "\<not> wr_creating r0" "\<not> wr_joining r0"
    using joinable_Some [OF joined(1)] by blast
  note del = delete_keeps [OF env joined(3-6,8)]
  have kw: "keeps_registry m {} w w'"
    by (rule keeps_drop [OF keeps_trans [OF joined(2) del(1)]]) (use r0 in \<open>auto simp: thread_slot_def\<close>)
  have "ident \<notin> live_ids (modules w'' ! m)" if "keeps_registry m {} w' w''" for w''
  proof -
    note dw = keepsD [OF kw m]
    have "ident < next_id (modules w ! m)" using m(2) r0(1,2) unfolding registry_ok_def by blast
    then show ?thesis using keepsD(5) [OF that dw(1,2)] dw(4) del(2) joined(7) by auto
  qed
  moreover have "ident \<in> live_ids (modules w ! m)" using r0(1,2) unfolding live_ids_def by blast
  ultimately show ?thesis using kw joined(9) by auto
qed auto

text \<open>The stack of a thread.\<close>

lemma and_15: "a AND 15 = 0 \<longleftrightarrow> 16 dvd unat a" for a :: u64
proof -
  have "a AND 15 = take_bit 4 a" by (simp add: take_bit_eq_mask mask_eq_exp_minus_1)
  moreover have "unat (take_bit 4 a) = take_bit 4 (unat a)" by (rule unsigned_take_bit_eq)
  moreover have "take_bit 4 (unat a) = unat a mod 16" by (simp add: take_bit_eq_mod)
  ultimately show ?thesis by (metis unat_eq_0 dvd_eq_mod_eq_0)
qed

text \<open>
  The block a stack is placed in: the one the module's allocator answers the size with, if it is aligned; else that one is
  freed and the block is the answer to the size with padding.
\<close>

definition allocated_block :: "'g services \<Rightarrow> nat \<Rightarrow> nat \<Rightarrow> 'g world \<Rightarrow> u64 \<Rightarrow> nat \<Rightarrow> bool" where
  "allocated_block S m n w a sz \<longleftrightarrow>
     sz = n \<and> 16 dvd unat a \<and> (\<exists>w1. call_module_malloc (calls S) (Some m) (of_nat n) w = Some (a, w1)) \<or>
     sz = n + 15 \<and> (\<exists>a0 w1 w2 w3. call_module_malloc (calls S) (Some m) (of_nat n) w = Some (a0, w1) \<and> \<not> 16 dvd unat a0 \<and>
       call_module_free (calls S) (Some m) a0 w1 = Some w2 \<and> call_module_malloc (calls S) (Some m) (of_nat (n + 15)) w2 = Some (a, w3))"

lemma stack_block_allocated:
  assumes "thread_stack_block S m n w = Some (a, w1)" "a \<noteq> 0"
  shows "\<exists>sz w0. allocated_block S m n w a sz \<and> (sz = n \<or> sz = n + 15) \<and> call_module_malloc (calls S) (Some m) (of_nat sz) w0 = Some (a, w1)"
  using assms
  by (auto simp: thread_stack_block_def allocated_block_def and_15 split: if_splits bind_splits)
    (metis of_nat_add of_nat_numeral)+

text \<open>
  C26. When the stack of a new thread could be placed, its runner records the block the module's allocator returned, its
  size and the start of the stack in it: the start is 16-byte aligned, the stack lies inside that block (whose start it is unless
  padding was needed), inside the module's memory and inside its address space, and holds the blank pattern. The size is a
  multiple of 16, as \<open>wahe_create_module_thread\<close> rounds it, and the allocator's blocks do not run past the address space.
\<close>

theorem thread_stack_placed:
  assumes call: "place_thread_stack S m slot n w = Some (True, w')" and n: "16 dvd n" "0 < n" "n + 15 < 2 ^ 64"
    and m: "m < length (modules w')"
    and blocks: "\<forall>sz a w0 w1. sz \<le> n + 15 \<and> call_module_malloc (calls S) (Some m) (of_nat sz) w0 = Some (a, w1) \<longrightarrow> unat a + sz \<le> 2 ^ 64"
  shows "\<exists>ro sz. the_runner m slot w' = Some ro \<and> allocated_block S m n w (wr_stack_alloc ro) sz \<and> wr_stack_size ro = of_nat n \<and>
    16 dvd unat (wr_stack_start ro) \<and> (sz = n \<longrightarrow> wr_stack_start ro = wr_stack_alloc ro) \<and>
    unat (wr_stack_alloc ro) \<le> unat (wr_stack_start ro) \<and> unat (wr_stack_start ro) + n \<le> unat (wr_stack_alloc ro) + sz \<and>
    unat (wr_stack_start ro) + n \<le> wahe_get_module_memory_size (Some m) w' \<and>
    unat (wr_stack_start ro) + n \<le> unat (address_max (address_bits (modules w' ! m))) \<and>
    mem_load (host_mem w') (memory_ptr (modules w' ! m) + wr_stack_start ro) n = Some (replicate n WAHE_STACK_BLANK_PATTERN)"
proof -
  obtain a w1 where b: "thread_stack_block S m n w = Some (a, w1)" and a: "a \<noteq> 0"
    using call by (auto simp: place_thread_stack_def Let_def split: if_splits bind_splits)
  define start where "start = align_address a 16"
  define w3 where "w3 = set_runner m slot (\<lambda>ro. ro\<lparr>wr_stack_start := start\<rparr>)
     (set_runner m slot (\<lambda>ro. ro\<lparr>wr_stack_alloc := a, wr_stack_size := of_nat n\<rparr>) w1)"
  obtain h ro where h: "\<not> wahe_get_module_memory_size (Some m) w3 < unat start"
      "\<not> wahe_get_module_memory_size (Some m) w3 - unat start < n"
      "\<not> unat (address_max (address_bits (modules w3 ! m))) < unat start"
      "\<not> unat (address_max (address_bits (modules w3 ! m))) - unat start < n"
      "mem_store (host_mem w3) (memory_ptr (modules w3 ! m) + start) (replicate n WAHE_STACK_BLANK_PATTERN) = Some h"
      "w' = w3\<lparr>host_mem := h\<rparr>" and ro: "the_runner m slot w1 = Some ro"
    using call b a unfolding place_thread_stack_def Let_def start_def w3_def by (auto split: if_splits bind_splits)
  have "m < length (modules w1)" using m by (simp add: h(6) w3_def set_runner_def)
  then have runner: "the_runner m slot w' = Some (ro\<lparr>wr_stack_alloc := a, wr_stack_size := of_nat n, wr_stack_start := start\<rparr>)"
    using ro by (auto simp: h(6) w3_def the_runner_def set_runner_def upd_runner_def runner_object_def split: if_splits)
  have mem: "mem_load h (memory_ptr (modules w3 ! m) + start) n = Some (replicate n WAHE_STACK_BLANK_PATTERN)"
    using mem_store_load [OF h(5)] n(3) by simp
  have size': "wahe_get_module_memory_size (Some m) w' = wahe_get_module_memory_size (Some m) w3"
    by (simp add: h(6) wahe_get_module_memory_size_def)
  obtain sz w0 where sz: "allocated_block S m n w a sz" "sz = n \<or> sz = n + 15"
      "call_module_malloc (calls S) (Some m) (of_nat sz) w0 = Some (a, w1)"
    using stack_block_allocated [OF b a] by blast
  have room: "unat a + 2 ^ 4 \<le> 2 ^ 64" using blocks [rule_format, OF conjI [OF _ sz(3)]] sz(2) dvd_imp_le [OF n(1,2)] by auto
  have al: "2 ^ 4 dvd unat start \<and> unat a \<le> unat start \<and> unat start < unat a + 2 ^ 4"
    using align_address_bounds [OF _ room] by (simp add: start_def)
  have eq: "start = a" if d: "16 dvd unat a"
  proof -
    obtain i where i: "unat a = 16 * i" using d by (rule dvdE)
    moreover obtain j where "unat start = 16 * j" using al by auto
    ultimately have "unat start = unat a" using al by simp
    then show ?thesis by (simp add: word_unat_eq_iff)
  qed
  then have "(sz = n \<longrightarrow> start = a) \<and> unat start + n \<le> unat a + sz"
    using sz(1,2) al by (auto simp: allocated_block_def)
  then show ?thesis
    using sz(1) al h(1-4) size' mem runner by (intro exI [of _ "ro\<lparr>wr_stack_alloc := a, wr_stack_size := of_nat n, wr_stack_start := start\<rparr>"]
      exI [of _ sz]) (auto simp: h(6))
qed


section \<open>A thread of a sample module\<close>

definition thread_services :: "unit services" where
  "thread_services = sample_services\<lparr>
     calls := \<lparr>guest_call = (\<lambda>m r f a w. Some (Returned (if f = WAHE_FUNC_FREE then 0 else 0x5000), w)), timestamp = (\<lambda>w. 0),
       host_realloc_ok = (\<lambda>n. True)\<rparr>,
     linker_get := (\<lambda>m r s w. if s = ''__stack_pointer'' then Some (Extern_global True 0x8000)
        else if s = ''__tls_size'' then Some (Extern_global True 0) else Some Extern_func)\<rparr>"

lemma thread_services_environment: "threads_environment thread_services m"
  by (simp add: threads_environment_def thread_services_def sample_services_def)

text \<open>A first runner whose module takes no messages.\<close>

definition quiet_runner :: wahe_wasmtime_runner_t where
  "quiet_runner = sample_runner\<lparr>wr_func := (\<lambda>f. f \<noteq> WAHE_FUNC_INPUT)\<rparr>"

definition thread_module :: wahe_module_t where
  "thread_module = sample_wasm_module\<lparr>runner := [Some quiet_runner, Some (new_thread_runner 1\<lparr>wr_creating := False\<rparr>)],
     runner_count := 2, next_thread_id := 2\<rparr>"

definition thread_world :: "unit world" where
  "thread_world = sample_wasm_world\<lparr>host_mem := (\<lambda>_. Some 0), modules := [thread_module]\<rparr>"

lemma thread_slot_sample: "thread_slot thread_module i ro \<longleftrightarrow> i = 1 \<and> ro = new_thread_runner 1\<lparr>wr_creating := False\<rparr>"
  by (auto simp: thread_slot_iff thread_module_def sample_wasm_module_def less_Suc_eq)

lemma thread_world_ok: "0 < length (modules thread_world)" "registry_ok (modules thread_world ! 0)"
proof -
  have "registry_ok thread_module"
    unfolding registry_ok_def thread_slot_sample
    by (auto simp: thread_module_def sample_wasm_module_def next_id_def new_thread_runner_def)
  then show "0 < length (modules thread_world)" "registry_ok (modules thread_world ! 0)"
    by (simp_all add: thread_world_def)
qed

text \<open>Calls of the allocator by the host's own thread leave the sample as it is.\<close>

definition sample_state :: "'g world \<Rightarrow> bool" where
  "sample_state w \<longleftrightarrow> runner (modules w ! 0) ! 0 = Some quiet_runner \<and> mtype (modules w ! 0) = WAHE_MODULE_WASMTIME \<and>
     0 < runner_count (modules w ! 0) \<and> 0 < length (runner (modules w ! 0)) \<and> length (modules w) = 1 \<and>
     cur_chain w = None \<and> cur_wasmtime_runner w = None \<and> cur_native_module w = None \<and> \<not> execution_failed w \<and>
     valid (modules w ! 0) \<and> cita_time_addr (modules w ! 0) = 0 \<and> address_bits (modules w ! 0) = 32 \<and>
     shared_memory (modules w ! 0) \<and> runtime_size (modules w ! 0) = memory_size (modules w ! 0)"

lemma thread_sample_call:
  assumes s: "sample_state w" and f: "f = WAHE_FUNC_MALLOC \<or> f = WAHE_FUNC_FREE"
  shows "call_module_func_core_on_runner (calls thread_services) (Some 0) 0 [n] f w =
      Some (if f = WAHE_FUNC_FREE then 0 else 0x5000, w)"
proof -
  let ?x = "modules w ! 0"
  have ro: "runner_object ?x 0 = Some quiet_runner" using s by (simp add: sample_state_def runner_object_def)
  define w1 where "w1 = call_depth_change 0 0 Suc ((acquire (Runner_lock 0 0) w)\<lparr>cur_wasmtime_runner := Some (0, 0)\<rparr>)"
  define w3 where "w3 = release (Runner_lock 0 0) ((call_depth_change 0 0 (\<lambda>d. d - 1) w1)\<lparr>cur_wasmtime_runner := None\<rparr>)"
  have enter: "enter_wasmtime 0 0 f w = Some w1" using s by (simp add: sample_state_def enter_wasmtime_def set_current_func_def w1_def)
  have leave: "leave_wasmtime 0 0 w w1 = Some w3"
    using s by (simp add: sample_state_def leave_wasmtime_def set_current_func_def w3_def Let_def)
  have "upd_runner 0 (\<lambda>x. x\<lparr>wr_call_depth := wr_call_depth x - 1\<rparr>) (upd_runner 0 (\<lambda>x. x\<lparr>wr_call_depth := Suc (wr_call_depth x)\<rparr>) ?x) = ?x"
  proof -
    have "(runner ?x)[0 := Some quiet_runner] = runner ?x" using s by (metis list_update_id sample_state_def)
    then show ?thesis using s by (simp add: sample_state_def upd_runner_def quiet_runner_def sample_runner_def)
  qed
  then have mods: "modules w3 = modules w" using s
    by (simp add: sample_state_def w3_def w1_def call_depth_change_def list_update_id)
  have locks3: "locks w3 = locks w" by (auto simp: w3_def w1_def acquire_def release_def call_depth_change_def)
  have "cur_wasmtime_runner w = None" using s by (simp add: sample_state_def)
  with mods locks3 have w3: "w3 = w"
    by (cases w) (simp add: w3_def w1_def call_depth_change_def upd_module_def acquire_def release_def)
  have size': "wahe_refresh_module_memory_size (Some 0) w = w"
  proof -
    have "?x\<lparr>memory_size := runtime_size ?x\<rparr> = ?x" using s by (simp add: sample_state_def)
    then have "(modules w)[0 := ?x\<lparr>memory_size := runtime_size ?x\<rparr>] = modules w" by (metis list_update_id)
    then show ?thesis using s by (cases w) (simp add: sample_state_def wahe_refresh_module_memory_size_def upd_module_def)
  qed
  have "guest_call (calls thread_services) 0 0 f a w1 = Some (Returned (if f = WAHE_FUNC_FREE then 0 else 0x5000), w1)" for a
    by (simp add: thread_services_def)
  moreover have "execution_failed w1 = execution_failed w" by (simp add: w1_def call_depth_change_def)
  ultimately have "call_wasmtime (calls thread_services) 0 0 [n] f w = Some (if f = WAHE_FUNC_FREE then 0 else 0x5000, w)"
    using s ro enter leave size' f unfolding w3 sample_state_def
    by (cases "f = WAHE_FUNC_FREE") (simp_all add: Let_def call_wasmtime_def wahe_get_wasmtime_runner_def quiet_runner_def sample_runner_def wahe_wait_after_execution_failure_def
        wasmtime_result_def wasmtime_val_get_address_def)
  then show ?thesis
    using s f unfolding sample_state_def
    by (auto simp: call_module_func_core_on_runner_def wahe_require_valid_module_def publish_timestamp_def
        wahe_wait_after_execution_failure_def)
qed

lemma thread_sample_malloc:
  "sample_state w \<Longrightarrow> call_module_malloc (calls thread_services) (Some 0) n w = Some (0x5000, w)"
  "sample_state w \<Longrightarrow> call_module_free (calls thread_services) (Some 0) n w = Some w"
  using thread_sample_call [of w]
  by (simp_all add: call_module_malloc_def call_module_malloc_on_runner_def call_module_free_def call_module_free_on_runner_def
      wahe_active_runner_id_def wahe_active_native_runner_id_def sample_state_def)

lemma sample_state_keeps [simp]:
  "sample_state (w\<lparr>host_mem := h\<rparr>) = sample_state w"
  "sample_state w \<Longrightarrow> sample_state (set_runner 0 (Suc k) f w)"
  by (auto simp: sample_state_def set_runner_def upd_runner_def)


lemma all_mapped: "mapped_range (\<lambda>_. Some b) p n"
  by (simp add: mapped_range_def list_all_iff)

definition claimed_world :: "unit world" where
  "claimed_world = upd_module 0 (occupy 2) (upd_module 0 (grow_registry 2) thread_world)"

lemma claimed: "claim_slot thread_services 0 thread_world = (Inr 2, claimed_world)"
proof -
  have "free_slot (modules thread_world ! 0) = 2"
    by (simp add: free_slot_def thread_world_def thread_module_def sample_wasm_module_def upt_rec find.simps)
  then show ?thesis
    by (simp add: claim_slot_def claimed_world_def grow_registry_def [abs_def] occupy_def [abs_def] Let_def thread_world_def
        thread_module_def sample_wasm_module_def thread_services_def sample_services_def sample_wasm_world_def)
qed

lemma claimed_state: "sample_state claimed_world" "runner_object (modules claimed_world ! 0) 2 = Some (new_thread_runner 2)"
  "memory_ptr (modules claimed_world ! 0) = 0x100000" "runtime_size (modules claimed_world ! 0) = 262144"
  "host_mem claimed_world = (\<lambda>_. Some 0)"
  by (simp_all add: sample_state_def claimed_world_def grow_registry_def occupy_def thread_world_def thread_module_def
      sample_wasm_module_def sample_wasm_world_def runner_object_def)


definition ready :: "unit world \<Rightarrow> bool" where
  "ready w \<longleftrightarrow> sample_state w \<and> (\<exists>ro. runner_object (modules w ! 0) 2 = Some ro \<and> wr_thread_id ro = 2) \<and>
     memory_ptr (modules w ! 0) = 0x100000 \<and> runtime_size (modules w ! 0) = 262144 \<and>
     (\<forall>q. host_mem w q \<noteq> None) \<and> host_mem w 0x200000 = Some 0"

lemma ready_runner: "ready w \<Longrightarrow> (\<And>ro. wr_thread_id (f ro) = wr_thread_id ro) \<Longrightarrow> ready (set_runner 0 2 f w)"
  by (auto simp: ready_def set_runner_def upd_runner_def sample_state_def runner_object_def split: if_splits)

lemma ready_mem: "ready w \<Longrightarrow> mem_store (host_mem w) p bs = Some h \<Longrightarrow> \<not> in_block p (length bs) 0x200000 \<Longrightarrow> ready (w\<lparr>host_mem := h\<rparr>)"
  using mem_store_effect [of "host_mem w" p bs h] by (auto simp: ready_def)

lemma ready_the: "ready w \<Longrightarrow> \<exists>ro. the_runner 0 2 w = Some ro \<and> wr_thread_id ro = 2"
  by (simp add: ready_def the_runner_def)

lemma ready_malloc: "ready w \<Longrightarrow> call_module_malloc (calls thread_services) (Some 0) n w = Some (0x5000, w)"
  by (simp add: ready_def thread_sample_malloc)

lemma step_place: "ready w \<Longrightarrow> \<exists>w'. place_thread_stack thread_services 0 2 16 w = Some (True, w') \<and> ready w'"
proof -
  assume r: "ready w"
  have b: "thread_stack_block thread_services 0 16 w = Some (0x5000, w)"
    by (simp add: thread_stack_block_def ready_malloc [OF r])
  define w3 where "w3 = set_runner 0 2 (\<lambda>ro. ro\<lparr>wr_stack_start := 0x5000\<rparr>)
     (set_runner 0 2 (\<lambda>ro. ro\<lparr>wr_stack_alloc := 0x5000, wr_stack_size := 16\<rparr>) w)"
  have r3: "ready w3" unfolding w3_def by (intro ready_runner r) simp_all
  then have m: "wahe_get_module_memory_size (Some 0) w3 = 262144" "address_bits (modules w3 ! 0) = 32" "memory_ptr (modules w3 ! 0) = 0x100000"
    by (simp_all add: ready_def sample_state_def wahe_get_module_memory_size_def)
  obtain h where h: "mem_store (host_mem w3) 0x105000 (replicate 16 WAHE_STACK_BLANK_PATTERN) = Some h"
    using mem_store_possible [where p = "0x105000" and bs = "replicate 16 WAHE_STACK_BLANK_PATTERN" and m = "host_mem w3"] r3 by (auto simp: ready_def)
  have "place_thread_stack thread_services 0 2 16 w = Some (True, w3\<lparr>host_mem := h\<rparr>)"
    using ready_the [OF r] h m unfolding place_thread_stack_def b Let_def
    by (auto simp: align_address_def address_max_def w3_def)
  moreover have "ready (w3\<lparr>host_mem := h\<rparr>)" by (rule ready_mem [OF r3 h]) (simp add: in_block_def)
  ultimately show ?thesis by blast
qed

lemma step_init: "ready w \<Longrightarrow> \<exists>w'. wahe_init_wasmtime_runner thread_services 0 2 w = Some (True, w') \<and> ready w'"
proof -
  assume r: "ready w"
  have steps: "run_runtime_steps thread_services 0 2 sts w = Some (True, w)" for sts
    by (induction sts) (simp_all add: thread_services_def sample_services_def)
  obtain ro where ro: "runner_object (modules w ! 0) 2 = Some ro" "wr_thread_id ro = 2" using r by (auto simp: ready_def)
  define w1 where "w1 = upd_module 0 (upd_runner 2 (\<lambda>ro. ro\<lparr>wr_stack_pointer := Some 0x8000\<rparr>)) w"
  have "ready w1" unfolding w1_def set_runner_def [symmetric] by (rule ready_runner [OF r]) simp
  moreover have "wahe_set_wasmtime_runner_stack thread_services 0 2 w = Some (True, w1)"
    using ro by (simp add: wahe_set_wasmtime_runner_stack_def thread_services_def sample_services_def w1_def Let_def)
  ultimately show ?thesis by (simp add: wahe_init_wasmtime_runner_def steps)
qed

lemma ready_exports: "ready w \<Longrightarrow> ready (find_thread_exports thread_services 0 2 is w)"
proof (induction "is" arbitrary: w)
  case (Cons i "is")
  have "ready (if b then set_runner 0 2 (\<lambda>ro. ro\<lparr>wr_func := (wr_func ro)(fn := True)\<rparr>) w else w)" for b fn
    using ready_runner [OF Cons.prems] Cons.prems by simp
  then show ?case unfolding find_thread_exports.simps Let_def using Cons.IH by blast
qed simp

lemma step_exports: "ready w \<Longrightarrow> \<exists>w'. wahe_init_thread_exports thread_services 0 2 w = Some (True, w') \<and> ready w'"
proof -
  assume r: "ready w"
  define w1 where "w1 = find_thread_exports thread_services 0 2 [1..<9] w"
  have r1: "ready w1" unfolding w1_def by (rule ready_exports [OF r])
  have app: "find_thread_exports S m r (xs @ ys) v = find_thread_exports S m r ys (find_thread_exports S m r xs v)"
    for S :: "unit services" and m r xs ys v by (induction xs arbitrary: v) auto
  define w2 where "w2 = set_runner 0 2 (\<lambda>ro. ro\<lparr>wr_func := (wr_func ro)(WAHE_FUNC_THREAD_ENTRY := True)\<rparr>) w1"
  have name: "export_name WAHE_FUNC_THREAD_ENTRY 9 = ''module_thread_entry''" by (simp add: export_name_def wahe_func_name_def)
  have "find_thread_exports thread_services 0 2 [1..<10] w = w2"
  proof -
    have "[1..<10] = [1..<9] @ [9 :: nat]" by (simp add: upt_rec)
    then have "find_thread_exports thread_services 0 2 [1..<10] w = find_thread_exports thread_services 0 2 [9] w1"
      unfolding w1_def by (simp only: app)
    moreover have "func_ids ! 9 = WAHE_FUNC_THREAD_ENTRY" by (simp add: func_ids_def)
    ultimately show ?thesis using name by (simp add: w2_def thread_services_def)
  qed
  moreover have "ready w2" unfolding w2_def by (rule ready_runner [OF r1]) simp
  moreover have "\<exists>ro. the_runner 0 2 w2 = Some ro \<and> wr_func ro WAHE_FUNC_THREAD_ENTRY"
    using r1 by (auto simp: w2_def the_runner_def ready_def set_runner_def upd_runner_def runner_object_def sample_state_def split: if_splits)
  moreover have "address_bits (modules w ! 0) = 32" using r by (simp add: ready_def sample_state_def)
  ultimately show ?thesis
    by (auto simp: wahe_init_thread_exports_def Let_def thread_services_def sample_services_def)
qed

lemma step_rest:
  assumes r: "ready w"
  shows "wahe_init_thread_tls thread_services 0 2 w = Some (True, w)"
    and "\<exists>w'. copy_entry_message thread_services 0 2 0x200000 w = Some (True, w') \<and> ready w'"
    and "\<exists>w'. start_thread thread_services 0 2 w = Some (True, w') \<and> ready w'"
proof -
  show "wahe_init_thread_tls thread_services 0 2 w = Some (True, w)"
    by (simp add: wahe_init_thread_tls_def thread_services_def global_address_def)
  have t: "c_text (host_mem w) 0x200000 = Some []" by (subst c_text.simps) (use r in \<open>simp add: ready_def\<close>)
  define w2 where "w2 = set_runner 0 2 (\<lambda>ro. ro\<lparr>wr_input_addr := 0x5000\<rparr>) w"
  have r2: "ready w2" unfolding w2_def by (rule ready_runner [OF r]) simp
  obtain h where h: "mem_store (host_mem w2) 0x105000 [0] = Some h"
    using mem_store_possible [where p = "0x105000" and bs = "[0]" and m = "host_mem w2"] r2 by (auto simp: ready_def)
  have "memcpy (host_mem w2) 0x105000 0x200000 (Suc 0) = Some h"
    using h r2 by (simp add: memcpy_def ready_def mem_load_def mapped_range_def)
  moreover have "memory_ptr (modules w2 ! 0) = 0x100000" using r2 by (simp add: ready_def)
  ultimately have "copy_entry_message thread_services 0 2 0x200000 w = Some (True, w2\<lparr>host_mem := h\<rparr>)"
    using ready_the [OF r] by (auto simp: copy_entry_message_def t ready_malloc [OF r] w2_def Let_def)
  moreover have "ready (w2\<lparr>host_mem := h\<rparr>)" by (rule ready_mem [OF r2 h]) (simp add: in_block_def)
  ultimately show "\<exists>w'. copy_entry_message thread_services 0 2 0x200000 w = Some (True, w') \<and> ready w'" by blast
  have "ready (set_runner 0 2 (\<lambda>ro. ro\<lparr>wr_thread_handle := True\<rparr>) w)" by (rule ready_runner [OF r]) simp
  then show "\<exists>w'. start_thread thread_services 0 2 w = Some (True, w') \<and> ready w'"
    by (simp add: start_thread_def thread_services_def sample_services_def)
qed

lemma created: "\<exists>w'. wahe_create_module_thread thread_services 0 10 0x200000 thread_world = Some (Inr 2, w')"
proof -
  have "ready claimed_world"
    using claimed_state by (simp add: ready_def new_thread_runner_def)
  then obtain w1 where 1: "place_thread_stack thread_services 0 2 16 claimed_world = Some (True, w1)" "ready w1" using step_place by blast
  obtain w2 where 2: "wahe_init_wasmtime_runner thread_services 0 2 w1 = Some (True, w2)" "ready w2" using step_init [OF 1(2)] by blast
  obtain w3 where 3: "wahe_init_thread_exports thread_services 0 2 w2 = Some (True, w3)" "ready w3" using step_exports [OF 2(2)] by blast
  note 4 = step_rest(1) [OF 3(2)]
  obtain w5 where 5: "copy_entry_message thread_services 0 2 0x200000 w3 = Some (True, w5)" "ready w5" using step_rest(2) [OF 3(2)] by blast
  obtain w6 where 6: "start_thread thread_services 0 2 w5 = Some (True, w6)" "ready w6" using step_rest(3) [OF 5(2)] by blast
  obtain ro where ro: "the_runner 0 2 w6 = Some ro" "wr_thread_id ro = 2" using ready_the [OF 6(2)] by blast
  have x: "valid (modules thread_world ! 0)" "mtype (modules thread_world ! 0) = WAHE_MODULE_WASMTIME"
      "thread_memory_safe (modules thread_world ! 0)" "address_bits (modules thread_world ! 0) = 32"
    by (simp_all add: thread_world_def thread_module_def sample_wasm_module_def)
  have "10 + 15 = (25 :: nat)" by simp
  then have "wahe_create_module_thread thread_services 0 10 0x200000 thread_world =
      Some (Inr 2, set_runner 0 2 (\<lambda>ro. ro\<lparr>wr_creating := False\<rparr>) w6)"
    using 1(1) 2(1) 3(1) 4 5(1) 6(1) ro x
    by (simp add: wahe_create_module_thread_def claimed address_max_def)
  then show ?thesis by blast
qed

theorem create_thread_keeps_registry_witness:
  "\<exists>w'. wahe_create_module_thread thread_services 0 10 0x200000 thread_world = Some (Inr 2, w') \<and>
     2 \<notin> live_ids (modules thread_world ! 0) \<and> 2 \<in> live_ids (modules w' ! 0)"
proof -
  obtain w' where w': "wahe_create_module_thread thread_services 0 10 0x200000 thread_world = Some (Inr 2, w')"
    using created by blast
  from create_thread_keeps_registry [OF thread_services_environment thread_world_ok w'] w' show ?thesis by blast
qed

lemma malloc_values: "call_module_malloc (calls thread_services) ctx n w = Some (a, w') \<Longrightarrow> a = 0 \<or> a = 0x5000"
  by (auto simp: call_module_malloc_def call_module_malloc_on_runner_def call_module_func_core_on_runner_def call_native_def
      call_wasmtime_def native_result_def wasmtime_result_def wasmtime_val_get_address_def thread_services_def Let_def
      split: option.splits if_splits bind_splits)

theorem thread_stack_placed_witness:
  "\<exists>w'. place_thread_stack thread_services 0 2 16 claimed_world = Some (True, w') \<and>
     (\<exists>ro. the_runner 0 2 w' = Some ro \<and> 16 dvd unat (wr_stack_start ro) \<and>
       mem_load (host_mem w') (memory_ptr (modules w' ! 0) + wr_stack_start ro) 16 = Some (replicate 16 1))"
proof -
  have "ready claimed_world"
    using claimed_state by (simp add: ready_def new_thread_runner_def)
  then obtain w' where w': "place_thread_stack thread_services 0 2 16 claimed_world = Some (True, w')" "ready w'" using step_place by blast
  have "\<forall>sz a w0 w1. sz \<le> 16 + 15 \<and> call_module_malloc (calls thread_services) (Some 0) (of_nat sz) w0 = Some (a, w1) \<longrightarrow> unat a + sz \<le> 2 ^ 64"
    using malloc_values by fastforce
  moreover have "0 < length (modules w')" using w'(2) by (simp add: ready_def sample_state_def)
  ultimately show ?thesis using thread_stack_placed [OF w'(1), of] w'(1) by (auto simp: WAHE_STACK_BLANK_PATTERN_def)
qed

lemma joined: "\<exists>w'. wahe_join_module_thread thread_services 0 1 thread_world = Some (Inr None, w')"
proof -
  have j: "joinable (modules thread_world ! 0) 1 = Some 1"
    by (simp add: joinable_def thread_world_def thread_module_def sample_wasm_module_def upt_rec runner_object_def new_thread_runner_def)
  define w1 where "w1 = set_runner 0 1 (\<lambda>ro. ro\<lparr>wr_joining := True\<rparr>) thread_world"
  have tj: "thread_join thread_services 0 1 w1 = Some (True, w1)" by (simp add: thread_services_def sample_services_def)
  have st: "sample_state thread_world"
    by (simp add: sample_state_def thread_world_def thread_module_def sample_wasm_module_def sample_wasm_world_def)
  have ro: "\<exists>ro. the_runner 0 1 w1 = Some ro \<and> wr_thread_reply ro = None"
    by (simp add: w1_def the_runner_def set_runner_def upd_runner_def runner_object_def thread_world_def thread_module_def
        sample_wasm_module_def sample_wasm_world_def new_thread_runner_def)
  define w2 where "w2 = set_runner 0 1 (\<lambda>ro. ro\<lparr>wr_thread_reply := None\<rparr>) w1"
  have s2: "sample_state w2" unfolding w2_def w1_def One_nat_def by (intro sample_state_keeps(2) st)
  have ro2: "\<exists>ro. the_runner 0 1 w2 = Some ro"
    by (simp add: w2_def w1_def the_runner_def set_runner_def upd_runner_def runner_object_def thread_world_def thread_module_def
        sample_wasm_module_def sample_wasm_world_def new_thread_runner_def)
  have "\<exists>w'. wahe_delete_thread_runner thread_services 0 1 w2 = Some w'"
    using ro2 by (auto simp: wahe_delete_thread_runner_def thread_sample_malloc(2) [OF s2])
  moreover have "cur_wasmtime_runner thread_world = None" by (simp add: thread_world_def sample_wasm_world_def)
  ultimately show ?thesis using j tj ro by (auto simp: wahe_join_module_thread_def w1_def w2_def)
qed

theorem join_thread_final_witness:
  "\<exists>w'. wahe_join_module_thread thread_services 0 1 thread_world = Some (Inr None, w') \<and> 1 \<notin> live_ids (modules w' ! 0)"
proof -
  obtain w' where w': "wahe_join_module_thread thread_services 0 1 thread_world = Some (Inr None, w')"
    using joined by blast
  have "1 \<notin> live_ids (modules w' ! 0)"
    using join_thread_final [OF thread_services_environment thread_world_ok w'] keeps_refl [of 0 "{}" w'] by auto
  with w' show ?thesis by blast
qed

end
