(* ===== verification/Translated_Threads.thy ===== *)
theory Translated_Threads
  imports Thread_Registry
begin

text \<open>
  Threads of a translated module, from \<open>wahe_threads.c\<close>, which run in a fixed array of runners, and the
  shutdown that joins all threads of a module of either kind. The loop of the shutdown has no result when it
  does not end.
\<close>

section \<open>Threads of a translated module\<close>

definition the_translated :: "nat \<Rightarrow> nat \<Rightarrow> 'g world \<Rightarrow> wahe_wasm_decomp_runner_t option" where
  "the_translated m r w =
     (if r < length (wasm_decomp_runner (modules w ! m)) then Some (wasm_decomp_runner (modules w ! m) ! r) else None)"

definition set_translated :: "nat \<Rightarrow> nat \<Rightarrow> (wahe_wasm_decomp_runner_t \<Rightarrow> wahe_wasm_decomp_runner_t) \<Rightarrow> 'g world \<Rightarrow> 'g world" where
  "set_translated m r f w = upd_module m (\<lambda>x. x\<lparr>wasm_decomp_runner :=
     (wasm_decomp_runner x)[r := f (wasm_decomp_runner x ! r)]\<rparr>) w"

text \<open>Releasing one of a runner's allocations, when there is one.\<close>

definition free_field :: "'g services \<Rightarrow> nat \<Rightarrow> nat \<Rightarrow> (wahe_wasm_decomp_runner_t \<Rightarrow> u64) \<Rightarrow> 'g world \<Rightarrow> 'g world option" where
  "free_field S m r field w =
     do {
       ro \<leftarrow> the_translated m r w;
       (if field ro = 0 then Some w else call_module_free (calls S) (Some m) (field ro) w)
     }"

definition wahe_delete_translated_thread :: "'g services \<Rightarrow> nat \<Rightarrow> nat \<Rightarrow> 'g world \<Rightarrow> 'g world option" where
  "wahe_delete_translated_thread S m r w =
     do {
       w1 \<leftarrow> free_field S m r dr_input_addr w;
       w2 \<leftarrow> free_field S m r dr_tls_alloc w1;
       w3 \<leftarrow> free_field S m r dr_stack_alloc w2;
       ro \<leftarrow> the_translated m r w3;
       Some (set_translated m r (\<lambda>ro. ro\<lparr>dr_instance := False, dr_thread_id := 0, dr_stack_alloc := 0, dr_tls_alloc := 0,
           dr_input_addr := 0, dr_thread_handle := False, dr_thread_reply := None, dr_creating := False,
           dr_joining := False, dr_in_use := False\<rparr>)
         (if dr_instance ro then instance_destroy S m r w3 else w3))
     }"

definition wahe_translated_thread_main :: "'g services \<Rightarrow> nat \<Rightarrow> nat \<Rightarrow> 'g world \<Rightarrow> 'g world option" where
  "wahe_translated_thread_main S m r w =
     do {
       ro \<leftarrow> the_translated m r w;
       (reply, w1) \<leftarrow> call_module_func_on_runner (calls S) m r (dr_input_addr ro) WAHE_FUNC_THREAD_ENTRY False
                         (w\<lparr>cur_chain := None\<rparr>);
       (if reply = 0 then Some w1
        else do {
          s \<leftarrow> c_text (host_mem w1) reply;
          the_translated m r w1;
          Some (set_translated m r (\<lambda>ro. ro\<lparr>dr_thread_reply := Some s\<rparr>) w1)
        })
     }"

text \<open>The symbols a threaded module must have: the runner ABI, shared memory and the stack pointer's index.\<close>

definition translated_threads_possible :: "'g services \<Rightarrow> nat \<Rightarrow> 'g world \<Rightarrow> bool option" where
  "translated_threads_possible S m w =
     (let x = modules w ! m; shared_ptr = dynlib_find_symbol S m ''wasm_decomp_memory_is_shared'' w in
      if \<not> valid x \<or> wasm_decomp_runner x = [] \<or> dynlib_find_symbol S m ''wasm_decomp_instance_create_runner'' w = 0 \<or>
         shared_ptr = 0 then Some False
      else do {
        shared \<leftarrow> host_mem w shared_ptr;
        Some (shared \<noteq> 0 \<and> dynlib_find_symbol S m ''wasm_decomp_stack_pointer_global_index'' w \<noteq> 0 \<and>
              dl_func x WAHE_FUNC_THREAD_ENTRY)
      })"

definition free_translated_slot :: "wahe_module_t \<Rightarrow> nat" where
  "free_translated_slot x =
     (case List.find (\<lambda>i. \<not> dr_in_use (wasm_decomp_runner x ! i)) [decomp_initial_runner_count x..<decomp_runner_capacity x] of
        Some i \<Rightarrow> i
      | None \<Rightarrow> max (decomp_initial_runner_count x) (decomp_runner_capacity x))"

definition claim_translated_slot :: "nat \<Rightarrow> 'g world \<Rightarrow> (string + nat) \<times> 'g world" where
  "claim_translated_slot m w =
     (let x = modules w ! m; slot = free_translated_slot x in
      if decomp_threads_stopping x then (Inl ''module is shutting down'', w)
      else if slot = decomp_runner_capacity x \<or> decomp_next_thread_id x = 0
      then (Inl ''too many threads, see WAHE_TRANSLATED_MAX_THREADS'', w)
      else (Inr slot, upd_module m (\<lambda>x. x\<lparr>
             wasm_decomp_runner := (wasm_decomp_runner x)[slot := (wasm_decomp_runner x ! slot)
               \<lparr>dr_mutex_initialized := True, dr_in_use := True, dr_creating := True, dr_thread_id := decomp_next_thread_id x\<rparr>],
             decomp_next_thread_id := (decomp_next_thread_id x + 1) mod 2 ^ 64,
             runner_count := if runner_count x \<le> slot then slot + 1 else runner_count x\<rparr>) w))"

definition place_translated_stack :: "'g services \<Rightarrow> nat \<Rightarrow> nat \<Rightarrow> nat \<Rightarrow> u64 \<Rightarrow> 'g world \<Rightarrow> (bool \<times> 'g world) option" where
  "place_translated_stack S m slot stack_size stack_pointer w =
     do {
       (a, w1) \<leftarrow> call_module_malloc (calls S) (Some m) (of_nat (stack_size + 15)) w;
       the_translated m slot w1;
       (let w2 = set_translated m slot (\<lambda>ro. ro\<lparr>dr_stack_alloc := a\<rparr>) w1;
            x = modules w2 ! m;
            start = align_address a 16;
            mem_size = wahe_get_module_memory_size (Some m) w2
        in if a = 0 \<or> mem_size < unat start \<or> mem_size - unat start < stack_size \<or>
              unat (address_max (memory_bits x)) < unat (start + of_nat stack_size)
           then Some (False, w2)
           else do {
             h \<leftarrow> mem_store (host_mem w2) (memory_ptr x + start) (replicate stack_size WAHE_STACK_BLANK_PATTERN);
             w3 \<leftarrow> store_address (memory_bits x) stack_pointer (start + of_nat stack_size) (w2\<lparr>host_mem := h\<rparr>);
             Some (True, w3)
           })
     }"

text \<open>The initialisation, with the message that the first failing step leaves.\<close>

definition init_translated_thread ::
    "'g services \<Rightarrow> nat \<Rightarrow> nat \<Rightarrow> nat \<Rightarrow> u64 \<Rightarrow> 'g world \<Rightarrow> (string option \<times> 'g world) option" where
  "init_translated_thread S m slot stack_size message w =
     do {
       (created, w1) \<leftarrow> instance_create_runner S m slot w;
       the_translated m slot w1;
       (let w2 = set_translated m slot (\<lambda>ro. ro\<lparr>dr_instance := created\<rparr>) w1 in
        do {
          stack_pointer \<leftarrow>
            (if \<not> created then Some 0
             else do {
               ix \<leftarrow> load_u64 (host_mem w2) (dynlib_find_symbol S m ''wasm_decomp_stack_pointer_global_index'' w2);
               Some (instance_global_address S m slot ix w2)
             });
          (if stack_pointer = 0 then Some (Some ''translated runner creation failed'', w2)
           else do {
             (placed, w3) \<leftarrow> place_translated_stack S m slot stack_size stack_pointer w2;
             (if \<not> placed then Some (Some ''module stack allocation failed'', w3)
              else do {
                ((ready, tls_alloc), w4) \<leftarrow> wahe_init_translated_tls S m slot True w3;
                the_translated m slot w4;
                (let w5 = set_translated m slot (\<lambda>ro. ro\<lparr>dr_tls_alloc := tls_alloc\<rparr>) w4 in
                 if \<not> ready then Some (Some ''TLS initialization failed; export __tls_size, __tls_align and __wasm_init_tls'', w5)
                 else do {
                   s \<leftarrow> c_text (host_mem w5) message;
                   (a, w6) \<leftarrow> call_module_malloc (calls S) (Some m) (of_nat (length s + 1)) w5;
                   the_translated m slot w6;
                   (let w7 = set_translated m slot (\<lambda>ro. ro\<lparr>dr_input_addr := a\<rparr>) w6 in
                    if a = 0 then Some (Some ''entry message allocation failed'', w7)
                    else do {
                      h \<leftarrow> memcpy (host_mem w7) (memory_ptr (modules w7 ! m) + a) message (length s + 1);
                      (if \<not> host_alloc_ok S 1 then Some (Some ''OS thread creation failed'', w7\<lparr>host_mem := h\<rparr>)
                       else (case thread_create S m slot (w7\<lparr>host_mem := h\<rparr>) of
                               (started, w8) \<Rightarrow>
                                 Some (if started then (None, set_translated m slot (\<lambda>ro. ro\<lparr>dr_thread_handle := True\<rparr>) w8)
                                       else (Some ''OS thread creation failed'', w8))))
                    })
                 })
              })
           })
        })
     }"

definition wahe_create_translated_thread ::
    "'g services \<Rightarrow> nat \<Rightarrow> nat \<Rightarrow> u64 \<Rightarrow> 'g world \<Rightarrow> ((string + nat) \<times> 'g world) option" where
  "wahe_create_translated_thread S m stack_size message w =
     do {
       possible \<leftarrow> translated_threads_possible S m w;
       (if \<not> possible
        then Some (Inl ''requires a translated module with shared memory, an exported stack pointer and module_thread_entry'', w)
        else if stack_size = 0 \<or> unat (address_max (memory_bits (modules w ! m))) - 30 < stack_size
        then Some (Inl ''stack size must be positive and representable'', w)
        else (case claim_translated_slot m w of
                (Inl failure, w1) \<Rightarrow> Some (Inl failure, w1)
              | (Inr slot, w1) \<Rightarrow>
                  do {
                    (failed, w2) \<leftarrow> init_translated_thread S m slot ((stack_size + 15) div 16 * 16) message w1;
                    ro \<leftarrow> the_translated m slot w2;
                    (case failed of
                       Some failure \<Rightarrow> do { w3 \<leftarrow> wahe_delete_translated_thread S m slot w2; Some (Inl failure, w3) }
                     | None \<Rightarrow> Some (Inr (dr_thread_id ro), set_translated m slot (\<lambda>ro. ro\<lparr>dr_creating := False\<rparr>) w2))
                  }))
     }"

definition joinable_translated :: "wahe_module_t \<Rightarrow> nat \<Rightarrow> nat option" where
  "joinable_translated x ident =
     (if wasm_decomp_runner x = [] then None
      else List.find (\<lambda>i. let ro = wasm_decomp_runner x ! i in
               dr_in_use ro \<and> dr_thread_id ro = ident \<and> \<not> dr_creating ro \<and> \<not> dr_joining ro)
             (rev [decomp_initial_runner_count x..<decomp_runner_capacity x]))"

definition wahe_join_translated_thread ::
    "'g services \<Rightarrow> nat \<Rightarrow> nat \<Rightarrow> 'g world \<Rightarrow> ((string + string option) \<times> 'g world) option" where
  "wahe_join_translated_thread S m ident w =
     (case joinable_translated (modules w ! m) ident of
        None \<Rightarrow> Some (Inl ''unknown thread ID or thread already being joined'', w)
      | Some r \<Rightarrow>
          if cur_native_module w = Some m \<and> cur_native_runner_id w = r then Some (Inl ''a thread cannot join itself'', w)
          else do {
            (joined, w1) \<leftarrow> thread_join S m r (set_translated m r (\<lambda>ro. ro\<lparr>dr_joining := True\<rparr>) w);
            ro \<leftarrow> the_translated m r w1;
            (if \<not> joined then Some (Inl ''OS thread join failed'', set_translated m r (\<lambda>ro. ro\<lparr>dr_joining := False\<rparr>) w1)
             else do {
               w2 \<leftarrow> wahe_delete_translated_thread S m r (set_translated m r (\<lambda>ro. ro\<lparr>dr_thread_reply := None\<rparr>) w1);
               Some (Inr (dr_thread_reply ro), w2)
             })
          })"

definition wahe_translated_thread_id :: "nat \<Rightarrow> 'g world \<Rightarrow> nat option" where
  "wahe_translated_thread_id m w =
     (if mtype (modules w ! m) \<noteq> WAHE_MODULE_WASM_TO_NATIVE \<or> wasm_decomp_runner (modules w ! m) = [] \<or>
         cur_native_module w \<noteq> Some m
      then Some 0
      else map_option dr_thread_id (the_translated m (cur_native_runner_id w) w))"

section \<open>Joining all threads of a module\<close>

text \<open>The slots in use, and the identifier of the last one nobody else is creating or joining, or zero.\<close>

definition used_translated :: "wahe_module_t \<Rightarrow> nat list" where
  "used_translated x = List.filter (\<lambda>i. dr_in_use (wasm_decomp_runner x ! i)) [decomp_initial_runner_count x..<decomp_runner_capacity x]"

definition unclaimed_translated :: "wahe_module_t \<Rightarrow> nat" where
  "unclaimed_translated x =
     (case List.filter (\<lambda>i. \<not> dr_creating (wasm_decomp_runner x ! i) \<and> \<not> dr_joining (wasm_decomp_runner x ! i)) (used_translated x) of
        [] \<Rightarrow> 0
      | is \<Rightarrow> dr_thread_id (wasm_decomp_runner x ! last is))"

partial_function (option) join_translated_loop :: "'g services \<Rightarrow> nat \<Rightarrow> 'g world \<Rightarrow> 'g world option" where
  "join_translated_loop S m w =
     (if used_translated (modules w ! m) = [] then Some w
      else if unclaimed_translated (modules w ! m) \<noteq> 0
      then do {
        (r, w1) \<leftarrow> wahe_join_translated_thread S m (unclaimed_translated (modules w ! m)) w;
        join_translated_loop S m w1
      }
      else join_translated_loop S m (thread_pause S w))"

definition wahe_join_translated_threads :: "'g services \<Rightarrow> nat \<Rightarrow> 'g world \<Rightarrow> 'g world option" where
  "wahe_join_translated_threads S m w =
     do {
       own \<leftarrow> wahe_translated_thread_id m w;
       (if own \<noteq> 0 then Some w
        else (let w1 = upd_module m (\<lambda>x. x\<lparr>decomp_threads_stopping := True\<rparr>) w in
              do {
                w2 \<leftarrow> (if used_translated (modules w1 ! m) \<noteq> [] \<and> dl_func (modules w1 ! m) WAHE_FUNC_INPUT
                        then map_option snd (wahe_send_input (calls S) m ''Stop threads'' w1) else Some w1);
                join_translated_loop S m w2
              }))
     }"

definition used_slots :: "wahe_module_t \<Rightarrow> nat list" where
  "used_slots x = List.filter (\<lambda>i. runner_object x i \<noteq> None) [initial_runner_count x..<runner_count x]"

definition unclaimed_slot :: "wahe_module_t \<Rightarrow> nat" where
  "unclaimed_slot x =
     (case List.filter (\<lambda>i. \<not> wr_creating (the (runner_object x i)) \<and> \<not> wr_joining (the (runner_object x i))) (used_slots x) of
        [] \<Rightarrow> 0
      | is \<Rightarrow> wr_thread_id (the (runner_object x (last is))))"

partial_function (option) join_module_loop :: "'g services \<Rightarrow> nat \<Rightarrow> 'g world \<Rightarrow> 'g world option" where
  "join_module_loop S m w =
     (if used_slots (modules w ! m) = [] then Some w
      else if unclaimed_slot (modules w ! m) \<noteq> 0
      then do {
        (r, w1) \<leftarrow> wahe_join_module_thread S m (unclaimed_slot (modules w ! m)) w;
        join_module_loop S m w1
      }
      else join_module_loop S m (thread_pause S w))"

definition own_worker :: "nat \<Rightarrow> 'g world \<Rightarrow> bool" where
  "own_worker m w \<longleftrightarrow>
     (case cur_wasmtime_runner w of
        None \<Rightarrow> False
      | Some (cm, cr) \<Rightarrow> cm = m \<and> (case the_runner cm cr w of None \<Rightarrow> False | Some ro \<Rightarrow> wr_thread_id ro \<noteq> 0))"

definition wahe_module_join_threads :: "'g services \<Rightarrow> nat option \<Rightarrow> 'g world \<Rightarrow> 'g world option" where
  "wahe_module_join_threads S ctx w =
     (case ctx of
        None \<Rightarrow> Some w
      | Some m \<Rightarrow>
          let x = modules w ! m in
          if mtype x = WAHE_MODULE_WASM_TO_NATIVE \<and> wasm_decomp_runner x \<noteq> [] then wahe_join_translated_threads S m w
          else if mtype x \<noteq> WAHE_MODULE_WASMTIME then Some w
          else if own_worker m w then Some w
          else (let w1 = upd_module m (\<lambda>x. x\<lparr>threads_stopping := True\<rparr>) w in
                do {
                  first \<leftarrow> (if used_slots (modules w1 ! m) = [] then Some None
                            else map_option Some (the_runner m 0 w1));
                  w2 \<leftarrow> (case first of
                           Some ro \<Rightarrow>
                             if wr_func ro WAHE_FUNC_INPUT
                             then map_option snd (wahe_send_input (calls S) m ''Stop threads'' w1) else Some w1
                         | None \<Rightarrow> Some w1);
                  join_module_loop S m w2
                }))"

end
