(* ===== verification/Command_Registry.thy ===== *)
theory Command_Registry
  imports Module_State
begin

text \<open>
  The command registry of a group, from \<open>wahe_core.c\<close> and \<open>wahe_host_commands.c\<close>: commands are
  registered by the hash of their text and their number of words, a line is looked up by the
  hashes of its first words, and a newer registration comes before an older one. The registry
  lock is taken and released inside each operation and is not represented; sequence
  numbers are natural numbers.
\<close>

section \<open>The code\<close>

text \<open>Adding a registration; the caller then sets the target of the last one.\<close>

definition wahe_add_command_registration :: "string \<Rightarrow> wahe_registry \<Rightarrow> wahe_registry option" where
  "wahe_add_command_registration command g =
     do {
       hash \<leftarrow> get_string_hash command;
       words \<leftarrow> string_count_fields (Some command) '' '';
       Some (g\<lparr>cmd_reg := cmd_reg g @ [\<lparr>reg_hash = hash, reg_word_count = words, reg_sequence = cmd_reg_sequence g + 1,
                 reg_runtime = False, reg_target = Target_module 0\<rparr>],
               cmd_reg_sequence := cmd_reg_sequence g + 1,
               max_cmd_word_count := max (max_cmd_word_count g) words\<rparr>)
     }"

definition set_last_registration :: "(wahe_cmd_reg_t \<Rightarrow> wahe_cmd_reg_t) \<Rightarrow> wahe_registry \<Rightarrow> wahe_registry" where
  "set_last_registration f g = g\<lparr>cmd_reg := (cmd_reg g)[length (cmd_reg g) - 1 := f (last (cmd_reg g))]\<rparr>"

text \<open>The fixed host commands.\<close>

definition host_command_table :: "(string \<times> wahe_host_cmd) list" where
  "host_command_table =
     [(''Init memory to'', Cmd_init_memory), (''Enlarge memory to'', Cmd_enlarge_memory),
      (''Shrink memory to'', Cmd_shrink_memory), (''Run chain'', Cmd_run_chain),
      (''Create thread with'', Cmd_thread_create), (''Join thread ID'', Cmd_thread_join),
      (''Get thread ID'', Cmd_get_thread_id), (''Copy'', Cmd_copy),
      (''Get memory address'', Cmd_get_memory_address), (''Get heap base'', Cmd_get_heap_base),
      (''Get data end'', Cmd_get_data_end), (''Get stack base'', Cmd_get_stack_base),
      (''Get stack pointer'', Cmd_get_stack_pointer),
      (''Get stack pointer address'', Cmd_get_stack_pointer_address),
      (''Get memory size'', Cmd_get_memory_size), (''Get memory size address'', Cmd_get_memory_size_address),
      (''Load raw file at path'', Cmd_load_raw_file), (''Save raw file to path'', Cmd_save_raw_file),
      (''Get raw time'', Cmd_get_raw_time), (''Benchmark'', Cmd_benchmark), (''Print'', Cmd_print),
      (''Register command'', Cmd_change_command_registration),
      (''Unregister command'', Cmd_change_command_registration)]"

fun add_host_commands :: "(string \<times> wahe_host_cmd) list \<Rightarrow> wahe_registry \<Rightarrow> wahe_registry option" where
  "add_host_commands [] g = Some g"
| "add_host_commands ((command, func) # rest) g =
     do {
       g1 \<leftarrow> wahe_add_command_registration command g;
       add_host_commands rest (set_last_registration (\<lambda>reg. reg\<lparr>reg_target := Target_host func\<rparr>) g1)
     }"

definition wahe_register_host_commands :: "wahe_registry \<Rightarrow> wahe_registry option" where
  "wahe_register_host_commands g =
     (if host_commands_registered g then Some g
      else add_host_commands host_command_table (g\<lparr>host_commands_registered := True\<rparr>))"

fun register_lines :: "int \<Rightarrow> string option list \<Rightarrow> wahe_registry \<Rightarrow> wahe_registry option" where
  "register_lines mid [] g = Some g"
| "register_lines mid (None # ls) g = None"
| "register_lines mid (Some l # ls) g =
     do {
       g1 \<leftarrow> wahe_add_command_registration l g;
       register_lines mid ls (set_last_registration (\<lambda>reg. reg\<lparr>reg_target := Target_module mid\<rparr>) g1)
     }"

definition wahe_register_commands :: "int \<Rightarrow> string \<Rightarrow> wahe_registry \<Rightarrow> wahe_registry option" where
  "wahe_register_commands mid commands g =
     do {
       (array, linecount, txt) \<leftarrow> arrayise_text (make_string_copy (Some commands));
       g1 \<leftarrow> wahe_register_host_commands g;
       register_lines mid (take linecount (case array of None \<Rightarrow> [] | Some a \<Rightarrow> array_strings a txt)) g1
     }"

text \<open>The index of the newest registration below \<open>i\<close> with a property.\<close>

fun newest_match :: "(wahe_cmd_reg_t \<Rightarrow> bool) \<Rightarrow> wahe_cmd_reg_t list \<Rightarrow> nat \<Rightarrow> nat option" where
  "newest_match P regs 0 = None"
| "newest_match P regs (Suc i) = (if P (regs ! i) then Some i else newest_match P regs i)"

definition runtime_match :: "int \<Rightarrow> u64 \<Rightarrow> nat \<Rightarrow> wahe_cmd_reg_t \<Rightarrow> bool" where
  "runtime_match mid hash words reg \<longleftrightarrow>
     reg_runtime reg \<and> reg_target reg = Target_module mid \<and> reg_hash reg = hash \<and> reg_word_count reg = words"

definition wahe_change_runtime_command :: "int \<Rightarrow> string \<Rightarrow> bool \<Rightarrow> wahe_registry \<Rightarrow> wahe_registry option" where
  "wahe_change_runtime_command mid command add g =
     do {
       hash \<leftarrow> get_string_hash command;
       words \<leftarrow> string_count_fields (Some command) '' '';
       (if add
        then do {
          g1 \<leftarrow> wahe_add_command_registration command g;
          Some (set_last_registration (\<lambda>reg. reg\<lparr>reg_target := Target_module mid, reg_runtime := True\<rparr>) g1)
        }
        else (case newest_match (runtime_match mid hash words) (cmd_reg g) (length (cmd_reg g)) of
                None \<Rightarrow> Some g
              | Some i \<Rightarrow> Some (g\<lparr>cmd_reg := take i (cmd_reg g) @ drop (i + 1) (cmd_reg g)\<rparr>)))
     }"

text \<open>
  The hashes of the first words of a line: one, two, and so on. Pointers into the line are
  offsets, the end of the line is \<open>line_end\<close>.
\<close>

definition line_length :: "string \<Rightarrow> nat" where
  "line_length line = (case strchr line CHR ''\<newline>'' of None \<Rightarrow> length line | Some e \<Rightarrow> length line - length e)"

definition next_space :: "string \<Rightarrow> nat \<Rightarrow> nat \<Rightarrow> nat" where
  "next_space line line_end p =
     (case strchr (drop p line) CHR '' '' of
        None \<Rightarrow> line_end
      | Some t \<Rightarrow> if line_end < length line - length t then line_end else length line - length t)"

fun prefix_hashes :: "nat \<Rightarrow> string \<Rightarrow> nat \<Rightarrow> nat \<Rightarrow> u64 list option" where
  "prefix_hashes 0 line line_end p = Some []"
| "prefix_hashes (Suc n) line line_end p =
     (if line_end \<le> p then Some []
      else (let q = next_space line line_end p in
            do {
              h \<leftarrow> get_buffer_hash (bytes_of_string (take q line));
              hs \<leftarrow> prefix_hashes n line line_end (if q < line_end then q + 1 else q);
              Some (h # hs)
            }))"

definition command_match :: "u64 list \<Rightarrow> int \<Rightarrow> nat \<Rightarrow> wahe_cmd_reg_t \<Rightarrow> bool" where
  "command_match msg_hash caller before reg \<longleftrightarrow>
     \<not> (before \<le> reg_sequence reg \<or> reg_word_count reg < 1 \<or> 16 < reg_word_count reg \<or> reg_target reg = Target_module caller) \<and>
     reg_hash reg = msg_hash ! (reg_word_count reg - 1)"

text \<open>The result is the registration, whose sequence is the next \<open>before\<close>.\<close>

definition wahe_find_command_registration ::
    "string \<Rightarrow> int \<Rightarrow> nat \<Rightarrow> wahe_registry \<Rightarrow> wahe_cmd_reg_t option option" where
  "wahe_find_command_registration line caller before g =
     do {
       hs \<leftarrow> prefix_hashes (min (max_cmd_word_count g) 16) line (line_length line) 0;
       Some (map_option (\<lambda>i. cmd_reg g ! i)
         (newest_match (command_match (hs @ replicate (16 - length hs) 0) caller before) (cmd_reg g) (length (cmd_reg g))))
     }"


section \<open>Hashes of strings\<close>

definition string_hash :: "string \<Rightarrow> u64" where
  "string_hash s = xxh64_ref 0 (bytes_of_string s)"

lemma get_string_hash_ref: "length s < 2 ^ 64 \<Longrightarrow> get_string_hash s = Some (string_hash s)"
  using XXH64_ref [of "bytes_of_string s" 0] by (simp add: get_string_hash_def get_buffer_hash_def string_hash_def)

lemma add_registration:
  "length command < 2 ^ 64 \<Longrightarrow> wahe_add_command_registration command g =
     Some (g\<lparr>cmd_reg := cmd_reg g @ [\<lparr>reg_hash = string_hash command, reg_word_count = length (split_on CHR '' '' command),
               reg_sequence = cmd_reg_sequence g + 1, reg_runtime = False, reg_target = Target_module 0\<rparr>],
             cmd_reg_sequence := cmd_reg_sequence g + 1,
             max_cmd_word_count := max (max_cmd_word_count g) (length (split_on CHR '' '' command))\<rparr>)"
  by (simp add: wahe_add_command_registration_def get_string_hash_ref string_count_fields)

section \<open>The words of a line\<close>

fun unwords :: "string list \<Rightarrow> string" where
  "unwords [] = []"
| "unwords [w] = w"
| "unwords (w # v # ws) = w @ CHR '' '' # unwords (v # ws)"

lemma unwords_Cons: "ws \<noteq> [] \<Longrightarrow> unwords (w # ws) = w @ CHR '' '' # unwords ws"
  by (cases ws) auto

definition first_line :: "string \<Rightarrow> string" where
  "first_line line = takeWhile (\<lambda>c. c \<noteq> CHR ''\<newline>'') line"

lemma strchr_append: "c \<notin> set w \<Longrightarrow> strchr (w @ t) c = strchr t c"
  by (induction w) auto

lemma strchr_None: "strchr t c = None \<longleftrightarrow> c \<notin> set t"
  by (induction t) auto

lemma strchr_Some: "strchr t c = Some u \<Longrightarrow> \<exists>w. t = w @ u \<and> c \<notin> set w \<and> u \<noteq> [] \<and> hd u = c"
proof (induction t)
  case (Cons x t)
  then show ?case
  proof (cases "x = c")
    case False
    with Cons obtain w where "t = w @ u" "c \<notin> set w" "u \<noteq> []" "hd u = c" by auto
    with False show ?thesis by (intro exI [of _ "x # w"]) auto
  qed (auto intro: exI [of _ "[]"])
qed simp

lemma line_length_first: "line_length line = length (first_line line)"
  unfolding line_length_def first_line_def
  by (induction line) (auto split: option.splits dest!: strchr_Some)

lemma first_line_take: "first_line line = take (line_length line) line"
  unfolding line_length_first first_line_def by (metis takeWhile_eq_take)

lemma split_on_cases:
  "(d \<notin> set s \<and> split_on d s = [s]) \<or>
   (\<exists>w r. s = w @ d # r \<and> d \<notin> set w \<and> split_on d s = w # split_on d r)"
proof (induction s)
  case (Cons c s)
  show ?case
  proof (cases "c = d")
    case True
    then show ?thesis by (intro disjI2 exI [of _ "[]"] exI [of _ s]) auto
  next
    case F: False
    from Cons show ?thesis
    proof
      assume "\<exists>w r. s = w @ d # r \<and> d \<notin> set w \<and> split_on d s = w # split_on d r"
      then obtain w r where "s = w @ d # r" "d \<notin> set w" "split_on d s = w # split_on d r" by blast
      with F show ?thesis by (intro disjI2 exI [of _ "c # w"] exI [of _ r]) auto
    qed (use F in auto)
  qed
qed simp

text \<open>How many prefixes are hashed: an empty last word, after a trailing space, is not.\<close>

definition hashed_words :: "string \<Rightarrow> nat" where
  "hashed_words l = (let ws = split_on CHR '' '' l in if last ws = [] then length ws - 1 else length ws)"

lemma hashed_words_cases:
  "s = [] \<Longrightarrow> hashed_words s = 0"
  "CHR '' '' \<notin> set s \<Longrightarrow> s \<noteq> [] \<Longrightarrow> hashed_words s = 1"
  "CHR '' '' \<notin> set w \<Longrightarrow> hashed_words (w @ CHR '' '' # r) = Suc (hashed_words r)"
proof -
  show "CHR '' '' \<notin> set s \<Longrightarrow> s \<noteq> [] \<Longrightarrow> hashed_words s = 1"
    using split_on_cases [of "CHR '' ''" s] by (auto simp: hashed_words_def)
  have "split_on CHR '' '' (w @ CHR '' '' # r) = w # split_on CHR '' '' r" if "CHR '' '' \<notin> set w" for w r
    using that by (induction w) auto
  then show "CHR '' '' \<notin> set w \<Longrightarrow> hashed_words (w @ CHR '' '' # r) = Suc (hashed_words r)"
    by (cases "split_on CHR '' '' r") (auto simp: hashed_words_def Let_def)
qed (simp add: hashed_words_def)

lemma split_on_append: "d \<notin> set w \<Longrightarrow> split_on d (w @ d # r) = w # split_on d r"
  by (induction w) auto

lemma strchr_dropWhile: "strchr t c = (case dropWhile (\<lambda>x. x \<noteq> c) t of [] \<Rightarrow> None | x # u \<Rightarrow> Some (x # u))"
  by (induction t) auto

lemma next_space_word:
  assumes "p < line_length line"
  shows "next_space line (line_length line) p = p + length (takeWhile (\<lambda>c. c \<noteq> CHR '' '') (drop p (first_line line)))"
proof -
  define l where "l = first_line line"
  define t where "t = dropWhile (\<lambda>c. c \<noteq> CHR ''\<newline>'') line"
  have line: "line = l @ t" by (simp add: l_def t_def first_line_def)
  have len: "line_length line = length l" by (simp add: line_length_first l_def)
  have dp: "drop p line = drop p l @ t" using assms len line by simp
  have split: "length (takeWhile (\<lambda>c. c \<noteq> CHR '' '') (drop p l)) + length (dropWhile (\<lambda>c. c \<noteq> CHR '' '') (drop p l)) = length l - p"
    by (metis length_append length_drop takeWhile_dropWhile_id)
  show ?thesis
  proof (cases "CHR '' '' \<in> set (drop p l)")
    case True
    then have d: "dropWhile (\<lambda>c. c \<noteq> CHR '' '') (drop p l) \<noteq> []" by auto
    have "dropWhile (\<lambda>c. c \<noteq> CHR '' '') (drop p line) = dropWhile (\<lambda>c. c \<noteq> CHR '' '') (drop p l) @ t"
      unfolding dp by (rule dropWhile_append1 [OF True]) simp
    with d have "strchr (drop p line) CHR '' '' = Some (dropWhile (\<lambda>c. c \<noteq> CHR '' '') (drop p l) @ t)"
      by (simp add: strchr_dropWhile split: list.split)
    moreover have "length line = length l + length t" using line by simp
    moreover have "length l - length (dropWhile (\<lambda>c. c \<noteq> CHR '' '') (drop p l)) = p + length (takeWhile (\<lambda>c. c \<noteq> CHR '' '') (drop p l))"
      using split assms len by linarith
    moreover have "p + length (takeWhile (\<lambda>c. c \<noteq> CHR '' '') (drop p l)) \<le> length l" using split assms len by linarith
    ultimately show ?thesis using len by (simp add: next_space_def l_def [symmetric])
  next
    case False
    then have w: "takeWhile (\<lambda>c. c \<noteq> CHR '' '') (drop p l) = drop p l" by (auto simp: takeWhile_eq_all_conv)
    have "strchr (drop p line) CHR '' '' = strchr t CHR '' ''" unfolding dp using False by (rule strchr_append)
    moreover have "length u \<le> length t" if "strchr t CHR '' '' = Some u" for u using strchr_Some [OF that] by auto
    ultimately have "next_space line (length l) p = length l"
      unfolding next_space_def line by (auto split: option.split)
    then show ?thesis using assms len unfolding l_def [symmetric] w by simp
  qed
qed

lemma word_split:
  fixes r :: string
  defines "w \<equiv> takeWhile (\<lambda>c. c \<noteq> CHR '' '') r"
  shows "CHR '' '' \<notin> set w" "length w < length r \<Longrightarrow> r = w @ CHR '' '' # drop (Suc (length w)) r"
    "\<not> length w < length r \<Longrightarrow> r = w"
proof -
  show "CHR '' '' \<notin> set w" unfolding w_def by (auto dest: set_takeWhileD)
  have r: "r = w @ dropWhile (\<lambda>c. c \<noteq> CHR '' '') r" by (simp add: w_def)
  show "length w < length r \<Longrightarrow> r = w @ CHR '' '' # drop (Suc (length w)) r"
  proof -
    assume less: "length w < length r"
    then have "r ! length w = CHR '' ''" unfolding w_def using nth_length_takeWhile by fastforce
    then show ?thesis using id_take_nth_drop [OF less] by (simp add: w_def flip: takeWhile_eq_take)
  qed
  show "\<not> length w < length r \<Longrightarrow> r = w" using r by (metis add_diff_cancel_left' append_Nil2 diff_is_0_eq length_0_conv length_append not_less)
qed

text \<open>The hashes found are those of the leading words, at most \<open>n\<close> of them.\<close>

lemma prefix_hashes_words:
  assumes "length line < 2 ^ 64" "p \<le> line_length line"
  shows "prefix_hashes n line (line_length line) p =
    Some (map (\<lambda>k. string_hash (take p line @ unwords (take (Suc k) (split_on CHR '' '' (drop p (first_line line))))))
      [0..<min n (hashed_words (drop p (first_line line)))])"
  using assms(2)
proof (induction n arbitrary: p)
  case (Suc n)
  let ?l = "first_line line" and ?e = "line_length line"
  have len: "?e = length ?l" by (rule line_length_first)
  show ?case
  proof (cases "?e \<le> p")
    case True
    then show ?thesis using len by (simp add: hashed_words_cases)
  next
    case False
    define r where "r = drop p ?l"
    define w where "w = takeWhile (\<lambda>c. c \<noteq> CHR '' '') r"
    have r: "r \<noteq> []" "length r = ?e - p" using False len by (simp_all add: r_def)
    have q: "next_space line ?e p = p + length w" using next_space_word [of p line] False by (simp add: w_def r_def)
    have pre: "take (p + j) line = take p line @ take j r" if "j \<le> length r" for j
    proof -
      have "take (p + j) line = take (p + j) ?l"
        using that r(2) Suc.prems first_line_take [of line] by (simp add: min_def)
      also have "\<dots> = take p ?l @ take j r" by (simp add: take_add r_def)
      also have "take p ?l = take p line" using Suc.prems first_line_take [of line] by (simp add: min_def)
      finally show ?thesis .
    qed
    have pref: "take (p + length w) line = take p line @ w"
      using pre [of "length w"] length_takeWhile_le [of _ r] by (simp add: w_def flip: takeWhile_eq_take)
    have hash: "get_buffer_hash (bytes_of_string (take q line)) = Some (string_hash (take q line))" for q
      using get_string_hash_ref [of "take q line"] assms(1) by (simp add: get_string_hash_def)
    note ws = word_split [of r, folded w_def]
    show ?thesis
    proof (cases "length w < length r")
      case True
      define r' where "r' = drop (Suc (p + length w)) ?l"
      have rr: "r = w @ CHR '' '' # r'" using ws(2) [OF True] by (simp add: r'_def r_def add.commute)
      have split: "split_on CHR '' '' r = w # split_on CHR '' '' r'" using split_on_append [OF ws(1), of r'] rr by simp
      have hw: "hashed_words r = Suc (hashed_words r')" using hashed_words_cases(3) [OF ws(1), of r'] rr by simp
      have le: "p + length w < ?e" using True r(2) by simp
      have pref': "take (Suc (p + length w)) line = take p line @ w @ '' ''"
      proof -
        have e: "take (Suc (length w)) r = w @ '' ''" by (subst rr) simp
        have "take (p + Suc (length w)) line = take p line @ take (Suc (length w)) r"
          by (rule pre) (use True in simp)
        then show ?thesis unfolding e by (simp only: add_Suc_right)
      qed
      have shift: "map f [Suc 0..<Suc m] = map (\<lambda>k. f (Suc k)) [0..<m]" for f :: "nat \<Rightarrow> u64" and m
        by (simp add: map_Suc_upt [symmetric] o_def del: upt_Suc)
      show ?thesis
        using Suc.IH [of "Suc (p + length w)"] le False
        by (simp add: q hash pref r_def [symmetric] r'_def [symmetric] hw split pref' unwords_Cons Let_def upt_conv_Cons
            shift del: upt_Suc)
    next
      case False
      then have rw: "r = w" by (rule ws(3))
      have split: "split_on CHR '' '' r = [w]" using split_on_cases [of "CHR '' ''" r] ws(1) rw by auto
      have "p + length w = ?e" using r(2) rw \<open>\<not> ?e \<le> p\<close> by simp
      moreover have "prefix_hashes n line ?e ?e = Some []" by (cases n) auto
      moreover have "hashed_words r = 1" using hashed_words_cases(2) [of r] ws(1) rw r(1) by simp
      ultimately show ?thesis using \<open>\<not> ?e \<le> p\<close> pref by (simp add: q hash r_def [symmetric] split)
    qed
  qed
qed simp


section \<open>The invariant of the registry\<close>

text \<open>
  Registrations are in the order of their sequence numbers, each comes from a command, and the
  largest number of words is known. The host commands are registered once or not at all.
\<close>

definition from_command :: "wahe_cmd_reg_t \<Rightarrow> bool" where
  "from_command reg \<longleftrightarrow> (\<exists>c. length c < 2 ^ 64 \<and> reg_hash reg = string_hash c \<and> reg_word_count reg = length (split_on CHR '' '' c))"

definition host_targets :: "wahe_cmd_reg_t list \<Rightarrow> wahe_host_cmd list" where
  "host_targets regs = concat (map (\<lambda>reg. case reg_target reg of Target_host f \<Rightarrow> [f] | Target_module _ \<Rightarrow> []) regs)"

definition registry_wf :: "wahe_registry \<Rightarrow> bool" where
  "registry_wf g \<longleftrightarrow>
     sorted_wrt (<) (map reg_sequence (cmd_reg g)) \<and>
     list_all (\<lambda>reg. reg_sequence reg \<le> cmd_reg_sequence g \<and> reg_word_count reg \<le> max_cmd_word_count g \<and> from_command reg)
       (cmd_reg g) \<and>
     host_targets (cmd_reg g) = (if host_commands_registered g then map snd host_command_table else [])"

definition new_registration :: "string \<Rightarrow> bool \<Rightarrow> wahe_cmd_target \<Rightarrow> wahe_registry \<Rightarrow> wahe_registry" where
  "new_registration c runtime target g =
     g\<lparr>cmd_reg := cmd_reg g @ [\<lparr>reg_hash = string_hash c, reg_word_count = length (split_on CHR '' '' c),
           reg_sequence = cmd_reg_sequence g + 1, reg_runtime = runtime, reg_target = target\<rparr>],
       cmd_reg_sequence := cmd_reg_sequence g + 1,
       max_cmd_word_count := max (max_cmd_word_count g) (length (split_on CHR '' '' c))\<rparr>"

lemma set_last_new:
  assumes "length c < 2 ^ 64"
  shows "do { g1 \<leftarrow> wahe_add_command_registration c g; k (set_last_registration (\<lambda>reg. reg\<lparr>reg_target := t\<rparr>) g1) } =
      k (new_registration c False t g)"
    and "do { g1 \<leftarrow> wahe_add_command_registration c g;
              Some (set_last_registration (\<lambda>reg. reg\<lparr>reg_target := t, reg_runtime := True\<rparr>) g1) } =
      Some (new_registration c True t g)"
  using assms by (auto simp: add_registration set_last_registration_def new_registration_def intro!: arg_cong [of _ _ k])

definition ordered :: "wahe_registry \<Rightarrow> bool" where
  "ordered g \<longleftrightarrow>
     sorted_wrt (<) (map reg_sequence (cmd_reg g)) \<and>
     list_all (\<lambda>reg. reg_sequence reg \<le> cmd_reg_sequence g \<and> reg_word_count reg \<le> max_cmd_word_count g \<and> from_command reg)
       (cmd_reg g)"

lemma registry_wf_ordered:
  "registry_wf g \<longleftrightarrow> ordered g \<and> host_targets (cmd_reg g) = (if host_commands_registered g then map snd host_command_table else [])"
  by (simp add: registry_wf_def ordered_def)

lemma host_targets_simps [simp]:
  "host_targets [] = []" "host_targets (xs @ ys) = host_targets xs @ host_targets ys"
  "host_targets (reg # ys) = (case reg_target reg of Target_host f \<Rightarrow> [f] | Target_module _ \<Rightarrow> []) @ host_targets ys"
  by (simp_all add: host_targets_def)

lemma ordered_new: "length c < 2 ^ 64 \<Longrightarrow> ordered g \<Longrightarrow> ordered (new_registration c b t g)"
  by (fastforce simp: ordered_def new_registration_def sorted_wrt_append list_all_iff from_command_def)

lemma ordered_remove: "ordered g \<Longrightarrow> ordered (g\<lparr>cmd_reg := take i (cmd_reg g) @ drop (i + 1) (cmd_reg g)\<rparr>)"
proof -
  assume o: "ordered g"
  have s: "sorted_wrt (<) (map reg_sequence (take i (cmd_reg g)) @ map reg_sequence (drop i (cmd_reg g)))"
    using o by (simp add: ordered_def flip: map_append)
  have "set (drop (i + 1) (cmd_reg g)) \<subseteq> set (drop i (cmd_reg g))" by (rule set_drop_subset_set_drop) simp
  moreover have "sorted_wrt (<) (map reg_sequence (drop (i + 1) (cmd_reg g)))"
    using sorted_wrt_drop [of "(<)" "map reg_sequence (cmd_reg g)" "i + 1"] o by (simp add: ordered_def drop_map)
  ultimately have "sorted_wrt (<) (map reg_sequence (take i (cmd_reg g) @ drop (i + 1) (cmd_reg g)))"
    using s unfolding map_append sorted_wrt_append by (auto simp del: drop_Suc)
  with o show ?thesis by (auto simp: ordered_def list_all_iff dest: in_set_takeD in_set_dropD)
qed

lemma new_simps [simp]:
  "host_commands_registered (new_registration c b t g) = host_commands_registered g"
  "host_targets (cmd_reg (new_registration c b t g)) =
     host_targets (cmd_reg g) @ (case t of Target_host f \<Rightarrow> [f] | Target_module _ \<Rightarrow> [])"
  by (simp_all add: new_registration_def)

lemma add_host_commands_wf:
  "list_all (\<lambda>(c, _). length c < 2 ^ 64) table \<Longrightarrow> ordered g \<Longrightarrow>
   \<exists>g'. add_host_commands table g = Some g' \<and> ordered g' \<and> host_commands_registered g' = host_commands_registered g \<and>
     host_targets (cmd_reg g') = host_targets (cmd_reg g) @ map snd table"
proof (induction table arbitrary: g)
  case (Cons a table)
  obtain c f where a: "a = (c, f)" by (cases a)
  with Cons.prems have c: "length c < 2 ^ 64" by simp
  from Cons.IH [of "new_registration c False (Target_host f) g"] Cons.prems ordered_new [OF c] a
  show ?case by (auto simp: set_last_new(1) [OF c])
qed simp

lemma register_host_commands_wf:
  assumes "registry_wf g"
  shows "\<exists>g'. wahe_register_host_commands g = Some g' \<and> registry_wf g' \<and> host_commands_registered g'"
proof (cases "host_commands_registered g")
  case False
  have "list_all (\<lambda>(c, _). length c < 2 ^ 64) host_command_table" by (simp add: host_command_table_def)
  moreover have "ordered (g\<lparr>host_commands_registered := True\<rparr>)" using assms by (simp add: registry_wf_ordered ordered_def)
  ultimately show ?thesis
    using add_host_commands_wf [of host_command_table "g\<lparr>host_commands_registered := True\<rparr>"] assms False
    by (auto simp: wahe_register_host_commands_def registry_wf_ordered)
qed (use assms in \<open>simp add: wahe_register_host_commands_def\<close>)

lemma register_lines_wf:
  "list_all (\<lambda>l. length l < 2 ^ 64) ls \<Longrightarrow> registry_wf g \<Longrightarrow>
   \<exists>g'. register_lines mid (map Some ls) g = Some g' \<and> registry_wf g'"
proof (induction ls arbitrary: g)
  case (Cons l ls)
  then have l: "length l < 2 ^ 64" by simp
  have "registry_wf (new_registration l False (Target_module mid) g)"
    using Cons.prems ordered_new [OF l] by (simp add: registry_wf_ordered)
  with Cons show ?case by (simp add: set_last_new(1) [OF l])
qed simp


lemma text_lines_length: "l \<in> set (text_lines s) \<Longrightarrow> length l \<le> length s"
proof (induction s arbitrary: l)
  case (Cons c s)
  obtain m ms where "text_lines s = m # ms" by (cases "text_lines s") auto
  with Cons show ?case by (fastforce split: if_splits)
qed simp

lemma register_commands_wf:
  assumes "registry_wf g" "CHR 0x00 \<notin> set commands" "length commands < 2 ^ 64"
  shows "\<exists>g'. wahe_register_commands mid commands g = Some g' \<and> registry_wf g'"
proof -
  obtain g1 where g1: "wahe_register_host_commands g = Some g1" "registry_wf g1"
    using register_host_commands_wf [OF assms(1)] by blast
  show ?thesis
  proof (cases "commands = []")
    case True
    with g1 show ?thesis by (simp add: wahe_register_commands_def make_string_copy_def arrayise_text_def)
  next
    case False
    have "array_strings (0 # line_starts 0 commands) (map break_to_nul commands @ [CHR 0x00]) = map Some (text_lines commands)"
      using line_starts_strings [OF assms(2), of "[]" 0] by simp
    moreover have "list_all (\<lambda>l. length l < 2 ^ 64) (text_lines commands)"
      using text_lines_length [of _ commands] assms(3) by (fastforce simp: list_all_iff)
    ultimately show ?thesis
      using register_lines_wf [of "text_lines commands" g1 mid] g1 arrayise_text_result [OF False]
      by (simp add: wahe_register_commands_def make_string_copy_def)
  qed
qed

lemma change_runtime_add:
  "length c < 2 ^ 64 \<Longrightarrow> wahe_change_runtime_command mid c True g = Some (new_registration c True (Target_module mid) g)"
  by (simp add: wahe_change_runtime_command_def get_string_hash_ref string_count_fields set_last_new)

lemma newest_match_Some:
  "newest_match P regs n = Some i \<Longrightarrow> i < n \<and> P (regs ! i) \<and> (\<forall>j. i < j \<longrightarrow> j < n \<longrightarrow> \<not> P (regs ! j))"
  by (induction n) (auto split: if_splits simp: less_Suc_eq)

lemma newest_match_None: "newest_match P regs n = None \<Longrightarrow> j < n \<Longrightarrow> \<not> P (regs ! j)"
  by (induction n) (auto split: if_splits simp: less_Suc_eq)

lemma host_targets_remove:
  assumes "i < length regs" "reg_target (regs ! i) = Target_module m"
  shows "host_targets (take i regs @ drop (Suc i) regs) = host_targets regs"
proof -
  have "regs = take i regs @ regs ! i # drop (Suc i) regs" using id_take_nth_drop [OF assms(1)] .
  then have "host_targets regs = host_targets (take i regs @ regs ! i # drop (Suc i) regs)" by simp
  with assms(2) show ?thesis by simp
qed

lemma change_runtime_wf:
  assumes "registry_wf g" "length c < 2 ^ 64"
  shows "\<exists>g'. wahe_change_runtime_command mid c add g = Some g' \<and> registry_wf g'"
proof (cases add)
  case True
  then show ?thesis using assms ordered_new [OF assms(2)] by (simp add: change_runtime_add registry_wf_ordered)
next
  case False
  let ?P = "runtime_match mid (string_hash c) (length (split_on CHR '' '' c))"
  show ?thesis
  proof (cases "newest_match ?P (cmd_reg g) (length (cmd_reg g))")
    case None
    with False assms show ?thesis by (simp add: wahe_change_runtime_command_def get_string_hash_ref string_count_fields)
  next
    case (Some i)
    have i: "i < length (cmd_reg g)" "reg_target (cmd_reg g ! i) = Target_module mid"
      using newest_match_Some [OF Some] by (auto simp: runtime_match_def)
    with Some False assms ordered_remove [of g i] host_targets_remove [OF i] show ?thesis
      by (simp add: wahe_change_runtime_command_def get_string_hash_ref string_count_fields registry_wf_ordered)
  qed
qed

text \<open>The registries the operations produce from an empty one.\<close>

inductive registry_reach :: "wahe_registry \<Rightarrow> bool" where
  reach_empty: "cmd_reg g = [] \<Longrightarrow> cmd_reg_sequence g = 0 \<Longrightarrow> max_cmd_word_count g = 0 \<Longrightarrow> \<not> host_commands_registered g \<Longrightarrow>
    registry_reach g"
| reach_host: "registry_reach g \<Longrightarrow> wahe_register_host_commands g = Some g' \<Longrightarrow> registry_reach g'"
| reach_module: "registry_reach g \<Longrightarrow> CHR 0x00 \<notin> set commands \<Longrightarrow> length commands < 2 ^ 64 \<Longrightarrow>
    wahe_register_commands mid commands g = Some g' \<Longrightarrow> registry_reach g'"
| reach_runtime: "registry_reach g \<Longrightarrow> length c < 2 ^ 64 \<Longrightarrow> wahe_change_runtime_command mid c add g = Some g' \<Longrightarrow>
    registry_reach g'"

lemma reach_wf: "registry_reach g \<Longrightarrow> registry_wf g"
proof (induction rule: registry_reach.induct)
  case (reach_host g g')
  then show ?case using register_host_commands_wf [of g] by auto
next
  case (reach_module g commands mid g')
  then show ?case using register_commands_wf [of g commands mid] by auto
next
  case (reach_runtime g c mid add g')
  then show ?case using change_runtime_wf [of g c mid add] by auto
qed (simp add: registry_wf_def)

section \<open>Lookup\<close>

text \<open>A registration that serves a line: its words are the first words of the line, by their hash.\<close>

definition serves :: "string \<Rightarrow> int \<Rightarrow> wahe_cmd_reg_t \<Rightarrow> bool" where
  "serves line caller reg \<longleftrightarrow>
     1 \<le> reg_word_count reg \<and> reg_word_count reg \<le> 16 \<and> reg_word_count reg \<le> hashed_words (first_line line) \<and>
     reg_target reg \<noteq> Target_module caller \<and>
     reg_hash reg = string_hash (unwords (take (reg_word_count reg) (split_on CHR '' '' (first_line line))))"

text \<open>The entries past the hashed words are zero, which no command is assumed to hash to.\<close>

definition no_zero_hash :: "wahe_registry \<Rightarrow> bool" where
  "no_zero_hash g \<longleftrightarrow> (\<forall>reg \<in> set (cmd_reg g). reg_hash reg \<noteq> 0)"

lemma find_matches:
  assumes "ordered g" "no_zero_hash g" "length line < 2 ^ 64"
  obtains hs where "prefix_hashes (min (max_cmd_word_count g) 16) line (line_length line) 0 = Some hs"
    "\<And>reg. reg \<in> set (cmd_reg g) \<Longrightarrow>
       command_match (hs @ replicate (16 - length hs) 0) caller before reg \<longleftrightarrow> reg_sequence reg < before \<and> serves line caller reg"
proof -
  let ?m = "min (min (max_cmd_word_count g) 16) (hashed_words (first_line line))"
  let ?f = "\<lambda>k. string_hash (unwords (take (Suc k) (split_on CHR '' '' (first_line line))))"
  let ?hs = "map ?f [0..<?m]"
  have hs: "prefix_hashes (min (max_cmd_word_count g) 16) line (line_length line) 0 = Some ?hs"
    using prefix_hashes_words [OF assms(3), of 0] by simp
  have "command_match (?hs @ replicate (16 - length ?hs) 0) caller before reg \<longleftrightarrow> reg_sequence reg < before \<and> serves line caller reg"
    if reg: "reg \<in> set (cmd_reg g)" for reg
  proof -
    have wc: "reg_word_count reg \<le> max_cmd_word_count g" using assms(1) reg by (auto simp: ordered_def list_all_iff)
    have nz: "reg_hash reg \<noteq> 0" using assms(2) reg by (simp add: no_zero_hash_def)
    show ?thesis
    proof (cases "1 \<le> reg_word_count reg \<and> reg_word_count reg \<le> 16")
      case True
      then obtain k where k: "reg_word_count reg = Suc k" by (cases "reg_word_count reg") auto
      have "(?hs @ replicate (16 - length ?hs) 0) ! k = (if k < ?m then ?f k else 0)"
      proof -
        define m where "m = ?m"
        have "replicate (16 - m) (0 :: u64) ! (k - m) = 0" if "\<not> k < m" using that True k by (intro nth_replicate) linarith
        moreover have "length ?hs = m" by (simp add: m_def)
        ultimately show ?thesis unfolding m_def [symmetric] by (simp add: nth_append)
      qed
      with True k wc nz show ?thesis by (auto simp: command_match_def serves_def)
    qed (auto simp: command_match_def serves_def)
  qed
  with hs show thesis by (rule that)
qed

lemma find_result:
  assumes "ordered g" "no_zero_hash g" "length line < 2 ^ 64"
  shows "\<exists>r. wahe_find_command_registration line caller before g = Some r \<and>
    (case r of
       None \<Rightarrow> \<forall>reg \<in> set (cmd_reg g). \<not> (reg_sequence reg < before \<and> serves line caller reg)
     | Some reg \<Rightarrow> reg \<in> set (cmd_reg g) \<and> reg_sequence reg < before \<and> serves line caller reg \<and>
         (\<forall>reg' \<in> set (cmd_reg g). reg_sequence reg' < before \<and> serves line caller reg' \<longrightarrow> reg_sequence reg' \<le> reg_sequence reg))"
proof -
  obtain hs where hs: "prefix_hashes (min (max_cmd_word_count g) 16) line (line_length line) 0 = Some hs"
    "\<And>reg. reg \<in> set (cmd_reg g) \<Longrightarrow>
       command_match (hs @ replicate (16 - length hs) 0) caller before reg \<longleftrightarrow> reg_sequence reg < before \<and> serves line caller reg"
    using find_matches [OF assms] by blast
  let ?P = "command_match (hs @ replicate (16 - length hs) 0) caller before" and ?regs = "cmd_reg g"
  show ?thesis
  proof (cases "newest_match ?P ?regs (length ?regs)")
    case None
    have "\<not> (reg_sequence reg < before \<and> serves line caller reg)" if reg: "reg \<in> set ?regs" for reg
    proof -
      obtain j where "j < length ?regs" "reg = ?regs ! j" using reg unfolding in_set_conv_nth by blast
      with newest_match_None [OF None] hs(2) [OF reg] show ?thesis by simp
    qed
    with None hs(1) show ?thesis by (simp add: wahe_find_command_registration_def)
  next
    case (Some i)
    note i = newest_match_Some [OF Some]
    have "reg_sequence reg \<le> reg_sequence (?regs ! i)" if reg: "reg \<in> set ?regs" "reg_sequence reg < before \<and> serves line caller reg" for reg
    proof -
      obtain j where j: "j < length ?regs" "reg = ?regs ! j" using reg(1) unfolding in_set_conv_nth by blast
      have "j \<le> i" using i j hs(2) [OF reg(1)] reg(2) by (metis not_less)
      moreover have "sorted_wrt (<) (map reg_sequence ?regs)" using assms(1) by (simp add: ordered_def)
      ultimately show ?thesis using j i
        by (cases "j = i") (auto simp: sorted_wrt_iff_nth_less dest!: le_neq_implies_less intro: less_imp_le)
    qed
    moreover have "reg_sequence (?regs ! i) < before \<and> serves line caller (?regs ! i)" using hs(2) [of "?regs ! i"] i by simp
    ultimately show ?thesis using Some hs(1) i by (simp add: wahe_find_command_registration_def)
  qed
qed


text \<open>The registrations tried for one line: each search starts below the one found before.\<close>

function fallback_route :: "string \<Rightarrow> int \<Rightarrow> nat \<Rightarrow> wahe_registry \<Rightarrow> wahe_cmd_reg_t list" where
  "fallback_route line caller before g =
     (case wahe_find_command_registration line caller before g of
        Some (Some reg) \<Rightarrow>
          if reg_sequence reg < before then reg # fallback_route line caller (reg_sequence reg) g else []
      | _ \<Rightarrow> [])"
  by pat_completeness auto
termination by (relation "measure (\<lambda>(_, _, before, _). before)") auto

declare fallback_route.simps [simp del]

lemma filter_largest:
  assumes "sorted_wrt (<) (map f xs)" "x \<in> set xs" "P x" "\<forall>y \<in> set xs. P y \<longrightarrow> f y \<le> (f x :: nat)"
  shows "List.filter P xs = List.filter (\<lambda>y. P y \<and> f y < f x) xs @ [x]"
proof -
  obtain ys zs where xs: "xs = ys @ x # zs" using assms(2) by (metis split_list)
  have ys: "\<forall>y \<in> set ys. f y < f x" and zs: "\<forall>z \<in> set zs. f x < f z" using assms(1) by (auto simp: xs sorted_wrt_append)
  have "List.filter P ys = List.filter (\<lambda>y. P y \<and> f y < f x) ys" using ys by (intro filter_cong) auto
  moreover have "List.filter P zs = []" "List.filter (\<lambda>y. P y \<and> f y < f x) zs = []"
    using zs assms(4) by (fastforce simp: xs filter_empty_conv)+
  ultimately show ?thesis using assms(3) by (simp add: xs)
qed

lemma fallback_route_all:
  assumes "ordered g" "no_zero_hash g" "length line < 2 ^ 64"
  shows "fallback_route line caller before g =
    rev (List.filter (\<lambda>reg. reg_sequence reg < before \<and> serves line caller reg) (cmd_reg g))"
proof (induction before rule: less_induct)
  case (less before)
  let ?P = "\<lambda>reg. reg_sequence reg < before \<and> serves line caller reg"
  obtain r where r: "wahe_find_command_registration line caller before g = Some r"
    "case r of
       None \<Rightarrow> \<forall>reg \<in> set (cmd_reg g). \<not> ?P reg
     | Some reg \<Rightarrow> reg \<in> set (cmd_reg g) \<and> reg_sequence reg < before \<and> serves line caller reg \<and>
         (\<forall>reg' \<in> set (cmd_reg g). ?P reg' \<longrightarrow> reg_sequence reg' \<le> reg_sequence reg)"
    using find_result [OF assms, of caller before] by blast
  show ?case
  proof (cases r)
    case None
    with r have "List.filter ?P (cmd_reg g) = []" by (auto simp: filter_empty_conv)
    with None r(1) show ?thesis by (simp add: fallback_route.simps [of line caller before])
  next
    case (Some reg)
    with r(2) have reg: "reg \<in> set (cmd_reg g)" "?P reg" "\<forall>reg' \<in> set (cmd_reg g). ?P reg' \<longrightarrow> reg_sequence reg' \<le> reg_sequence reg"
      by auto
    have sorted: "sorted_wrt (<) (map reg_sequence (cmd_reg g))" using assms(1) by (simp add: ordered_def)
    have "(\<lambda>y. ?P y \<and> reg_sequence y < reg_sequence reg) = (\<lambda>y. reg_sequence y < reg_sequence reg \<and> serves line caller y)"
      using reg(2) by auto
    then have "rev (List.filter ?P (cmd_reg g)) =
        reg # rev (List.filter (\<lambda>y. reg_sequence y < reg_sequence reg \<and> serves line caller y) (cmd_reg g))"
      using filter_largest [OF sorted reg(1,2,3)] by simp
    then show ?thesis using Some r(1) reg(2) less.IH [of "reg_sequence reg"]
      by (simp add: fallback_route.simps [of line caller before])
  qed
qed

section \<open>Properties\<close>

text \<open>
  C16. Every registry the operations produce is well formed: the sequence numbers increase strictly,
  every entry carries the hash and the word count of a command, the largest word count is known, and
  the host commands are registered exactly once, before any removal of a module's own entries can touch them.
\<close>

theorem registry_invariant:
  assumes "registry_reach g"
  shows "registry_wf g"
  using assms by (rule reach_wf)

definition empty_registry :: wahe_registry where
  "empty_registry = \<lparr>cmd_reg = [], cmd_reg_sequence = 0, max_cmd_word_count = 0, host_commands_registered = False\<rparr>"

theorem registry_invariant_witness:
  "\<exists>g g'. wahe_register_commands 3 ''Audio sample rate'' empty_registry = Some g \<and>
     wahe_change_runtime_command 3 ''Copy'' True g = Some g' \<and> registry_wf g'"
proof -
  have e: "registry_reach empty_registry" by (rule reach_empty) (simp_all add: empty_registry_def)
  obtain g where g: "wahe_register_commands 3 ''Audio sample rate'' empty_registry = Some g"
    using register_commands_wf [OF reach_wf [OF e], of "''Audio sample rate''" 3] by auto
  have gr: "registry_reach g" by (rule reach_module [OF e _ _ g]) simp_all
  have add: "wahe_change_runtime_command 3 ''Copy'' True g = Some (new_registration ''Copy'' True (Target_module 3) g)"
    by (rule change_runtime_add) simp
  have "registry_reach (new_registration ''Copy'' True (Target_module 3) g)"
    by (rule reach_runtime [OF gr _ add]) simp
  from registry_invariant [OF this] g add show ?thesis by blast
qed

text \<open>
  C28. A runtime registration can be undone: registering a command and unregistering it leaves the
  routes as they were, and a module never removes a registration of another one.
\<close>

theorem runtime_registration_undone:
  assumes "length c < 2 ^ 64" and "wahe_change_runtime_command mid c True g = Some g1"
    and "wahe_change_runtime_command mid c False g1 = Some g2"
  shows "cmd_reg g2 = cmd_reg g \<and> cmd_reg_sequence g2 = cmd_reg_sequence g + 1"
proof -
  have g1: "g1 = new_registration c True (Target_module mid) g" using assms(1,2) by (simp add: change_runtime_add)
  have "newest_match (runtime_match mid (string_hash c) (length (split_on CHR '' '' c))) (cmd_reg g1) (length (cmd_reg g1)) =
      Some (length (cmd_reg g))"
    by (simp add: g1 new_registration_def runtime_match_def nth_append)
  with assms(3) show ?thesis
    using assms(1) by (auto simp: wahe_change_runtime_command_def get_string_hash_ref string_count_fields g1 new_registration_def)
qed

theorem runtime_registration_undone_witness:
  "\<exists>g1 g2. wahe_change_runtime_command 3 ''Copy'' True empty_registry = Some g1 \<and>
     wahe_change_runtime_command 3 ''Copy'' False g1 = Some g2 \<and> cmd_reg g2 = cmd_reg empty_registry"
proof -
  have add: "wahe_change_runtime_command 3 ''Copy'' True empty_registry = Some (new_registration ''Copy'' True (Target_module 3) empty_registry)"
    by (rule change_runtime_add) simp
  have "registry_wf empty_registry" by (simp add: registry_wf_def empty_registry_def)
  then have "registry_wf (new_registration ''Copy'' True (Target_module 3) empty_registry)"
    using change_runtime_wf [of empty_registry "''Copy''" 3 True] add by simp
  then obtain g2 where "wahe_change_runtime_command 3 ''Copy'' False (new_registration ''Copy'' True (Target_module 3) empty_registry) = Some g2"
    using change_runtime_wf [of _ "''Copy''" 3 False] by fastforce
  with add runtime_registration_undone [OF _ add this] show ?thesis by auto
qed


end
