(* ===== verification/Message_Transfer.thy ===== *)
theory Message_Transfer
  imports Module_Dispatch C_Numbers
begin

text \<open>
  \<open>wahe_copy_message_between_modules_on_runner\<close> of \<open>wahe_core.c\<close>: a message is copied into a block
  allocated in the destination module, every \<open>location: N bytes at A\<close> in it is rewritten to an
  address the destination can use, and data the destination cannot reach is copied after the
  text. Sizes are natural numbers kept below the bounds the code checks, addresses are words.
\<close>

section \<open>The code\<close>

record wahe_message_location_t =
  address_start :: nat
  address_end :: nat
  copy_size :: nat
  src_addr :: u64
  dst_addr :: u64
  payload_offset :: nat
  src_ptr :: u64
  copy_payload :: bool

definition host_address_bit :: u64 where
  "host_address_bit = push_bit 63 1"

definition wahe_align_transfer_size :: "nat \<Rightarrow> nat \<Rightarrow> nat option" where
  "wahe_align_transfer_size v alignment =
     (if alignment = 0 \<or> SIZE_MAX - (alignment - 1) < v then None
      else Some (unat ((of_nat v + of_nat alignment - 1 :: u64) AND NOT (of_nat alignment - 1))))"

text \<open>The length of the message, or nothing when it may not be transferred.\<close>

definition wahe_measure_transfer_message :: "nat option \<Rightarrow> u64 \<Rightarrow> 'g world \<Rightarrow> (nat option \<times> 'g world) option" where
  "wahe_measure_transfer_message src_module src_message w =
     (let measure_string = (\<lambda>w. map_option (\<lambda>s. (Some (length s), w)) (c_text (host_mem w) src_message)) in
      if src_message = 0 then Some (None, w)
      else (case src_module of
              None \<Rightarrow> measure_string w
            | Some m \<Rightarrow>
                if memory_ptr (modules w ! m) = 0 \<or> mtype (modules w ! m) = WAHE_MODULE_NATIVE then measure_string w
                else (let w1 = wahe_refresh_module_memory_size src_module w;
                          mem_size = wahe_get_module_memory_size src_module w1;
                          ctx = modules w1 ! m;
                          memory_start = unat (memory_ptr ctx);
                          message_start = unat src_message
                      in if mem_size \<le> SIZE_MAX - memory_start \<and> memory_start \<le> message_start \<and>
                            message_start < memory_start + mem_size
                         then map_option (\<lambda>e. (e, w1))
                                (memchr_nul (host_mem w1) src_message (mem_size - (message_start - memory_start)))
                         else (let translated_reach = max (memory_reserve_size ctx) (2 ^ 33 + 65536);
                                   translated_runtime_message =
                                     mtype ctx = WAHE_MODULE_WASM_TO_NATIVE \<and> memory_bits ctx = 32 \<and>
                                     (message_start < memory_start \<or> translated_reach \<le> message_start - memory_start)
                               in if \<not> has_host_mem_access ctx \<and> \<not> translated_runtime_message
                                  then Some (None, w1)
                                  else measure_string w1))))"

text \<open>The host pointer of a source range and whether it is an offset into the module's memory.\<close>

definition direct_source :: "u64 \<Rightarrow> nat \<Rightarrow> (u64 \<times> bool) option" where
  "direct_source addr n = (if (addr = 0 \<and> n \<noteq> 0) \<or> SIZE_MAX - n < unat addr then None else Some (addr, False))"

definition wahe_resolve_transfer_source ::
    "nat option \<Rightarrow> u64 \<Rightarrow> nat \<Rightarrow> 'g world \<Rightarrow> (u64 \<times> bool) option \<times> 'g world" where
  "wahe_resolve_transfer_source src_module addr n w =
     (case src_module of
        None \<Rightarrow> (direct_source addr n, w)
      | Some m \<Rightarrow>
          if mtype (modules w ! m) = WAHE_MODULE_NATIVE then (direct_source addr n, w)
          else (let w1 = wahe_refresh_module_memory_size src_module w;
                    mem_size = wahe_get_module_memory_size src_module w1;
                    ctx = modules w1 ! m
                in if memory_ptr ctx \<noteq> 0 \<and> unat addr \<le> mem_size \<and> n \<le> mem_size - unat addr
                   then (Some (memory_ptr ctx + addr, True), w1)
                   else if mtype ctx = WAHE_MODULE_WASM_TO_NATIVE \<and> memory_bits ctx = 64 \<and> addr AND host_address_bit \<noteq> 0
                   then (direct_source (addr AND NOT host_address_bit) n, w1)
                   else (None, w1)))"

definition wahe_prepare_transfer_location ::
    "nat option \<Rightarrow> nat \<Rightarrow> wahe_message_location_t \<Rightarrow> 'g world \<Rightarrow> wahe_message_location_t option \<times> 'g world" where
  "wahe_prepare_transfer_location src_module d l w =
     (case wahe_resolve_transfer_source src_module (src_addr l) (copy_size l) w of
        (None, w1) \<Rightarrow> (None, w1)
      | (Some (ptr, is_module_offset), w1) \<Rightarrow>
          let l1 = l\<lparr>src_ptr := ptr\<rparr> in
          if copy_size l = 0 then (Some (l1\<lparr>dst_addr := 0\<rparr>), w1)
          else (let w2 = wahe_refresh_module_memory_size (Some d) w1;
                    mem_size = wahe_get_module_memory_size (Some d) w2;
                    dctx = modules w2 ! d;
                    same_memory = (case src_module of
                                     None \<Rightarrow> False
                                   | Some m \<Rightarrow> memory_ptr (modules w2 ! m) = memory_ptr dctx)
                in if is_module_offset \<and> same_memory \<and> unat (src_addr l) \<le> mem_size \<and> copy_size l \<le> mem_size - unat (src_addr l)
                   then (Some (l1\<lparr>dst_addr := src_addr l\<rparr>), w2)
                   else if has_host_mem_access dctx
                   then (if mtype dctx = WAHE_MODULE_WASM_TO_NATIVE
                         then (if ptr AND host_address_bit \<noteq> 0 then (None, w2)
                               else (Some (l1\<lparr>dst_addr := ptr OR host_address_bit\<rparr>), w2))
                         else (Some (l1\<lparr>dst_addr := ptr\<rparr>), w2))
                   else (Some (l1\<lparr>copy_payload := True\<rparr>), w2)))"

text \<open>
  One step of the search for descriptors, on the text from the search position: nothing more,
  a prefix that no number follows, a malformed descriptor, or the bounds of the address with
  the size and the address. Positions are relative to the search position.
\<close>

datatype descriptor = No_descriptor | Skip_to nat | Bad_descriptor | Descriptor nat nat nat u64

definition next_descriptor :: "string \<Rightarrow> descriptor" where
  "next_descriptor s =
     (case strstr s ''location: '' of
        None \<Rightarrow> No_descriptor
      | Some prefix \<Rightarrow>
          let size_start = length s - length prefix + 10;
              t = drop size_start s
          in if t = [] \<or> \<not> is_digit_in 10 (hd t) then Skip_to size_start
             else (case strtoumax t 10 of
                     (parsed_size, n, erange) \<Rightarrow>
                       if erange then Bad_descriptor
                       else (let size_end = size_start + n in
                             if take 10 (drop size_end s) \<noteq> '' bytes at '' then Bad_descriptor
                             else (let start = size_end + 10;
                                       a = drop start s
                                   in if a = [] \<or> (\<not> is_digit_in 10 (hd a) \<and> hd a \<noteq> CHR ''-'') then Bad_descriptor
                                      else (case (if hd a = CHR ''-'' then strtoimax_minus a 0 else strtoumax a 0) of
                                              (parsed_address, k, erange) \<Rightarrow>
                                                if erange \<or> k = 0 \<or> (hd a = CHR ''-'' \<and> k = 1) then Bad_descriptor
                                                else Descriptor start (start + k) (unat parsed_size) parsed_address)))))"

definition max_address_len :: nat where
  "max_address_len = 2 + 8 * 3"

definition location_grows :: "'g env \<Rightarrow> nat \<Rightarrow> nat \<Rightarrow> nat option" where
  "location_grows E count capacity =
     (if count = capacity
      then (let n = (if capacity \<noteq> 0 then capacity * 2 else 4)
            in if SIZE_MAX div 64 < n \<or> \<not> host_realloc_ok E (n * 64) then None else Some n)
      else Some capacity)"

lemma next_descriptor_progress:
  "next_descriptor s = Skip_to k \<Longrightarrow> 0 < k" "next_descriptor s = Descriptor b e n a \<Longrightarrow> 0 < e"
  by (auto simp: next_descriptor_def Let_def split: option.splits if_splits prod.splits)

function find_locations ::
    "'g env \<Rightarrow> nat option \<Rightarrow> nat \<Rightarrow> string \<Rightarrow> nat \<Rightarrow> wahe_message_location_t list \<Rightarrow> nat \<Rightarrow> nat \<Rightarrow> 'g world \<Rightarrow>
     (wahe_message_location_t list \<times> nat) option \<times> 'g world" where
  "find_locations E src d msg pos locs location_capacity message_capacity w =
     (if length msg \<le> pos then (Some (locs, message_capacity), w)
      else (case next_descriptor (drop pos msg) of
              No_descriptor \<Rightarrow> (Some (locs, message_capacity), w)
            | Bad_descriptor \<Rightarrow> (None, w)
            | Skip_to k \<Rightarrow> find_locations E src d msg (pos + k) locs location_capacity message_capacity w
            | Descriptor b e n a \<Rightarrow>
                (case location_grows E (length locs) location_capacity of
                   None \<Rightarrow> (None, w)
                 | Some cap \<Rightarrow>
                     (case wahe_prepare_transfer_location src d
                             \<lparr>address_start = pos + b, address_end = pos + e, copy_size = n, src_addr = a,
                              dst_addr = 0, payload_offset = 0, src_ptr = 0, copy_payload = False\<rparr> w of
                        (None, w1) \<Rightarrow> (None, w1)
                      | (Some l, w1) \<Rightarrow>
                          let old_address_len = address_end l - address_start l;
                              added_len = max_address_len - old_address_len
                          in if old_address_len < max_address_len \<and> SIZE_MAX - added_len < message_capacity
                             then (None, w1)
                             else find_locations E src d msg (pos + e) (locs @ [l]) cap (message_capacity + added_len) w1))))"
  by pat_completeness auto
termination
  by (relation "measure (\<lambda>(E, src, d, msg, pos, locs, lc, mc, w). length msg - pos)")
    (auto dest: next_descriptor_progress)

declare find_locations.simps [simp del]

text \<open>The offsets of the copied payloads after the text, and the size of the whole block.\<close>

fun layout_payloads :: "nat \<Rightarrow> wahe_message_location_t list \<Rightarrow> (nat \<times> wahe_message_location_t list) option" where
  "layout_payloads allocation_size [] = Some (allocation_size, [])"
| "layout_payloads allocation_size (l # ls) =
     (if \<not> copy_payload l
      then (case layout_payloads allocation_size ls of None \<Rightarrow> None | Some (sz, ls') \<Rightarrow> Some (sz, l # ls'))
      else (case wahe_align_transfer_size allocation_size 16 of
              None \<Rightarrow> None
            | Some off \<Rightarrow>
                if SIZE_MAX - off < copy_size l then None
                else (case layout_payloads (off + copy_size l) ls of
                        None \<Rightarrow> None
                      | Some (sz, ls') \<Rightarrow> Some (sz, l\<lparr>payload_offset := off\<rparr> # ls'))))"

fun finish_addresses :: "u64 \<Rightarrow> wahe_message_location_t list \<Rightarrow> wahe_message_location_t list option" where
  "finish_addresses a [] = Some []"
| "finish_addresses a (l # ls) =
     (if copy_payload l
      then (if SIZE_MAX - payload_offset l < unat a then None
            else (case finish_addresses a ls of
                    None \<Rightarrow> None
                  | Some ls' \<Rightarrow> Some (l\<lparr>dst_addr := a + of_nat (payload_offset l)\<rparr> # ls')))
      else map_option ((#) l) (finish_addresses a ls))"

definition print_address :: "u64 \<Rightarrow> string" where
  "print_address a = (if a AND host_address_bit \<noteq> 0 then print_intmax a else print_zx a)"

text \<open>Subtraction of sizes wraps; \<open>snprintf\<close> writes at most its size, terminator included.\<close>

definition size_sub :: "nat \<Rightarrow> nat \<Rightarrow> nat" where
  "size_sub a b = (if b \<le> a then a - b else a + 2 ^ 64 - b)"

definition snprintf :: "memory \<Rightarrow> u64 \<Rightarrow> nat \<Rightarrow> string \<Rightarrow> memory option" where
  "snprintf m p n s = (if n = 0 then Some m else mem_store m p (take (n - 1) (bytes_of_string s) @ [0]))"

fun rewrite_locations ::
    "nat \<Rightarrow> u64 \<Rightarrow> u64 \<Rightarrow> wahe_message_location_t list \<Rightarrow> nat \<Rightarrow> nat \<Rightarrow> memory \<Rightarrow> ((nat \<times> nat) option \<times> memory) option" where
  "rewrite_locations cap dst src [] read_pos write_pos m = Some (Some (read_pos, write_pos), m)"
| "rewrite_locations cap dst src (l # ls) read_pos write_pos m =
     (let unchanged_len = size_sub (address_start l) read_pos in
      case memcpy m (dst + of_nat write_pos) (src + of_nat read_pos) unchanged_len of
        None \<Rightarrow> None
      | Some m1 \<Rightarrow>
          let write1 = write_pos + unchanged_len;
              room = size_sub cap write1;
              s = print_address (dst_addr l)
          in (case snprintf m1 (dst + of_nat write1) room s of
                None \<Rightarrow> None
              | Some m2 \<Rightarrow>
                  if room \<le> length s then Some (None, m2)
                  else rewrite_locations cap dst src ls (address_end l) (write1 + length s) m2))"

fun copy_payloads :: "u64 \<Rightarrow> wahe_message_location_t list \<Rightarrow> memory \<Rightarrow> memory option" where
  "copy_payloads dst [] m = Some m"
| "copy_payloads dst (l # ls) m =
     (if copy_payload l \<and> copy_size l \<noteq> 0
      then (case memcpy m (dst + of_nat (payload_offset l)) (src_ptr l) (copy_size l) of
              None \<Rightarrow> None
            | Some m1 \<Rightarrow> copy_payloads dst ls m1)
      else copy_payloads dst ls m)"

text \<open>Filling the block: nothing when a rewritten address or the remainder would not fit.\<close>

definition fill_message ::
    "nat \<Rightarrow> nat \<Rightarrow> u64 \<Rightarrow> u64 \<Rightarrow> wahe_message_location_t list \<Rightarrow> memory \<Rightarrow> (bool \<times> memory) option" where
  "fill_message message_len cap dst src locs m =
     (case rewrite_locations cap dst src locs 0 0 m of
        None \<Rightarrow> None
      | Some (None, m1) \<Rightarrow> Some (False, m1)
      | Some (Some (read_pos, write_pos), m1) \<Rightarrow>
          let tail_len = size_sub message_len read_pos + 1 in
          if size_sub cap write_pos < tail_len then Some (False, m1)
          else (case memcpy m1 (dst + of_nat write_pos) (src + of_nat read_pos) tail_len of
                  None \<Rightarrow> None
                | Some m2 \<Rightarrow> map_option (\<lambda>m3. (True, m3)) (copy_payloads dst locs m2)))"

text \<open>The host pointer of the allocated block, or nothing when it is not inside the module's memory.\<close>

definition destination_block :: "nat \<Rightarrow> u64 \<Rightarrow> nat \<Rightarrow> 'g world \<Rightarrow> u64 option \<times> 'g world" where
  "destination_block d a n w =
     (if mtype (modules w ! d) = WAHE_MODULE_NATIVE then (Some a, w)
      else (let w1 = wahe_refresh_module_memory_size (Some d) w;
                mem_size = wahe_get_module_memory_size (Some d) w1;
                ctx = modules w1 ! d
            in if memory_ptr ctx = 0 \<or> mem_size < unat a \<or> mem_size - unat a < n then (None, w1)
               else (Some (memory_ptr ctx + a), w1)))"

definition release_block :: "'g env \<Rightarrow> nat \<Rightarrow> nat \<Rightarrow> u64 \<Rightarrow> 'g world \<Rightarrow> (u64 \<times> 'g world) option" where
  "release_block E d runner_id a w = map_option (\<lambda>w1. (0, w1)) (call_module_free_on_runner E (Some d) runner_id a w)"

definition wahe_copy_message_between_modules_on_runner ::
    "'g env \<Rightarrow> nat option \<Rightarrow> u64 \<Rightarrow> nat option \<Rightarrow> nat \<Rightarrow> 'g world \<Rightarrow> (u64 \<times> 'g world) option" where
  "wahe_copy_message_between_modules_on_runner E src src_message dst runner_id w =
     do {
       wahe_require_valid_module src w;
       wahe_require_valid_module dst w;
       (case dst of
          None \<Rightarrow> Some (0, w)
        | Some d \<Rightarrow>
            if src_message = 0 then Some (0, w)
            else do {
              (measured, w1) \<leftarrow> wahe_measure_transfer_message src src_message w;
              (case measured of
                 None \<Rightarrow> Some (0, w1)
               | Some message_len \<Rightarrow>
                   if message_len = SIZE_MAX then Some (0, w1)
                   else do {
                     bs \<leftarrow> mem_load (host_mem w1) src_message message_len;
                     (case find_locations E src d (map char_of_byte bs) 0 [] 0 (message_len + 1) w1 of
                        (None, w2) \<Rightarrow> Some (0, w2)
                      | (Some (locs, cap), w2) \<Rightarrow>
                          (case (case wahe_align_transfer_size cap 16 of
                                   None \<Rightarrow> None
                                 | Some text_size \<Rightarrow> layout_payloads text_size locs) of
                             None \<Rightarrow> Some (0, w2)
                           | Some (allocation_size, locs1) \<Rightarrow>
                               do {
                                 (a, w3) \<leftarrow> call_module_malloc_on_runner E (Some d) runner_id (of_nat allocation_size) w2;
                                 (if a = 0 then Some (0, w3)
                                  else (case destination_block d a allocation_size w3 of
                                          (None, w4) \<Rightarrow> release_block E d runner_id a w4
                                        | (Some p, w4) \<Rightarrow>
                                            (case finish_addresses a locs1 of
                                               None \<Rightarrow> release_block E d runner_id a w4
                                             | Some locs2 \<Rightarrow>
                                                 do {
                                                   (ok, h) \<leftarrow> fill_message message_len cap p src_message locs2 (host_mem w4);
                                                   (if ok then Some (a, w4\<lparr>host_mem := h\<rparr>)
                                                    else release_block E d runner_id a (w4\<lparr>host_mem := h\<rparr>))
                                                 })))
                               }))
                   })
            })
     }"

definition wahe_copy_message_between_modules ::
    "'g env \<Rightarrow> nat option \<Rightarrow> u64 \<Rightarrow> nat option \<Rightarrow> 'g world \<Rightarrow> (u64 \<times> 'g world) option" where
  "wahe_copy_message_between_modules E src src_message dst w =
     wahe_copy_message_between_modules_on_runner E src src_message dst (wahe_active_runner_id dst w) w"

section \<open>Reading the descriptors of a text\<close>

lemma strstr_Some:
  "strstr s sub = Some q \<Longrightarrow> \<exists>u. s = u @ q \<and> take (length sub) q = sub \<and>
     (\<forall>i < length u. take (length sub) (drop i s) \<noteq> sub)"
proof (induction s)
  case Nil
  then show ?case by (auto simp: strstr.simps [of "[]"] split: if_splits)
next
  case (Cons c s)
  show ?case
  proof (cases "take (length sub) (c # s) = sub")
    case True
    then have "q = c # s" using Cons.prems by (simp add: strstr.simps [of "c # s"])
    with True show ?thesis by simp
  next
    case False
    then obtain u where u: "s = u @ q" "take (length sub) q = sub" "\<forall>i < length u. take (length sub) (drop i s) \<noteq> sub"
      using Cons by (auto simp: strstr.simps [of "c # s"])
    show ?thesis
      by (rule exI [of _ "c # u"]) (use u False in \<open>auto simp: nth_Cons' less_Suc_eq_0_disj\<close>)
  qed
qed

lemma strstr_first:
  "\<forall>i < k. take (length sub) (drop i s) \<noteq> sub \<Longrightarrow> k \<le> length s \<Longrightarrow> take (length sub) (drop k s) = sub \<Longrightarrow>
   strstr s sub = Some (drop k s)"
proof (induction k arbitrary: s)
  case 0
  then show ?case by (simp add: strstr.simps [of s])
next
  case (Suc k)
  then obtain c t where s: "s = c # t" by (cases s) auto
  have "take (length sub) s \<noteq> sub" using Suc.prems(1) [rule_format, of 0] by simp
  moreover have "\<forall>i < k. take (length sub) (drop i t) \<noteq> sub"
    using Suc.prems(1) s by (metis Suc_less_eq drop_Suc_Cons)
  ultimately show ?case using Suc.IH [of t] Suc.prems s by (simp add: strstr.simps [of "c # t"])
qed

text \<open>The first occurrence does not depend on what follows it.\<close>

lemma strstr_prefix:
  assumes "strstr (p @ x) sub = Some q" "length (p @ x) - length q + length sub \<le> length p"
  shows "strstr (p @ y) sub = Some (drop (length (p @ x) - length q) (p @ y))"
proof -
  obtain u where u: "p @ x = u @ q" "take (length sub) q = sub" "\<forall>i < length u. take (length sub) (drop i (p @ x)) \<noteq> sub"
    using strstr_Some [OF assms(1)] by blast
  have k: "length (p @ x) - length q = length u" using u(1) by (metis add_diff_cancel_right' length_append)
  with assms(2) have le: "length u + length sub \<le> length p" by simp
  have same: "take (length sub) (drop i (p @ y)) = take (length sub) (drop i (p @ x))" if "i \<le> length u" for i
    using that le by simp
  have "drop (length u) (p @ x) = q" using u(1) by simp
  then show ?thesis
    using same u(2,3) le unfolding k by (intro strstr_first) auto
qed

lemma scan_digits_prefix:
  "scan_digits b acc (u @ x) = (v, n) \<Longrightarrow> n < length u \<Longrightarrow> scan_digits b acc (u @ y) = (v, n)"
proof (induction u arbitrary: acc n)
  case (Cons c u)
  then show ?case by (auto split: if_splits prod.splits)
qed simp

lemma scan_digits_le: "scan_digits b acc s = (v, n) \<Longrightarrow> n \<le> length s"
  by (induction s arbitrary: acc v n) (auto split: if_splits prod.splits)

lemma scan_number_le: "scan_number b s = (v, n) \<Longrightarrow> n \<le> length s"
  by (auto simp: scan_number_def split: if_splits list.splits prod.splits dest!: scan_digits_le)

lemma strtoumax_prefix:
  assumes "strtoumax (u @ x) 10 = (v, n, e)" "n < length u"
  shows "strtoumax (u @ y) 10 = (v, n, e)"
  using assms scan_digits_prefix [of 10 0 u x _ n y]
  by (auto simp: strtoumax_def scan_number_def split: prod.splits if_splits)

text \<open>What the recognition of a descriptor saw.\<close>

definition address_number :: "string \<Rightarrow> u64 \<times> nat \<times> bool" where
  "address_number a = (if hd a = CHR ''-'' then strtoimax_minus a 0 else strtoumax a 0)"

lemma next_descriptor_Descriptor:
  assumes "next_descriptor s = Descriptor b e n a"
  obtains u k v j where "strstr s ''location: '' = Some (drop u s)" "u \<le> length s" "b = u + 10 + k + 10" "e = b + j"
    "strtoumax (drop (u + 10) s) 10 = (v, k, False)" "n = unat v"
    "drop (u + 10) s \<noteq> []" "is_digit_in 10 (hd (drop (u + 10) s))"
    "take 10 (drop (u + 10 + k) s) = '' bytes at ''" "drop b s \<noteq> []"
    "is_digit_in 10 (hd (drop b s)) \<or> hd (drop b s) = CHR ''-''"
    "address_number (drop b s) = (a, j, False)" "j \<noteq> 0" "\<not> (hd (drop b s) = CHR ''-'' \<and> j = 1)"
proof -
  obtain q where q: "strstr s ''location: '' = Some q"
    using assms by (auto simp: next_descriptor_def split: option.splits)
  obtain w where w: "s = w @ q" using strstr_Some [OF q] by blast
  then have wq: "length s - length q = length w" "q = drop (length w) s" "length w \<le> length s" by auto
  obtain v k r where num: "strtoumax (drop (length w + 10) s) 10 = (v, k, r)" by (cases "strtoumax (drop (length w + 10) s) 10") auto
  let ?b = "length w + 10 + k + 10"
  obtain v' j r' where addr: "address_number (drop ?b s) = (v', j, r')" by (cases "address_number (drop ?b s)") auto
  show thesis
    using assms q wq num addr
    by (intro that [of "length w" k j v])
       (auto simp: next_descriptor_def Let_def address_number_def numeral_eq_Suc split: if_splits)
qed

lemma next_descriptor_DescriptorI:
  assumes "strstr s ''location: '' = Some (drop u s)" "u \<le> length s" "b = u + 10 + k + 10" "e = b + j"
    "strtoumax (drop (u + 10) s) 10 = (v, k, False)" "n = unat v"
    "drop (u + 10) s \<noteq> []" "is_digit_in 10 (hd (drop (u + 10) s))"
    "take 10 (drop (u + 10 + k) s) = '' bytes at ''" "drop b s \<noteq> []"
    "is_digit_in 10 (hd (drop b s)) \<or> hd (drop b s) = CHR ''-''"
    "address_number (drop b s) = (a, j, False)" "j \<noteq> 0" "\<not> (hd (drop b s) = CHR ''-'' \<and> j = 1)"
  shows "next_descriptor s = Descriptor b e n a"
proof -
  have "length s - length (drop u s) = u" using assms(2) by simp
  then show ?thesis
    using assms by (auto simp: next_descriptor_def Let_def address_number_def numeral_eq_Suc split: if_splits)
qed

lemma descriptor_local:
  assumes "next_descriptor (p @ x) = Descriptor (length p) e n a"
    and y: "y \<noteq> []" "is_digit_in 10 (hd y) \<or> hd y = CHR ''-''" "address_number y = (d, j, False)" "j \<noteq> 0"
      "\<not> (hd y = CHR ''-'' \<and> j = 1)"
  shows "next_descriptor (p @ y) = Descriptor (length p) (length p + j) n d"
proof (rule next_descriptor_Descriptor [OF assms(1)])
  fix u k v j'
  assume old: "strstr (p @ x) ''location: '' = Some (drop u (p @ x))" "u \<le> length (p @ x)" "length p = u + 10 + k + 10"
    "strtoumax (drop (u + 10) (p @ x)) 10 = (v, k, False)" "n = unat v"
    "drop (u + 10) (p @ x) \<noteq> []" "is_digit_in 10 (hd (drop (u + 10) (p @ x)))"
    "take 10 (drop (u + 10 + k) (p @ x)) = '' bytes at ''"
  have u: "length (p @ x) - length (drop u (p @ x)) = u" using old(2) by simp
  have first: "strstr (p @ y) ''location: '' = Some (drop u (p @ y))"
    using strstr_prefix [OF old(1), of y] u old(3) by simp
  have t: "drop (u + 10) (p @ z) = drop (u + 10) p @ z" for z using old(3) by simp
  have len: "length (drop (u + 10) p) = k + 20 - 10" using old(3) by simp
  then have ne: "drop (u + 10) p \<noteq> []" by (intro notI) simp
  have num: "strtoumax (drop (u + 10) (p @ y)) 10 = (v, k, False)"
    using strtoumax_prefix [of "drop (u + 10) p" x v k False y] old(4) len unfolding t by simp
  have hd: "is_digit_in 10 (hd (drop (u + 10) (p @ y)))" using old(7) ne unfolding t by simp
  have sep: "take 10 (drop (u + 10 + k) (p @ z)) = drop (u + 10 + k) p" for z using old(3) by simp
  have at_y: "drop (length p) (p @ y) = y" by simp
  show ?thesis
  proof (rule next_descriptor_DescriptorI [OF first _ old(3) refl num old(5)])
    show "take 10 (drop (u + 10 + k) (p @ y)) = '' bytes at ''" using old(8) unfolding sep .
  qed (use hd y ne old(3) in \<open>simp_all add: at_y\<close>)
qed

lemma skip_local:
  assumes "next_descriptor (p @ c # x) = Skip_to (length p)"
  shows "next_descriptor (p @ c # y) = Skip_to (length p)"
proof -
  obtain q where q: "strstr (p @ c # x) ''location: '' = Some q"
    using assms by (auto simp: next_descriptor_def split: option.splits)
  obtain w where w: "p @ c # x = w @ q" using strstr_Some [OF q] by blast
  have lw: "length (p @ c # x) - length q = length w" using w by simp
  have len: "length w + 10 = length p" and nd: "\<not> is_digit_in 10 c"
    using assms q lw by (auto simp: next_descriptor_def Let_def split: if_splits prod.splits)
  have "strstr (p @ c # y) ''location: '' = Some (drop (length w) (p @ c # y))"
    using strstr_prefix [OF q, of "c # y"] lw len by simp
  then show ?thesis using len nd by (simp add: next_descriptor_def Let_def)
qed

lemma host_bit: "a AND host_address_bit = 0 \<longleftrightarrow> \<not> bit a 63"
  using and_exp_eq_0_iff_not_bit [of a 63] by (simp add: host_address_bit_def push_bit_eq_mult)

lemma print_address_number:
  assumes "ends_number r"
  shows "address_number (print_address d @ r) = (d, length (print_address d), False)"
    and "is_digit_in 10 (hd (print_address d)) \<or> hd (print_address d) = CHR ''-''"
    and "print_address d \<noteq> []" and "\<not> (hd (print_address d) = CHR ''-'' \<and> length (print_address d) = 1)"
proof -
  have zx: "hd (print_zx d) = CHR ''0''" "print_zx d \<noteq> []" by (auto simp: print_zx_def)
  have zero: "is_digit_in 10 CHR ''0''" by (simp add: is_digit_in_def digit_value_def Let_def)
  show ne: "print_address d \<noteq> []" by (simp add: print_address_def zx print_intmax_def)
  show "address_number (print_address d @ r) = (d, length (print_address d), False)"
  proof (cases "bit d 63")
    case True
    then show ?thesis using strtoimax_print_negative [OF True assms] ne
      by (simp add: address_number_def print_address_def host_bit)
  next
    case False
    then show ?thesis using strtoumax_print_zx [OF assms, of d] zx
      by (simp add: address_number_def print_address_def host_bit)
  qed
  show "is_digit_in 10 (hd (print_address d)) \<or> hd (print_address d) = CHR ''-''"
    using strtoimax_print_negative(2) [of d "[]"] zx zero
    by (cases "bit d 63") (simp_all add: print_address_def host_bit ends_number_def)
  show "\<not> (hd (print_address d) = CHR ''-'' \<and> length (print_address d) = 1)"
  proof (cases "bit d 63")
    case True
    then have "sint d < 0" using bit_last_iff [of d] by simp
    with True show ?thesis by (simp add: print_address_def host_bit print_intmax_def)
  next
    case False
    with zx show ?thesis by (simp add: print_address_def host_bit)
  qed
qed

text \<open>
  All the descriptors of a text: for each the text before its address, the address as written,
  the size and the address; and the text after the last one. Nothing if one is malformed.
\<close>

type_synonym segment = "string \<times> string \<times> nat \<times> u64"

fun prepend_text :: "string \<Rightarrow> segment list \<times> string \<Rightarrow> segment list \<times> string" where
  "prepend_text u ([], t) = ([], u @ t)"
| "prepend_text u ((p, r) # segs, t) = ((u @ p, r) # segs, t)"

function scan_text :: "string \<Rightarrow> (segment list \<times> string) option" where
  "scan_text s =
     (if s = [] then Some ([], [])
      else (case next_descriptor s of
              No_descriptor \<Rightarrow> Some ([], s)
            | Bad_descriptor \<Rightarrow> None
            | Skip_to k \<Rightarrow> map_option (prepend_text (take k s)) (scan_text (drop k s))
            | Descriptor b e n a \<Rightarrow>
                map_option (\<lambda>(segs, t). ((take b s, take (e - b) (drop b s), n, a) # segs, t)) (scan_text (drop e s))))"
  by pat_completeness auto
termination
  by (relation "measure length") (auto dest: next_descriptor_progress)

declare scan_text.simps [simp del]

definition text_of :: "segment list \<Rightarrow> string \<Rightarrow> string" where
  "text_of segs t = concat (map (\<lambda>(p, a, _). p @ a) segs) @ t"

text \<open>The text with the addresses replaced.\<close>

fun readdress :: "segment list \<Rightarrow> u64 list \<Rightarrow> segment list" where
  "readdress ((p, a, n, v) # segs) (d # ds) = (p, print_address d, n, d) # readdress segs ds"
| "readdress segs ds = []"

text \<open>Every address is followed by a character that cannot be read as part of it.\<close>

fun addresses_end :: "segment list \<Rightarrow> string \<Rightarrow> bool" where
  "addresses_end [] t = True"
| "addresses_end (s # segs) t \<longleftrightarrow> ends_number (text_of segs t) \<and> addresses_end segs t"

lemma descriptor_bounds:
  assumes "next_descriptor s = Descriptor b e n a"
  shows "20 \<le> b" "b < e" "e \<le> length s"
proof -
  have "20 \<le> b \<and> b < e \<and> e \<le> length s"
  proof (rule next_descriptor_Descriptor [OF assms])
    fix u k v j
    assume s: "b = u + 10 + k + 10" "e = b + j" "address_number (drop b s) = (a, j, False)" "j \<noteq> 0" "drop b s \<noteq> []"
    have "j \<le> length (drop b s)"
      using s(3,5) scan_number_le [of 0 "drop b s"] scan_number_le [of 0 "tl (drop b s)"]
      by (cases "drop b s")
        (auto simp: address_number_def strtoimax_minus_def strtoumax_def split: if_splits prod.splits)
    with s show ?thesis by (cases "b \<le> length s") auto
  qed
  then show "20 \<le> b" "b < e" "e \<le> length s" by auto
qed

lemma skip_bounds: "next_descriptor s = Skip_to k \<Longrightarrow> 10 \<le> k \<and> k \<le> length s"
proof -
  assume a: "next_descriptor s = Skip_to k"
  obtain q where q: "strstr s ''location: '' = Some q"
    using a by (auto simp: next_descriptor_def split: option.splits)
  obtain w where w: "s = w @ q" "take (length ''location: '') q = ''location: ''" using strstr_Some [OF q] by blast
  have "length (take (length ''location: '') q) = length ''location: ''" by (simp only: w(2))
  then have "10 \<le> length q" by simp
  moreover have "k = length w + 10" using a q w by (auto simp: next_descriptor_def Let_def split: if_splits prod.splits)
  ultimately show ?thesis using w by simp
qed

lemma text_of_simps [simp]: "text_of [] t = t" "text_of ((p, a, r) # segs) t = p @ a @ text_of segs t"
  by (simp_all add: text_of_def)

lemma text_of_prepend: "text_of (fst (prepend_text u (segs, t))) (snd (prepend_text u (segs, t))) = u @ text_of segs t"
  by (cases segs) auto

lemma scan_text_text: "scan_text s = Some (segs, t) \<Longrightarrow> text_of segs t = s"
proof (induction s arbitrary: segs t rule: scan_text.induct)
  case (1 s)
  show ?case
  proof (cases "next_descriptor s")
    case (Skip_to k)
    with 1(3) obtain segs' t' where r: "s = [] \<and> segs = [] \<and> t = [] \<or> s \<noteq> [] \<and> scan_text (drop k s) = Some (segs', t') \<and> (segs, t) = prepend_text (take k s) (segs', t')"
      by (auto simp: scan_text.simps [of s] split: if_splits)
    have "text_of segs t = take k s @ text_of segs' t'" if "(segs, t) = prepend_text (take k s) (segs', t')"
      using text_of_prepend [of "take k s" segs' t'] that by (metis fst_conv snd_conv)
    with r show ?thesis using 1(1) [OF _ Skip_to] by auto
  next
    case (Descriptor b e n a)
    show ?thesis
    proof (cases "s = []")
      case False
      then obtain segs' where r: "scan_text (drop e s) = Some (segs', t)"
          "segs = (take b s, take (e - b) (drop b s), n, a) # segs'"
        using 1(3) Descriptor by (auto simp: scan_text.simps [of s])
      have "text_of segs' t = drop e s" using 1(2) [OF False Descriptor r(1)] .
      moreover have "drop b s = take (e - b) (drop b s) @ drop e s"
        using descriptor_bounds [OF Descriptor] by (metis append_take_drop_id drop_drop le_add_diff_inverse2 less_imp_le)
      ultimately show ?thesis using r(2) by simp
    qed (use 1(3) in \<open>simp add: scan_text.simps\<close>)
  qed (use 1(3) in \<open>auto simp: scan_text.simps [of s] split: if_splits\<close>)
qed


lemma prepend_readdress:
  "prepend_text u (segs', t') = (segs, t) \<Longrightarrow> length ds = length segs' \<Longrightarrow>
   prepend_text u (readdress segs' ds, t') = (readdress segs ds, t)"
  by (cases segs'; cases ds) auto

lemma prepend_facts:
  assumes "prepend_text u (segs', t') = (segs, t)"
  shows "length segs = length segs'" "addresses_end segs t \<longleftrightarrow> addresses_end segs' t'"
    "list_all (\<lambda>(p, _). p \<noteq> []) segs' \<Longrightarrow> list_all (\<lambda>(p, _). p \<noteq> []) segs"
  using assms by (cases segs'; auto)+

lemma scan_text_nonempty: "scan_text s = Some (segs, t) \<Longrightarrow> list_all (\<lambda>(p, _). p \<noteq> []) segs"
proof (induction s arbitrary: segs t rule: scan_text.induct)
  case (1 s)
  show ?case
  proof (cases "s = []")
    case True
    with 1(3) show ?thesis by (simp add: scan_text.simps)
  next
    case False
    show ?thesis
    proof (cases "next_descriptor s")
      case (Skip_to k)
      then obtain segs' t' where "scan_text (drop k s) = Some (segs', t')" "prepend_text (take k s) (segs', t') = (segs, t)"
        using 1(3) False by (auto simp: scan_text.simps [of s])
      with 1(1) [OF False Skip_to] prepend_facts(3) show ?thesis by metis
    next
      case (Descriptor b e n a)
      then obtain segs' where r: "scan_text (drop e s) = Some (segs', t)"
          "segs = (take b s, take (e - b) (drop b s), n, a) # segs'"
        using 1(3) False by (auto simp: scan_text.simps [of s])
      with 1(2) [OF False Descriptor] False descriptor_bounds(1) [OF Descriptor] show ?thesis by auto
    qed (use 1(3) False in \<open>auto simp: scan_text.simps [of s]\<close>)
  qed
qed

lemma readdress_hd:
  assumes "list_all (\<lambda>(p, _). p \<noteq> []) segs" "length ds = length segs"
  shows "text_of (readdress segs ds) t = [] \<longleftrightarrow> text_of segs t = []"
    and "text_of segs t \<noteq> [] \<Longrightarrow> hd (text_of (readdress segs ds) t) = hd (text_of segs t)"
  using assms by (cases segs; cases ds; auto)+

lemma scan_readdress:
  "scan_text s = Some (segs, t) \<Longrightarrow> length ds = length segs \<Longrightarrow> addresses_end segs t \<Longrightarrow>
   scan_text (text_of (readdress segs ds) t) = Some (readdress segs ds, t)"
proof (induction s arbitrary: segs t ds rule: scan_text.induct)
  case (1 s)
  show ?case
  proof (cases "s = []")
    case True
    with 1(3) show ?thesis by (auto simp: scan_text.simps)
  next
    case False
    show ?thesis
    proof (cases "next_descriptor s")
      case No_descriptor
      with 1(3) False have "segs = []" "t = s" by (auto simp: scan_text.simps [of s])
      with No_descriptor False show ?thesis by (simp add: scan_text.simps [of s])
    next
      case Bad_descriptor
      with 1(3) False show ?thesis by (simp add: scan_text.simps [of s])
    next
      case (Skip_to k)
      obtain segs' t' where r: "scan_text (drop k s) = Some (segs', t')" "prepend_text (take k s) (segs', t') = (segs, t)"
        using 1(3) False Skip_to by (auto simp: scan_text.simps [of s])
      let ?r = "text_of (readdress segs' ds) t'"
      note pre = prepend_facts [OF r(2)]
      have len: "length ds = length segs'" using 1(4) pre(1) by simp
      have IH: "scan_text ?r = Some (readdress segs' ds, t')"
        using 1(1) [OF False Skip_to r(1) len] 1(5) pre(2) by simp
      have whole: "text_of (readdress segs ds) t = take k s @ ?r"
        using text_of_prepend [of "take k s" "readdress segs' ds" t'] prepend_readdress [OF r(2) len] by simp
      have k: "length (take k s) = k" "0 < k" using skip_bounds [OF Skip_to] by simp_all
      have "next_descriptor (take k s @ ?r) = Skip_to k"
      proof (cases "drop k s")
        case Nil
        then have "?r = []" using r(1) by (auto simp: scan_text.simps)
        with Nil Skip_to show ?thesis by simp
      next
        case (Cons c x)
        have "text_of segs' t' = c # x" using scan_text_text [OF r(1)] Cons by simp
        then obtain y where y: "?r = c # y"
          using readdress_hd [OF scan_text_nonempty [OF r(1)] len, of t'] by (cases ?r) auto
        have "take k s @ c # x = s" using Cons by (metis append_take_drop_id)
        with skip_local [of "take k s" c x y] k(1) Skip_to y show ?thesis by simp
      qed
      moreover have "take k s @ ?r \<noteq> []" using k False by auto
      ultimately show ?thesis
        unfolding whole using IH k(1) prepend_readdress [OF r(2) len] by (auto simp: scan_text.simps [of "take k s @ ?r"])
    next
      case (Descriptor b e n a)
      obtain segs' where r: "scan_text (drop e s) = Some (segs', t)"
          "segs = (take b s, take (e - b) (drop b s), n, a) # segs'"
        using 1(3) False Descriptor by (auto simp: scan_text.simps [of s])
      obtain d ds' where ds: "ds = d # ds'" "length ds' = length segs'" using 1(4) r(2) by (cases ds) auto
      let ?r = "text_of (readdress segs' ds') t"
      note bounds = descriptor_bounds [OF Descriptor]
      have IH: "scan_text ?r = Some (readdress segs' ds', t)"
        using 1(2) [OF False Descriptor r(1) ds(2)] 1(5) r(2) by simp
      have ends: "ends_number ?r"
        using 1(5) r(2) readdress_hd [OF scan_text_nonempty [OF r(1)] ds(2), of t] by (auto simp: ends_number_def)
      have b: "length (take b s) = b" using bounds by simp
      have s: "take b s @ drop b s = s" by simp
      have "next_descriptor (take b s @ print_address d @ ?r) = Descriptor b (b + length (print_address d)) n d"
        using descriptor_local [of "take b s" "drop b s" e n a "print_address d @ ?r" d "length (print_address d)"]
          print_address_number [OF ends, of d] Descriptor b by simp
      moreover have "take b s \<noteq> []" using bounds False by auto
      ultimately show ?thesis
        using IH b r(2) ds(1) by (simp add: scan_text.simps [of "take b s @ print_address d @ ?r"])
    qed
  qed
qed

section \<open>Where the descriptors are\<close>

fun located :: "nat \<Rightarrow> segment list \<Rightarrow> wahe_message_location_t list \<Rightarrow> bool" where
  "located pos [] [] = True"
| "located pos ((p, a, n, v) # segs) (l # ls) \<longleftrightarrow>
     address_start l = pos + length p \<and> address_end l = pos + length p + length a \<and> copy_size l = n \<and> src_addr l = v \<and>
     located (address_end l) segs ls"
| "located pos segs ls = False"

definition slack :: "wahe_message_location_t list \<Rightarrow> nat" where
  "slack ls = sum_list (map (\<lambda>l. max_address_len - (address_end l - address_start l)) ls)"

lemma slack_simps [simp]: "slack [] = 0"
    "slack (l # ls) = max_address_len - (address_end l - address_start l) + slack ls"
  by (simp_all add: slack_def)

lemma located_length: "located pos segs ls \<Longrightarrow> length ls = length segs"
  by (induction pos segs ls rule: located.induct) auto

lemma located_prepend:
  "prepend_text u (segs', t') = (segs, t) \<Longrightarrow> located (pos + length u) segs' ls \<Longrightarrow> located pos segs ls"
  by (cases segs'; cases ls) (auto simp: add.assoc)

lemma prepare_keeps:
  assumes "wahe_prepare_transfer_location src d l w = (r, w')"
  shows "host_mem w' = host_mem w"
    and "r = Some l' \<Longrightarrow> address_start l' = address_start l \<and> address_end l' = address_end l \<and>
      copy_size l' = copy_size l \<and> src_addr l' = src_addr l \<and> payload_offset l' = payload_offset l"
proof -
  have res: "host_mem (snd (wahe_resolve_transfer_source src a n w)) = host_mem w" for a n
    by (simp add: wahe_resolve_transfer_source_def Let_def split: option.split)
  show "host_mem w' = host_mem w"
    using assms res [of "src_addr l" "copy_size l"]
    by (auto simp: wahe_prepare_transfer_location_def Let_def split: prod.splits option.splits if_splits)
  show "r = Some l' \<Longrightarrow> address_start l' = address_start l \<and> address_end l' = address_end l \<and>
      copy_size l' = copy_size l \<and> src_addr l' = src_addr l \<and> payload_offset l' = payload_offset l"
    using assms by (auto simp: wahe_prepare_transfer_location_def Let_def split: prod.splits option.splits if_splits)
qed

lemma find_locations_scan:
  assumes "find_locations E src d msg pos locs lc mc w = (Some (locs', cap), w')" "pos \<le> length msg"
  shows "\<exists>new segs t. locs' = locs @ new \<and> scan_text (drop pos msg) = Some (segs, t) \<and> located pos segs new \<and>
    cap = mc + slack new \<and> (mc \<le> SIZE_MAX \<longrightarrow> cap \<le> SIZE_MAX) \<and> host_mem w' = host_mem w"
  using assms
proof (induction E src d msg pos locs lc mc w rule: find_locations.induct)
  case (1 E src d msg pos locs lc mc w)
  show ?case
  proof (cases "length msg \<le> pos")
    case True
    with 1(3,4) show ?thesis
      by (intro exI [of _ "[]"]) (simp add: find_locations.simps [of E src d msg pos] scan_text.simps)
  next
    case False
    then have ne: "drop pos msg \<noteq> []" by simp
    show ?thesis
    proof (cases "next_descriptor (drop pos msg)")
      case No_descriptor
      with 1(3) False ne show ?thesis
        by (intro exI [of _ "[]"] exI [of _ "drop pos msg"])
          (auto simp: find_locations.simps [of E src d msg pos] scan_text.simps [of "drop pos msg"])
    next
      case Bad_descriptor
      with 1(3) False show ?thesis by (simp add: find_locations.simps [of E src d msg pos])
    next
      case (Skip_to k)
      note k = skip_bounds [OF Skip_to]
      have "find_locations E src d msg (pos + k) locs lc mc w = (Some (locs', cap), w')"
        using 1(3) False Skip_to by (simp add: find_locations.simps [of E src d msg pos])
      moreover have "pos + k \<le> length msg" using k False by (simp, arith)
      ultimately obtain new segs' t' where r: "locs' = locs @ new" "scan_text (drop (pos + k) msg) = Some (segs', t')"
          "located (pos + k) segs' new" "cap = mc + slack new" "mc \<le> SIZE_MAX \<longrightarrow> cap \<le> SIZE_MAX" "host_mem w' = host_mem w"
        using 1(1) [OF False Skip_to] by blast
      obtain segs t where p: "prepend_text (take k (drop pos msg)) (segs', t') = (segs, t)" by fastforce
      have "scan_text (drop pos msg) = Some (segs, t)"
        using Skip_to ne r(2) p by (simp add: scan_text.simps [of "drop pos msg"] add.commute)
      moreover have "located pos segs new" using located_prepend [OF p] r(3) k by simp
      ultimately show ?thesis using r by blast
    next
      case (Descriptor b e n a)
      note bounds = descriptor_bounds [OF Descriptor]
      obtain c l w1 where step: "location_grows E (length locs) lc = Some c"
          "wahe_prepare_transfer_location src d
             \<lparr>address_start = pos + b, address_end = pos + e, copy_size = n, src_addr = a,
              dst_addr = 0, payload_offset = 0, src_ptr = 0, copy_payload = False\<rparr> w = (Some l, w1)"
          "\<not> (address_end l - address_start l < max_address_len \<and> SIZE_MAX - (max_address_len - (address_end l - address_start l)) < mc)"
          "find_locations E src d msg (pos + e) (locs @ [l]) c (mc + (max_address_len - (address_end l - address_start l))) w1 =
             (Some (locs', cap), w')"
        using 1(3) False Descriptor
        by (auto simp: find_locations.simps [of E src d msg pos] Let_def split: option.splits prod.splits if_splits)
      note l = prepare_keeps [OF step(2)]
      have l': "address_start l = pos + b" "address_end l = pos + e" "copy_size l = n" "src_addr l = a"
        using l(2) by auto
      have "pos + e \<le> length msg" using bounds False by simp
      with 1(2) [OF False Descriptor step(1) step(2) [symmetric] refl refl refl step(3)] step(4)
      obtain new segs' t' where r: "locs' = (locs @ [l]) @ new" "scan_text (drop (pos + e) msg) = Some (segs', t')"
          "located (pos + e) segs' new" "cap = mc + (max_address_len - (address_end l - address_start l)) + slack new"
          "mc + (max_address_len - (address_end l - address_start l)) \<le> SIZE_MAX \<longrightarrow> cap \<le> SIZE_MAX"
          "host_mem w' = host_mem w1"
        by blast
      let ?segs = "(take b (drop pos msg), take (e - b) (drop b (drop pos msg)), n, a) # segs'"
      have scan: "scan_text (drop pos msg) = Some (?segs, t')"
        using Descriptor ne r(2) by (simp add: scan_text.simps [of "drop pos msg"] add.commute)
      have loc: "located pos ?segs (l # new)" using l' bounds r(3) by simp
      have "mc \<le> SIZE_MAX \<longrightarrow> cap \<le> SIZE_MAX"
      proof
        assume "mc \<le> SIZE_MAX"
        then have "mc + (max_address_len - (address_end l - address_start l)) \<le> SIZE_MAX"
          using step(3) by (cases "address_end l - address_start l < max_address_len") (auto simp: max_address_len_def)
        with r(5) show "cap \<le> SIZE_MAX" by blast
      qed
      moreover have "locs' = locs @ l # new" "cap = mc + slack (l # new)" "host_mem w' = host_mem w"
        using r l(1) by simp_all
      ultimately show ?thesis using scan loc by blast
    qed
  qed
qed

section \<open>The layout of the block\<close>

lemma align_16:
  assumes "wahe_align_transfer_size v 16 = Some r"
  shows "v \<le> r" "r < v + 16" "16 dvd r" "v \<le> SIZE_MAX - 15"
proof -
  show le: "v \<le> SIZE_MAX - 15" using assms by (simp add: wahe_align_transfer_size_def split: if_splits)
  define x where "x = (of_nat v + 15 :: u64)"
  have x: "unat x = v + 15"
    using le by (simp add: x_def unat_word_ariths(1) unat_of_nat take_bit_eq_mod)
  have m: "(15 :: u64) = mask 4" by (simp add: mask_eq_exp_minus_1)
  have "x AND NOT (mask 4) = push_bit 4 (drop_bit 4 x)"
    by (rule bit_word_eqI) (auto simp: bit_simps)
  then have "unat (x AND NOT 15) = take_bit 64 (push_bit 4 (drop_bit 4 (unat x)))"
    by (simp only: m unsigned_push_bit_eq unsigned_drop_bit_eq) (simp add: take_bit_nat_eq_self [OF unat_lt64])
  also have "\<dots> = (v + 15) div 16 * 16 mod 2 ^ 64" by (simp add: x take_bit_eq_mod push_bit_eq_mult drop_bit_eq_div)
  also have "(v + 15) div 16 * 16 mod 2 ^ 64 = (v + 15) div 16 * 16"
  proof (rule mod_less)
    have "(v + 15) div 16 * 16 \<le> v + 15" by simp
    also have "\<dots> < 2 ^ 64" using le by simp
    finally show "(v + 15) div 16 * 16 < (2 :: nat) ^ 64" .
  qed
  finally have "r = (v + 15) div 16 * 16"
    using assms by (simp add: wahe_align_transfer_size_def x_def add.commute add_diff_eq split: if_splits)
  then show "v \<le> r" "r < v + 16" "16 dvd r" by auto
qed


text \<open>
  Payload offsets: each copied payload has an aligned block of its own, after \<open>lo\<close> and before
  \<open>hi\<close>, in the order of the descriptors; nothing else of a descriptor changes.
\<close>

definition same_location :: "wahe_message_location_t \<Rightarrow> wahe_message_location_t \<Rightarrow> bool" where
  "same_location l l' \<longleftrightarrow> copy_payload l' = copy_payload l \<and> copy_size l' = copy_size l \<and> src_ptr l' = src_ptr l \<and>
     src_addr l' = src_addr l \<and> address_start l' = address_start l \<and> address_end l' = address_end l \<and>
     (\<not> copy_payload l \<longrightarrow> dst_addr l' = dst_addr l)"

fun laid_out :: "nat \<Rightarrow> nat \<Rightarrow> wahe_message_location_t list \<Rightarrow> wahe_message_location_t list \<Rightarrow> bool" where
  "laid_out lo hi [] ls' \<longleftrightarrow> ls' = [] \<and> lo \<le> hi"
| "laid_out lo hi (l # ls) [] = False"
| "laid_out lo hi (l # ls) (l' # ls') \<longleftrightarrow>
     same_location l l' \<and>
     (if copy_payload l
      then lo \<le> payload_offset l' \<and> 16 dvd payload_offset l' \<and> laid_out (payload_offset l' + copy_size l) hi ls ls'
      else laid_out lo hi ls ls')"

lemma layout_payloads_spec:
  "layout_payloads lo ls = Some (hi, ls') \<Longrightarrow> lo \<le> SIZE_MAX \<Longrightarrow> laid_out lo hi ls ls' \<and> hi \<le> SIZE_MAX"
proof (induction lo ls arbitrary: hi ls' rule: layout_payloads.induct)
  case (2 lo l ls)
  show ?case
  proof (cases "copy_payload l")
    case True
    then obtain off ls1 where r: "wahe_align_transfer_size lo 16 = Some off" "\<not> SIZE_MAX - off < copy_size l"
        "layout_payloads (off + copy_size l) ls = Some (hi, ls1)" "ls' = l\<lparr>payload_offset := off\<rparr> # ls1"
      using 2(3) by (auto split: option.splits if_splits)
    note a = align_16 [OF r(1)]
    have "off + copy_size l \<le> SIZE_MAX" using r(2) a by simp
    with 2(2) [of off hi ls1] True r a show ?thesis by (simp add: same_location_def)
  next
    case False
    with 2 show ?thesis by (auto simp: same_location_def split: option.splits)
  qed
qed simp

lemma laid_out_le: "laid_out lo hi ls ls' \<Longrightarrow> lo \<le> hi"
  by (induction lo hi ls ls' rule: laid_out.induct) (auto split: if_splits)

lemma laid_out_same: "laid_out lo hi ls ls' \<Longrightarrow> list_all2 same_location ls ls'"
  by (induction lo hi ls ls' rule: laid_out.induct) (auto split: if_splits)

lemma located_same: "list_all2 same_location ls ls' \<Longrightarrow> located pos segs ls \<Longrightarrow> located pos segs ls'"
proof (induction ls ls' arbitrary: pos segs rule: list_all2_induct)
  case (Cons l ls l' ls')
  then show ?case by (cases segs) (auto simp: same_location_def)
qed

lemma slack_same: "list_all2 same_location ls ls' \<Longrightarrow> slack ls' = slack ls"
  by (induction rule: list_all2_induct) (auto simp: same_location_def)

lemma finish_addresses_spec:
  "finish_addresses a ls = Some ls' \<Longrightarrow>
   list_all2 (\<lambda>l l'. same_location l l' \<and> payload_offset l' = payload_offset l \<and>
     (copy_payload l \<longrightarrow> dst_addr l' = a + of_nat (payload_offset l))) ls ls'"
  by (induction a ls arbitrary: ls' rule: finish_addresses.induct)
    (auto simp: same_location_def split: if_splits option.splits)

lemma laid_out_finish:
  "laid_out lo hi ls ls' \<Longrightarrow> list_all2 (\<lambda>l l'. same_location l l' \<and> payload_offset l' = payload_offset l) ls' ls'' \<Longrightarrow>
   laid_out lo hi ls ls''"
proof (induction lo hi ls ls' arbitrary: ls'' rule: laid_out.induct)
  case (3 lo hi l ls l' ls')
  then obtain m ms where "ls'' = m # ms" by (auto simp: list_all2_Cons1)
  with 3 show ?case by (auto simp: same_location_def split: if_splits)
qed auto

section \<open>Filling the block\<close>

lemma in_block_offset:
  assumes "in_block (p + of_nat j) n q" "j + n \<le> sz" "sz \<le> 2 ^ 64"
  shows "in_block p sz q" "j \<le> unat (q - p)" "unat (q - p) < j + n"
proof -
  have j: "unat (of_nat j :: u64) = j"
    using assms by (cases "n = 0") (auto simp: unat_of_nat take_bit_eq_mod in_block_def)
  show "in_block p sz q" using in_block_sub [OF assms(1), of sz] j assms by simp
  have q: "q - p = (q - (p + of_nat j)) + of_nat j" by simp
  have lt: "unat (q - (p + of_nat j)) + j < 2 ^ 64" using assms by (simp add: in_block_def)
  have "unat (q - p) = unat (q - (p + of_nat j)) + j"
    unfolding q using lt j by (subst unat_word_ariths(1)) simp
  with assms(1) show "j \<le> unat (q - p)" "unat (q - p) < j + n" by (simp_all add: in_block_def)
qed

lemma disjoint_sub_blocks:
  assumes "disjoint_blocks p n q k" "i + a \<le> n" "j + b \<le> k" "n \<le> 2 ^ 64" "k \<le> 2 ^ 64"
  shows "disjoint_blocks (p + of_nat i) a (q + of_nat j) b"
  using assms in_block_offset(1) by (fastforce simp: disjoint_blocks_def)

lemma disjoint_no_overlap:
  assumes "disjoint_blocks p n q n" "n \<noteq> 0"
  shows "\<not> unat (p - q) < n" "\<not> unat (q - p) < n"
proof -
  have "in_block p n p" "in_block q n q" using assms(2) by (simp_all add: in_block_def)
  with assms(1) show "\<not> unat (p - q) < n" "\<not> unat (q - p) < n" by (auto simp: disjoint_blocks_def in_block_def)
qed

text \<open>
  The block of \<open>cap\<close> bytes at \<open>dst\<close> starts with \<open>out\<close>, everything outside it is as in \<open>m0\<close>.
\<close>

definition filled :: "memory \<Rightarrow> u64 \<Rightarrow> nat \<Rightarrow> byte list \<Rightarrow> memory \<Rightarrow> bool" where
  "filled m0 dst cap out m \<longleftrightarrow>
     mem_load m dst (length out) = Some out \<and> (\<forall>q. \<not> in_block dst cap q \<longrightarrow> m q = m0 q) \<and>
     (\<forall>q. m q = None \<longleftrightarrow> m0 q = None)"

definition block_mapped :: "memory \<Rightarrow> u64 \<Rightarrow> nat \<Rightarrow> bool" where
  "block_mapped m p n \<longleftrightarrow> (\<forall>q. in_block p n q \<longrightarrow> m q \<noteq> None)"

lemma filled_start: "filled m dst cap [] m"
  by (simp add: filled_def mem_load_iff)

lemma filled_take: "filled m0 dst cap (xs @ ys) m \<Longrightarrow> filled m0 dst cap xs m"
  using mem_load_append [of xs "length xs" m dst "length ys" ys] by (simp add: filled_def)

lemma filled_outside:
  assumes "filled m0 dst cap out m" "disjoint_blocks dst cap q n" "n \<le> 2 ^ 64"
  shows "mem_load m q n = mem_load m0 q n"
  using assms by (intro mem_load_cong) (auto simp: filled_def disjoint_blocks_def)

lemma filled_store:
  assumes m: "filled m0 dst cap out m" and mapped: "block_mapped m0 dst cap"
    and fits: "length out + length bs \<le> cap" "cap \<le> 2 ^ 64"
  shows "\<exists>m'. mem_store m (dst + of_nat (length out)) bs = Some m' \<and> filled m0 dst cap (out @ bs) m'"
proof -
  let ?p = "dst + of_nat (length out) :: u64"
  have inside: "in_block dst cap q" if "in_block ?p (length bs) q" for q
    using in_block_offset(1) [OF that fits] .
  have "m q \<noteq> None" if "in_block ?p (length bs) q" for q
    using inside [OF that] m mapped by (auto simp: filled_def block_mapped_def)
  then obtain m' where m': "mem_store m ?p bs = Some m'"
    using mem_store_possible [of ?p bs m] fits by auto
  have "disjoint_blocks ?p (length bs) dst (length out)"
    unfolding disjoint_blocks_def
  proof (intro allI notI)
    fix q assume q: "in_block ?p (length bs) q \<and> in_block dst (length out) q"
    with in_block_offset(2) [of dst "length out" "length bs" q cap] fits show False by (simp add: in_block_def)
  qed
  then have "mem_load m' dst (length out) = mem_load m dst (length out)"
    using hm.load_put_other [OF m'] fits by simp
  then have "mem_load m' dst (length (out @ bs)) = Some (out @ bs)"
    using m mem_store_load [OF m'] fits mem_load_append [of out "length out" m' dst "length bs" bs]
    by (simp add: filled_def)
  moreover have "m' q = m0 q" if "\<not> in_block dst cap q" for q
    using mem_store_effect(1) [OF m', of q] inside [of q] m that by (auto simp: filled_def)
  ultimately have "filled m0 dst cap (out @ bs) m'"
    using mem_store_effect(2) [OF m'] m by (simp add: filled_def)
  with m' show ?thesis by blast
qed

lemma filled_memcpy:
  assumes m: "filled m0 dst cap out m" and mapped: "block_mapped m0 dst cap"
    and fits: "length out + length bs \<le> cap" "cap \<le> 2 ^ 64"
    and src: "mem_load m0 s (length bs) = Some bs" "disjoint_blocks dst cap s (length bs)"
  shows "\<exists>m'. memcpy m (dst + of_nat (length out)) s (length bs) = Some m' \<and> filled m0 dst cap (out @ bs) m'"
proof -
  let ?p = "dst + of_nat (length out) :: u64"
  obtain m' where m': "mem_store m ?p bs = Some m'" "filled m0 dst cap (out @ bs) m'"
    using filled_store [OF m mapped fits] by blast
  have "mem_load m s (length bs) = Some bs"
    using filled_outside [OF m src(2)] src(1) fits by simp
  moreover have "disjoint_blocks ?p (length bs) s (length bs)"
    using disjoint_sub_blocks [OF src(2) fits(1), of 0 "length bs"] fits by simp
  then have "length bs \<noteq> 0 \<longrightarrow> \<not> unat (?p - s) < length bs \<and> \<not> unat (s - ?p) < length bs"
    using disjoint_no_overlap [of ?p "length bs" s] by simp
  ultimately show ?thesis using m' by (auto simp: memcpy_def)
qed

lemma size_sub_le [simp]: "b \<le> a \<Longrightarrow> size_sub a b = a - b"
  by (simp add: size_sub_def)

lemma length_print_address: "length (print_address d) < max_address_len"
  using length_print_zx [of d] length_print_intmax [of d] by (simp add: print_address_def max_address_len_def)

lemma mem_load_middle:
  assumes "mem_load m p (length (xs @ ys @ zs)) = Some (xs @ ys @ zs)"
  shows "mem_load m (p + of_nat (length xs)) (length ys) = Some ys"
  unfolding mem_load_iff
proof (intro conjI refl allI impI)
  fix i assume i: "i < length ys"
  have "\<forall>j < length (xs @ ys @ zs). m (p + of_nat j) = Some ((xs @ ys @ zs) ! j)"
    using assms unfolding mem_load_iff by blast
  moreover have "length xs + i < length (xs @ ys @ zs)" using i by simp
  ultimately have "m (p + of_nat (length xs + i)) = Some ((xs @ ys @ zs) ! (length xs + i))" by blast
  with i show "m (p + of_nat (length xs) + of_nat i) = Some (ys ! i)"
    by (simp add: nth_append add.assoc)
qed

lemma rewrite_locations_fills:
  assumes "located rp segs ls" "text_of segs t = drop rp msg" "rp \<le> length msg"
    and "mem_load m0 src (length msg + 1) = Some (bytes_of_string msg @ [0])"
    and "block_mapped m0 dst cap" "cap \<le> 2 ^ 64" "disjoint_blocks dst cap src (length msg + 1)" "length msg + 1 \<le> 2 ^ 64"
    and "filled m0 dst cap out m" "length out + (length msg - rp) + 1 + slack ls \<le> cap"
  shows "\<exists>m' rp' out'. rewrite_locations cap dst src ls rp (length out) m = Some (Some (rp', length (out @ out')), m') \<and>
    out' = bytes_of_string (text_of (readdress segs (map dst_addr ls)) []) \<and> drop rp' msg = t \<and> rp' \<le> length msg \<and>
    filled m0 dst cap (out @ out') m' \<and> length (out @ out') + (length msg - rp') + 1 \<le> cap"
  using assms
proof (induction rp segs ls arbitrary: out m rule: located.induct)
  case (1 rp)
  then show ?case by (intro exI [of _ m] exI [of _ rp] exI [of _ "[]"]) simp
next
  case (2 rp p a n v segs l ls)
  let ?txt = "print_address (dst_addr l)"
  have start: "address_start l = rp + length p" "address_end l = rp + length p + length a"
    and rest: "located (address_end l) segs ls"
    using 2(2) by auto
  have msg: "drop rp msg = p @ a @ text_of segs t" using 2(3) by simp
  have len: "length msg - rp = length p + length a + length (text_of segs t)"
    using arg_cong [OF msg, of length] by simp
  have end_le: "address_end l \<le> length msg" using len start 2(4) by simp
  have p: "take (length p) (drop rp msg) = p" using msg by simp
  have cap: "length out + length p + length a + length (text_of segs t) + 1 + (max_address_len - length a) + slack ls \<le> cap"
    using 2(11) start len by simp
  have msg_split: "msg = take rp msg @ p @ drop (rp + length p) msg"
    using msg p by (metis append_take_drop_id drop_drop add.commute)
  have ld: "mem_load m0 (src + of_nat rp) (length (bytes_of_string p)) = Some (bytes_of_string p)"
  proof -
    have bs: "bytes_of_string msg @ [0] = bytes_of_string (take rp msg) @ bytes_of_string p @ (bytes_of_string (drop (rp + length p) msg) @ [0])"
      by (subst msg_split) simp
    have "length (bytes_of_string msg @ [0]) = length msg + 1" by simp
    then have "mem_load m0 src (length (bytes_of_string msg @ [0])) = Some (bytes_of_string msg @ [0])" using 2(5) by simp
    from mem_load_middle [OF this [unfolded bs]] show ?thesis using 2(4) by simp
  qed
  have dis: "disjoint_blocks dst cap (src + of_nat rp) (length (bytes_of_string p))"
    using disjoint_sub_blocks [OF 2(8), of 0 cap rp "length p"] 2(7,9) len 2(4) by simp
  obtain m1 where m1: "memcpy m (dst + of_nat (length out)) (src + of_nat rp) (length p) = Some m1"
      "filled m0 dst cap (out @ bytes_of_string p) m1"
    using filled_memcpy [OF 2(10) 2(6) _ 2(7) ld dis] cap by auto
  let ?w1 = "length out + length p"
  have room: "length ?txt < cap - ?w1" using length_print_address [of "dst_addr l"] cap by simp
  then have room1: "Suc (length out + length p + length ?txt) \<le> cap" by simp
  obtain m2 where m2: "mem_store m1 (dst + of_nat ?w1) (bytes_of_string ?txt @ [0]) = Some m2"
      "filled m0 dst cap ((out @ bytes_of_string p) @ bytes_of_string ?txt @ [0]) m2"
    using filled_store [OF m1(2) 2(6) _ 2(7), of "bytes_of_string ?txt @ [0]"] room1 by auto
  have sn: "snprintf m1 (dst + of_nat ?w1) (cap - ?w1) ?txt = Some m2"
    using m2(1) room by (auto simp: snprintf_def)
  let ?out = "out @ bytes_of_string p @ bytes_of_string ?txt"
  have f2: "filled m0 dst cap ?out m2"
    using filled_take [of m0 dst cap ?out "[0]" m2] m2(2) by simp
  have "length ?out + (length msg - address_end l) + 1 + slack ls \<le> cap"
    using cap room start len length_print_address [of "dst_addr l"] by simp
  note IH_room = this
  have "drop (address_end l) msg = drop (length p + length a) (drop rp msg)"
    by (simp add: start add.commute add.left_commute)
  then have tail: "text_of segs t = drop (address_end l) msg" using msg by simp
  from 2(1) [OF rest tail end_le 2(5-9) f2 IH_room]
  obtain m' rp' out' where IH: "rewrite_locations cap dst src ls (address_end l) (length ?out) m2 = Some (Some (rp', length (?out @ out')), m')"
      "out' = bytes_of_string (text_of (readdress segs (map dst_addr ls)) [])" "drop rp' msg = t" "rp' \<le> length msg"
      "filled m0 dst cap (?out @ out') m'" "length (?out @ out') + (length msg - rp') + 1 \<le> cap"
    by blast
  have "rewrite_locations cap dst src (l # ls) rp (length out) m = Some (Some (rp', length (?out @ out')), m')"
    using m1(1) sn room IH(1) start cap by (simp add: Let_def add.assoc)
  then show ?case
    using IH by (intro exI [of _ m'] exI [of _ rp'] exI [of _ "bytes_of_string p @ bytes_of_string ?txt @ out'"]) simp
qed simp_all

text \<open>The payloads as blocks to store, with the bytes of their sources.\<close>

definition carries :: "wahe_message_location_t \<Rightarrow> bool" where
  "carries l \<longleftrightarrow> copy_payload l \<and> copy_size l \<noteq> 0"

definition payload_blocks :: "u64 \<Rightarrow> (wahe_message_location_t \<Rightarrow> byte list) \<Rightarrow> wahe_message_location_t list \<Rightarrow> (u64 \<times> byte list) list" where
  "payload_blocks dst data ls = map (\<lambda>l. (dst + of_nat (payload_offset l), data l)) (List.filter carries ls)"

lemma payload_blocks_simps [simp]:
  "payload_blocks dst data [] = []"
  "payload_blocks dst data (l # ls) =
     (if carries l then (dst + of_nat (payload_offset l), data l) # payload_blocks dst data ls else payload_blocks dst data ls)"
  by (simp_all add: payload_blocks_def)

lemma laid_out_range:
  "laid_out lo hi ls0 ls \<Longrightarrow> l \<in> set ls \<Longrightarrow> copy_payload l \<Longrightarrow> lo \<le> payload_offset l \<and> payload_offset l + copy_size l \<le> hi"
proof (induction lo hi ls0 ls rule: laid_out.induct)
  case (3 lo hi k ks l' ls')
  show ?case
  proof (cases "l = l'")
    case True
    with 3(3,5) laid_out_le [of "payload_offset l' + copy_size k" hi ks ls'] show ?thesis
      by (auto simp: same_location_def)
  next
    case False
    with 3 show ?thesis by (auto split: if_splits)
  qed
qed auto

lemma payload_blocks_separate:
  assumes "laid_out lo hi ls0 ls" "hi \<le> 2 ^ 64" "\<And>l. l \<in> set ls \<Longrightarrow> carries l \<Longrightarrow> length (data l) = copy_size l"
  shows "hm.separate (payload_blocks dst data ls)"
  using assms
proof (induction lo hi ls0 ls rule: laid_out.induct)
  case (3 lo hi k ks l ls)
  have IH: "hm.separate (payload_blocks dst data ls)"
    using 3 by (cases "copy_payload k") auto
  have "list_all (\<lambda>(q, cs). disjoint_blocks (dst + of_nat (payload_offset l)) (length (data l)) q (length cs)) (payload_blocks dst data ls)"
    if c: "carries l"
  proof -
    have rest: "laid_out (payload_offset l + copy_size l) hi ks ls"
      using 3(3) c by (auto simp: carries_def same_location_def)
    have "disjoint_blocks (dst + of_nat (payload_offset l)) (length (data l)) (dst + of_nat (payload_offset j)) (length (data j))"
      if j: "j \<in> set ls" "carries j" for j
    proof -
      have after: "payload_offset l + copy_size l \<le> payload_offset j" "payload_offset j + copy_size j \<le> hi"
        using laid_out_range [OF rest j(1)] j(2) by (auto simp: carries_def)
      have lens: "length (data l) = copy_size l" "length (data j) = copy_size j" using 3(5) c j by auto
      show ?thesis unfolding disjoint_blocks_def lens
      proof (intro allI notI)
        fix q
        assume q: "in_block (dst + of_nat (payload_offset l)) (copy_size l) q \<and> in_block (dst + of_nat (payload_offset j)) (copy_size j) q"
        with in_block_offset(3) [of dst "payload_offset l" "copy_size l" q hi]
          in_block_offset(2) [of dst "payload_offset j" "copy_size j" q hi] after 3(4) show False by simp
      qed
    qed
    then show ?thesis by (auto simp: payload_blocks_def list_all_iff)
  qed
  with IH show ?case by simp
qed auto

lemma copy_payloads_blocks:
  assumes "\<And>l. l \<in> set ls \<Longrightarrow> carries l \<Longrightarrow> mem_load m (src_ptr l) (copy_size l) = Some (data l)"
    and "\<And>l. l \<in> set ls \<Longrightarrow> carries l \<Longrightarrow> disjoint_blocks dst tot (src_ptr l) (copy_size l)"
    and "\<And>l. l \<in> set ls \<Longrightarrow> carries l \<Longrightarrow> payload_offset l + copy_size l \<le> tot" and "tot \<le> 2 ^ 64"
  shows "copy_payloads dst ls m = hm.put_all m (payload_blocks dst data ls)"
  using assms
proof (induction ls arbitrary: m)
  case (Cons l ls)
  show ?case
  proof (cases "carries l")
    case False
    then have "copy_payloads dst (l # ls) m = copy_payloads dst ls m" by (auto simp: carries_def)
    with False Cons show ?thesis by simp
  next
    case True
    let ?p = "dst + of_nat (payload_offset l) :: u64"
    have load: "mem_load m (src_ptr l) (copy_size l) = Some (data l)" and fits: "payload_offset l + copy_size l \<le> tot"
      and dis: "disjoint_blocks dst tot (src_ptr l) (copy_size l)" using Cons.prems True by auto
    have len: "length (data l) = copy_size l" using load by (simp add: mem_load_iff)
    have "disjoint_blocks ?p (copy_size l) (src_ptr l) (copy_size l)"
      using disjoint_sub_blocks [OF dis fits, of 0 "copy_size l"] fits Cons.prems(4) by simp
    then have "\<not> unat (?p - src_ptr l) < copy_size l \<and> \<not> unat (src_ptr l - ?p) < copy_size l"
      using disjoint_no_overlap True by (auto simp: carries_def)
    then have cp: "memcpy m ?p (src_ptr l) (copy_size l) = mem_store m ?p (data l)"
      using load by (simp add: memcpy_def)
    show ?thesis
    proof (cases "mem_store m ?p (data l)")
      case None
      with cp True show ?thesis by (simp add: carries_def)
    next
      case (Some m1)
      have keep: "mem_load m1 (src_ptr j) (copy_size j) = Some (data j)" if j: "j \<in> set (l # ls)" "carries j" for j
      proof -
        have fj: "payload_offset j + copy_size j \<le> tot" using Cons.prems(3) j by blast
        have "disjoint_blocks ?p (length (data l)) (src_ptr j) (copy_size j)"
          using disjoint_sub_blocks [OF Cons.prems(2) [OF j] fits, of 0 "copy_size j"] fj Cons.prems(4) len by simp
        then have "mem_load m1 (src_ptr j) (copy_size j) = mem_load m (src_ptr j) (copy_size j)"
          using hm.load_put_other [OF Some] fj Cons.prems(4) by simp
        with Cons.prems(1) [OF j] show ?thesis by simp
      qed
      have "copy_payloads dst ls m1 = hm.put_all m1 (payload_blocks dst data ls)"
        by (rule Cons.IH) (use keep Cons.prems in auto)
      then show ?thesis using cp Some True by (simp add: carries_def)
    qed
  qed
qed simp

lemma put_all_outside:
  "hm.put_all m blocks = Some m' \<Longrightarrow> list_all (\<lambda>(p, bs). \<not> in_block p (length bs) q) blocks \<Longrightarrow> m' q = m q"
proof (induction blocks arbitrary: m)
  case (Cons b blocks)
  obtain p bs where b: "b = (p, bs)" by (cases b)
  then obtain m1 where m1: "mem_store m p bs = Some m1" "hm.put_all m1 blocks = Some m'"
    using Cons.prems(1) by (auto split: option.splits)
  with Cons b mem_store_effect(1) [OF m1(1), of q] show ?case by simp
qed simp

section \<open>The text in memory\<close>

lemma char_of_byte_of_char [simp]: "char_of_byte (of_char c) = c"
proof -
  have "unat (of_char c :: byte) = of_char c"
    by (simp add: of_char_def unat_of_nat)
  then show ?thesis by (simp add: char_of_byte_def)
qed


lemma c_text_load:
  "mem_load m p (length (bytes_of_string s @ [0])) = Some (bytes_of_string s @ [0]) \<Longrightarrow> CHR 0x00 \<notin> set s \<Longrightarrow> c_text m p = Some s"
proof (induction s arbitrary: p)
  case Nil
  then have "m p = Some 0" by (simp add: mem_load_iff)
  then show ?case by (simp add: c_text.simps)
next
  case (Cons c s)
  let ?b = "of_char c :: byte"
  have b: "bytes_of_string (c # s) = ?b # bytes_of_string s" by (simp add: bytes_of_string_def)
  have "mem_load m p 1 = Some [?b] \<and> mem_load m (p + 1) (length (bytes_of_string s @ [0])) = Some (bytes_of_string s @ [0])"
    using Cons.prems(1) mem_load_append [of "[?b]" 1 m p "length (bytes_of_string s @ [0])" "bytes_of_string s @ [0]"]
    by (simp add: b)
  then have first: "m p = Some ?b" and rest: "c_text m (p + 1) = Some s"
    using Cons by (auto simp: mem_load_iff)
  have "char_of_byte 0 = CHR 0x00" by (simp add: char_of_byte_def char_of_def)
  then have "char_of_byte ?b \<noteq> char_of_byte 0" using Cons.prems(2) by auto
  then have "?b \<noteq> 0" by metis
  with first rest show ?case by (simp add: c_text.simps [of m p])
qed

lemma print_base_no_nul: "2 \<le> b \<Longrightarrow> b \<le> 16 \<Longrightarrow> CHR 0x00 \<notin> set (print_base b n)"
proof
  assume b: "2 \<le> b" "b \<le> 16" and "CHR 0x00 \<in> set (print_base b n)"
  then obtain d where "d < b" "CHR 0x00 = digit_char d" using print_base_digits [OF b] by blast
  then have "digit_value CHR 0x00 = Some d" using digit_value_char [of d] b by simp
  then show False by (simp add: digit_value_def Let_def)
qed

lemma print_address_no_nul: "CHR 0x00 \<notin> set (print_address d)"
  using print_base_no_nul by (auto simp: print_address_def print_intmax_def print_zx_def)

lemma readdress_no_nul:
  "length ds = length segs \<Longrightarrow> CHR 0x00 \<notin> set (text_of segs t) \<Longrightarrow> CHR 0x00 \<notin> set (text_of (readdress segs ds) t)"
  by (induction segs ds rule: readdress.induct) (auto simp: print_address_no_nul)

lemma fill_message_correct:
  assumes msg: "mem_load m0 src (length msg + 1) = Some (bytes_of_string msg @ [0])" "CHR 0x00 \<notin> set msg"
    and segs: "scan_text msg = Some (segs, t)" "located 0 segs ls"
    and lay: "laid_out lo hi ls0 ls" "length msg + 1 + slack ls \<le> lo" "hi < 2 ^ 64"
    and dst: "block_mapped m0 dst hi" "disjoint_blocks dst hi src (length msg + 1)"
    and pay: "\<And>l. l \<in> set ls \<Longrightarrow> carries l \<Longrightarrow>
        mem_load m0 (src_ptr l) (copy_size l) \<noteq> None \<and> disjoint_blocks dst hi (src_ptr l) (copy_size l)"
  shows "\<exists>m'. fill_message (length msg) (length msg + 1 + slack ls) dst src ls m0 = Some (True, m') \<and>
    c_text m' dst = Some (text_of (readdress segs (map dst_addr ls)) t) \<and>
    (\<forall>l \<in> set ls. carries l \<longrightarrow> mem_load m' (dst + of_nat (payload_offset l)) (copy_size l) = mem_load m0 (src_ptr l) (copy_size l)) \<and>
    (\<forall>q. \<not> in_block dst hi q \<longrightarrow> m' q = m0 q)"
proof -
  let ?cap = "length msg + 1 + slack ls"
  let ?new = "text_of (readdress segs (map dst_addr ls)) t"
  let ?data = "\<lambda>l. the (mem_load m0 (src_ptr l) (copy_size l))"
  have hi: "?cap \<le> hi" "lo \<le> hi" using laid_out_le [OF lay(1)] lay(2) by simp_all
  have sub: "in_block dst ?cap q \<Longrightarrow> in_block dst hi q" for q using hi by (simp add: in_block_def)
  have mapped: "block_mapped m0 dst ?cap" using dst(1) sub by (auto simp: block_mapped_def)
  have dis: "disjoint_blocks dst ?cap src (length msg + 1)" using dst(2) sub by (auto simp: disjoint_blocks_def)
  have "\<exists>m' rp' out'. rewrite_locations ?cap dst src ls 0 (length ([] :: byte list)) m0 = Some (Some (rp', length ([] @ out')), m') \<and>
      out' = bytes_of_string (text_of (readdress segs (map dst_addr ls)) []) \<and> drop rp' msg = t \<and> rp' \<le> length msg \<and>
      filled m0 dst ?cap ([] @ out') m' \<and> length ([] @ out') + (length msg - rp') + 1 \<le> ?cap"
    by (rule rewrite_locations_fills [OF segs(2) _ _ msg(1) mapped _ dis _ filled_start])
      (use scan_text_text [OF segs(1)] hi lay(3) in simp_all)
  then obtain m1 rp out where m1: "rewrite_locations ?cap dst src ls 0 0 m0 = Some (Some (rp, length out), m1)"
      "out = bytes_of_string (text_of (readdress segs (map dst_addr ls)) [])" "drop rp msg = t" "rp \<le> length msg"
      "filled m0 dst ?cap out m1" "length out + (length msg - rp) + 1 \<le> ?cap"
    unfolding append_Nil list.size(3) by blast
  have new: "bytes_of_string ?new = out @ bytes_of_string t" by (simp add: m1(2) text_of_def)
  have tail_len: "size_sub (length msg) rp + 1 = length (bytes_of_string t @ [0])" using m1(3,4) by auto
  have split: "bytes_of_string msg @ [0] = bytes_of_string (take rp msg) @ (bytes_of_string t @ [0]) @ []"
    using m1(3) by (metis append.assoc append_Nil2 append_take_drop_id bytes_of_string_append)
  have "mem_load m0 src (length (bytes_of_string msg @ [0])) = Some (bytes_of_string msg @ [0])" using msg(1) by simp
  from mem_load_middle [OF this [unfolded split]]
  have ld: "mem_load m0 (src + of_nat rp) (length (bytes_of_string t @ [0])) = Some (bytes_of_string t @ [0])" using m1(4) by simp
  have "disjoint_blocks dst ?cap (src + of_nat rp) (length (bytes_of_string t @ [0]))"
    using disjoint_sub_blocks [OF dis, of 0 ?cap rp "length (bytes_of_string t @ [0])"] tail_len m1(4) hi lay(3) by simp
  note tail_disjoint = this
  have "length (bytes_of_string t @ [0]) = length msg - rp + 1" using tail_len m1(4) by simp
  then have fits: "length out + length (bytes_of_string t @ [0]) \<le> ?cap" using m1(6) by linarith
  have cap64: "?cap \<le> 2 ^ 64" using hi lay(3) by simp
  obtain m2 where m2: "memcpy m1 (dst + of_nat (length out)) (src + of_nat rp) (length (bytes_of_string t @ [0])) = Some m2"
      "filled m0 dst ?cap (out @ bytes_of_string t @ [0]) m2"
    using filled_memcpy [OF m1(5) mapped fits cap64 ld tail_disjoint] by blast
  have data: "mem_load m2 (src_ptr l) (copy_size l) = Some (?data l)" "length (?data l) = copy_size l"
    "disjoint_blocks dst hi (src_ptr l) (copy_size l)" "payload_offset l + copy_size l \<le> hi" "lo \<le> payload_offset l"
    if l: "l \<in> set ls" "carries l" for l
  proof -
    have range: "lo \<le> payload_offset l" "payload_offset l + copy_size l \<le> hi"
      using laid_out_range [OF lay(1) l(1)] l(2) by (auto simp: carries_def)
    then show "payload_offset l + copy_size l \<le> hi" "lo \<le> payload_offset l" by simp_all
    show d: "disjoint_blocks dst hi (src_ptr l) (copy_size l)" using pay [OF l] by blast
    have "disjoint_blocks dst ?cap (src_ptr l) (copy_size l)" using d sub by (auto simp: disjoint_blocks_def)
    then have "mem_load m2 (src_ptr l) (copy_size l) = mem_load m0 (src_ptr l) (copy_size l)"
      using filled_outside [OF m2(2)] range lay(3) by simp
    then show "mem_load m2 (src_ptr l) (copy_size l) = Some (?data l)" using pay [OF l] by auto
    obtain bs where "mem_load m0 (src_ptr l) (copy_size l) = Some bs" using pay [OF l] by auto
    moreover from this have "length bs = copy_size l" by (simp add: mem_load_iff)
    ultimately show "length (?data l) = copy_size l" by simp
  qed
  let ?blocks = "payload_blocks dst ?data ls"
  have cp: "copy_payloads dst ls m2 = hm.put_all m2 ?blocks"
    by (rule copy_payloads_blocks [where tot = hi]) (use data lay(3) in auto)
  have in_hi: "in_block dst hi q" if "in_block (dst + of_nat (payload_offset l)) (copy_size l) q" "l \<in> set ls" "carries l" for q l
    using in_block_offset(1) [OF that(1) data(4) [OF that(2,3)]] lay(3) by simp
  have "list_all (\<lambda>(p, bs). length bs \<le> 2 ^ 64 \<and> (\<forall>q. in_block p (length bs) q \<longrightarrow> m2 q \<noteq> None)) ?blocks"
  proof -
    have "length (?data l) \<le> 2 ^ 64 \<and> (\<forall>q. in_block (dst + of_nat (payload_offset l)) (length (?data l)) q \<longrightarrow> m2 q \<noteq> None)"
      if l: "l \<in> set ls" "carries l" for l
      using data(2,4) [OF l] in_hi [OF _ l] dst(1) m2(2) lay(3) by (auto simp: block_mapped_def filled_def)
    then show ?thesis by (auto simp: payload_blocks_def list_all_iff)
  qed
  then obtain m3 where m3: "hm.put_all m2 ?blocks = Some m3" using hm.put_all_ok by blast
  have sep: "hm.separate ?blocks" by (rule payload_blocks_separate [OF lay(1)]) (use data lay(3) in auto)
  have lens: "list_all (\<lambda>(p, bs). length bs \<le> 2 ^ 64) ?blocks"
    using data(2,4) lay(3) by (fastforce simp: payload_blocks_def list_all_iff)
  have fill: "fill_message (length msg) ?cap dst src ls m0 = Some (True, m3)"
    using m1(1,4,6) m2(1) m3 cp tail_len by (simp add: fill_message_def Let_def)
  have clear: "disjoint_blocks (dst + of_nat (payload_offset l)) (length (?data l)) dst (length (out @ bytes_of_string t @ [0]))"
    if l: "l \<in> set ls" "carries l" for l
    unfolding disjoint_blocks_def data(2) [OF l]
  proof (intro allI notI)
    fix q assume q: "in_block (dst + of_nat (payload_offset l)) (copy_size l) q \<and> in_block dst (length (out @ bytes_of_string t @ [0])) q"
    have "length (out @ bytes_of_string t @ [0]) \<le> lo" using fits lay(2) by simp
    with q in_block_offset(2) [of dst "payload_offset l" "copy_size l" q hi] data(4,5) [OF l] lay(3) show False
      by (simp add: in_block_def)
  qed
  have "mem_load m3 dst (length (out @ bytes_of_string t @ [0])) = mem_load m2 dst (length (out @ bytes_of_string t @ [0]))"
    by (rule hm.put_all_keeps [OF m3]) (use fits cap64 clear in \<open>auto simp: payload_blocks_def list_all_iff\<close>)
  then have "mem_load m3 dst (length (bytes_of_string ?new @ [0])) = Some (bytes_of_string ?new @ [0])"
    using m2(2) by (simp add: new filled_def)
  moreover have "CHR 0x00 \<notin> set ?new"
    using readdress_no_nul [of "map dst_addr ls" segs t] msg(2) scan_text_text [OF segs(1)] located_length [OF segs(2)] by simp
  ultimately have "c_text m3 dst = Some ?new" by (rule c_text_load)
  moreover have "mem_load m3 (dst + of_nat (payload_offset l)) (copy_size l) = mem_load m0 (src_ptr l) (copy_size l)"
    if l: "l \<in> set ls" "carries l" for l
  proof -
    have "(dst + of_nat (payload_offset l), ?data l) \<in> set ?blocks" using l by (auto simp: payload_blocks_def)
    from hm.put_all_loads [OF m3 sep this lens] show ?thesis using data(2) [OF l] pay [OF l] by auto
  qed
  moreover have "m3 q = m0 q" if q: "\<not> in_block dst hi q" for q
  proof -
    have "list_all (\<lambda>(p, bs). \<not> in_block p (length bs) q) ?blocks"
      using q in_hi data(2) by (auto simp: payload_blocks_def list_all_iff)
    then have "m3 q = m2 q" by (rule put_all_outside [OF m3])
    also have "m2 q = m0 q" using m2(2) q sub by (auto simp: filled_def)
    finally show ?thesis .
  qed
  ultimately show ?thesis using fill by blast
qed

section \<open>The length of the message\<close>

lemma c_text_block:
  "c_text m p = Some s \<Longrightarrow>
   mem_load m p (length s + 1) = Some (bytes_of_string s @ [0]) \<and> CHR 0x00 \<notin> set s"
proof (induction s arbitrary: p)
  case Nil
  then have "m p = Some 0" by (subst (asm) c_text.simps) (auto split: bind_splits if_splits)
  then show ?case by (simp add: mem_load_iff)
next
  case (Cons c s)
  then obtain b where b: "m p = Some b" "b \<noteq> 0" "c = char_of_byte b" "c_text m (p + 1) = Some s"
    by (subst (asm) c_text.simps) (auto split: bind_splits if_splits)
  have "unat (of_char c :: byte) = (of_char (char_of (unat b)) :: nat)"
    by (simp add: b(3) char_of_byte_def of_char_def unat_of_nat)
  also have "\<dots> = unat b" proof -
    have "unat b < 256" using unsigned_less [of b] by simp
    then show ?thesis by (simp add: of_char_of)
  qed
  finally have ob: "of_char c = b" by (simp add: word_unat_eq_iff)
  then have "c \<noteq> CHR 0x00" using b(2) by auto
  moreover have "mem_load m p (1 + (length s + 1)) = Some ([b] @ (bytes_of_string s @ [0]))"
    using Cons.IH [OF b(4)] b(1) by (subst mem_load_append) (auto simp: mem_load_iff)
  ultimately show ?case using Cons.IH [OF b(4)] ob by (simp add: bytes_of_string_def)
qed

lemma memchr_nul_text: "memchr_nul m p n = Some (Some k) \<Longrightarrow> \<exists>s. c_text m p = Some s \<and> length s = k \<and> k < n"
proof (induction m p n arbitrary: k rule: memchr_nul.induct)
  case (2 m p n)
  then obtain b where b: "m p = Some b" by (auto split: option.splits)
  show ?case
  proof (cases "b = 0")
    case True
    with 2(2) b show ?thesis by (auto simp: c_text.simps [of m p])
  next
    case False
    with 2(2) b obtain j where j: "memchr_nul m (p + 1) n = Some (Some j)" "k = Suc j"
      by (auto split: option.splits)
    from 2(1) [OF b False j(1)] b False j(2) show ?thesis by (auto simp: c_text.simps [of m p])
  qed
qed simp

section \<open>Refreshed states\<close>

text \<open>The states a transfer passes through before it allocates: only cached memory sizes change.\<close>

inductive refreshed :: "'g world \<Rightarrow> 'g world \<Rightarrow> bool" where
  refreshed_refl: "refreshed w w"
| refreshed_step: "refreshed w w' \<Longrightarrow> refreshed w (wahe_refresh_module_memory_size c w')"

lemma refreshed_trans: "refreshed b c \<Longrightarrow> refreshed a b \<Longrightarrow> refreshed a c"
  by (induction rule: refreshed.induct) (auto intro: refreshed.intros)

lemma refreshed_refresh [intro, simp]: "refreshed w (wahe_refresh_module_memory_size c w)"
  by (rule refreshed_step [OF refreshed_refl])

text \<open>A refresh takes the size from the runtime where the runtime can be asked.\<close>

definition refreshable :: "nat \<Rightarrow> 'g world \<Rightarrow> bool" where
  "refreshable m w \<longleftrightarrow> mtype (modules w ! m) = WAHE_MODULE_WASMTIME \<and>
     (shared_memory (modules w ! m) \<or> wahe_get_wasmtime_runner (Some m) 0 w \<noteq> None)"

lemma refresh_module:
  assumes "j < length (modules w)"
  shows "modules (wahe_refresh_module_memory_size c w) ! j =
    (if c = Some j \<and> refreshable j w then (modules w ! j)\<lparr>memory_size := runtime_size (modules w ! j)\<rparr> else modules w ! j)"
proof (cases c)
  case (Some k)
  then show ?thesis
    using assms by (cases "k = j") (auto simp: wahe_refresh_module_memory_size_def refreshable_def)
qed (simp add: wahe_refresh_module_memory_size_def)

lemma refresh_other: "cur_wasmtime_runner (wahe_refresh_module_memory_size c w) = cur_wasmtime_runner w"
  by (rule refresh_cases [of c w]) simp_all

lemma refreshable_refresh:
  assumes "j < length (modules w)"
  shows "refreshable j (wahe_refresh_module_memory_size c w) \<longleftrightarrow> refreshable j w"
proof -
  let ?w = "wahe_refresh_module_memory_size c w"
  have "mtype (modules ?w ! j) = mtype (modules w ! j)" "shared_memory (modules ?w ! j) = shared_memory (modules w ! j)"
    "runner_object (modules ?w ! j) 0 = runner_object (modules w ! j) 0"
    unfolding refresh_module [OF assms] by (simp_all add: runner_object_def)
  then show ?thesis by (simp add: refreshable_def wahe_get_wasmtime_runner_def refresh_other)
qed

definition refreshed_size :: "nat \<Rightarrow> 'g world \<Rightarrow> nat" where
  "refreshed_size m w = (if refreshable m w then runtime_size (modules w ! m) else memory_size (modules w ! m))"

lemma size_after_refresh:
  assumes "m < length (modules w)"
  shows "wahe_get_module_memory_size (Some m) (wahe_refresh_module_memory_size (Some m) w) = refreshed_size m w"
  using refresh_module [OF assms, of "Some m"]
  by (auto simp: wahe_get_module_memory_size_def refreshed_size_def refreshable_def Let_def)

lemma refreshed_size_refresh:
  assumes "m < length (modules w)"
  shows "refreshed_size m (wahe_refresh_module_memory_size c w) = refreshed_size m w"
  using refresh_module [OF assms, of c] refreshable_refresh [OF assms, of c] by (auto simp: refreshed_size_def)

text \<open>What a transfer looks at in a module: everything but the cached size.\<close>

definition same_module :: "wahe_module_t \<Rightarrow> wahe_module_t \<Rightarrow> bool" where
  "same_module x y \<longleftrightarrow> mtype y = mtype x \<and> memory_ptr y = memory_ptr x \<and> memory_bits y = memory_bits x \<and>
     has_host_mem_access y = has_host_mem_access x \<and> memory_reserve_size y = memory_reserve_size x \<and> valid y = valid x"

lemma same_module_refl [simp]: "same_module x x" by (simp add: same_module_def)

lemma refreshed_view:
  "refreshed w w' \<Longrightarrow> host_mem w' = host_mem w \<and> length (modules w') = length (modules w) \<and>
     (\<forall>m < length (modules w). same_module (modules w ! m) (modules w' ! m) \<and> refreshed_size m w' = refreshed_size m w)"
proof (induction rule: refreshed.induct)
  case (refreshed_step w w' c)
  then show ?case
    using refreshed_size_refresh [of _ w' c] by (auto simp: refresh_module same_module_def)
qed simp

lemma measure_message:
  assumes "wahe_measure_transfer_message src p w = Some (Some n, w')"
  shows "refreshed w w'" "\<exists>s. c_text (host_mem w) p = Some s \<and> length s = n"
  using assms
  by (auto simp: wahe_measure_transfer_message_def Let_def refreshed_refl split: if_splits option.splits dest: memchr_nul_text)

lemma resolve_refreshed: "wahe_resolve_transfer_source src a n w = (r, w') \<Longrightarrow> refreshed w w'"
  by (auto simp: wahe_resolve_transfer_source_def Let_def refreshed_refl split: if_splits option.splits)

text \<open>The host pointer a source range resolves to.\<close>

definition source_pointer :: "nat option \<Rightarrow> u64 \<Rightarrow> nat \<Rightarrow> 'g world \<Rightarrow> (u64 \<times> bool) option" where
  "source_pointer src a n w = fst (wahe_resolve_transfer_source src a n w)"

lemma source_pointer_refreshed:
  assumes "refreshed w w'" "\<And>m. src = Some m \<Longrightarrow> m < length (modules w)"
  shows "source_pointer src a n w' = source_pointer src a n w"
proof (cases src)
  case (Some m)
  have m: "m < length (modules w)" "m < length (modules w')" using assms(2) [OF Some] refreshed_view [OF assms(1)] by auto
  have v: "same_module (modules w ! m) (modules w' ! m)" "refreshed_size m w' = refreshed_size m w"
    using refreshed_view [OF assms(1)] m by auto
  have r: "same_module (modules z ! m) (modules (wahe_refresh_module_memory_size (Some m) z) ! m)"
    if "m < length (modules z)" for z :: "'a world"
    using refresh_module [OF that, of "Some m"] by (simp add: same_module_def)
  show ?thesis
    using v r [OF m(1)] r [OF m(2)] size_after_refresh [OF m(1)] size_after_refresh [OF m(2)]
    by (simp add: source_pointer_def wahe_resolve_transfer_source_def Some Let_def same_module_def)
qed (simp add: source_pointer_def wahe_resolve_transfer_source_def)

section \<open>What becomes of each location\<close>

text \<open>
  The four cases of \<open>wahe_prepare_transfer_location\<close>: an empty buffer, an offset that is
  already right, a host address the destination can use, or data to copy after the text.
\<close>

definition prepared :: "nat option \<Rightarrow> nat \<Rightarrow> 'g world \<Rightarrow> wahe_message_location_t \<Rightarrow> bool" where
  "prepared src d w l \<longleftrightarrow>
     (\<exists>is_offset. source_pointer src (src_addr l) (copy_size l) w = Some (src_ptr l, is_offset) \<and>
       (if copy_size l = 0 then \<not> copy_payload l
        else if copy_payload l then \<not> has_host_mem_access (modules w ! d)
        else (is_offset \<and> dst_addr l = src_addr l \<and> unat (src_addr l) \<le> refreshed_size d w \<and>
              (\<exists>m. src = Some m \<and> memory_ptr (modules w ! m) = memory_ptr (modules w ! d))) \<or>
             (has_host_mem_access (modules w ! d) \<and>
              (if mtype (modules w ! d) = WAHE_MODULE_WASM_TO_NATIVE
               then src_ptr l AND host_address_bit = 0 \<and> dst_addr l = src_ptr l OR host_address_bit
               else dst_addr l = src_ptr l))))"

lemma prepare_prepared:
  assumes "wahe_prepare_transfer_location src d l w = (Some l', w')" "\<not> copy_payload l" "d < length (modules w)"
    and "\<And>m. src = Some m \<Longrightarrow> m < length (modules w)"
  shows "refreshed w w' \<and> prepared src d w l'"
proof -
  obtain ptr off w1 where res: "wahe_resolve_transfer_source src (src_addr l) (copy_size l) w = (Some (ptr, off), w1)"
    using assms(1) by (auto simp: wahe_prepare_transfer_location_def split: prod.splits option.splits)
  then have sp: "source_pointer src (src_addr l) (copy_size l) w = Some (ptr, off)" by (simp add: source_pointer_def)
  note r1 = resolve_refreshed [OF res]
  let ?w2 = "wahe_refresh_module_memory_size (Some d) w1"
  have r2: "refreshed w ?w2" using r1 by (rule refreshed_step)
  have d1: "d < length (modules w1)" using refreshed_view [OF r1] assms(3) by simp
  have sd: "same_module (modules w ! d) (modules ?w2 ! d)" using refreshed_view [OF r2] assms(3) by simp
  have size: "wahe_get_module_memory_size (Some d) ?w2 = refreshed_size d w"
    using size_after_refresh [OF d1] refreshed_view [OF r1] assms(3) by simp
  have sm: "same_module (modules w ! m) (modules ?w2 ! m)" if "src = Some m" for m
    using refreshed_view [OF r2] assms(4) [OF that] by simp
  have "w' = w1 \<or> w' = ?w2"
    using assms(1) res by (auto simp: wahe_prepare_transfer_location_def Let_def split: if_splits)
  then have "refreshed w w'" using r1 r2 by blast
  moreover have "prepared src d w l'"
  proof (cases "copy_size l = 0")
    case True
    with assms(1,2) res sp show ?thesis
      by (auto simp: wahe_prepare_transfer_location_def Let_def prepared_def)
  next
    case False
    with assms(1,2) res sp sd sm show ?thesis
      by (auto simp: wahe_prepare_transfer_location_def Let_def prepared_def size same_module_def split: if_splits option.splits)
  qed
  ultimately show ?thesis ..
qed

lemma prepared_refreshed:
  assumes "refreshed w0 w" "prepared src d w l" "d < length (modules w0)" "\<And>m. src = Some m \<Longrightarrow> m < length (modules w0)"
  shows "prepared src d w0 l"
proof -
  have v: "same_module (modules w0 ! m) (modules w ! m)" "refreshed_size m w = refreshed_size m w0" if "m < length (modules w0)" for m
    using refreshed_view [OF assms(1)] that by auto
  have e: "(\<exists>m. src = Some m \<and> memory_ptr (modules w ! m) = memory_ptr (modules w ! d)) \<longleftrightarrow>
      (\<exists>m. src = Some m \<and> memory_ptr (modules w0 ! m) = memory_ptr (modules w0 ! d))"
    using v(1) assms(3,4) by (auto simp: same_module_def)
  have f: "has_host_mem_access (modules w ! d) = has_host_mem_access (modules w0 ! d)"
    "mtype (modules w ! d) = mtype (modules w0 ! d)"
    using v(1) [OF assms(3)] by (auto simp: same_module_def)
  have g: "source_pointer src a n w = source_pointer src a n w0" for a n
    by (rule source_pointer_refreshed [OF assms(1,4)])
  show ?thesis using assms(2) unfolding prepared_def e f g v(2) [OF assms(3)] .
qed

lemma find_locations_prepared:
  assumes "find_locations E src d msg pos locs lc mc w = (Some (locs', cap), w')"
    and "refreshed w0 w" "list_all (prepared src d w0) locs"
    and "d < length (modules w0)" "\<And>m. src = Some m \<Longrightarrow> m < length (modules w0)"
  shows "refreshed w0 w' \<and> list_all (prepared src d w0) locs'"
  using assms
proof (induction E src d msg pos locs lc mc w rule: find_locations.induct)
  case (1 E src d msg pos locs lc mc w)
  have env: "d < length (modules w)" "\<And>m. src = Some m \<Longrightarrow> m < length (modules w)"
    using refreshed_view [OF 1(4)] 1(6,7) by auto
  show ?case
  proof (cases "length msg \<le> pos")
    case True
    with 1(3-5) show ?thesis by (simp add: find_locations.simps [of E src d msg pos])
  next
    case False
    show ?thesis
    proof (cases "next_descriptor (drop pos msg)")
      case (Skip_to k)
      with 1(1) [OF False Skip_to _ 1(4-7)] 1(3) False show ?thesis by (simp add: find_locations.simps [of E src d msg pos])
    next
      case (Descriptor b e n a)
      let ?l = "\<lparr>address_start = pos + b, address_end = pos + e, copy_size = n, src_addr = a,
              dst_addr = 0, payload_offset = 0, src_ptr = 0, copy_payload = False\<rparr>"
      obtain c l w1 where step: "location_grows E (length locs) lc = Some c"
          "wahe_prepare_transfer_location src d ?l w = (Some l, w1)"
          "\<not> (address_end l - address_start l < max_address_len \<and> SIZE_MAX - (max_address_len - (address_end l - address_start l)) < mc)"
          "find_locations E src d msg (pos + e) (locs @ [l]) c (mc + (max_address_len - (address_end l - address_start l))) w1 =
             (Some (locs', cap), w')"
        using 1(3) False Descriptor
        by (auto simp: find_locations.simps [of E src d msg pos] Let_def split: option.splits prod.splits if_splits)
      have p: "refreshed w w1 \<and> prepared src d w l"
        using prepare_prepared [of src d ?l w l w1] step(2) env by auto
      have r: "refreshed w0 w1" using refreshed_trans 1(4) p by blast
      have q: "list_all (prepared src d w0) (locs @ [l])"
        using prepared_refreshed [OF 1(4) _ 1(6,7)] p 1(5) by simp
      show ?thesis
        by (rule 1(2) [OF False Descriptor step(1) step(2) [symmetric] refl refl refl step(3) step(4) r q 1(6,7)])
    qed (use 1(3-5) False in \<open>simp_all add: find_locations.simps [of E src d msg pos]\<close>)
  qed
qed

end
