(* ===== verification/Transfer_Correct.thy ===== *)
theory Transfer_Correct
  imports Message_Transfer
begin

text \<open>
  What \<open>wahe_copy_message_between_modules_on_runner\<close> delivers: with an allocator that leaves the
  message and its data alone, the transfer returns, and if it returns an address, the message
  there has the text of the source message with addresses that lead the destination to the
  same data.
\<close>

text \<open>Where in the host's memory the destination finds an address of the delivered message.\<close>

definition reach :: "wahe_module_t \<Rightarrow> u64 \<Rightarrow> u64" where
  "reach ctx x =
     (if mtype ctx = WAHE_MODULE_NATIVE then x
      else if mtype ctx = WAHE_MODULE_WASM_TO_NATIVE \<and> memory_bits ctx = 64 \<and> x AND host_address_bit \<noteq> 0
      then x AND NOT host_address_bit
      else memory_ptr ctx + x)"

lemma reach_same: "same_module x y \<Longrightarrow> reach y = reach x"
  by (intro ext) (simp add: reach_def same_module_def)

text \<open>
  How modules are set up: only native modules and 64-bit translated modules reach host addresses,
  and a memory is smaller than half the address space.
\<close>

definition module_wf :: "nat \<Rightarrow> 'g world \<Rightarrow> bool" where
  "module_wf m w \<longleftrightarrow>
     (has_host_mem_access (modules w ! m) \<longleftrightarrow>
        mtype (modules w ! m) = WAHE_MODULE_NATIVE \<or>
        (mtype (modules w ! m) = WAHE_MODULE_WASM_TO_NATIVE \<and> memory_bits (modules w ! m) = 64)) \<and>
     refreshed_size m w < 2 ^ 63"

text \<open>
  A native module takes addresses of the host also when it has reserved a memory for itself (\<open>wahe_hcmd_init_memory\<close>).
  That memory is its own: it is not the linear memory of the module the message comes from.
\<close>

definition memory_apart :: "nat option \<Rightarrow> nat \<Rightarrow> 'g world \<Rightarrow> bool" where
  "memory_apart src d w \<longleftrightarrow>
     mtype (modules w ! d) = WAHE_MODULE_NATIVE \<longrightarrow>
     (\<forall>m. src = Some m \<longrightarrow> mtype (modules w ! m) = WAHE_MODULE_NATIVE \<or> memory_ptr (modules w ! m) = 0 \<or>
        memory_ptr (modules w ! m) \<noteq> memory_ptr (modules w ! d))"

lemma source_offset:
  "source_pointer src x n w = Some (q, True) \<Longrightarrow> \<forall>m. src = Some m \<longrightarrow> m < length (modules w) \<Longrightarrow>
   \<exists>m. src = Some m \<and> mtype (modules w ! m) \<noteq> WAHE_MODULE_NATIVE \<and> memory_ptr (modules w ! m) \<noteq> 0 \<and>
     q = memory_ptr (modules w ! m) + x"
  by (auto simp: source_pointer_def wahe_resolve_transfer_source_def direct_source_def Let_def
      split: option.splits if_splits)

lemma tag_clear: "unat x < 2 ^ 63 \<Longrightarrow> x AND host_address_bit = 0"
proof -
  assume x: "unat x < 2 ^ 63"
  then have "unat x div 2 ^ 63 = 0" by simp
  then have "\<not> bit (unat x) 63" by (simp only: bit_iff_odd) simp
  then show ?thesis by (simp add: host_bit bit_unsigned_iff)
qed

lemma tag_set: "x AND host_address_bit = 0 \<Longrightarrow> (x OR host_address_bit) AND NOT host_address_bit = x \<and> (x OR host_address_bit) AND host_address_bit \<noteq> 0"
proof -
  assume x: "x AND host_address_bit = 0"
  have b: "\<not> bit x 63" using x by (simp add: host_bit)
  have hb: "bit host_address_bit n \<longleftrightarrow> n = 63" for n
    unfolding host_address_bit_def bit_push_bit_iff by (cases "n = 63") (auto simp: bit_1_iff)
  have "(x OR host_address_bit) AND NOT host_address_bit = x"
  proof (rule bit_word_eqI)
    fix n
    show "n < LENGTH(64) \<Longrightarrow> bit ((x OR host_address_bit) AND NOT host_address_bit) n = bit x n"
      using b by (cases "n = 63") (auto simp: hb bit_simps)
  qed
  moreover have "host_address_bit \<noteq> 0" using hb [of 63] by auto
  ultimately show ?thesis by simp
qed

text \<open>A location that is not copied reaches its source through the destination.\<close>

lemma reach_prepared:
  assumes "prepared src d w l" "\<not> copy_payload l" "copy_size l \<noteq> 0" "module_wf d w" "memory_apart src d w"
    and "\<forall>m. src = Some m \<longrightarrow> m < length (modules w)"
  shows "reach (modules w ! d) (dst_addr l) = src_ptr l"
proof -
  obtain off where off: "source_pointer src (src_addr l) (copy_size l) w = Some (src_ptr l, off)"
    and c: "(off \<and> dst_addr l = src_addr l \<and> unat (src_addr l) \<le> refreshed_size d w \<and>
              (\<exists>m. src = Some m \<and> memory_ptr (modules w ! m) = memory_ptr (modules w ! d))) \<or>
             (has_host_mem_access (modules w ! d) \<and>
              (if mtype (modules w ! d) = WAHE_MODULE_WASM_TO_NATIVE
               then src_ptr l AND host_address_bit = 0 \<and> dst_addr l = src_ptr l OR host_address_bit
               else dst_addr l = src_ptr l))"
    using assms(1-3) unfolding prepared_def by (auto split: if_splits)
  show ?thesis
  proof (cases "off \<and> dst_addr l = src_addr l \<and> unat (src_addr l) \<le> refreshed_size d w \<and>
      (\<exists>m. src = Some m \<and> memory_ptr (modules w ! m) = memory_ptr (modules w ! d))")
    case True
    then have "source_pointer src (src_addr l) (copy_size l) w = Some (src_ptr l, True)" using off by simp
    from source_offset [OF this assms(6)] True
    have q: "mtype (modules w ! d) \<noteq> WAHE_MODULE_NATIVE" "src_ptr l = memory_ptr (modules w ! d) + src_addr l"
      using assms(5) by (auto simp: memory_apart_def)
    have "src_addr l AND host_address_bit = 0" using True assms(4) by (intro tag_clear) (simp add: module_wf_def)
    with q True show ?thesis by (simp add: reach_def)
  next
    case False
    with c have h: "has_host_mem_access (modules w ! d)"
      "if mtype (modules w ! d) = WAHE_MODULE_WASM_TO_NATIVE
               then src_ptr l AND host_address_bit = 0 \<and> dst_addr l = src_ptr l OR host_address_bit
               else dst_addr l = src_ptr l" by blast+
    then show ?thesis using assms(4) tag_set [of "src_ptr l"] by (auto simp: reach_def module_wf_def split: if_splits)
  qed
qed

text \<open>The block itself and the payloads in it.\<close>

lemma reach_block:
  assumes "destination_block d a n w = (Some q, w')" "d < length (modules w)" "module_wf d w" "0 < n"
  shows "reach (modules w ! d) a = q"
proof (cases "mtype (modules w ! d) = WAHE_MODULE_NATIVE")
  case True
  with assms(1) show ?thesis by (simp add: destination_block_def reach_def)
next
  case False
  then have "unat a + n \<le> refreshed_size d w" "q = memory_ptr (modules w ! d) + a"
    using assms(1,2) size_after_refresh [OF assms(2)] by (auto simp: destination_block_def Let_def split: if_splits)
  moreover from this have "a AND host_address_bit = 0" using assms(3) by (intro tag_clear) (simp add: module_wf_def)
  ultimately show ?thesis using False by (simp add: reach_def)
qed

lemma reach_copied:
  assumes "destination_block d a n w = (Some q, w')" "module_wf d w" "\<not> has_host_mem_access (modules w ! d)"
  shows "reach (modules w ! d) (a + of_nat k) = q + of_nat k"
  using assms by (auto simp: destination_block_def reach_def module_wf_def Let_def split: if_splits)

section \<open>What a transfer relies on\<close>

text \<open>
  The bytes that hold the message and the data it points to: they are readable and belong to the
  set \<open>K\<close>. The allocator of the destination keeps the bytes of \<open>K\<close>, and returns a writable block
  that holds none of them.
\<close>

definition source_ok :: "(u64 \<Rightarrow> bool) \<Rightarrow> nat option \<Rightarrow> 'g world \<Rightarrow> segment \<Rightarrow> bool" where
  "source_ok K src w = (\<lambda>(_, _, n, x).
     n \<noteq> 0 \<longrightarrow> (\<forall>q off. source_pointer src x n w = Some (q, off) \<longrightarrow>
       mem_load (host_mem w) q n \<noteq> None \<and> (\<forall>y. in_block q n y \<longrightarrow> K y)))"

definition transfer_source :: "(u64 \<Rightarrow> bool) \<Rightarrow> nat option \<Rightarrow> u64 \<Rightarrow> 'g world \<Rightarrow> bool" where
  "transfer_source K src p w \<longleftrightarrow>
     (\<forall>msg. c_text (host_mem w) p = Some msg \<longrightarrow>
        (\<forall>y. in_block p (length msg + 1) y \<longrightarrow> K y) \<and>
        (\<forall>segs t. scan_text msg = Some (segs, t) \<longrightarrow> list_all (source_ok K src w) segs))"

definition transfer_allocator :: "(u64 \<Rightarrow> bool) \<Rightarrow> 'g env \<Rightarrow> nat \<Rightarrow> nat \<Rightarrow> 'g world \<Rightarrow> bool" where
  "transfer_allocator K E d r w \<longleftrightarrow>
     (\<forall>w2 n a w3. refreshed w w2 \<longrightarrow> call_module_malloc_on_runner E (Some d) r n w2 = Some (a, w3) \<longrightarrow> a \<noteq> 0 \<longrightarrow>
        length (modules w3) = length (modules w2) \<and> same_module (modules w2 ! d) (modules w3 ! d) \<and> module_wf d w3 \<and>
        (\<forall>y. K y \<longrightarrow> host_mem w3 y = host_mem w2 y) \<and>
        (\<forall>q w4. destination_block d a (unat n) w3 = (Some q, w4) \<longrightarrow>
           block_mapped (host_mem w3) q (unat n) \<and> (\<forall>y. in_block q (unat n) y \<longrightarrow> \<not> K y)))"

text \<open>A location arrives if the destination reads at the new address what the source has at the old one.\<close>

definition delivered :: "nat option \<Rightarrow> nat \<Rightarrow> 'g world \<Rightarrow> 'g world \<Rightarrow> segment \<Rightarrow> u64 \<Rightarrow> bool" where
  "delivered src d w w' = (\<lambda>(_, _, n, x) y.
     n \<noteq> 0 \<longrightarrow> (\<exists>q off bs. source_pointer src x n w = Some (q, off) \<and> mem_load (host_mem w) q n = Some bs \<and>
       mem_load (host_mem w') (reach (modules w' ! d) y) n = Some bs))"

lemma located_sizes:
  "located pos segs ls \<Longrightarrow> list_all2 (\<lambda>(_, _, n, x) l. copy_size l = n \<and> src_addr l = x) segs ls"
  by (induction pos segs ls rule: located.induct) auto

lemma prepared_same_location:
  assumes "same_location l l'" "prepared src d w l"
  shows "prepared src d w l'"
proof (cases "copy_payload l")
  case False
  with assms(1) have "copy_payload l' = copy_payload l" "copy_size l' = copy_size l" "src_ptr l' = src_ptr l"
      "src_addr l' = src_addr l" "dst_addr l' = dst_addr l"
    by (simp_all add: same_location_def)
  with assms(2) show ?thesis by (simp only: prepared_def)
next
  case True
  with assms(1) have "copy_payload l'" "copy_size l' = copy_size l" "src_ptr l' = src_ptr l" "src_addr l' = src_addr l"
    by (simp_all add: same_location_def)
  with assms(2) True show ?thesis by (auto simp: prepared_def split: if_splits)
qed

lemma refreshed_destination:
  "destination_block d a n w = (Some q, w') \<Longrightarrow> refreshed w w'"
  by (auto simp: destination_block_def Let_def refreshed_refl split: if_splits)

lemma located_each:
  assumes "located pos segs ls" "\<And>b a n x l. (b, a, n, x) \<in> set segs \<Longrightarrow> l \<in> set ls \<Longrightarrow> copy_size l = n \<Longrightarrow> src_addr l = x \<Longrightarrow> P (b, a, n, x) (f l)"
  shows "list_all2 P segs (map f ls)"
  using assms by (induction pos segs ls rule: located.induct) auto

lemma located_segment:
  "located pos segs ls \<Longrightarrow> l \<in> set ls \<Longrightarrow> \<exists>b a. (b, a, copy_size l, src_addr l) \<in> set segs"
  by (induction pos segs ls rule: located.induct) (auto, metis)

text \<open>The data of a location, as the source has it.\<close>

lemma location_source:
  assumes "located pos segs ls" "l \<in> set ls" "prepared src d w l" "list_all (source_ok K src w) segs" "copy_size l \<noteq> 0"
  obtains off bs where "source_pointer src (src_addr l) (copy_size l) w = Some (src_ptr l, off)"
    "mem_load (host_mem w) (src_ptr l) (copy_size l) = Some bs" "\<And>y. in_block (src_ptr l) (copy_size l) y \<Longrightarrow> K y"
proof -
  obtain b a where "(b, a, copy_size l, src_addr l) \<in> set segs" using located_segment [OF assms(1,2)] by blast
  with assms(4,5) have ok: "source_pointer src (src_addr l) (copy_size l) w = Some (q, off) \<Longrightarrow>
      mem_load (host_mem w) q (copy_size l) \<noteq> None \<and> (\<forall>y. in_block q (copy_size l) y \<longrightarrow> K y)" for q off
    by (auto simp: source_ok_def list_all_iff)
  obtain off where "source_pointer src (src_addr l) (copy_size l) w = Some (src_ptr l, off)"
    using assms(3) by (auto simp: prepared_def)
  with ok [OF this] show thesis by (auto intro: that)
qed

lemma mem_load_kept:
  assumes "\<forall>y. in_block q n y \<longrightarrow> K y" "\<forall>y. K y \<longrightarrow> m' y = m y" "n \<le> 2 ^ 64"
  shows "mem_load m' q n = mem_load m q n"
  by (rule mem_load_cong) (use assms in auto)


lemma prepend_sizes:
  "prepend_text u (segs, t) = (segs', t') \<Longrightarrow> list_all (\<lambda>(_, _, n, _). P n) segs' = list_all (\<lambda>(_, _, n, _). P n) segs"
  by (cases segs) auto

lemma scan_text_sizes: "scan_text s = Some (segs, t) \<Longrightarrow> list_all (\<lambda>(_, _, n, _). n < 2 ^ 64) segs"
proof (induction s arbitrary: segs t rule: scan_text.induct)
  case (1 s)
  show ?case
  proof (cases "s = [] \<or> next_descriptor s = No_descriptor \<or> next_descriptor s = Bad_descriptor")
    case True
    with 1(3) have "segs = []" by (auto simp: scan_text.simps [of s] split: if_splits)
    then show ?thesis by simp
  next
    case F: False
    show ?thesis
    proof (cases "next_descriptor s")
      case (Skip_to k)
      then obtain segs1 t1 where r: "scan_text (drop k s) = Some (segs1, t1)" "prepend_text (take k s) (segs1, t1) = (segs, t)"
        using 1(3) F by (auto simp: scan_text.simps [of s])
      with 1(1) [OF _ Skip_to r(1)] F prepend_sizes [OF r(2), of "\<lambda>n. n < 2 ^ 64"] show ?thesis by simp
    next
      case (Descriptor b e n a)
      then obtain segs1 t1 where r: "scan_text (drop e s) = Some (segs1, t1)" "segs = (take b s, take (e - b) (drop b s), n, a) # segs1"
        using 1(3) F by (auto simp: scan_text.simps [of s])
      have "n < 2 ^ 64" by (rule next_descriptor_Descriptor [OF Descriptor]) (metis unat_lt64)
      with 1(2) [OF _ Descriptor r(1)] F r(2) show ?thesis by simp
    qed (use F in auto)
  qed
qed


section \<open>The delivered message\<close>

lemma c_text_bytes: "c_text m p = Some s \<Longrightarrow> mem_load m p (length s) = Some (bytes_of_string s)"
  using c_text_block [of m p s] mem_load_append [of "bytes_of_string s" "length s" m p 1 "[0]"] by simp

text \<open>The text and the locations before the block is allocated.\<close>

lemma transfer_prepared:
  assumes "wahe_measure_transfer_message src p w = Some (Some n, w1)" "mem_load (host_mem w1) p n = Some bs"
    and "find_locations E src d (map char_of_byte bs) 0 [] 0 (n + 1) w1 = (Some (locs, cap), w2)"
    and "d < length (modules w)" "\<And>m. src = Some m \<Longrightarrow> m < length (modules w)"
  obtains msg segs t where "c_text (host_mem w) p = Some msg" "scan_text msg = Some (segs, t)" "n = length msg"
    "located 0 segs locs" "cap = length msg + 1 + slack locs" "refreshed w w2" "list_all (prepared src d w) locs"
proof -
  obtain msg where msg: "c_text (host_mem w) p = Some msg" "length msg = n" using measure_message(2) [OF assms(1)] by blast
  have ref: "refreshed w w1" using measure_message(1) [OF assms(1)] .
  have hm: "host_mem w1 = host_mem w" using refreshed_view [OF ref] by simp
  have "bs = bytes_of_string msg" using c_text_bytes [OF msg(1)] assms(2) msg(2) hm by simp
  then have bs: "map char_of_byte bs = msg" by (simp add: bytes_of_string_def o_def)
  obtain segs t where "scan_text msg = Some (segs, t)" "located 0 segs locs" "cap = n + 1 + slack locs"
    using find_locations_scan [OF assms(3) [unfolded bs]] by auto
  moreover have "refreshed w w2 \<and> list_all (prepared src d w) locs"
    by (rule find_locations_prepared [OF assms(3) ref _ assms(4,5)]) simp
  ultimately show thesis using that msg by blast
qed


lemma valid_index: "wahe_require_valid_module c w = Some () \<Longrightarrow> c = Some m \<Longrightarrow> m < length (modules w)"
  by (auto simp: wahe_require_valid_module_def split: bind_splits if_splits option.splits)

text \<open>What is known of a location once its address is final.\<close>

definition final_location :: "nat option \<Rightarrow> nat \<Rightarrow> u64 \<Rightarrow> 'g world \<Rightarrow> wahe_message_location_t \<Rightarrow> bool" where
  "final_location src d a w l \<longleftrightarrow>
     prepared src d w l \<and> (copy_payload l \<longrightarrow> dst_addr l = a + of_nat (payload_offset l))"

lemma final_locations:
  assumes "list_all2 same_location locs locs1" "finish_addresses a locs1 = Some locs2"
    and "list_all (prepared src d w) locs"
  shows "list_all (final_location src d a w) locs2" "list_all2 same_location locs locs2"
proof -
  have trans: "same_location x z" if "same_location x y" "same_location y z" for x y z
    using that by (simp add: same_location_def)
  note fin = finish_addresses_spec [OF assms(2)]
  show all2: "list_all2 same_location locs locs2"
    by (rule list_all2_trans [OF trans assms(1)]) (use fin in \<open>auto elim: list_all2_mono\<close>)
  have "final_location src d a w l" if l: "l \<in> set locs2" for l
  proof -
    obtain i where i: "i < length locs2" "l = locs2 ! i" using l by (metis in_set_conv_nth)
    then have "same_location (locs ! i) l" "i < length locs" using all2 by (auto simp: list_all2_conv_all_nth)
    then have "prepared src d w l" using prepared_same_location assms(3) by (metis list_all_length)
    moreover have "copy_payload l \<longrightarrow> dst_addr l = a + of_nat (payload_offset l)"
      using fin i by (auto simp: list_all2_conv_all_nth same_location_def)
    ultimately show ?thesis by (simp add: final_location_def)
  qed
  then show "list_all (final_location src d a w) locs2" by (simp add: list_all_iff)
qed

text \<open>The data of one location, read through the destination at its final address.\<close>

lemma location_delivered:
  assumes fl: "final_location src d a w l" "copy_size l \<noteq> 0" "mem_load (host_mem w) (src_ptr l) (copy_size l) = Some bs"
    and wf: "module_wf d w" "module_wf d w3" "memory_apart src d w" "\<forall>m. src = Some m \<longrightarrow> m < length (modules w)"
    and blk: "destination_block d a hi w3 = (Some q, w4)"
    and same: "reach (modules w3 ! d) = reach (modules w ! d)" "has_host_mem_access (modules w3 ! d) = has_host_mem_access (modules w ! d)"
    and mem: "carries l \<Longrightarrow> mem_load m' (q + of_nat (payload_offset l)) (copy_size l) = Some bs"
      "mem_load m' (src_ptr l) (copy_size l) = Some bs"
  shows "mem_load m' (reach (modules w ! d) (dst_addr l)) (copy_size l) = Some bs"
proof (cases "copy_payload l")
  case True
  then have "\<not> has_host_mem_access (modules w ! d)" using fl(1,2) by (auto simp: final_location_def prepared_def)
  then have "\<not> has_host_mem_access (modules w3 ! d)" using same(2) by simp
  from reach_copied [OF blk wf(2) this] have "reach (modules w ! d) (dst_addr l) = q + of_nat (payload_offset l)"
    using fl(1) True same(1) by (simp add: final_location_def)
  with mem(1) True fl(2) show ?thesis by (simp add: carries_def)
next
  case False
  have "reach (modules w ! d) (dst_addr l) = src_ptr l"
    using reach_prepared [of src d w l] False fl(1,2) wf(1,3,4) by (simp add: final_location_def)
  with mem(2) show ?thesis by simp
qed

text \<open>From the allocated block on, the transfer cannot fail.\<close>

lemma transfer_fills:
  assumes idx: "d < length (modules w)" "\<And>m. src = Some m \<Longrightarrow> m < length (modules w)"
    and steps: "wahe_measure_transfer_message src p w = Some (Some n, w1)" "mem_load (host_mem w1) p n = Some bs"
      "find_locations E src d (map char_of_byte bs) 0 [] 0 (n + 1) w1 = (Some (locs, cap), w2)"
    and al: "wahe_align_transfer_size cap 16 = Some lo" "layout_payloads lo locs = Some (hi, locs1)"
    and mal: "call_module_malloc_on_runner E (Some d) r (of_nat hi) w2 = Some (a, w3)" "a \<noteq> 0"
    and blk: "destination_block d a hi w3 = (Some q, w4)"
    and fin: "finish_addresses a locs1 = Some locs2"
    and hyps: "transfer_source K src p w" "transfer_allocator K E d r w" "module_wf d w" "memory_apart src d w"
  shows "\<exists>h msg segs t ds. fill_message n cap q p locs2 (host_mem w4) = Some (True, h) \<and>
    c_text (host_mem w) p = Some msg \<and> scan_text msg = Some (segs, t) \<and>
    c_text h (reach (modules w4 ! d) a) = Some (text_of (readdress segs ds) t) \<and>
    list_all2 (delivered src d w (w4\<lparr>host_mem := h\<rparr>)) segs ds \<and> (\<forall>y. K y \<longrightarrow> h y = host_mem w y)"
proof -
  obtain msg segs t where msg: "c_text (host_mem w) p = Some msg" "scan_text msg = Some (segs, t)" "n = length msg"
    and loc: "located 0 segs locs" "cap = length msg + 1 + slack locs" "refreshed w w2" "list_all (prepared src d w) locs"
    by (rule transfer_prepared [OF steps idx])
  have "cap \<le> lo" "lo \<le> SIZE_MAX" using align_16 [OF al(1)] by simp_all
  then have lay: "laid_out lo hi locs locs1" "hi \<le> SIZE_MAX" "cap \<le> lo" using layout_payloads_spec [OF al(2)] by auto
  note final = final_locations [OF laid_out_same [OF lay(1)] fin loc(4)]
  have lay2: "laid_out lo hi locs locs2"
    by (rule laid_out_finish [OF lay(1)]) (use finish_addresses_spec [OF fin] in \<open>auto elim: list_all2_mono\<close>)
  have hi: "unat (of_nat hi :: u64) = hi" using lay(2) by (simp add: unat_of_nat take_bit_eq_mod)
  note alc = hyps(2) [unfolded transfer_allocator_def, rule_format, OF loc(3) mal]
  have block: "block_mapped (host_mem w3) q hi" "in_block q hi y \<Longrightarrow> \<not> K y" for y
    using alc blk unfolding hi by blast+
  have v2: "host_mem w2 = host_mem w" "same_module (modules w ! d) (modules w2 ! d)" "length (modules w2) = length (modules w)"
    using refreshed_view [OF loc(3)] idx(1) by auto
  have d3: "d < length (modules w3)" using alc v2(3) idx(1) by simp
  have v4: "host_mem w4 = host_mem w3" "same_module (modules w3 ! d) (modules w4 ! d)"
    using refreshed_view [OF refreshed_destination [OF blk]] d3 by auto
  have memory: "\<forall>y. K y \<longrightarrow> host_mem w3 y = host_mem w y" using alc v2(1) by simp
  have kept: "mem_load (host_mem w3) x k = mem_load (host_mem w) x k" "disjoint_blocks q hi x k"
    if "\<forall>y. in_block x k y \<longrightarrow> K y" "k \<le> 2 ^ 64" for x k
    using mem_load_kept [OF that(1) memory that(2)] that(1) block(2) unfolding disjoint_blocks_def by blast+
  have reach: "reach (modules w4 ! d) = reach (modules w ! d)" "reach (modules w3 ! d) = reach (modules w ! d)"
    using reach_same [OF v4(2)] reach_same [OF v2(2)] reach_same [of "modules w2 ! d" "modules w3 ! d"] alc by auto
  have src: "list_all (source_ok K src w) segs" "\<forall>y. in_block p (length msg + 1) y \<longrightarrow> K y"
    using hyps(1) msg(1,2) by (auto simp: transfer_source_def)
  have len: "length msg + 1 \<le> 2 ^ 64" "0 < hi" using loc(2) lay by (auto dest: laid_out_le)
  have located: "located 0 segs locs2" using located_same [OF final(2) loc(1)] .
  have size: "copy_size l \<le> 2 ^ 64" if "l \<in> set locs2" for l
    using located_segment [OF located that] scan_text_sizes [OF msg(2)] by (fastforce simp: list_all_iff)
  have fl: "final_location src d a w l" if "l \<in> set locs2" for l using final(1) that by (simp add: list_all_iff)
  have at_source: "\<exists>off bs. source_pointer src (src_addr l) (copy_size l) w = Some (src_ptr l, off) \<and>
      mem_load (host_mem w) (src_ptr l) (copy_size l) = Some bs \<and> (\<forall>y. in_block (src_ptr l) (copy_size l) y \<longrightarrow> K y)"
    if l: "l \<in> set locs2" "copy_size l \<noteq> 0" for l
    by (rule location_source [OF located l(1) _ src(1) l(2)]) (use fl [OF l(1)] in \<open>auto simp: final_location_def\<close>)
  have in_text: "mem_load (host_mem w3) p (length msg + 1) = Some (bytes_of_string msg @ [0])" "disjoint_blocks q hi p (length msg + 1)"
    using kept [OF src(2) len(1)] c_text_block [OF msg(1)] by auto
  have pay: "mem_load (host_mem w3) (src_ptr l) (copy_size l) \<noteq> None \<and> disjoint_blocks q hi (src_ptr l) (copy_size l)"
    if l: "l \<in> set locs2" "carries l" for l
    using at_source [OF l(1)] kept [OF _ size [OF l(1)], of "src_ptr l"] l(2) by (auto simp: carries_def)
  obtain m' where m': "fill_message (length msg) cap q p locs2 (host_mem w3) = Some (True, m')"
      "c_text m' q = Some (text_of (readdress segs (map dst_addr locs2)) t)"
      "\<forall>l \<in> set locs2. carries l \<longrightarrow> mem_load m' (q + of_nat (payload_offset l)) (copy_size l) = mem_load (host_mem w3) (src_ptr l) (copy_size l)"
      "\<forall>y. \<not> in_block q hi y \<longrightarrow> m' y = host_mem w3 y"
    using fill_message_correct [OF in_text(1) _ msg(2) located lay2 _ _ block(1) in_text(2) pay] c_text_block [OF msg(1)]
      slack_same [OF final(2)] loc(2) lay by auto
  have same: "\<forall>y. K y \<longrightarrow> m' y = host_mem w y" using m'(4) block(2) memory by metis
  have "list_all2 (delivered src d w (w4\<lparr>host_mem := m'\<rparr>)) segs (map dst_addr locs2)"
  proof (rule located_each [OF located])
    fix b c k x l assume l: "l \<in> set locs2" "copy_size l = k" "src_addr l = x"
    show "delivered src d w (w4\<lparr>host_mem := m'\<rparr>) (b, c, k, x) (dst_addr l)"
    proof (cases "k = 0")
      case False
      then obtain off bs where so: "source_pointer src x k w = Some (src_ptr l, off)" "mem_load (host_mem w) (src_ptr l) k = Some bs"
          "\<forall>y. in_block (src_ptr l) k y \<longrightarrow> K y"
        using at_source [OF l(1)] l by blast
      have kb: "k \<le> 2 ^ 64" using size [OF l(1)] l(2) by simp
      have "mem_load m' (reach (modules w ! d) (dst_addr l)) (copy_size l) = Some bs"
        by (rule location_delivered [OF fl [OF l(1)] _ _ hyps(3) _ hyps(4) _ blk reach(2)])
          (use False l so alc idx(2) v2(2) m'(3) kept(1) [OF so(3) kb] mem_load_kept [OF so(3) same kb] in
            \<open>auto simp: same_module_def\<close>)
      with so l(2) show ?thesis by (auto simp: delivered_def reach)
    qed (simp add: delivered_def)
  qed
  moreover have "reach (modules w ! d) a = q" using reach_block [OF blk d3 _ len(2)] alc reach(2) by simp
  ultimately show ?thesis using msg m'(1,2) same reach(1) v4(1)
    by (intro exI [of _ m'] exI [of _ msg] exI [of _ segs] exI [of _ t] exI [of _ "map dst_addr locs2"]) simp
qed


text \<open>The calls a transfer makes to the destination's allocator return.\<close>

definition allocator_returns :: "'g env \<Rightarrow> nat \<Rightarrow> nat \<Rightarrow> 'g world \<Rightarrow> bool" where
  "allocator_returns E d r w \<longleftrightarrow>
     (\<forall>w2 n. refreshed w w2 \<longrightarrow> (\<exists>a w3. call_module_malloc_on_runner E (Some d) r n w2 = Some (a, w3) \<and>
        (\<forall>w4. refreshed w3 w4 \<longrightarrow> call_module_free_on_runner E (Some d) r a w4 \<noteq> None)))"

lemma allocator_release:
  assumes "allocator_returns E d r w" "refreshed w w2"
  shows "\<exists>a w3. call_module_malloc_on_runner E (Some d) r n w2 = Some (a, w3) \<and>
    (\<forall>w4. refreshed w3 w4 \<longrightarrow> (\<exists>w5. release_block E d r a w4 = Some (0, w5)))"
proof -
  obtain a w3 where m: "call_module_malloc_on_runner E (Some d) r n w2 = Some (a, w3)"
      "\<forall>w4. refreshed w3 w4 \<longrightarrow> call_module_free_on_runner E (Some d) r a w4 \<noteq> None"
    using assms unfolding allocator_returns_def by blast
  have "\<exists>w5. release_block E d r a w4 = Some (0, w5)" if "refreshed w3 w4" for w4
    using m(2) that by (auto simp: release_block_def)
  with m(1) show ?thesis by blast
qed

lemma memchr_text: "c_text m p = Some s \<Longrightarrow> memchr_nul m p n \<noteq> None"
proof (induction n arbitrary: p s)
  case (Suc n)
  then obtain b where b: "m p = Some b" by (subst (asm) c_text.simps) (auto split: bind_splits)
  show ?case
  proof (cases "b = 0")
    case False
    then obtain s' where "c_text m (p + 1) = Some s'" using Suc(2) b by (subst (asm) c_text.simps) (auto split: bind_splits)
    from Suc(1) [OF this] False b show ?thesis by (auto split: option.splits)
  qed (simp add: b)
qed simp

lemma measure_total:
  assumes "c_text (host_mem w) p = Some msg" "p \<noteq> 0"
  shows "\<exists>r w1. wahe_measure_transfer_message src p w = Some (r, w1)"
proof -
  have "memchr_nul (host_mem w) p n \<noteq> None" for n by (rule memchr_text [OF assms(1)])
  then show ?thesis using assms by (cases src) (auto simp: wahe_measure_transfer_message_def Let_def)
qed


text \<open>The message at \<open>a\<close> in the destination is the source message with addresses that lead to the same data.\<close>

definition arrived :: "nat option \<Rightarrow> u64 \<Rightarrow> nat \<Rightarrow> 'g world \<Rightarrow> u64 \<Rightarrow> 'g world \<Rightarrow> bool" where
  "arrived src p d w a w' \<longleftrightarrow>
     (\<exists>msg segs t ds. c_text (host_mem w) p = Some msg \<and> scan_text msg = Some (segs, t) \<and>
        c_text (host_mem w') (reach (modules w' ! d) a) = Some (text_of (readdress segs ds) t) \<and>
        list_all2 (delivered src d w w') segs ds)"

text \<open>The transfer once its message is found, and once its block is allocated.\<close>

definition block_layout :: "(wahe_message_location_t list \<times> nat) option \<Rightarrow> (nat \<times> wahe_message_location_t list) option" where
  "block_layout found =
     (case found of
        None \<Rightarrow> None
      | Some (locs, cap) \<Rightarrow> (case wahe_align_transfer_size cap 16 of None \<Rightarrow> None | Some lo \<Rightarrow> layout_payloads lo locs))"

lemma transfer_found:
  assumes "wahe_require_valid_module src w = Some ()" "wahe_require_valid_module (Some d) w = Some ()" "p \<noteq> 0"
    and "wahe_measure_transfer_message src p w = Some (Some n, w1)" "mem_load (host_mem w1) p n = Some bs" "n \<noteq> SIZE_MAX"
    and "find_locations E src d (map char_of_byte bs) 0 [] 0 (n + 1) w1 = (found, w2)"
  shows "block_layout found = None \<Longrightarrow> wahe_copy_message_between_modules_on_runner E src p (Some d) r w = Some (0, w2)"
    and "block_layout found = Some (hi, locs1) \<Longrightarrow> found = Some (locs, cap) \<Longrightarrow> call_module_malloc_on_runner E (Some d) r (of_nat hi) w2 = Some (a, w3) \<Longrightarrow>
      wahe_copy_message_between_modules_on_runner E src p (Some d) r w =
        (if a = 0 then Some (0, w3)
         else (case destination_block d a hi w3 of
                 (None, w4) \<Rightarrow> release_block E d r a w4
               | (Some q, w4) \<Rightarrow>
                   (case finish_addresses a locs1 of
                      None \<Rightarrow> release_block E d r a w4
                    | Some locs2 \<Rightarrow>
                        do {
                          (ok, h) \<leftarrow> fill_message n cap q p locs2 (host_mem w4);
                          (if ok then Some (a, w4\<lparr>host_mem := h\<rparr>) else release_block E d r a (w4\<lparr>host_mem := h\<rparr>))
                        })))"
  unfolding wahe_copy_message_between_modules_on_runner_def using assms
  by (auto simp: block_layout_def split: option.splits)

lemma transfer_allocated:
  assumes alloc: "call_module_malloc_on_runner E (Some d) r (of_nat hi) w2 = Some (a, w3)"
    and releases: "\<And>w4. refreshed w3 w4 \<Longrightarrow> \<exists>w5. release_block E d r a w4 = Some (0, w5)"
    and fills: "\<And>q w4 locs2. a \<noteq> 0 \<Longrightarrow> destination_block d a hi w3 = (Some q, w4) \<Longrightarrow> finish_addresses a locs1 = Some locs2 \<Longrightarrow>
      \<exists>h. fill_message n cap q p locs2 (host_mem w4) = Some (True, h) \<and> P a (w4\<lparr>host_mem := h\<rparr>)"
  shows "\<exists>b w'. (if a = 0 then Some (0, w3)
         else (case destination_block d a hi w3 of
                 (None, w4) \<Rightarrow> release_block E d r a w4
               | (Some q, w4) \<Rightarrow>
                   (case finish_addresses a locs1 of
                      None \<Rightarrow> release_block E d r a w4
                    | Some locs2 \<Rightarrow>
                        do {
                          (ok, h) \<leftarrow> fill_message n cap q p locs2 (host_mem w4);
                          (if ok then Some (a, w4\<lparr>host_mem := h\<rparr>) else release_block E d r a (w4\<lparr>host_mem := h\<rparr>))
                        }))) = Some (b, w') \<and> (b \<noteq> 0 \<longrightarrow> P b w')"
proof (cases "a = 0")
  case False
  obtain qo w4 where blk: "destination_block d a hi w3 = (qo, w4)" by fastforce
  then have "refreshed w3 w4" by (auto simp: destination_block_def Let_def refreshed_refl split: if_splits)
  from releases [OF this] obtain w5 where rel: "release_block E d r a w4 = Some (0, w5)" by blast
  show ?thesis
  proof (cases "qo = None \<or> finish_addresses a locs1 = None")
    case True
    with rel blk False show ?thesis by (auto split: option.splits)
  next
    case fin: False
    then obtain q locs2 where ql: "qo = Some q" "finish_addresses a locs1 = Some locs2" by auto
    with fills [OF False blk [unfolded ql(1)] ql(2)] False blk show ?thesis by auto
  qed
qed simp

lemma transfer_result:
  assumes valid: "wahe_require_valid_module src w = Some ()" "wahe_require_valid_module (Some d) w = Some ()"
    and msg: "p = 0 \<or> c_text (host_mem w) p \<noteq> None"
    and hyps: "transfer_source K src p w" "transfer_allocator K E d r w" "module_wf d w" "allocator_returns E d r w"
      "memory_apart src d w"
  shows "\<exists>a w'. wahe_copy_message_between_modules_on_runner E src p (Some d) r w = Some (a, w') \<and>
    (a \<noteq> 0 \<longrightarrow> arrived src p d w a w' \<and> (\<forall>y. K y \<longrightarrow> host_mem w' y = host_mem w y))"
proof (cases "p = 0")
  case False
  have idx: "d < length (modules w)" "\<And>m. src = Some m \<Longrightarrow> m < length (modules w)"
    using valid_index valid by blast+
  obtain msg where msg_text: "c_text (host_mem w) p = Some msg" using msg False by blast
  obtain measured w1 where meas: "wahe_measure_transfer_message src p w = Some (measured, w1)"
    using measure_total [OF msg_text False] by blast
  show ?thesis
  proof (cases measured)
    case (Some n)
    note meas = meas [unfolded Some]
    have "length msg = n" "host_mem w1 = host_mem w"
      using measure_message [OF meas] refreshed_view [of w w1] msg_text by auto
    with c_text_bytes [OF msg_text] obtain bs where bs: "mem_load (host_mem w1) p n = Some bs" by simp
    obtain found w2 where find: "find_locations E src d (map char_of_byte bs) 0 [] 0 (n + 1) w1 = (found, w2)" by fastforce
    show ?thesis
    proof (cases "n = SIZE_MAX")
      case True
      with valid False meas show ?thesis by (simp add: wahe_copy_message_between_modules_on_runner_def)
    next
      case n: False
      note found = transfer_found [OF valid False meas bs n find]
      show ?thesis
      proof (cases "block_layout found")
        case None
        with found(1) show ?thesis by simp
      next
        case (Some res)
        then obtain hi locs1 locs cap lo where lay: "found = Some (locs, cap)" "wahe_align_transfer_size cap 16 = Some lo"
            "layout_payloads lo locs = Some (hi, locs1)" "res = (hi, locs1)"
          by (cases res) (auto simp: block_layout_def split: option.splits prod.splits)
        note find = find [unfolded lay(1)]
        have "refreshed w w2" using transfer_prepared [OF meas bs find idx] by blast
        then obtain a w3 where mal: "call_module_malloc_on_runner E (Some d) r (of_nat hi) w2 = Some (a, w3)"
            "\<And>w4. refreshed w3 w4 \<Longrightarrow> \<exists>w5. release_block E d r a w4 = Some (0, w5)"
          using allocator_release [OF hyps(4)] by blast
        show ?thesis
          unfolding found(2) [OF Some [unfolded lay(4)] lay(1) mal(1)]
        proof (rule transfer_allocated [OF mal])
          fix q w4 locs2
          assume b: "a \<noteq> 0" "destination_block d a hi w3 = (Some q, w4)" "finish_addresses a locs1 = Some locs2"
          obtain h msg segs t ds where f: "fill_message n cap q p locs2 (host_mem w4) = Some (True, h)"
              "c_text (host_mem w) p = Some msg" "scan_text msg = Some (segs, t)"
              "c_text h (reach (modules w4 ! d) a) = Some (text_of (readdress segs ds) t)"
              "list_all2 (delivered src d w (w4\<lparr>host_mem := h\<rparr>)) segs ds" "\<forall>y. K y \<longrightarrow> h y = host_mem w y"
            using transfer_fills [OF idx meas bs find lay(2,3) mal(1) b hyps(1-3,5)] by blast
          then have "arrived src p d w a (w4\<lparr>host_mem := h\<rparr>)"
            unfolding arrived_def by (intro exI [of _ msg] exI [of _ segs] exI [of _ t] exI [of _ ds]) simp
          with f(1,6) show "\<exists>h. fill_message n cap q p locs2 (host_mem w4) = Some (True, h) \<and>
              arrived src p d w a (w4\<lparr>host_mem := h\<rparr>) \<and> (\<forall>y. K y \<longrightarrow> host_mem (w4\<lparr>host_mem := h\<rparr>) y = host_mem w y)"
            by (intro exI [of _ h]) simp
        qed
      qed
    qed
  qed (use valid False meas in \<open>simp add: wahe_copy_message_between_modules_on_runner_def\<close>)
qed (use valid in \<open>simp add: wahe_copy_message_between_modules_on_runner_def\<close>)

definition sample_message :: string where "sample_message = ''location: 2 bytes at 9''"

definition transfer_memory :: memory where
  "transfer_memory q =
     (if unat (q - 0x8000) < 23 then Some ((bytes_of_string sample_message @ [0]) ! unat (q - 0x8000))
      else if unat (q - 9) < 2 then Some 5
      else if unat (q - 0x1000) < 0x200 then Some 0
      else None)"

definition translated_module :: wahe_module_t where
  "translated_module = zero_module\<lparr>valid := True, mtype := WAHE_MODULE_WASM_TO_NATIVE, runner_count := 1, memory_ptr := 0x1000,
     memory_size := 0x200, memory_bits := 32, address_bits := 32, dl_func := \<lambda>_. True, wasm_decomp_instance := True\<rparr>"

definition transfer_chain :: wahe_chain_t where
  "transfer_chain = \<lparr>chain_name = Some ''main'', has_group = True, connection = [\<lparr>src_eo = 0, dst_eo = 1\<rparr>],
     exec_order =
       [\<lparr>eo_type = WAHE_EO_CHAIN_INPUT_MSG, eo_module_id = - 1, eo_func_id = WAHE_FUNC_NONE, eo_runner_id = 0,
         dst_msg_addr = 0, ret_msg_addr = 0, cmd_proc_id = []\<rparr>,
        \<lparr>eo_type = WAHE_EO_MODULE_FUNC, eo_module_id = 0, eo_func_id = WAHE_FUNC_INPUT, eo_runner_id = 0,
         dst_msg_addr = 0, ret_msg_addr = 0, cmd_proc_id = []\<rparr>], exec_order_rest = [],
     current_eo = - 1, current_cmd_proc_id = 0, current_func = WAHE_FUNC_NONE\<rparr>"

definition transfer_world :: "unit world" where
  "transfer_world = sample_world\<lparr>host_mem := transfer_memory, modules := [translated_module], chains := [transfer_chain],
     cur_chain := Some 0\<rparr>"

lemma sample_prefix: "strstr ''location: 2 bytes at 9'' ''location: '' = Some ''location: 2 bytes at 9''"
  by (subst strstr.simps) simp

lemma sample_digits:
  "is_digit_in 10 CHR ''2''" "is_digit_in 10 CHR ''9''" "\<not> is_digit_in 10 CHR '' ''" "digit_value CHR ''2'' = Some 2" "digit_value CHR ''9'' = Some 9"
  by (simp_all add: is_digit_in_def digit_value_def)

lemma sample_numbers:
  "strtoumax ''2 bytes at 9'' 10 = (2, 1, False)" "strtoumax ''9'' 0 = (9, 1, False)"
  by (simp_all add: strtoumax_def scan_number_def sample_digits)

lemma sample_descriptor: "next_descriptor sample_message = Descriptor 21 22 2 9"
  by (simp add: next_descriptor_def sample_message_def sample_prefix sample_numbers sample_digits Let_def)

lemma sample_scan: "scan_text sample_message = Some ([(''location: 2 bytes at '', ''9'', 2, 9)], [])"
  using sample_descriptor by (subst scan_text.simps) (simp add: scan_text.simps [of "[]"] sample_message_def)

lemma sample_locations: "find_locations (answering_env 16) None 0 sample_message 0 [] 0 23 transfer_world = (Some ([\<lparr>address_start = 21, address_end = 22, copy_size = 2, src_addr = 9,
   dst_addr = 0, payload_offset = 0, src_ptr = 9, copy_payload = True\<rparr>], 48), transfer_world)"
proof -
  have "length sample_message = 22" by (simp add: sample_message_def)
  then show ?thesis
  by (subst find_locations.simps, subst (2) find_locations.simps) (simp add: sample_descriptor
   location_grows_def answering_env_def wahe_prepare_transfer_location_def wahe_resolve_transfer_source_def direct_source_def transfer_world_def
   translated_module_def sample_simps wahe_refresh_module_memory_size_def max_address_len_def)
qed

lemmas transfer_world_simps = transfer_world_def translated_module_def sample_simps

lemma transfer_world_refresh: "wahe_refresh_module_memory_size c transfer_world = transfer_world"
proof (cases c)
  case (Some m)
  then show ?thesis
    by (cases m) (simp_all add: wahe_refresh_module_memory_size_def upd_module_def transfer_world_simps)
qed (simp add: wahe_refresh_module_memory_size_def)

lemma transfer_world_refreshed: "refreshed w w' \<Longrightarrow> w = transfer_world \<Longrightarrow> w' = transfer_world"
  by (induction rule: refreshed.induct) (simp_all add: transfer_world_refresh)

lemma sample_malloc: "call_module_malloc_on_runner (answering_env 16) (Some 0) 0 n transfer_world = Some (16, transfer_world)"
  by (simp add: call_module_malloc_on_runner_def call_module_func_core_on_runner_def wahe_wait_after_execution_failure_def
     wahe_require_valid_module_def call_native_def transfer_world_simps native_args_def native_result_def enter_native_def leave_native_def Let_def)


lemma sample_free: "call_module_free_on_runner (answering_env 16) (Some 0) 0 a transfer_world = Some transfer_world"
  by (simp add: call_module_free_on_runner_def call_module_func_core_on_runner_def wahe_wait_after_execution_failure_def
     wahe_require_valid_module_def call_native_def transfer_world_simps native_args_def native_result_def enter_native_def leave_native_def Let_def)

definition transfer_bytes :: "u64 \<Rightarrow> bool" where
  "transfer_bytes q \<longleftrightarrow> in_block 0x8000 23 q \<or> in_block 9 2 q"

lemma transfer_world_view:
  "host_mem transfer_world = transfer_memory" "modules transfer_world = [translated_module]"
  "refreshed_size 0 transfer_world = 0x200" "module_wf 0 transfer_world"
  "wahe_require_valid_module None transfer_world = Some ()" "wahe_require_valid_module (Some 0) transfer_world = Some ()"
  "destination_block 0 16 n transfer_world = (if 496 < n then None else Some 0x1010, transfer_world)"
  by (simp_all add: transfer_world_simps refreshed_size_def refreshable_def module_wf_def wahe_require_valid_module_def
     wahe_wait_after_execution_failure_def destination_block_def wahe_refresh_module_memory_size_def wahe_get_module_memory_size_def Let_def)

lemma sample_apart: "memory_apart None d w"
  by (simp add: memory_apart_def)

lemma sample_length: "length sample_message = 22"
  by (simp add: sample_message_def)

lemma sample_message_bytes: "mem_load transfer_memory 0x8000 (length (bytes_of_string sample_message @ [0])) = Some (bytes_of_string sample_message @ [0])"
  by (auto simp: mem_load_iff transfer_memory_def sample_length unat_of_nat take_bit_eq_mod)

lemma sample_message_text: "c_text transfer_memory 0x8000 = Some sample_message"
  by (rule c_text_load [OF sample_message_bytes]) (simp add: sample_message_def)

lemma transfer_memory_data: "mem_load transfer_memory 9 2 = Some [5, 5]"
  by (simp add: mem_load_def mapped_range_def transfer_memory_def upt_rec [of _ "2"] upt_rec)

lemma sample_source: "transfer_source transfer_bytes None 0x8000 transfer_world"
  by (simp add: transfer_source_def transfer_world_view sample_message_text sample_scan source_ok_def
     transfer_bytes_def source_pointer_def wahe_resolve_transfer_source_def direct_source_def transfer_memory_data sample_length)

lemma sample_block: "n \<le> 496 \<Longrightarrow> block_mapped transfer_memory 0x1010 n \<and> (\<forall>y. in_block 0x1010 n y \<longrightarrow> \<not> transfer_bytes y)"
proof -
  assume n: "n \<le> 496"
  have "\<not> transfer_bytes y \<and> transfer_memory y \<noteq> None" if y: "in_block 0x1010 n y" for y
  proof -
    have b: "0x1010 \<le> unat y" "unat y < 0x1010 + n" using y n in_block_bounds [where p = "0x1010" and n = n and q = y] by auto
    have "\<not> in_block 0x8000 23 y" "\<not> in_block 9 2 y" "in_block 0x1000 0x200 y"
      using b n in_block_bounds [where p = "0x8000" and n = 23 and q = y] in_block_bounds [where p = 9 and n = 2 and q = y]
        in_block_bounds [where p = "0x1000" and n = "0x200" and q = y] by auto
    then show ?thesis by (simp add: transfer_bytes_def transfer_memory_def in_block_def)
  qed
  then show ?thesis by (auto simp: block_mapped_def)
qed

lemma sample_allocator: "transfer_allocator transfer_bytes (answering_env 16) 0 0 transfer_world"
proof -
  have "length (modules w3) = length (modules w2) \<and> same_module (modules w2 ! 0) (modules w3 ! 0) \<and> module_wf 0 w3 \<and>
      (\<forall>y. transfer_bytes y \<longrightarrow> host_mem w3 y = host_mem w2 y) \<and>
      (\<forall>q w4. destination_block 0 a (unat n) w3 = (Some q, w4) \<longrightarrow>
         block_mapped (host_mem w3) q (unat n) \<and> (\<forall>y. in_block q (unat n) y \<longrightarrow> \<not> transfer_bytes y))"
    if "refreshed transfer_world w2" "call_module_malloc_on_runner (answering_env 16) (Some 0) 0 n w2 = Some (a, w3)" for w2 n a w3
  proof -
    have w: "w2 = transfer_world" "a = 16" "w3 = transfer_world"
      using transfer_world_refreshed [OF that(1) refl] that(2) by (auto simp: sample_malloc)
    show ?thesis using sample_block [of "unat n"] transfer_world_view(4)
      by (simp only: w transfer_world_view(7)) (auto simp: transfer_world_view)
  qed
  then show ?thesis unfolding transfer_allocator_def by blast
qed

lemma sample_returns: "allocator_returns (answering_env 16) 0 0 transfer_world"
  by (auto simp: allocator_returns_def sample_malloc sample_free dest!: transfer_world_refreshed)

lemma sample_transfer:
  "\<exists>h. wahe_copy_message_between_modules_on_runner (answering_env 16) None 0x8000 (Some 0) 0 transfer_world =
     Some (16, transfer_world\<lparr>host_mem := h\<rparr>)"
proof -
  have measure: "wahe_measure_transfer_message None 0x8000 transfer_world = Some (Some 22, transfer_world)"
    by (simp add: wahe_measure_transfer_message_def transfer_world_view sample_message_text sample_length)
  have load: "mem_load (host_mem transfer_world) 0x8000 22 = Some (bytes_of_string sample_message)"
    using c_text_bytes [OF sample_message_text] by (simp add: transfer_world_view sample_length)
  have msg: "map char_of_byte (bytes_of_string sample_message) = sample_message" by (simp add: bytes_of_string_def o_def)
  let ?l = "\<lparr>address_start = 21, address_end = 22, copy_size = 2, src_addr = 9,
     dst_addr = 0, payload_offset = 0, src_ptr = 9, copy_payload = True\<rparr>"
  have find: "find_locations (answering_env 16) None 0 (map char_of_byte (bytes_of_string sample_message)) 0 [] 0 (22 + 1) transfer_world =
      (Some ([?l], 48), transfer_world)"
    using sample_locations msg by simp
  have lay: "wahe_align_transfer_size 48 16 = Some 48" "layout_payloads 48 [?l] = Some (50, [?l\<lparr>payload_offset := 48\<rparr>])"
    by (simp_all add: wahe_align_transfer_size_def)
  have fin: "finish_addresses 16 [?l\<lparr>payload_offset := 48\<rparr>] = Some [?l\<lparr>payload_offset := 48, dst_addr := 64\<rparr>]" by simp
  have blk: "destination_block 0 16 50 transfer_world = (Some 0x1010, transfer_world)" by (simp add: transfer_world_view)
  have malloc: "call_module_malloc_on_runner (answering_env 16) (Some 0) 0 (of_nat 50) transfer_world = Some (16, transfer_world)"
    by (rule sample_malloc)
  have "\<exists>h. fill_message 22 48 0x1010 0x8000 [?l\<lparr>payload_offset := 48, dst_addr := 64\<rparr>] (host_mem transfer_world) = Some (True, h)"
    using transfer_fills [OF _ _ measure load find lay malloc _ blk fin sample_source sample_allocator transfer_world_view(4) sample_apart]
    by (auto simp: transfer_world_view)
  then show ?thesis
    using transfer_found(2) [OF transfer_world_view(5,6) _ measure load _ find _ refl malloc] lay blk fin
    by (auto simp: block_layout_def)
qed

section \<open>Reading back and layout\<close>

lemma located_readdress:
  "located pos (readdress segs ds) ls \<Longrightarrow> length ds = length segs \<Longrightarrow>
   list_all2 (\<lambda>l (seg, y). copy_size l = fst (snd (snd seg)) \<and> src_addr l = y) ls (zip segs ds)"
proof (induction segs arbitrary: pos ds ls)
  case (Cons seg segs)
  obtain p a n v where seg: "seg = (p, a, n, v)" by (cases seg)
  obtain y ds' where ds: "ds = y # ds'" using Cons.prems(2) by (cases ds) auto
  obtain l ls' where ls: "ls = l # ls'" using Cons.prems(1) seg ds by (cases ls) auto
  show ?case using Cons.IH [of _ ds' ls'] Cons.prems seg ds ls by auto
next
  case Nil
  then show ?case by (cases ls) auto
qed

definition payload_before :: "wahe_message_location_t \<Rightarrow> wahe_message_location_t \<Rightarrow> bool" where
  "payload_before l l' \<longleftrightarrow> copy_payload l \<longrightarrow> copy_payload l' \<longrightarrow> payload_offset l + copy_size l \<le> payload_offset l'"

lemma laid_out_sorted: "laid_out lo hi ls ls' \<Longrightarrow> sorted_wrt payload_before ls'"
proof (induction lo hi ls ls' rule: laid_out.induct)
  case (3 lo hi l ls l' ls')
  then show ?case
    using laid_out_range [of "payload_offset l' + copy_size l" hi ls ls']
    by (auto simp: payload_before_def same_location_def split: if_splits)
qed auto

lemma laid_out_aligned: "laid_out lo hi ls ls' \<Longrightarrow> l \<in> set ls' \<Longrightarrow> copy_payload l \<Longrightarrow> 16 dvd payload_offset l"
  by (induction lo hi ls ls' rule: laid_out.induct) (auto simp: same_location_def split: if_splits)

section \<open>Properties\<close>

text \<open>
  C1. Let the message and its data be readable, let the destination's allocator always return, leave them
  alone and return a writable block outside them (\<^const>\<open>transfer_source\<close>, \<^const>\<open>transfer_allocator\<close>,
  \<^const>\<open>allocator_returns\<close>), let the memory be below half the address space (\<^const>\<open>module_wf\<close>) and a native
  destination's reserved memory not be that of the source (\<^const>\<open>memory_apart\<close>). Then a transfer always returns, and
  when it returns an address, the message there is the source message with every address replaced by one at
  which the destination reads the same bytes; the message and its data are left as they were.
\<close>

theorem transfer_delivers:
  assumes "wahe_require_valid_module src w = Some ()" and "wahe_require_valid_module (Some d) w = Some ()"
    and "p = 0 \<or> c_text (host_mem w) p \<noteq> None" and "transfer_source K src p w"
    and "transfer_allocator K E d r w" and "allocator_returns E d r w" and "module_wf d w" and "memory_apart src d w"
  shows "\<exists>a w'. wahe_copy_message_between_modules_on_runner E src p (Some d) r w = Some (a, w') \<and>
    (a \<noteq> 0 \<longrightarrow> arrived src p d w a w' \<and> (\<forall>y. K y \<longrightarrow> host_mem w' y = host_mem w y))"
  by (rule transfer_result [OF assms(1-5,7,6,8)])

theorem transfer_delivers_witness:
  "\<exists>w'. wahe_copy_message_between_modules_on_runner (answering_env 16) None 0x8000 (Some 0) 0 transfer_world = Some (16, w') \<and>
     arrived None 0x8000 0 transfer_world 16 w'"
proof -
  obtain h where h: "wahe_copy_message_between_modules_on_runner (answering_env 16) None 0x8000 (Some 0) 0 transfer_world =
      Some (16, transfer_world\<lparr>host_mem := h\<rparr>)" using sample_transfer by blast
  have text_there: "0x8000 = (0 :: u64) \<or> c_text (host_mem transfer_world) 0x8000 \<noteq> None"
    by (simp add: transfer_world_view sample_message_text)
  show ?thesis
    using transfer_delivers [OF transfer_world_view(5,6) text_there sample_source sample_allocator sample_returns
        transfer_world_view(4) sample_apart]
    unfolding h by auto
qed

text \<open>
  C25. If the search for descriptors succeeds on a delivered text (every descriptor it meets can be resolved), it finds the
  descriptors of the source text, with the same sizes and the new addresses. In the source text no address may be followed
  by a character that continues a number (\<^const>\<open>addresses_end\<close>), such as a letter.
\<close>

theorem delivered_text_reads_back:
  assumes "scan_text s = Some (segs, t)" and "addresses_end segs t" and "length ds = length segs"
    and "find_locations E src d (text_of (readdress segs ds) t) 0 [] 0 mc w = (Some (locs, cap), w')"
  shows "list_all2 (\<lambda>l (seg, y). copy_size l = fst (snd (snd seg)) \<and> src_addr l = y) locs (zip segs ds)"
proof -
  have "scan_text (text_of (readdress segs ds) t) = Some (readdress segs ds, t)" by (rule scan_readdress [OF assms(1,3,2)])
  then have "located 0 (readdress segs ds) locs" using find_locations_scan [OF assms(4)] by auto
  then show ?thesis using assms(3) by (rule located_readdress)
qed

lemma sample_print: "print_address 9 = ''0x9''"
  by (simp add: print_address_def print_zx_def print_base.simps host_address_bit_def digit_char_def char_of_def bit_0)

lemma sample_rewritten:
  "text_of (readdress [(''location: 2 bytes at '', ''9'', 2, 9)] [9]) [] = ''location: 2 bytes at 0x9''"
  by (simp add: sample_print text_of_def)

lemma sample_rewritten_descriptor: "next_descriptor ''location: 2 bytes at 0x9'' = Descriptor 21 24 2 9"
proof -
  have "strstr ''location: 2 bytes at 0x9'' ''location: '' = Some ''location: 2 bytes at 0x9''"
    by (subst strstr.simps) simp
  moreover have "strtoumax ''2 bytes at 0x9'' 10 = (2, 1, False)" by (simp add: strtoumax_def scan_number_def sample_digits)
  moreover have "is_digit_in 10 CHR ''0''" "is_digit_in 16 CHR ''9''" by (simp_all add: is_digit_in_def digit_value_def)
  moreover from this have "strtoumax ''0x9'' 0 = (9, 3, False)" by (simp add: strtoumax_def scan_number_def sample_digits)
  ultimately show ?thesis by (simp add: next_descriptor_def sample_digits Let_def)
qed

lemma sample_rewritten_locations:
  "find_locations (answering_env 16) None 0 ''location: 2 bytes at 0x9'' 0 [] 0 30 transfer_world =
     (Some ([\<lparr>address_start = 21, address_end = 24, copy_size = 2, src_addr = 9,
        dst_addr = 0, payload_offset = 0, src_ptr = 9, copy_payload = True\<rparr>], 53), transfer_world)"
  by (subst find_locations.simps, subst (2) find_locations.simps) (simp add: sample_rewritten_descriptor
   location_grows_def answering_env_def wahe_prepare_transfer_location_def wahe_resolve_transfer_source_def direct_source_def transfer_world_def
   translated_module_def sample_simps wahe_refresh_module_memory_size_def max_address_len_def)

theorem delivered_text_reads_back_witness:
  "\<exists>l. find_locations (answering_env 16) None 0 (text_of (readdress [(''location: 2 bytes at '', ''9'', 2, 9)] [9]) []) 0 [] 0 30
       transfer_world = (Some ([l], 53), transfer_world) \<and> copy_size l = 2 \<and> src_addr l = 9"
proof -
  have ends: "addresses_end [(''location: 2 bytes at '', ''9'', 2, 9)] []" by (simp add: ends_number_def)
  show ?thesis
    using delivered_text_reads_back [OF sample_scan ends, of "[9]"] sample_rewritten_locations
    unfolding sample_rewritten by auto
qed

text \<open>
  C24. The payloads copied after a message are aligned to 16 bytes, lie in order after the text and
  before the end of the allocation, and do not overlap.
\<close>

theorem payload_layout_disjoint:
  assumes "layout_payloads lo ls = Some (hi, ls')" and "lo \<le> SIZE_MAX"
  shows "sorted_wrt payload_before ls' \<and> hi \<le> SIZE_MAX \<and>
    (\<forall>l \<in> set ls'. copy_payload l \<longrightarrow>
       16 dvd payload_offset l \<and> lo \<le> payload_offset l \<and> payload_offset l + copy_size l \<le> hi)"
  using layout_payloads_spec [OF assms] laid_out_sorted laid_out_range laid_out_aligned by blast

theorem payload_layout_disjoint_witness:
  "layout_payloads 48 (replicate 2 (\<lparr>address_start = 0, address_end = 1, copy_size = 2, src_addr = 9,
     dst_addr = 0, payload_offset = 0, src_ptr = 9, copy_payload = True\<rparr>)) \<noteq> None \<and>
   sorted_wrt payload_before (snd (the (layout_payloads 48 (replicate 2 (\<lparr>address_start = 0, address_end = 1, copy_size = 2,
     src_addr = 9, dst_addr = 0, payload_offset = 0, src_ptr = 9, copy_payload = True\<rparr>)))))"
proof -
  let ?l = "\<lambda>k. \<lparr>address_start = 0, address_end = 1, copy_size = 2, src_addr = 9,
     dst_addr = 0, payload_offset = k, src_ptr = 9, copy_payload = True\<rparr>"
  have "wahe_align_transfer_size 48 16 = Some 48" "wahe_align_transfer_size 50 16 = Some 64"
    by (simp_all add: wahe_align_transfer_size_def)
  then have "layout_payloads 48 (replicate 2 (?l 0)) = Some (66, [?l 48, ?l 64])"
    by (simp only: numeral_2_eq_2 replicate.simps) simp
  with payload_layout_disjoint [OF this] show ?thesis by simp
qed

end
