(* ===== verification/Call_Relation.thy ===== *)
theory Call_Relation
  imports Message_Transfer State_Relation
begin

text \<open>
  What calls into modules keep of the state, as a locale: a relation that every call of a module's function keeps and that
  does not look at the cached memory size or the host's memory is kept by every function that passes
  messages between modules. The relation of the calling context is an instance.
\<close>

locale call_relation = state_relation R
  for R :: "'g world \<Rightarrow> 'g world \<Rightarrow> bool" +
  fixes E :: "'g env"
  assumes refresh: "R w (wahe_refresh_module_memory_size ctx w)" "R (wahe_refresh_module_memory_size ctx w) w"
    and host_mem: "R w (w\<lparr>host_mem := h\<rparr>)"
    and call: "call_module_func_core_on_runner E ctx r a f w = Some (v, w') \<Longrightarrow> R w w'"
begin

lemma host_mem_back: "R (w\<lparr>host_mem := h\<rparr>) w"
proof -
  have "R (w\<lparr>host_mem := h\<rparr>) (w\<lparr>host_mem := h\<rparr>\<lparr>host_mem := host_mem w\<rparr>)" by (rule host_mem)
  then show ?thesis by simp
qed

lemma passive_iff [simp]:
  "R (w\<lparr>host_mem := h\<rparr>) w' \<longleftrightarrow> R w w'" "R w (w'\<lparr>host_mem := h\<rparr>) \<longleftrightarrow> R w w'"
  "R (wahe_refresh_module_memory_size ctx w) w' \<longleftrightarrow> R w w'" "R w (wahe_refresh_module_memory_size ctx w') \<longleftrightarrow> R w w'"
  using compose host_mem host_mem_back refresh by blast+

lemma malloc: "call_module_malloc_on_runner E m r n w = Some (a, w') \<Longrightarrow> R w w'"
  by (auto simp: call_module_malloc_on_runner_def intro: call)

lemma free: "call_module_free_on_runner E m r a w = Some w' \<Longrightarrow> R w w'"
  by (auto simp: call_module_free_on_runner_def intro: call)

lemma active_free: "call_module_free E m a w = Some w' \<Longrightarrow> R w w'"
  unfolding call_module_free_def by (rule free)

lemma measure: "wahe_measure_transfer_message src p w = Some (n, w') \<Longrightarrow> R w w'"
  by (auto simp: wahe_measure_transfer_message_def Let_def split: if_splits option.splits simp: same)

lemma resolve: "wahe_resolve_transfer_source src a n w = (v, w') \<Longrightarrow> R w w'"
  by (auto simp: wahe_resolve_transfer_source_def Let_def split: if_splits option.splits simp: same)

lemma prepare: "wahe_prepare_transfer_location src d l w = (v, w') \<Longrightarrow> R w w'"
  by (auto simp: wahe_prepare_transfer_location_def Let_def split: if_splits option.splits prod.splits
      dest!: resolve intro: compose [OF _ refresh(1)])

lemma locations: "find_locations E' src d msg pos locs lc mc w = (v, w') \<Longrightarrow> R w w'"
proof (induction E' src d msg pos locs lc mc w rule: find_locations.induct)
  case (1 E' src d msg pos locs lc mc w)
  note step = 1(3) [unfolded find_locations.simps [of E' src d msg pos locs lc mc w]]
  show ?case
  proof (cases "length msg \<le> pos")
    case False
    show ?thesis
    proof (cases "next_descriptor (drop pos msg)")
      case (Skip_to k)
      with step False show ?thesis by (intro 1(1) [OF False Skip_to]) simp
    next
      case (Descriptor b e n a)
      note D = Descriptor
      define l0 where "l0 = \<lparr>address_start = pos + b, address_end = pos + e, copy_size = n, src_addr = a,
        dst_addr = 0, payload_offset = 0, src_ptr = 0, copy_payload = False\<rparr>"
      obtain v1 w1 where p: "wahe_prepare_transfer_location src d l0 w = (v1, w1)" by fastforce
      then have w1: "R w w1" by (rule prepare)
      show ?thesis
      proof (cases "location_grows E' (length locs) lc")
        case (Some cap)
        show ?thesis
        proof (cases v1)
          case (Some l)
          have "R w1 w'"
            using step False D \<open>location_grows E' (length locs) lc = Some cap\<close> p Some same
              1(2) [OF False D \<open>location_grows E' (length locs) lc = Some cap\<close> p [unfolded l0_def Some, symmetric] refl refl refl]
            by (auto simp: Let_def l0_def [symmetric] split: if_splits)
          with w1 show ?thesis by (rule compose)
        qed (use step False D Some p w1 in \<open>simp add: l0_def [symmetric]\<close>)
      qed (use step False D same in simp)
    qed (use step False same in simp_all)
  qed (use step same in simp)
qed

lemma copy_message:
  assumes "wahe_copy_message_between_modules_on_runner E src p dst r w = Some (a, w')"
  shows "R w w'"
  using assms
  by (auto simp: wahe_copy_message_between_modules_on_runner_def release_block_def destination_block_def Let_def same
        call_module_malloc_on_runner_def
      split: if_splits option.splits bind_splits prod.splits
      dest!: measure locations call free)
    (meson compose)+

lemma func:
  assumes "call_module_func_on_runner E m r a f False w = Some (v, w')"
  shows "R w w'"
proof -
  have "returned_message m None ret w1 = (v, w2) \<Longrightarrow> R w1 w2" for ret w1 w2
    by (auto simp: returned_message_def store_ret_addr_def Let_def same split: if_splits)
  with assms show ?thesis
    by (auto simp: call_module_func_on_runner_def ret_slot_def store_ret_addr_def split: bind_splits dest!: call intro: compose)
qed

lemma active_func: "call_module_func E m a f False w = Some (v, w') \<Longrightarrow> R w w'"
  unfolding call_module_func_def by (rule func)

lemma active_copy: "wahe_copy_message_between_modules E src p dst w = Some (a, w') \<Longrightarrow> R w w'"
  unfolding wahe_copy_message_between_modules_def by (rule copy_message)

end

text \<open>The calling context, for modules that keep it.\<close>

lemma same_context_back: "same_context (wahe_refresh_module_memory_size ctx w) w"
  by (auto simp: same_context_def wahe_refresh_module_memory_size_def split: option.split)

interpretation keeps_context: call_relation "\<lambda>w w'. guest_keeps_context E \<longrightarrow> same_context w w'" E for E
  by unfold_locales (auto intro: same_context_trans call_core_context same_context_back)

end
