(* ===== verification/Chain_Execution.thy ===== *)
theory Chain_Execution
  imports Transfer_Correct Call_Relation
begin

text \<open>
  The execution of a chain, \<open>wahe_execution.c\<close>: the orders of the chain are run in turn, each is fed
  through its connection with a copy of what an earlier order returned or of the chain's input,
  and its input is freed when its function returns. The lemmas show that a chain gives the calling thread back
  its context, by an interpretation of \<open>state_relation\<close>, and that what a function is handed is the message of its source.
\<close>

section \<open>The code\<close>

text \<open>A change of one execution order of a chain; its pointer is not valid past the array.\<close>

definition upd_order :: "nat \<Rightarrow> nat \<Rightarrow> (wahe_exec_order_t \<Rightarrow> wahe_exec_order_t) \<Rightarrow> 'g world \<Rightarrow> 'g world" where
  "upd_order c e f = upd_chain c (\<lambda>x. x\<lparr>exec_order := (exec_order x)[e := f (exec_order x ! e)]\<rparr>)"

definition order_at :: "nat \<Rightarrow> int \<Rightarrow> 'g world \<Rightarrow> wahe_exec_order_t option" where
  "order_at c e w =
     (if c < length (chains w) \<and> 0 \<le> e \<and> nat e < length (exec_order (chains w ! c))
      then Some (exec_order (chains w ! c) ! nat e) else None)"

definition order_connection :: "nat \<Rightarrow> nat \<Rightarrow> 'g world \<Rightarrow> wahe_connection_t option" where
  "order_connection c ie w = find (\<lambda>conn. dst_eo conn = int ie) (connection (chains w ! c))"

text \<open>The host pointer of a message an earlier order returned, null when it cannot be formed.\<close>

definition returned_source :: "nat \<Rightarrow> u64 \<Rightarrow> 'g world \<Rightarrow> u64" where
  "returned_source src src_address w =
     (let ctx = modules w ! src in
      if mtype ctx = WAHE_MODULE_NATIVE then src_address
      else if mtype ctx = WAHE_MODULE_WASMTIME \<or> mtype ctx = WAHE_MODULE_WAMR \<or> mtype ctx = WAHE_MODULE_WASM_TO_NATIVE
      then (if memory_ptr ctx \<noteq> 0 \<and> unat src_address < wahe_get_module_memory_size (Some src) w
            then memory_ptr ctx + src_address else 0)
      else 0)"

text \<open>A message is copied to the order's module; the result is whether the transfer failed.\<close>

definition transfer_input ::
    "'g env \<Rightarrow> nat \<Rightarrow> nat \<Rightarrow> nat option \<Rightarrow> u64 \<Rightarrow> nat \<Rightarrow> 'g world \<Rightarrow> (bool \<times> 'g world) option" where
  "transfer_input E c ie src message dst w =
     do {
       eo \<leftarrow> order_at c (int ie) w;
       (a, w1) \<leftarrow> wahe_copy_message_between_modules_on_runner E src message (Some dst) (eo_runner_id eo) w;
       Some (a = 0, upd_order c ie (\<lambda>eo. eo\<lparr>dst_msg_addr := a\<rparr>) w1)
     }"

text \<open>The connection that feeds into an order.\<close>

definition prepare_input ::
    "'g env \<Rightarrow> nat \<Rightarrow> nat \<Rightarrow> u64 \<Rightarrow> nat option \<Rightarrow> wahe_connection_t \<Rightarrow> 'g world \<Rightarrow> (bool \<times> 'g world) option" where
  "prepare_input E c ie input_msg input_src_module conn w =
     do {
       src \<leftarrow> order_at c (src_eo conn) w;
       (case eo_type src of
          WAHE_EO_MODULE_FUNC \<Rightarrow>
            do {
              src_module \<leftarrow> module_at w (eo_module_id src);
              dst \<leftarrow> order_at c (dst_eo conn) w;
              dst_module \<leftarrow> module_at w (eo_module_id dst);
              (if ret_msg_addr src = 0 then Some (False, w)
               else (let src_message = returned_source src_module (ret_msg_addr src) w in
                     if src_message = 0 then Some (True, w)
                     else transfer_input E c ie (Some src_module) src_message dst_module w))
            }
        | WAHE_EO_CHAIN_INPUT_MSG \<Rightarrow>
            do {
              dst \<leftarrow> order_at c (dst_eo conn) w;
              dst_module \<leftarrow> module_at w (eo_module_id dst);
              (if input_msg = 0 then Some (False, w)
               else transfer_input E c ie input_src_module input_msg dst_module w)
            }
        | WAHE_EO_UNKNOWN \<Rightarrow> Some (False, w))
     }"

text \<open>The call of the order's function, with the order marked as the current one.\<close>

definition call_order ::
    "'g env \<Rightarrow> nat \<Rightarrow> nat \<Rightarrow> nat \<Rightarrow> 'g world \<Rightarrow> (u64 \<times> 'g world) option" where
  "call_order E c ie m w =
     do {
       let w1 = upd_chain c (\<lambda>x. x\<lparr>current_eo := int ie, current_cmd_proc_id := 0\<rparr>) w;
       eo \<leftarrow> order_at c (int ie) w1;
       (msg, w2) \<leftarrow> call_module_func_on_runner E m (eo_runner_id eo) (dst_msg_addr eo) (eo_func_id eo) True w1;
       let w3 = upd_chain c (\<lambda>x. x\<lparr>current_eo := - 1\<rparr>) w2;
       eo \<leftarrow> order_at c (int ie) w3;
       w4 \<leftarrow> call_module_free_on_runner E (Some m) (eo_runner_id eo) (dst_msg_addr eo) w3;
       Some (msg, upd_order c ie (\<lambda>eo. eo\<lparr>dst_msg_addr := 0\<rparr>) w4)
     }"

definition execute_order ::
    "'g env \<Rightarrow> nat \<Rightarrow> nat \<Rightarrow> u64 \<Rightarrow> nat option \<Rightarrow> u64 \<Rightarrow> 'g world \<Rightarrow> (u64 \<times> 'g world) option" where
  "execute_order E c ie input_msg input_src_module last_msg w =
     do {
       wahe_wait_after_execution_failure w;
       eo \<leftarrow> order_at c (int ie) w;
       (if eo_type eo \<noteq> WAHE_EO_MODULE_FUNC then Some (last_msg, w)
        else do {
          exec_module \<leftarrow> module_at w (eo_module_id eo);
          wahe_require_valid_module (Some exec_module) w;
          let w1 = upd_order c ie (\<lambda>eo. eo\<lparr>dst_msg_addr := 0\<rparr>) w;
          (failed, w2) \<leftarrow> (case order_connection c ie w1 of
                               None \<Rightarrow> Some (False, w1)
                             | Some conn \<Rightarrow> prepare_input E c ie input_msg input_src_module conn w1);
          (if failed then Some (0, upd_order c ie (\<lambda>eo. eo\<lparr>ret_msg_addr := 0\<rparr>) w2)
           else call_order E c ie exec_module w2)
        })
     }"

text \<open>A module may change the chain it runs in, so the number of orders is read again after each one.\<close>

partial_function (option) execute_orders ::
    "'g env \<Rightarrow> nat \<Rightarrow> nat \<Rightarrow> u64 \<Rightarrow> nat option \<Rightarrow> u64 \<Rightarrow> 'g world \<Rightarrow> (u64 \<times> 'g world) option" where
  "execute_orders E c ie input_msg input_src_module last_msg w =
     (if c < length (chains w) \<and> ie < length (exec_order (chains w ! c))
      then do {
        r \<leftarrow> execute_order E c ie input_msg input_src_module last_msg w;
        execute_orders E c (ie + 1) input_msg input_src_module (fst r) (snd r)
      }
      else Some (last_msg, w))"

definition wahe_execute_chain_from_module ::
    "'g env \<Rightarrow> nat option \<Rightarrow> u64 \<Rightarrow> nat option \<Rightarrow> 'g world \<Rightarrow> (u64 \<times> 'g world) option" where
  "wahe_execute_chain_from_module E chain input_msg input_src_module w =
     do {
       wahe_wait_after_execution_failure w;
       (case chain of
          None \<Rightarrow> Some (0, w)
        | Some c \<Rightarrow>
            if \<not> c < length (chains w) then None
            else if \<not> has_group (chains w ! c) then Some (0, w)
            else do {
              (last_msg, w1) \<leftarrow> execute_orders E c 0 input_msg input_src_module 0 (w\<lparr>cur_chain := Some c\<rparr>);
              Some (last_msg, w1\<lparr>cur_chain := cur_chain w\<rparr>)
            })
     }"

definition wahe_execute_chain :: "'g env \<Rightarrow> nat option \<Rightarrow> u64 \<Rightarrow> 'g world \<Rightarrow> (u64 \<times> 'g world) option" where
  "wahe_execute_chain E chain input_msg w = wahe_execute_chain_from_module E chain input_msg None w"


section \<open>The calling context\<close>

interpretation calling: state_relation same_context
  by unfold_locales (auto intro: same_context_trans)

lemma same_context_upd_chain:
  "(\<And>x. current_func (f x) = current_func x) \<Longrightarrow> same_context w (upd_chain c f w)"
  by (auto simp: same_context_def upd_chain_def map_update) (metis list_update_id map_update)

lemma same_context_chain_updates [simp]:
  "same_context w (upd_order c e g w)" "same_context w (upd_chain c (\<lambda>x. x\<lparr>current_eo := i, current_cmd_proc_id := n\<rparr>) w)"
  "same_context w (upd_chain c (\<lambda>x. x\<lparr>current_eo := i\<rparr>) w)" "same_context w (upd_chain c (\<lambda>x. x\<lparr>current_cmd_proc_id := n\<rparr>) w)"
  by (simp_all add: upd_order_def same_context_upd_chain)

lemma free_context: "guest_keeps_context E \<Longrightarrow> call_module_free_on_runner E m r a w = Some w' \<Longrightarrow> same_context w w'"
  using keeps_context.free by blast

lemma copy_message_context:
  "guest_keeps_context E \<Longrightarrow> wahe_copy_message_between_modules_on_runner E src p dst r w = Some (a, w') \<Longrightarrow> same_context w w'"
  using keeps_context.copy_message by blast

lemma transfer_input_context:
  "guest_keeps_context E \<Longrightarrow> transfer_input E c ie src msg d w = Some (r, w') \<Longrightarrow> same_context w w'"
  by (auto simp: transfer_input_def split: bind_splits dest!: copy_message_context
      intro: same_context_trans [OF _ same_context_chain_updates(1)])

lemma prepare_input_context:
  "guest_keeps_context E \<Longrightarrow> prepare_input E c ie msg src conn w = Some (r, w') \<Longrightarrow> same_context w w'"
  by (auto simp: prepare_input_def Let_def split: bind_splits if_splits wahe_eo_type.splits intro: transfer_input_context)

lemma call_order_cases:
  assumes "call_order E c ie m w = Some (r, w')"
  obtains eo w2 eo' w4 where
    "order_at c (int ie) (upd_chain c (\<lambda>x. x\<lparr>current_eo := int ie, current_cmd_proc_id := 0\<rparr>) w) = Some eo"
    "call_module_func_on_runner E m (eo_runner_id eo) (dst_msg_addr eo) (eo_func_id eo) True
       (upd_chain c (\<lambda>x. x\<lparr>current_eo := int ie, current_cmd_proc_id := 0\<rparr>) w) = Some (r, w2)"
    "order_at c (int ie) (upd_chain c (\<lambda>x. x\<lparr>current_eo := - 1\<rparr>) w2) = Some eo'"
    "call_module_free_on_runner E (Some m) (eo_runner_id eo') (dst_msg_addr eo')
       (upd_chain c (\<lambda>x. x\<lparr>current_eo := - 1\<rparr>) w2) = Some w4"
    "w' = upd_order c ie (\<lambda>eo. eo\<lparr>dst_msg_addr := 0\<rparr>) w4"
  using assms unfolding call_order_def Let_def by (force split: bind_splits)

lemma call_order_context:
  assumes "guest_keeps_context E" "call_order E c ie m w = Some (r, w')"
  shows "same_context w w'"
  using assms(2)
proof (rule call_order_cases)
  fix eo w2 eo' w4
  assume "call_module_func_on_runner E m (eo_runner_id eo) (dst_msg_addr eo) (eo_func_id eo) True
       (upd_chain c (\<lambda>x. x\<lparr>current_eo := int ie, current_cmd_proc_id := 0\<rparr>) w) = Some (r, w2)"
    and "call_module_free_on_runner E (Some m) (eo_runner_id eo') (dst_msg_addr eo')
       (upd_chain c (\<lambda>x. x\<lparr>current_eo := - 1\<rparr>) w2) = Some w4"
    and w': "w' = upd_order c ie (\<lambda>eo. eo\<lparr>dst_msg_addr := 0\<rparr>) w4"
  note k = call_func_context [OF assms(1) this(1)] free_context [OF assms(1) this(2)]
  show ?thesis
    unfolding w'
    by (rule same_context_trans [OF same_context_chain_updates(2) same_context_trans [OF k(1)
          same_context_trans [OF same_context_chain_updates(3) same_context_trans [OF k(2) same_context_chain_updates(1)]]]])
qed

lemma execute_order_context:
  assumes "guest_keeps_context E"
  shows "result_keeps same_context w (execute_order E c ie msg src r0 w)"
  unfolding execute_order_def Let_def
proof (rule calling.result_bind_pure, rule calling.result_bind_pure, rule calling.result_basic(4))
  fix eo
  define w1 where "w1 = upd_order c ie (\<lambda>eo. eo\<lparr>dst_msg_addr := 0\<rparr>) w"
  have w1: "same_context w w1" unfolding w1_def by simp
  have "result_keeps same_context w1
    (case order_connection c ie w1 of None \<Rightarrow> Some (False, w1) | Some conn \<Rightarrow> prepare_input E c ie msg src conn w1)"
    by (auto simp: result_keeps_def split: option.splits dest!: prepare_input_context [OF assms] intro: same_context_trans)
  then have "result_keeps same_context w1
    ((case order_connection c ie w1 of None \<Rightarrow> Some (False, w1) | Some conn \<Rightarrow> prepare_input E c ie msg src conn w1) \<bind>
     (\<lambda>(failed, w2). if failed then Some (0, upd_order c ie (\<lambda>eo. eo\<lparr>ret_msg_addr := 0\<rparr>) w2) else call_order E c ie m w2))"
    for m
    by (rule calling.result_bind) (auto simp: result_keeps_def dest: call_order_context [OF assms])
  note k = calling.result_start [OF w1 this]
  show "result_keeps same_context w
    (module_at w (eo_module_id eo) \<bind> (\<lambda>exec_module. wahe_require_valid_module (Some exec_module) w \<bind> (\<lambda>_.
       (case order_connection c ie (upd_order c ie (\<lambda>eo. eo\<lparr>dst_msg_addr := 0\<rparr>) w) of None \<Rightarrow>
          Some (False, upd_order c ie (\<lambda>eo. eo\<lparr>dst_msg_addr := 0\<rparr>) w)
        | Some conn \<Rightarrow> prepare_input E c ie msg src conn (upd_order c ie (\<lambda>eo. eo\<lparr>dst_msg_addr := 0\<rparr>) w)) \<bind>
       (\<lambda>(failed, w2). if failed then Some (0, upd_order c ie (\<lambda>eo. eo\<lparr>ret_msg_addr := 0\<rparr>) w2)
          else call_order E c ie exec_module w2))))"
    by (rule calling.result_bind_pure, rule calling.result_bind_pure) (rule k [unfolded w1_def])
qed (simp add: result_keeps_def)

lemma execute_orders_context:
  assumes "guest_keeps_context E" "execute_orders E c ie msg src r0 w = Some (r, w')"
  shows "same_context w w'"
proof (rule execute_orders.raw_induct [where P = "\<lambda>E c ie msg src r0 w z. guest_keeps_context E \<longrightarrow> same_context w (snd z)",
    OF _ assms(2), simplified snd_conv, rule_format])
  show "guest_keeps_context E" by (rule assms(1))
qed (auto split: if_splits bind_splits dest: result_keepsD [OF execute_order_context] intro: same_context_trans)

text \<open>
  C9. If the code of the modules gives the context back whenever it is called (\<^const>\<open>guest_keeps_context\<close>: chains it runs
  from its callbacks included), then so does running a chain, with all the setting and resetting the host does around
  its orders: the caller's chain is current again, and the current module and runner, the held mutexes and
  every chain's function are those of before.
\<close>

theorem chain_keeps_context:
  assumes "guest_keeps_context E" and "wahe_execute_chain_from_module E chain msg src w = Some (r, w')"
  shows "same_context w w'"
proof -
  have "same_context w (w1\<lparr>cur_chain := cur_chain w\<rparr>)" if "same_context (w\<lparr>cur_chain := c\<rparr>) w1" for c w1
    using that by (simp add: same_context_def)
  then show ?thesis using assms(2)
    by (auto simp: wahe_execute_chain_from_module_def split: if_splits option.splits bind_splits
        dest!: execute_orders_context [OF assms(1)])
qed

section \<open>The data flow between orders\<close>

text \<open>
  The message an order is fed with: the host pointer \<open>p\<close> and the module that is its address context, null
  for a host caller.
\<close>

definition feeds :: "nat \<Rightarrow> wahe_connection_t \<Rightarrow> u64 \<Rightarrow> nat option \<Rightarrow> 'g world \<Rightarrow> nat option \<Rightarrow> u64 \<Rightarrow> bool" where
  "feeds c conn input_msg input_src w src p \<longleftrightarrow> p \<noteq> 0 \<and>
     (case order_at c (src_eo conn) w of
        None \<Rightarrow> False
      | Some so \<Rightarrow>
          (case eo_type so of
             WAHE_EO_MODULE_FUNC \<Rightarrow>
               (case module_at w (eo_module_id so) of
                  None \<Rightarrow> False
                | Some s \<Rightarrow> src = Some s \<and> ret_msg_addr so \<noteq> 0 \<and> p = returned_source s (ret_msg_addr so) w)
           | WAHE_EO_CHAIN_INPUT_MSG \<Rightarrow> src = input_src \<and> p = input_msg
           | WAHE_EO_UNKNOWN \<Rightarrow> False))"

lemma order_at_upd:
  "order_at c e (upd_order c' ie f w) =
     (case order_at c e w of None \<Rightarrow> None | Some eo \<Rightarrow> Some (if c' = c \<and> int ie = e then f eo else eo))"
  by (cases "c' = c") (auto simp: order_at_def upd_order_def nth_list_update)

lemma prepare_fed:
  assumes "feeds c conn input_msg input_src w src p"
    and "order_at c (dst_eo conn) w = Some eo" and "module_at w (eo_module_id eo) = Some d"
  shows "prepare_input E c ie input_msg input_src conn w = transfer_input E c ie src p d w"
  using assms by (auto simp: feeds_def prepare_input_def Let_def split: option.splits wahe_eo_type.splits)


text \<open>The sample chain hands its input message to the module's function.\<close>

lemma sample_orders:
  "upd_order 0 (Suc 0) (\<lambda>eo. eo\<lparr>dst_msg_addr := 0\<rparr>) transfer_world = transfer_world"
  "order_at 0 1 transfer_world = Some (exec_order transfer_chain ! 1)" "order_at 0 0 transfer_world = Some (exec_order transfer_chain ! 0)"
  "order_connection 0 (Suc 0) transfer_world = Some \<lparr>src_eo = 0, dst_eo = 1\<rparr>" "module_at transfer_world 0 = Some 0"
  by (simp_all add: upd_order_def upd_chain_def order_at_def order_connection_def module_at_def transfer_world_simps transfer_chain_def)

lemma sample_call_order:
  "\<exists>w'. call_order (answering_env 16) 0 (Suc 0) 0 (upd_order 0 (Suc 0) (\<lambda>eo. eo\<lparr>dst_msg_addr := v\<rparr>) (transfer_world\<lparr>host_mem := h\<rparr>)) =
     Some (0x1010, w') \<and> length (chains w') = 1 \<and> length (exec_order (chains w' ! 0)) = 2"
  by (simp add: call_order_def order_at_def upd_order_def upd_chain_def module_at_def transfer_world_simps transfer_chain_def
     call_module_free_on_runner_def call_module_func_on_runner_def call_module_func_core_on_runner_def ret_slot_def
     wahe_wait_after_execution_failure_def wahe_require_valid_module_def call_native_def native_args_def native_result_def
     enter_native_def leave_native_def returned_message_def store_ret_addr_def wahe_refresh_module_memory_size_def
     wahe_get_module_memory_size_def acquire_def release_def Let_def)

lemma sample_execute:
  "\<exists>w'. execute_order (answering_env 16) 0 (Suc 0) 0x8000 None 0 transfer_world = Some (0x1010, w')"
proof -
  obtain h where "wahe_copy_message_between_modules_on_runner (answering_env 16) None 0x8000 (Some 0) 0 transfer_world =
     Some (16, transfer_world\<lparr>host_mem := h\<rparr>)" using sample_transfer by blast
  then have "prepare_input (answering_env 16) 0 (Suc 0) 0x8000 None \<lparr>src_eo = 0, dst_eo = 1\<rparr> transfer_world =
      Some (False, upd_order 0 (Suc 0) (\<lambda>eo. eo\<lparr>dst_msg_addr := 16\<rparr>) (transfer_world\<lparr>host_mem := h\<rparr>))"
    by (simp add: prepare_input_def transfer_input_def sample_orders transfer_chain_def)
  moreover obtain w' where "call_order (answering_env 16) 0 (Suc 0) 0
      (upd_order 0 (Suc 0) (\<lambda>eo. eo\<lparr>dst_msg_addr := 16\<rparr>) (transfer_world\<lparr>host_mem := h\<rparr>)) = Some (0x1010, w')"
    using sample_call_order by blast
  moreover have "wahe_wait_after_execution_failure transfer_world = Some ()"
    by (simp add: wahe_wait_after_execution_failure_def transfer_world_simps)
  ultimately show ?thesis
    by (simp add: execute_order_def sample_orders transfer_world_view transfer_chain_def)
qed


text \<open>The calling thread's context around the sample chain.\<close>

theorem chain_keeps_context_witness:
  "\<exists>r w'. wahe_execute_chain (answering_env 16) (Some 0) 0 transfer_world = Some (r, w') \<and> same_context transfer_world w'"
proof -
  let ?E = "answering_env 16"
  have start: "transfer_world\<lparr>cur_chain := Some 0\<rparr> = transfer_world" "wahe_wait_after_execution_failure transfer_world = Some ()"
    "chains transfer_world = [transfer_chain]" "has_group transfer_chain" "length (exec_order transfer_chain) = 2"
    by (simp_all add: transfer_world_simps transfer_chain_def wahe_wait_after_execution_failure_def)
  have same: "upd_order 0 (Suc 0) (\<lambda>eo. eo\<lparr>dst_msg_addr := 0\<rparr>) (transfer_world\<lparr>host_mem := transfer_memory\<rparr>) = transfer_world"
    using sample_orders(1) by (simp add: transfer_world_simps)
  obtain w' where w': "call_order ?E 0 (Suc 0) 0 transfer_world = Some (0x1010, w')"
      "length (chains w') = 1" "length (exec_order (chains w' ! 0)) = 2"
    using sample_call_order [of 0 transfer_memory] unfolding same by blast
  have "execute_order ?E 0 0 0 None 0 transfer_world = Some (0, transfer_world)"
    by (simp add: execute_order_def start sample_orders transfer_chain_def)
  moreover have "prepare_input ?E 0 (Suc 0) 0 None \<lparr>src_eo = 0, dst_eo = 1\<rparr> transfer_world = Some (False, transfer_world)"
    by (simp add: prepare_input_def sample_orders transfer_chain_def)
  then have "execute_order ?E 0 (Suc 0) 0 None 0 transfer_world = Some (0x1010, w')"
    using w'(1) by (simp add: execute_order_def start sample_orders transfer_world_view transfer_chain_def)
  ultimately have "execute_orders ?E 0 0 0 None 0 transfer_world = Some (0x1010, w')"
    using w' by (subst execute_orders.simps, simp add: start) (subst execute_orders.simps, simp add: start, subst execute_orders.simps, simp)
  then have "wahe_execute_chain_from_module ?E (Some 0) 0 None transfer_world = Some (0x1010, w'\<lparr>cur_chain := cur_chain transfer_world\<rparr>)"
    by (simp add: wahe_execute_chain_from_module_def start)
  then show ?thesis
    using chain_keeps_context [OF answering_env_keeps] unfolding wahe_execute_chain_def by blast
qed

end
