(* ===== verification/C_Scanf.thy ===== *)
theory C_Scanf
  imports C_Numbers "HOL-Library.Log_Nat"
begin

text \<open>
  \<open>sscanf\<close> with the directives the host commands and the parser use: literal text, blanks, \<open>%zu\<close>, \<open>%zi\<close>, \<open>%d\<close>,
  \<open>%lg\<close>, \<open>%7s\<close>, \<open>%15s\<close>, \<open>%*s\<close>, \<open>%*[^c]\<close> for a character \<open>c\<close>, and \<open>%n\<close>. A conversion that fails ends the scan and leaves the variables that follow at their initial
  zero. A number its type cannot represent is undefined.
\<close>

section \<open>Formats\<close>

datatype directive =
    Exactly char | Blanks | Size_decimal | Size_any_base | Int_decimal | Double_number | Text_word nat
  | Skip_word | Skip_until char | Position

definition is_space :: "char \<Rightarrow> bool" where
  "is_space c \<longleftrightarrow> (let n = of_char c :: nat in n = 32 \<or> (9 \<le> n \<and> n \<le> 13))"

function scanf_format :: "string \<Rightarrow> directive list" where
  "scanf_format f =
     (case f of
        [] \<Rightarrow> []
      | c # t \<Rightarrow>
          if c \<noteq> CHR ''%'' then (if is_space c then Blanks else Exactly c) # scanf_format t
          else if take 2 t = ''zu'' then Size_decimal # scanf_format (drop 2 t)
          else if take 2 t = ''zi'' then Size_any_base # scanf_format (drop 2 t)
          else if take 2 t = ''lg'' then Double_number # scanf_format (drop 2 t)
          else if take 2 t = ''7s'' then Text_word 7 # scanf_format (drop 2 t)
          else if take 3 t = ''15s'' then Text_word 15 # scanf_format (drop 3 t)
          else if take 2 t = ''*s'' then Skip_word # scanf_format (drop 2 t)
          else if take 3 t = ''*[^'' \<and> 5 \<le> length t then Skip_until (t ! 3) # scanf_format (drop 5 t)
          else if take 1 t = ''d'' then Int_decimal # scanf_format (drop 1 t)
          else if take 1 t = ''n'' then Position # scanf_format (drop 1 t)
          else [])"
  by pat_completeness auto
termination by (relation "measure length") auto

declare scanf_format.simps [simp del]

section \<open>Numbers\<close>

text \<open>No match, a number that the type cannot represent (undefined in C), or the value and what is left.\<close>

datatype 'a number_match = No_match | Unrepresentable | Matched 'a string

definition split_sign :: "string \<Rightarrow> bool \<times> string" where
  "split_sign s = (case s of [] \<Rightarrow> (False, []) | c # t \<Rightarrow>
     if c = CHR ''-'' then (True, t) else if c = CHR ''+'' then (False, t) else (False, s))"

text \<open>A lone \<open>0x\<close> is the beginning of a number but not one.\<close>

definition lone_prefix :: "string \<Rightarrow> bool" where
  "lone_prefix s \<longleftrightarrow> (take 2 s = ''0x'' \<or> take 2 s = ''0X'') \<and> (length s < 3 \<or> \<not> is_digit_in 16 (s ! 2))"

definition scan_size :: "string \<Rightarrow> u64 number_match" where
  "scan_size s =
     (let (neg, t) = split_sign (dropWhile is_space s); (v, n) = scan_number 10 t in
      if n = 0 then No_match
      else if 2 ^ 64 \<le> v then Unrepresentable
      else Matched (if neg then - of_nat v else of_nat v) (drop n t))"

definition scan_int :: "string \<Rightarrow> int number_match" where
  "scan_int s =
     (let (neg, t) = split_sign (dropWhile is_space s); (v, n) = scan_number 10 t; i = (if neg then - int v else int v) in
      if n = 0 then No_match
      else if i < - (2 ^ 31) \<or> 2 ^ 31 \<le> i then Unrepresentable
      else Matched i (drop n t))"

definition scan_any_base :: "string \<Rightarrow> u64 number_match" where
  "scan_any_base s =
     (let (neg, t) = split_sign (dropWhile is_space s); (v, n) = scan_number 0 t in
      if n = 0 \<or> lone_prefix t then No_match
      else if (if neg then 2 ^ 63 < v else 2 ^ 63 \<le> v) then Unrepresentable
      else Matched (if neg then - of_nat v else of_nat v) (drop n t))"

section \<open>Floating-point numbers\<close>

text \<open>Doubles: the finite ones as rationals. Reading rounds to the nearest, ties to even.\<close>

datatype double = Finite rat | Infinity bool | Not_a_number

definition round_half_even :: "rat \<Rightarrow> int" where
  "round_half_even q =
     (let n = \<lfloor>q\<rfloor>; r = q - of_int n in
      if r < 1 / 2 \<or> (r = 1 / 2 \<and> even n) then n else n + 1)"

text \<open>The exponent of the leading bit of a positive rational.\<close>

definition leading_exponent :: "rat \<Rightarrow> int" where
  "leading_exponent q =
     (let (a, b) = quotient_of q; e = int (floorlog 2 (nat a)) - int (floorlog 2 (nat b)) in
      if q < 2 powi e then e - 1 else e)"

definition round_double :: "rat \<Rightarrow> double" where
  "round_double q =
     (if q = 0 then Finite 0
      else (let k = max (leading_exponent \<bar>q\<bar> - 52) (- 1074);
                v = of_int (round_half_even (\<bar>q\<bar> / 2 powi k)) * 2 powi k
            in if 2 ^ 1024 \<le> v then Infinity (q < 0) else Finite (if q < 0 then - v else v)))"

definition digits_of :: "nat \<Rightarrow> string \<Rightarrow> string" where
  "digits_of base s = takeWhile (is_digit_in base) s"

definition lower_char :: "char \<Rightarrow> char" where
  "lower_char c = (let n = of_char c :: nat in if 65 \<le> n \<and> n < 91 then char_of (n + 32) else c)"

definition common_prefix :: "string \<Rightarrow> string \<Rightarrow> nat" where
  "common_prefix w s = length (takeWhile (\<lambda>(a, b). a = lower_char b) (zip w s))"

text \<open>
  Mantissa and exponent in base 10 with \<open>e\<close>, or in base 16 with \<open>p\<close> and a binary exponent. An exponent letter
  without digits is part of the input item, which then is no number.
\<close>

definition scan_mantissa :: "nat \<Rightarrow> char \<Rightarrow> bool \<Rightarrow> string \<Rightarrow> double number_match" where
  "scan_mantissa base letter neg s =
     (let whole = digits_of base s;
          s1 = drop (length whole) s;
          frac = (case s1 of c # t \<Rightarrow> if c = CHR ''.'' then digits_of base t else [] | [] \<Rightarrow> []);
          s2 = (case s1 of c # t \<Rightarrow> if c = CHR ''.'' then drop (length frac) t else s1 | [] \<Rightarrow> []);
          (m, _) = scan_digits base 0 (whole @ frac);
          place = rat_of_nat base ^ length frac;
          unit = (if base = 16 then 2 else 10)
      in if whole = [] \<and> frac = [] then No_match
         else (case s2 of
                 c # t \<Rightarrow>
                   if lower_char c = letter
                   then (let (eneg, t1) = split_sign t; (e, n) = scan_digits 10 0 t1 in
                         if n = 0 then No_match
                         else (let q = rat_of_nat m / place * unit powi (if eneg then - int e else int e)
                               in Matched (round_double (if neg then - q else q)) (drop n t1)))
                   else (let q = rat_of_nat m / place in Matched (round_double (if neg then - q else q)) s2)
               | [] \<Rightarrow> (let q = rat_of_nat m / place in Matched (round_double (if neg then - q else q)) [])))"

definition scan_double :: "string \<Rightarrow> double number_match" where
  "scan_double s =
     (let (neg, t) = split_sign (dropWhile is_space s) in
      if common_prefix ''inf'' t \<noteq> 0
      then (let k = common_prefix ''infinity'' t in
            if k = 3 \<or> k = 8 then Matched (Infinity neg) (drop k t) else No_match)
      else if common_prefix ''nan'' t \<noteq> 0
      then (if common_prefix ''nan'' t = 3 \<and> take 1 (drop 3 t) \<noteq> ''('' then Matched Not_a_number (drop 3 t) else No_match)
      else if take 2 t = ''0x'' \<or> take 2 t = ''0X'' then scan_mantissa 16 CHR ''p'' neg (drop 2 t)
      else scan_mantissa 10 CHR ''e'' neg t)"

section \<open>Scanning\<close>

datatype scanned = Scanned_size u64 | Scanned_int int | Scanned_double double | Scanned_text string | Scanned_position nat

text \<open>
  The values assigned before the input fails to match, in order; nothing when a number cannot be represented.
  The first argument is the position in the whole input.
\<close>

fun scan_from :: "nat \<Rightarrow> directive list \<Rightarrow> string \<Rightarrow> scanned list option" where
  "scan_from pos [] s = Some []"
| "scan_from pos (Exactly c # ds) s =
     (case s of [] \<Rightarrow> Some [] | x # t \<Rightarrow> if x = c then scan_from (pos + 1) ds t else Some [])"
| "scan_from pos (Blanks # ds) s =
     (let t = dropWhile is_space s in scan_from (pos + (length s - length t)) ds t)"
| "scan_from pos (Size_decimal # ds) s =
     (case scan_size s of
        No_match \<Rightarrow> Some []
      | Unrepresentable \<Rightarrow> None
      | Matched v t \<Rightarrow> map_option ((#) (Scanned_size v)) (scan_from (pos + (length s - length t)) ds t))"
| "scan_from pos (Size_any_base # ds) s =
     (case scan_any_base s of
        No_match \<Rightarrow> Some []
      | Unrepresentable \<Rightarrow> None
      | Matched v t \<Rightarrow> map_option ((#) (Scanned_size v)) (scan_from (pos + (length s - length t)) ds t))"
| "scan_from pos (Int_decimal # ds) s =
     (case scan_int s of
        No_match \<Rightarrow> Some []
      | Unrepresentable \<Rightarrow> None
      | Matched v t \<Rightarrow> map_option ((#) (Scanned_int v)) (scan_from (pos + (length s - length t)) ds t))"
| "scan_from pos (Double_number # ds) s =
     (case scan_double s of
        No_match \<Rightarrow> Some []
      | Unrepresentable \<Rightarrow> None
      | Matched v t \<Rightarrow> map_option ((#) (Scanned_double v)) (scan_from (pos + (length s - length t)) ds t))"
| "scan_from pos (Text_word n # ds) s =
     (let u = dropWhile is_space s; w = take n (takeWhile (\<lambda>c. \<not> is_space c) u); t = drop (length w) u in
      if w = [] then Some []
      else map_option ((#) (Scanned_text w)) (scan_from (pos + (length s - length t)) ds t))"
| "scan_from pos (Skip_word # ds) s =
     (let u = dropWhile is_space s; t = dropWhile (\<lambda>c. \<not> is_space c) u in
      if t = u then Some [] else scan_from (pos + (length s - length t)) ds t)"
| "scan_from pos (Skip_until x # ds) s =
     (let t = dropWhile (\<lambda>c. c \<noteq> x) s in
      if length t = length s then Some [] else scan_from (pos + (length s - length t)) ds t)"
| "scan_from pos (Position # ds) s = map_option ((#) (Scanned_position pos)) (scan_from pos ds s)"

definition sscanf :: "string \<Rightarrow> string \<Rightarrow> scanned list option" where
  "sscanf s fmt = scan_from 0 (scanf_format fmt) s"

text \<open>The \<open>i\<close>-th variable, which keeps its initial zero when it is not assigned.\<close>

definition size_var :: "scanned list \<Rightarrow> nat \<Rightarrow> u64" where
  "size_var vs i = (if i < length vs then (case vs ! i of Scanned_size v \<Rightarrow> v | _ \<Rightarrow> 0) else 0)"

definition int_var :: "scanned list \<Rightarrow> nat \<Rightarrow> int" where
  "int_var vs i = (if i < length vs then (case vs ! i of Scanned_int v \<Rightarrow> v | _ \<Rightarrow> 0) else 0)"

definition position_var :: "scanned list \<Rightarrow> nat \<Rightarrow> nat" where
  "position_var vs i = (if i < length vs then (case vs ! i of Scanned_position v \<Rightarrow> v | _ \<Rightarrow> 0) else 0)"

definition text_var :: "scanned list \<Rightarrow> nat \<Rightarrow> string" where
  "text_var vs i = (if i < length vs then (case vs ! i of Scanned_text v \<Rightarrow> v | _ \<Rightarrow> []) else [])"

definition double_var :: "scanned list \<Rightarrow> nat \<Rightarrow> double" where
  "double_var vs i = (if i < length vs then (case vs ! i of Scanned_double v \<Rightarrow> v | _ \<Rightarrow> Finite 0) else Finite 0)"

section \<open>Scanning what was printed\<close>

lemma scan_exactly: "scan_from pos (map Exactly u @ ds) (u @ s) = scan_from (pos + length u) ds s"
  by (induction u arbitrary: pos) (auto simp: add.commute add.left_commute)

lemma scan_blanks:
  assumes "\<forall>c \<in> set b. is_space c" "s = [] \<or> \<not> is_space (hd s)"
  shows "scan_from pos (Blanks # ds) (b @ s) = scan_from (pos + length b) ds s"
proof -
  have "dropWhile is_space (b @ s) = s" using assms by (cases s) (auto simp: dropWhile_append)
  then show ?thesis by (simp add: Let_def)
qed

lemma digit_not_space: "is_digit_in b c \<Longrightarrow> b \<le> 16 \<Longrightarrow> \<not> is_space c \<and> c \<noteq> CHR ''-'' \<and> c \<noteq> CHR ''+''"
  by (auto simp: is_digit_in_def digit_value_def is_space_def Let_def split: if_splits option.splits)

lemma print_base_start:
  assumes "2 \<le> b" "b \<le> 16"
  shows "dropWhile is_space (print_base b n @ r) = print_base b n @ r" "split_sign (print_base b n @ r) = (False, print_base b n @ r)"
proof -
  obtain h t where ht: "print_base b n = h # t" by (cases "print_base b n") auto
  then have "is_digit_in b h" using print_base_hd [OF assms, of n] is_digit_char assms(2) by auto
  note h = digit_not_space [OF this assms(2)]
  then show "dropWhile is_space (print_base b n @ r) = print_base b n @ r" "split_sign (print_base b n @ r) = (False, print_base b n @ r)"
    by (simp_all add: ht split_sign_def)
qed

lemma scan_size_print:
  assumes "n < 2 ^ 64" "ends_number r"
  shows "scan_size (print_zu n @ r) = Matched (of_nat n) r"
  using assms print_base_start [of 10 n r] scan_print [of 10 r n] ends_number_digit [OF assms(2), of 10]
  by (simp add: scan_size_def print_zu_def scan_number_def Let_def)

lemma not_lone:
  "\<not> lone_prefix (CHR ''0'' # r)" if "ends_number r"
  using that by (cases r) (auto simp: lone_prefix_def ends_number_def)

lemma scan_zero: "ends_number r \<Longrightarrow> scan_number 0 (CHR ''0'' # r) = (0, 1)"
proof (cases r)
  case (Cons c r')
  assume "ends_number r"
  then have "\<not> is_digit_in 8 c" "c \<noteq> CHR ''x''" "c \<noteq> CHR ''X''"
    using Cons ends_number_digit [of r 8] by (auto simp: ends_number_def)
  with Cons show ?thesis
    by (cases r') (simp_all add: scan_number_def is_digit_in_def digit_value_def Let_def)
qed (simp add: scan_number_def is_digit_in_def digit_value_def Let_def)

lemma scan_any_base_zu:
  assumes "n < 2 ^ 63" "ends_number r"
  shows "scan_any_base (print_zu n @ r) = Matched (of_nat n) r"
proof (cases "n = 0")
  case True
  have p: "print_zu 0 = ''0''" by (simp add: print_zu_def print_base.simps digit_char_def char_of_def bit_0)
  show ?thesis
    unfolding True p using scan_zero [OF assms(2)] not_lone [OF assms(2)]
    by (simp add: scan_any_base_def is_space_def split_sign_def)
next
  case False
  obtain h t where ht: "print_base 10 n = h # t" by (cases "print_base 10 n") auto
  obtain d where "0 < d" "d < 10" "h = digit_char d" using print_base_hd_nonzero [of 10 n] False ht by auto
  then have "digit_value h \<noteq> digit_value CHR ''0''" using digit_value_char [of d] by (simp add: digit_value_def Let_def)
  then have "\<not> lone_prefix (print_base 10 n @ r)" using ht by (auto simp: lone_prefix_def)
  then show ?thesis
    using assms(1) print_base_start [of 10 n r] scan_number_dec [OF _ assms(2), of n] False
    by (simp add: scan_any_base_def print_zu_def)
qed

lemma scan_any_base_zx:
  assumes "unat v < 2 ^ 63" "ends_number r"
  shows "scan_any_base (print_zx v @ r) = Matched v r"
proof (cases "v = 0")
  case True
  show ?thesis
    unfolding True using scan_zero [OF assms(2)] not_lone [OF assms(2)]
    by (simp add: scan_any_base_def print_zx_def is_space_def split_sign_def)
next
  case False
  have u: "strtoumax (print_zx v @ r) 0 = (v, length (print_zx v), False)" by (rule strtoumax_print_zx [OF assms(2)])
  obtain x n where xn: "scan_number 0 (print_zx v @ r) = (x, n)" by fastforce
  with u have n: "n = length (print_zx v)" "of_nat x = v" "x < 2 ^ 64"
    by (auto simp: strtoumax_def split: if_splits)
  have "unat (of_nat x :: u64) = x" using n(3) by (simp add: unat_of_nat take_bit_eq_mod)
  then have x: "x < 2 ^ 63" using assms(1) unfolding n(2) by simp
  obtain h t where ht: "print_base 16 (unat v) = h # t" by (cases "print_base 16 (unat v)") auto
  have "is_digit_in 16 h" using print_base_hd [of 16 "unat v"] ht is_digit_char by auto
  then have "\<not> lone_prefix (print_zx v @ r)" "dropWhile is_space (print_zx v @ r) = print_zx v @ r"
    "split_sign (print_zx v @ r) = (False, print_zx v @ r)"
    using False ht by (simp_all add: print_zx_def lone_prefix_def is_space_def split_sign_def)
  with xn n(1,2) x show ?thesis by (simp add: scan_any_base_def print_zx_def)
qed

end
