(* ===== verification/Host_Commands.thy ===== *)
theory Host_Commands
  imports Translated_Threads Command_Registry Chain_Execution C_Scanf
begin

text \<open>
  The commands a module can send to the host, \<open>wahe_host_commands.c\<close>, with the file functions of
  \<open>wahe_core.c\<close> and \<open>misc.c\<close> they use. Each handler reads its line through a pointer, answers whether it handled it, and may
  leave another line to continue from and the address of a reply in the module's memory. Text for
  the error stream is not represented.
\<close>

section \<open>Files\<close>

text \<open>
  The address of the loaded data and its size. The directory of a file is not created: a file that cannot be
  opened is tried a second time as it is.
\<close>

definition wahe_load_raw_file :: "'g services \<Rightarrow> nat \<Rightarrow> string \<Rightarrow> 'g world \<Rightarrow> ((u64 \<times> nat) \<times> 'g world) option" where
  "wahe_load_raw_file S m path w =
     (case file_open S path ''rb'' w of
        (None, w1) \<Rightarrow> Some ((0, 0), w1)
      | (Some in_file, w1) \<Rightarrow>
          let (sought, w2) = file_seek_end S in_file w1 in
          if \<not> sought then Some ((0, 0), file_close S in_file w2)
          else (let file_size = file_tell S in_file w2 in
                if file_size < 0 \<or> int SIZE_MAX \<le> file_size then Some ((0, 0), file_close S in_file w2)
                else (let fsize = nat file_size; w3 = file_rewind S in_file w2 in
                      do {
                        (data_addr, w4) \<leftarrow> call_module_malloc (calls S) (Some m) (of_nat (fsize + 1)) w3;
                        (if data_addr = 0 then Some ((0, 0), file_close S in_file w4)
                         else (let data = memory_ptr (modules w4 ! m) + data_addr;
                                   (bytes, w5) = file_read S in_file fsize w4 in
                               do {
                                 h \<leftarrow> mem_store (host_mem w5) data bytes;
                                 let w6 = file_close S in_file (w5\<lparr>host_mem := h\<rparr>);
                                 (if length bytes \<noteq> fsize
                                  then map_option (\<lambda>w7. ((0, 0), w7)) (call_module_free (calls S) (Some m) data_addr w6)
                                  else Some ((data_addr, fsize), w6))
                               }))
                      })))"

definition fopen_mkdirs :: "'g services \<Rightarrow> string \<Rightarrow> string \<Rightarrow> 'g world \<Rightarrow> nat option \<times> 'g world" where
  "fopen_mkdirs S path mode w =
     (case file_open S path mode w of
        (Some f, w1) \<Rightarrow> (Some f, w1)
      | (None, w1) \<Rightarrow> file_open S path mode w1)"

text \<open>The number of bytes that were written is not looked at.\<close>

definition save_raw_file :: "'g services \<Rightarrow> string \<Rightarrow> string \<Rightarrow> u64 \<Rightarrow> nat \<Rightarrow> 'g world \<Rightarrow> (bool \<times> 'g world) option" where
  "save_raw_file S path mode data data_size w =
     (if data = 0 then Some (False, w)
      else (case fopen_mkdirs S path mode w of
              (None, w1) \<Rightarrow> Some (False, w1)
            | (Some f, w1) \<Rightarrow>
                do {
                  bytes \<leftarrow> mem_load (host_mem w1) data data_size;
                  let (_, w2) = file_write S f bytes w1;
                  Some (True, file_close S f w2)
                }))"

section \<open>Lines\<close>

text \<open>A character of a line, its terminator included; what is behind that may not be read.\<close>

definition char_at :: "string \<Rightarrow> nat \<Rightarrow> char option" where
  "char_at s i = (if i < length s then Some (s ! i) else if i = length s then Some CHR 0x00 else None)"

definition wahe_hcmd_ends_at :: "string \<Rightarrow> nat \<Rightarrow> bool option" where
  "wahe_hcmd_ends_at line end_at = map_option (\<lambda>c. c = CHR 0x00 \<or> c = CHR ''\<newline>'') (char_at line end_at)"

text \<open>The characters from \<open>a\<close> to \<open>b\<close>.\<close>

definition line_part :: "string \<Rightarrow> nat \<Rightarrow> nat \<Rightarrow> string" where
  "line_part line a b = the (make_string_copy_len (Some (drop a line)) (b - a))"

text \<open>
  A handler gets the module, the pointer to the line and the address of the reply so far, and gives its result with
  the pointer and the address it leaves.
\<close>

type_synonym 'g handler =
  "'g services \<Rightarrow> nat \<Rightarrow> u64 \<Rightarrow> u64 \<Rightarrow> 'g world \<Rightarrow> ((wahe_host_cmd_result \<times> u64 \<times> u64) \<times> 'g world) option"

definition line_text :: "u64 \<Rightarrow> 'g world \<Rightarrow> string option" where
  "line_text line w = c_text (host_mem w) line"

section \<open>Memory\<close>

definition wahe_hcmd_init_memory :: "'g handler" where
  "wahe_hcmd_init_memory S m line ret w =
     do {
       s \<leftarrow> line_text line w;
       vs \<leftarrow> sscanf s ''Init memory to %zu - %zu%n'';
       (let x = modules w ! m; initial_commit_size = unat (size_var vs 0); reserve_size = unat (size_var vs 1) in
        if position_var vs 2 = 0 then Some ((WAHE_HOST_CMD_NOT_HANDLED, line, ret), w)
        else if memory_ptr x \<noteq> 0 \<or> memory_reserve_size x \<noteq> 0 then Some ((WAHE_HOST_CMD_HANDLED, line, ret), w)
        else (case with_vm (wahe_virtual_memory_alloc (vm S) initial_commit_size reserve_size) w of
                (memory, w1) \<Rightarrow>
                  if memory \<noteq> 0
                  then Some ((WAHE_HOST_CMD_RETURN, line, memory),
                             upd_module m (\<lambda>x. x\<lparr>memory_ptr := memory, memory_size := initial_commit_size,
                               memory_reserve_size := reserve_size\<rparr>) w1)
                  else Some ((WAHE_HOST_CMD_HANDLED, line, ret), w1)))
     }"

text \<open>The cached size and the module's own variable for it.\<close>

definition set_memory_size :: "nat \<Rightarrow> nat \<Rightarrow> 'g world \<Rightarrow> 'g world option" where
  "set_memory_size m n w =
     (let w1 = upd_module m (\<lambda>x. x\<lparr>memory_size := n\<rparr>) w in
      if memory_size_addr (modules w ! m) = 0 then Some w1
      else store_address 64 (memory_size_addr (modules w ! m)) (of_nat n) w1)"

text \<open>A system call that succeeds changes the size.\<close>

definition resize_memory :: "nat \<Rightarrow> ('g \<times> memory \<Rightarrow> bool \<times> ('g \<times> memory)) \<Rightarrow> nat \<Rightarrow> 'g world \<Rightarrow> 'g world option" where
  "resize_memory m f n w = (case with_vm f w of (ok, w1) \<Rightarrow> if ok then set_memory_size m n w1 else Some w1)"

definition wahe_hcmd_enlarge_memory :: "'g handler" where
  "wahe_hcmd_enlarge_memory S m line ret w =
     do {
       s \<leftarrow> line_text line w;
       vs \<leftarrow> sscanf s ''Enlarge memory to %zu bytes%n'';
       (let x = modules w ! m;
            requested = unat (size_var vs 0);
            enlarged_commit_size =
              (if memory_reserve_size x \<noteq> 0 \<and> memory_reserve_size x < requested then memory_reserve_size x else requested)
        in if position_var vs 1 = 0 then Some ((WAHE_HOST_CMD_NOT_HANDLED, line, ret), w)
           else if memory_reserve_size x = 0 then Some ((WAHE_HOST_CMD_HANDLED, line, ret), w)
           else if enlarged_commit_size < memory_size x then Some ((WAHE_HOST_CMD_HANDLED, line, ret), w)
           else do {
             w1 \<leftarrow> resize_memory m (wahe_virtual_memory_commit (vm S) (memory_ptr x) enlarged_commit_size) enlarged_commit_size w;
             Some ((WAHE_HOST_CMD_HANDLED, line, ret), w1)
           })
     }"

definition wahe_hcmd_shrink_memory :: "'g handler" where
  "wahe_hcmd_shrink_memory S m line ret w =
     do {
       s \<leftarrow> line_text line w;
       vs \<leftarrow> sscanf s ''Shrink memory to %zu bytes%n'';
       (let x = modules w ! m; shrink_size = unat (size_var vs 0) in
        if position_var vs 1 = 0 then Some ((WAHE_HOST_CMD_NOT_HANDLED, line, ret), w)
        else if mtype x = WAHE_MODULE_WASMTIME
        then do {
          w1 \<leftarrow> wahe_wasmtime_request_memory_shrink S m shrink_size w;
          Some ((WAHE_HOST_CMD_HANDLED, line, ret), w1)
        }
        else if mtype x = WAHE_MODULE_WAMR then Some ((WAHE_HOST_CMD_HANDLED, line, ret), w)
        else if memory_reserve_size x = 0 then Some ((WAHE_HOST_CMD_HANDLED, line, ret), w)
        else if memory_size x < shrink_size then Some ((WAHE_HOST_CMD_HANDLED, line, ret), w)
        else do {
          w1 \<leftarrow> resize_memory m (wahe_virtual_memory_decommit (vm S) (memory_ptr x) shrink_size (memory_size x)) shrink_size w;
          Some ((WAHE_HOST_CMD_HANDLED, line, ret), w1)
        })
     }"

definition wahe_hcmd_copy :: "'g handler" where
  "wahe_hcmd_copy S m line ret w =
     do {
       s \<leftarrow> line_text line w;
       vs \<leftarrow> sscanf s ''Copy %zi bytes at %zi to %zi%n'';
       (let copy_size = unat (size_var vs 0); src_addr = size_var vs 1; dst_addr = size_var vs 2; end_at = position_var vs 3 in
        if end_at = 0 then Some ((WAHE_HOST_CMD_NOT_HANDLED, line, ret), w)
        else do {
          ends \<leftarrow> wahe_hcmd_ends_at s end_at;
          (if ends
           then do {
             w1 \<leftarrow> wahe_copy_between_memories None src_addr copy_size None dst_addr w;
             Some ((WAHE_HOST_CMD_HANDLED, line, ret), w1)
           }
           else do {
             us \<leftarrow> sscanf (drop end_at s) '' in this module%n'';
             let module_suffix_len = position_var us 0;
             ends_there \<leftarrow> wahe_hcmd_ends_at s (end_at + module_suffix_len);
             (if module_suffix_len \<noteq> 0 \<and> ends_there
              then do {
                w1 \<leftarrow> wahe_copy_between_memories None src_addr copy_size (Some m) dst_addr w;
                Some ((WAHE_HOST_CMD_HANDLED, line, ret), w1)
              }
              else Some ((WAHE_HOST_CMD_NOT_HANDLED, line, ret), w))
           })
        })
     }"

section \<open>What a module asks about itself\<close>

text \<open>A reply with a value, after the command has been seen to end; nothing is replied without a value.\<close>

definition reply_value :: "string \<Rightarrow> ('g world \<Rightarrow> u64 option) \<Rightarrow> 'g handler" where
  "reply_value command v S m line ret w =
     do {
       s \<leftarrow> line_text line w;
       ends \<leftarrow> wahe_hcmd_ends_at s (length command);
       (if \<not> ends then Some ((WAHE_HOST_CMD_NOT_HANDLED, line, ret), w)
        else (case v w of
                None \<Rightarrow> Some ((WAHE_HOST_CMD_HANDLED, line, ret), w)
              | Some a \<Rightarrow>
                  do {
                    (reply, w1) \<leftarrow> module_sprintf_alloc (calls S) m (print_zx a) w;
                    Some ((WAHE_HOST_CMD_HANDLED, line, reply), w1)
                  }))
     }"

definition nonzero :: "u64 \<Rightarrow> u64 option" where
  "nonzero v = (if v = 0 then None else Some v)"

definition wahe_hcmd_get_memory_address :: "'g handler" where
  "wahe_hcmd_get_memory_address S m = reply_value ''Get memory address'' (\<lambda>w. nonzero (memory_ptr (modules w ! m))) S m"

definition wahe_hcmd_get_stack_pointer_address :: "'g handler" where
  "wahe_hcmd_get_stack_pointer_address S m =
     reply_value ''Get stack pointer address'' (\<lambda>w. nonzero (stack_ptr_addr (modules w ! m))) S m"

definition wahe_hcmd_get_heap_base :: "'g handler" where
  "wahe_hcmd_get_heap_base S m = reply_value ''Get heap base'' (\<lambda>w. nonzero (heap_base (modules w ! m))) S m"

definition wahe_hcmd_get_data_end :: "'g handler" where
  "wahe_hcmd_get_data_end S m = reply_value ''Get data end'' (\<lambda>w. nonzero (data_end (modules w ! m))) S m"

definition wahe_hcmd_get_stack_base :: "'g handler" where
  "wahe_hcmd_get_stack_base S m = reply_value ''Get stack base'' (\<lambda>w. nonzero (stack_base (modules w ! m))) S m"

definition wahe_hcmd_get_stack_pointer :: "'g handler" where
  "wahe_hcmd_get_stack_pointer S m =
     reply_value ''Get stack pointer''
       (\<lambda>w. if mtype (modules w ! m) = WAHE_MODULE_WASMTIME \<or> mtype (modules w ! m) = WAHE_MODULE_WAMR
            then Some (wahe_get_module_symbol_address S m ''__stack_pointer'' w) else None) S m"

definition wahe_hcmd_get_memory_size :: "'g handler" where
  "wahe_hcmd_get_memory_size S m =
     reply_value ''Get memory size'' (\<lambda>w. Some (of_nat (wahe_get_module_memory_size (Some m) w))) S m"

definition wahe_hcmd_get_memory_size_address :: "'g handler" where
  "wahe_hcmd_get_memory_size_address S m =
     reply_value ''Get memory size address''
       (\<lambda>w. Some (if memory_size_addr (modules w ! m) \<noteq> 0 then memory_size_addr (modules w ! m) else memory_size_field S m)) S m"

section \<open>Chains\<close>

text \<open>The last chain of the name, and the last order of a chain that calls a module.\<close>

definition named_chain :: "string \<Rightarrow> 'g world \<Rightarrow> nat option" where
  "named_chain name w = find (\<lambda>i. chain_name (chains w ! i) = Some name) (rev [0..<length (chains w)])"

definition last_module :: "nat \<Rightarrow> 'g world \<Rightarrow> nat option option" where
  "last_module c w =
     (case find (\<lambda>eo. eo_type eo = WAHE_EO_MODULE_FUNC) (rev (exec_order (chains w ! c))) of
        None \<Rightarrow> Some None
      | Some eo \<Rightarrow> map_option Some (module_at w (eo_module_id eo)))"

definition wahe_hcmd_run_chain :: "'g handler" where
  "wahe_hcmd_run_chain S m line ret w =
     do {
       s \<leftarrow> line_text line w;
       vs \<leftarrow> sscanf s ''Run chain %n%*[^\<newline>]%n\<newline>%n'';
       (let name_start = position_var vs 0; name_end = position_var vs 1; input_start = position_var vs 2 in
        if name_end = 0 then Some ((WAHE_HOST_CMD_NOT_HANDLED, line, ret), w)
        else (case named_chain (line_part s name_start name_end) w of
                None \<Rightarrow> Some ((WAHE_HOST_CMD_RETURN, line, ret), w)
              | Some c \<Rightarrow>
                  do {
                    let input_msg = (if input_start = 0 then 0 else line + of_nat input_start);
                    (end_msg, w1) \<leftarrow> wahe_execute_chain_from_module (calls S) (Some c) input_msg (Some m) w;
                    end_module \<leftarrow> last_module c w1;
                    (if end_msg = 0 then Some ((WAHE_HOST_CMD_RETURN, line, ret), w1)
                     else do {
                       (reply, w2) \<leftarrow> wahe_copy_message_between_modules (calls S) end_module end_msg (Some m) w1;
                       Some ((WAHE_HOST_CMD_RETURN, line, reply), w2)
                     })
                  }))
     }"

section \<open>Files, time and output\<close>

definition location_text :: "nat \<Rightarrow> u64 \<Rightarrow> string" where
  "location_text n a = ''Data location: '' @ print_zu n @ '' bytes at '' @ print_zx a"

definition wahe_hcmd_load_raw_file :: "'g handler" where
  "wahe_hcmd_load_raw_file S m line ret w =
     do {
       s \<leftarrow> line_text line w;
       vs \<leftarrow> sscanf s ''Load raw file at path %n%*[^\<newline>]%n'';
       (if position_var vs 1 = 0 then Some ((WAHE_HOST_CMD_NOT_HANDLED, line, ret), w)
        else do {
          ((data_addr, data_size), w1) \<leftarrow> wahe_load_raw_file S m (line_part s (position_var vs 0) (position_var vs 1)) w;
          (reply, w2) \<leftarrow> module_sprintf_alloc (calls S) m (location_text data_size data_addr) w1;
          Some ((WAHE_HOST_CMD_HANDLED, line, reply), w2)
        })
     }"

text \<open>The pointer to the line after the next line break, null when there is none.\<close>

definition next_line :: "u64 \<Rightarrow> 'g world \<Rightarrow> u64 option" where
  "next_line line w =
     (if line = 0 then Some 0
      else do {
        s \<leftarrow> line_text line w;
        Some (case strstr_after (Some s) (Some ''\<newline>'') of None \<Rightarrow> 0 | Some t \<Rightarrow> line + of_nat (length s - length t))
      })"

definition wahe_hcmd_save_raw_file :: "'g handler" where
  "wahe_hcmd_save_raw_file S m line ret w =
     do {
       s \<leftarrow> line_text line w;
       vs \<leftarrow> sscanf s ''Save raw file to path %n%*[^\<newline>]%n\<newline>Data location: %zi bytes at %zi%n'';
       (let path_start = position_var vs 0; path_end = position_var vs 1;
            data_size = unat (size_var vs 2); data_addr = size_var vs 3; end_at = position_var vs 4 in
        if data_addr = 0 \<or> end_at = 0 then Some ((WAHE_HOST_CMD_NOT_HANDLED, line, ret), w)
        else do {
          ends \<leftarrow> wahe_hcmd_ends_at s end_at;
          (if \<not> ends then Some ((WAHE_HOST_CMD_NOT_HANDLED, line, ret), w)
           else do {
             let path = line_part s path_start path_end;
             (saved, w1) \<leftarrow> save_raw_file S path ''wb'' (memory_ptr (modules w ! m) + data_addr) data_size w;
             (reply, w2) \<leftarrow> module_sprintf_alloc (calls S) m
               (if saved then ''Done.'' else ''Error: Couldn't write to file '' @ path) w1;
             after \<leftarrow> next_line line w2;
             Some ((WAHE_HOST_CMD_HANDLED, after, reply), w2)
           })
        })
     }"

definition wahe_hcmd_get_raw_time :: "'g handler" where
  "wahe_hcmd_get_raw_time S m line ret w =
     do {
       (reply, w1) \<leftarrow> module_sprintf_alloc (calls S) m (''Raw time '' @ raw_time S w @ '' seconds'') w;
       Some ((WAHE_HOST_CMD_HANDLED, line, reply), w1)
     }"

text \<open>The function that records a point returns at once.\<close>

definition wahe_hcmd_benchmark :: "'g handler" where
  "wahe_hcmd_benchmark S m line ret w = Some ((WAHE_HOST_CMD_HANDLED, line, ret), w)"

definition current_func_name :: "'g world \<Rightarrow> string" where
  "current_func_name w =
     (case cur_chain w of
        None \<Rightarrow> ''(?)''
      | Some c \<Rightarrow> (case map_of (zip func_ids wahe_func_name) (current_func (chains w ! c)) of Some n \<Rightarrow> n | None \<Rightarrow> ''(?)''))"

definition wahe_hcmd_print :: "'g handler" where
  "wahe_hcmd_print S m line ret w =
     do {
       s \<leftarrow> line_text line w;
       c \<leftarrow> char_at s (length ''Print'');
       (if c \<noteq> CHR '' '' \<and> c \<noteq> CHR ''\<newline>'' then Some ((WAHE_HOST_CMD_NOT_HANDLED, line, ret), w)
        else (let message = drop (length ''Print'' + 1) s; name = mod_name (modules w ! m) @ '':'' @ current_func_name w in
              Some ((WAHE_HOST_CMD_RETURN, line, ret),
                    print_out S
                      (if get_string_linecount (Some message) 0 > 1
                       then ''\<newline>=== from '' @ name @ '' ===\<newline>'' @ message @ ''\<newline>    ===    ===    \<newline>\<newline>''
                       else ''(from '' @ name @ '')   '' @ message @ ''\<newline>'') w)))
     }"

section \<open>Registration of commands\<close>

text \<open>The command of the line between the blanks around it.\<close>

definition trimmed_command :: "string \<Rightarrow> string" where
  "trimmed_command s =
     (let c = dropWhile (\<lambda>c. c = CHR '' '') s
      in rev (dropWhile (\<lambda>c. c = CHR '' '') (rev (takeWhile (\<lambda>c. c \<noteq> CHR ''\<newline>'') c))))"

definition wahe_hcmd_change_command_registration :: "'g handler" where
  "wahe_hcmd_change_command_registration S m line ret w =
     do {
       s \<leftarrow> line_text line w;
       (let add = (take 17 s = ''Register command ''); remove = (take 19 s = ''Unregister command '') in
        if \<not> add \<and> \<not> remove then Some ((WAHE_HOST_CMD_NOT_HANDLED, line, ret), w)
        else (let name = trimmed_command (drop (if add then 17 else 19) s) in
              do {
                words \<leftarrow> string_count_fields (Some name) '' '';
                (if name = [] \<or> words < 1 \<or> 16 < words
                 then do {
                   (reply, w1) \<leftarrow> module_sprintf_alloc (calls S) m ''Command prefix must contain between 1 and 16 words'' w;
                   Some ((WAHE_HOST_CMD_RETURN, line, reply), w1)
                 }
                 else do {
                   g \<leftarrow> wahe_change_runtime_command (module_id (modules w ! m)) name add (registry w);
                   Some ((WAHE_HOST_CMD_HANDLED, line, ret), w\<lparr>registry := g\<rparr>)
                 })
              }))
     }"

section \<open>Threads\<close>

definition stack_unit :: "string \<Rightarrow> nat" where
  "stack_unit unit =
     (if unit = ''kB'' then 1024 else if unit = ''MB'' then 1024 * 1024
      else if unit = ''B'' \<or> unit = ''bytes'' then 1 else 0)"

text \<open>The stack size in bytes, or why it is refused.\<close>

definition stack_bytes :: "double \<Rightarrow> string \<Rightarrow> string + nat" where
  "stack_bytes amount unit =
     (if stack_unit unit = 0 then Inl ''stack size unit must be kB, MB, B or bytes''
      else (case (case amount of Finite q \<Rightarrow> round_double (q * of_nat (stack_unit unit)) | d \<Rightarrow> d) of
              Finite bytes \<Rightarrow>
                if 0 < bytes \<and> bytes < 2 ^ 64 \<and> bytes = of_int \<lfloor>bytes\<rfloor> then Inr (nat \<lfloor>bytes\<rfloor>)
                else Inl ''stack size must be positive and representable in whole bytes''
            | _ \<Rightarrow> Inl ''stack size must be positive and representable in whole bytes''))"

definition wahe_hcmd_thread_create :: "'g handler" where
  "wahe_hcmd_thread_create S m line ret w =
     do {
       s \<leftarrow> line_text line w;
       vs \<leftarrow> sscanf s ''Create thread with %lg %7s stack%n'';
       (created, w1) \<leftarrow>
         (let end_at = position_var vs 2;
              unparsed = Inl ''expected Create thread with <size> <unit> stack followed by an optional entry message'' in
          if end_at = 0 then Some (unparsed, w)
          else do {
            ends \<leftarrow> wahe_hcmd_ends_at s end_at;
            (if \<not> ends then Some (unparsed, w)
             else (case stack_bytes (double_var vs 0) (text_var vs 1) of
                     Inl failure \<Rightarrow> Some (Inl failure, w)
                   | Inr bytes \<Rightarrow>
                       let message = line + of_nat (if char_at s end_at = Some CHR ''\<newline>'' then end_at + 1 else end_at) in
                       if mtype (modules w ! m) = WAHE_MODULE_WASM_TO_NATIVE
                       then wahe_create_translated_thread S m bytes message w
                       else wahe_create_module_thread S m bytes message w))
          });
       (reply, w2) \<leftarrow> module_sprintf_alloc (calls S) m
         (case created of
            Inr ident \<Rightarrow> if ident \<noteq> 0 then ''Thread created '' @ print_zu ident @ ''\<newline>'' else ''Thread error OS thread creation failed\<newline>''
          | Inl failure \<Rightarrow> ''Thread error '' @ failure @ ''\<newline>'') w1;
       Some ((WAHE_HOST_CMD_RETURN, line, reply), w2)
     }"

definition wahe_hcmd_thread_join :: "'g handler" where
  "wahe_hcmd_thread_join S m line ret w =
     do {
       s \<leftarrow> line_text line w;
       vs \<leftarrow> sscanf s ''Join thread ID %zu%n'';
       let ident = unat (size_var vs 0);
       let end_at = position_var vs 1;
       ends \<leftarrow> (if end_at = 0 then Some False else wahe_hcmd_ends_at s end_at);
       (joined, w1) \<leftarrow>
         (if \<not> ends then Some (Inl ''expected Join thread ID <id>'', w)
          else if mtype (modules w ! m) = WAHE_MODULE_WASM_TO_NATIVE then wahe_join_translated_thread S m ident w
          else if mtype (modules w ! m) = WAHE_MODULE_WASMTIME \<or> mtype (modules w ! m) = WAHE_MODULE_WAMR
          then wahe_join_module_thread S m ident w
          else Some (Inl ''only runtime-managed WebAssembly modules can create threads'', w));
       (reply, w2) \<leftarrow> module_sprintf_alloc (calls S) m
         (case joined of
            Inr reply \<Rightarrow> ''Thread joined '' @ print_zu ident @ ''\<newline>'' @ (case reply of None \<Rightarrow> [] | Some r \<Rightarrow> r)
          | Inl failure \<Rightarrow> ''Thread error '' @ failure @ ''\<newline>'') w1;
       Some ((WAHE_HOST_CMD_RETURN, line, reply), w2)
     }"

definition wahe_hcmd_get_thread_id :: "'g handler" where
  "wahe_hcmd_get_thread_id S m line ret w =
     do {
       s \<leftarrow> line_text line w;
       ends \<leftarrow> wahe_hcmd_ends_at s (length ''Get thread ID'');
       (if \<not> ends then Some ((WAHE_HOST_CMD_NOT_HANDLED, line, ret), w)
        else do {
          translated \<leftarrow> wahe_translated_thread_id m w;
          ident \<leftarrow> (case cur_wasmtime_runner w of
                       None \<Rightarrow> Some translated
                     | Some (cm, r) \<Rightarrow> if cm = m then map_option wr_thread_id (the_runner m r w) else Some translated);
          (reply, w1) \<leftarrow> module_sprintf_alloc (calls S) m (''Thread ID '' @ print_zu ident @ ''\<newline>'') w;
          Some ((WAHE_HOST_CMD_RETURN, line, reply), w1)
        })
     }"

section \<open>The handler of a command\<close>

fun host_func :: "wahe_host_cmd \<Rightarrow> 'g handler" where
  "host_func Cmd_init_memory = wahe_hcmd_init_memory"
| "host_func Cmd_enlarge_memory = wahe_hcmd_enlarge_memory"
| "host_func Cmd_shrink_memory = wahe_hcmd_shrink_memory"
| "host_func Cmd_run_chain = wahe_hcmd_run_chain"
| "host_func Cmd_thread_create = wahe_hcmd_thread_create"
| "host_func Cmd_thread_join = wahe_hcmd_thread_join"
| "host_func Cmd_get_thread_id = wahe_hcmd_get_thread_id"
| "host_func Cmd_copy = wahe_hcmd_copy"
| "host_func Cmd_get_memory_address = wahe_hcmd_get_memory_address"
| "host_func Cmd_get_heap_base = wahe_hcmd_get_heap_base"
| "host_func Cmd_get_data_end = wahe_hcmd_get_data_end"
| "host_func Cmd_get_stack_base = wahe_hcmd_get_stack_base"
| "host_func Cmd_get_stack_pointer = wahe_hcmd_get_stack_pointer"
| "host_func Cmd_get_stack_pointer_address = wahe_hcmd_get_stack_pointer_address"
| "host_func Cmd_get_memory_size = wahe_hcmd_get_memory_size"
| "host_func Cmd_get_memory_size_address = wahe_hcmd_get_memory_size_address"
| "host_func Cmd_load_raw_file = wahe_hcmd_load_raw_file"
| "host_func Cmd_save_raw_file = wahe_hcmd_save_raw_file"
| "host_func Cmd_get_raw_time = wahe_hcmd_get_raw_time"
| "host_func Cmd_benchmark = wahe_hcmd_benchmark"
| "host_func Cmd_print = wahe_hcmd_print"
| "host_func Cmd_change_command_registration = wahe_hcmd_change_command_registration"

end
