(* ===== verification/Host_Correct.thy ===== *)
theory Host_Correct
  imports Host_Commands
begin

text \<open>
  What the host commands (\<open>wahe_host_commands.c\<close>) promise: a command that does not handle a line has
  changed nothing, and the location a load reports is a location the save command reads back.
\<close>

section \<open>A command that is not handled changes nothing\<close>

definition keeps_unhandled :: "'g handler \<Rightarrow> bool" where
  "keeps_unhandled f \<longleftrightarrow>
     (\<forall>S m line ret w line1 ret1 w1. f S m line ret w = Some ((WAHE_HOST_CMD_NOT_HANDLED, line1, ret1), w1) \<longrightarrow>
        line1 = line \<and> ret1 = ret \<and> w1 = w)"

lemma reply_unhandled:
  "reply_value command v S m line ret w = Some ((WAHE_HOST_CMD_NOT_HANDLED, line1, ret1), w1) \<Longrightarrow> line1 = line \<and> ret1 = ret \<and> w1 = w"
  by (auto simp: reply_value_def split: bind_splits if_splits option.splits)

lemma memory_unhandled:
  "keeps_unhandled wahe_hcmd_init_memory" "keeps_unhandled wahe_hcmd_enlarge_memory" "keeps_unhandled wahe_hcmd_shrink_memory"
  "keeps_unhandled wahe_hcmd_copy"
  by (auto simp: keeps_unhandled_def wahe_hcmd_init_memory_def wahe_hcmd_enlarge_memory_def wahe_hcmd_shrink_memory_def
     wahe_hcmd_copy_def Let_def split: bind_splits if_splits prod.splits)

lemma value_unhandled:
  "keeps_unhandled wahe_hcmd_get_memory_address" "keeps_unhandled wahe_hcmd_get_stack_pointer_address"
  "keeps_unhandled wahe_hcmd_get_heap_base" "keeps_unhandled wahe_hcmd_get_data_end" "keeps_unhandled wahe_hcmd_get_stack_base"
  "keeps_unhandled wahe_hcmd_get_stack_pointer" "keeps_unhandled wahe_hcmd_get_memory_size"
  "keeps_unhandled wahe_hcmd_get_memory_size_address"
  by (auto simp: wahe_hcmd_get_memory_address_def wahe_hcmd_get_stack_pointer_address_def wahe_hcmd_get_heap_base_def
     wahe_hcmd_get_data_end_def wahe_hcmd_get_stack_base_def wahe_hcmd_get_stack_pointer_def wahe_hcmd_get_memory_size_def
     wahe_hcmd_get_memory_size_address_def keeps_unhandled_def dest!: reply_unhandled)

lemma file_unhandled:
  "keeps_unhandled wahe_hcmd_load_raw_file" "keeps_unhandled wahe_hcmd_save_raw_file" "keeps_unhandled wahe_hcmd_get_raw_time"
  "keeps_unhandled wahe_hcmd_benchmark" "keeps_unhandled wahe_hcmd_print" "keeps_unhandled wahe_hcmd_change_command_registration"
  by (auto simp: keeps_unhandled_def wahe_hcmd_load_raw_file_def wahe_hcmd_save_raw_file_def wahe_hcmd_get_raw_time_def
     wahe_hcmd_benchmark_def wahe_hcmd_print_def wahe_hcmd_change_command_registration_def Let_def split: bind_splits if_splits prod.splits)

lemma chain_unhandled:
  "keeps_unhandled wahe_hcmd_run_chain" "keeps_unhandled wahe_hcmd_thread_create" "keeps_unhandled wahe_hcmd_thread_join"
  "keeps_unhandled wahe_hcmd_get_thread_id"
  by (auto simp: keeps_unhandled_def wahe_hcmd_run_chain_def wahe_hcmd_thread_create_def wahe_hcmd_thread_join_def
     wahe_hcmd_get_thread_id_def Let_def split: bind_splits if_splits prod.splits option.splits)

lemma host_func_unhandled:
  "host_func cmd S m line ret w = Some ((WAHE_HOST_CMD_NOT_HANDLED, line1, ret1), w1) \<Longrightarrow> line1 = line \<and> ret1 = ret \<and> w1 = w"
proof -
  have "keeps_unhandled (host_func cmd)"
    by (cases cmd) (simp_all only: host_func.simps memory_unhandled value_unhandled file_unhandled chain_unhandled)
  then show "host_func cmd S m line ret w = Some ((WAHE_HOST_CMD_NOT_HANDLED, line1, ret1), w1) \<Longrightarrow> ?thesis"
    unfolding keeps_unhandled_def by blast
qed

section \<open>The location a load reports\<close>

lemma skip_line:
  assumes "u \<noteq> []" "CHR ''\<newline>'' \<notin> set u"
  shows "scan_from pos (Skip_until CHR ''\<newline>'' # ds) (u @ CHR ''\<newline>'' # s) = scan_from (pos + length u) ds (CHR ''\<newline>'' # s)"
proof -
  have "dropWhile (\<lambda>c. c \<noteq> CHR ''\<newline>'') (u @ CHR ''\<newline>'' # s) = CHR ''\<newline>'' # s"
    using assms(2) by (subst dropWhile_append2) auto
  then show ?thesis using assms(1) by (simp add: Let_def)
qed

lemma start_not_blank:
  "u \<noteq> [] \<Longrightarrow> \<not> is_space (hd u) \<Longrightarrow> dropWhile is_space (u @ r) = u @ r"
  "dropWhile is_space (print_zx a @ r) = print_zx a @ r" "dropWhile is_space (print_zu n @ r) = print_zu n @ r"
proof -
  show "u \<noteq> [] \<Longrightarrow> \<not> is_space (hd u) \<Longrightarrow> dropWhile is_space (u @ r) = u @ r" by (cases u) auto
  show "dropWhile is_space (print_zx a @ r) = print_zx a @ r" by (simp add: print_zx_def is_space_def)
  show "dropWhile is_space (print_zu n @ r) = print_zu n @ r" unfolding print_zu_def by (rule print_base_start) simp_all
qed

lemma space_chars:
  "is_space CHR '' ''" "is_space CHR ''\<newline>''" "\<not> is_space CHR ''S''" "\<not> is_space CHR ''r''" "\<not> is_space CHR ''f''"
  "\<not> is_space CHR ''t''" "\<not> is_space CHR ''p''" "\<not> is_space CHR ''D''" "\<not> is_space CHR ''l''" "\<not> is_space CHR ''b''"
  "\<not> is_space CHR ''a''" "\<not> is_space CHR ''h''" "\<not> is_space CHR ''o''" "\<not> is_space CHR ''w''" "\<not> is_space CHR ''e''"
  by (simp_all add: is_space_def)

lemma save_format:
  "scanf_format ''Save raw file to path %n%*[^\<newline>]%n\<newline>Data location: %zi bytes at %zi%n'' =
     scanf_format ''Save raw file to path '' @ [Position, Skip_until CHR ''\<newline>'', Position, Blanks] @ scanf_format ''Data location: %zi bytes at %zi%n''"
  by (simp add: scanf_format.simps is_space_def)

lemma save_prefix_scan:
  "path \<noteq> [] \<Longrightarrow> \<not> is_space (hd path) \<Longrightarrow>
   scan_from 0 (scanf_format ''Save raw file to path '' @ ds) (''Save raw file to path '' @ path @ r) = scan_from 22 ds (path @ r)"
  by (simp add: scanf_format.simps space_chars Let_def start_not_blank(1) numeral_eq_Suc)

lemma location_scan:
  assumes "n < 2 ^ 63" "unat a < 2 ^ 63"
  shows "scan_from pos (scanf_format ''Data location: %zi bytes at %zi%n'') (location_text n a) =
    Some [Scanned_size (of_nat n), Scanned_size a, Scanned_position (pos + length (location_text n a))]"
proof -
  have ends: "ends_number ('' bytes at '' @ r)" "ends_number []" for r
    by (simp_all add: ends_number_def is_digit_in_def digit_value_def Let_def)
  have "scan_any_base (print_zu n @ '' bytes at '' @ print_zx a) = Matched (of_nat n) ('' bytes at '' @ print_zx a)"
      "scan_any_base (print_zx a) = Matched a []"
    using scan_any_base_zu [OF assms(1) ends(1)] scan_any_base_zx [OF assms(2) ends(2)] by simp_all
  moreover have "dropWhile is_space (print_zx a) = print_zx a" using start_not_blank(2) [of a "[]"] by simp
  ultimately show ?thesis
    by (simp add: scanf_format.simps space_chars Let_def location_text_def start_not_blank(3))
qed

lemma save_scan:
  assumes path: "path \<noteq> []" "CHR ''\<newline>'' \<notin> set path" "\<not> is_space (hd path)"
    and loc: "n < 2 ^ 63" "unat a < 2 ^ 63"
  shows "sscanf (''Save raw file to path '' @ path @ ''\<newline>'' @ location_text n a)
      ''Save raw file to path %n%*[^\<newline>]%n\<newline>Data location: %zi bytes at %zi%n'' =
    Some [Scanned_position 22, Scanned_position (22 + length path), Scanned_size (of_nat n), Scanned_size a,
      Scanned_position (23 + length path + length (location_text n a))]"
proof -
  have "hd (location_text n a) = CHR ''D''" "location_text n a \<noteq> []" by (simp_all add: location_text_def)
  then have start: "dropWhile is_space (location_text n a) = location_text n a"
    using start_not_blank(1) [of "location_text n a" "[]"] by (simp add: space_chars)
  have "scan_from 22 ([Position, Skip_until CHR ''\<newline>'', Position, Blanks] @ ds) (path @ ''\<newline>'' @ location_text n a) =
      map_option (\<lambda>vs. Scanned_position 22 # Scanned_position (22 + length path) # vs) (scan_from (23 + length path) ds (location_text n a))" for ds
    using skip_line [OF path(1,2), of 22 "Position # Blanks # ds" "location_text n a"]
    by (simp add: space_chars option.map_comp o_def Let_def start)
  then show ?thesis
    unfolding sscanf_def save_format
    by (simp only: save_prefix_scan [OF path(1,3)] location_scan [OF loc] option.map)
qed

text \<open>
  C27. What a Load command answers can be handed back in a Save command: the line with the location
  of the loaded data saves exactly that block of the module's memory to the path, whatever the
  path contains, and the lines that follow are left for the commands after it.
\<close>

theorem save_accepts_loaded_location:
  assumes "line_text line w = Some (''Save raw file to path '' @ path @ ''\<newline>'' @ location_text n a)"
    and "path \<noteq> []" and "CHR ''\<newline>'' \<notin> set path" and "\<not> is_space (hd path)"
    and "n < 2 ^ 63" and "a \<noteq> 0" and "unat a < 2 ^ 63"
  shows "wahe_hcmd_save_raw_file S m line ret w =
    do {
      (saved, w1) \<leftarrow> save_raw_file S path ''wb'' (memory_ptr (modules w ! m) + a) n w;
      (reply, w2) \<leftarrow> module_sprintf_alloc (calls S) m (if saved then ''Done.'' else ''Error: Couldn't write to file '' @ path) w1;
      after \<leftarrow> next_line line w2;
      Some ((WAHE_HOST_CMD_HANDLED, after, reply), w2)
    }"
proof -
  define s where "s = ''Save raw file to path '' @ path @ ''\<newline>'' @ location_text n a"
  define vs where "vs = [Scanned_position 22, Scanned_position (22 + length path), Scanned_size (of_nat n), Scanned_size a,
    Scanned_position (23 + length path + length (location_text n a))]"
  have len: "length s = 23 + length path + length (location_text n a)" by (simp add: s_def)
  have scan: "sscanf s ''Save raw file to path %n%*[^\<newline>]%n\<newline>Data location: %zi bytes at %zi%n'' = Some vs"
    unfolding s_def vs_def by (rule save_scan [OF assms(2-5,7)])
  have vars: "position_var vs 0 = 22" "position_var vs 1 = 22 + length path" "unat (size_var vs 2) = n" "size_var vs 3 = a"
      "position_var vs 4 = length s"
    using assms(5) by (simp_all add: vs_def position_var_def size_var_def unat_of_nat take_bit_eq_mod len)
  have path: "line_part s 22 (22 + length path) = path" by (simp add: s_def line_part_def make_string_copy_len_def)
  have ends: "wahe_hcmd_ends_at s (length s) = Some True" by (simp add: wahe_hcmd_ends_at_def char_at_def)
  have "length s \<noteq> 0" by (simp add: len)
  then show ?thesis
    unfolding wahe_hcmd_save_raw_file_def assms(1) [folded s_def] Let_def
    by (simp only: bind.bind_lunit scan vars path ends assms(6) simp_thms if_False)
qed

text \<open>A world with one line of text in the host's memory.\<close>

definition text_at :: "u64 \<Rightarrow> string \<Rightarrow> memory" where
  "text_at p s = (\<lambda>q. if unat (q - p) < length s + 1 then Some ((bytes_of_string s @ [0]) ! unat (q - p)) else None)"

lemma c_text_at: "CHR 0x00 \<notin> set s \<Longrightarrow> length s < 2 ^ 32 \<Longrightarrow> c_text (text_at p s) p = Some s"
  by (rule c_text_load) (auto simp: mem_load_iff text_at_def unat_of_nat take_bit_eq_mod)

definition command_world :: "string \<Rightarrow> unit world" where
  "command_world s = sample_wasm_world\<lparr>host_mem := text_at 0x8000 s\<rparr>"

lemma command_line: "CHR 0x00 \<notin> set s \<Longrightarrow> length s < 2 ^ 32 \<Longrightarrow> line_text 0x8000 (command_world s) = Some s"
  by (simp add: line_text_def command_world_def c_text_at)

lemma sample_reply: "\<exists>w'. module_sprintf_alloc (calls sample_services) 0 reply (command_world s) = Some (0, w') \<and> host_mem w' = text_at 0x8000 s"
  by (simp add: module_sprintf_alloc_def module_vsprintf_alloc_on_runner_def call_module_malloc_on_runner_def dispatch_simps
     command_world_def sample_wasm_world_def sample_wasm_module_def sample_services_def sample_runner_def wahe_active_runner_id_def
     wahe_active_native_runner_id_def)

theorem save_accepts_loaded_location_witness:
  "\<exists>after w'. wahe_hcmd_save_raw_file sample_services 0 0x8000 0
     (command_world (''Save raw file to path '' @ ''out.raw'' @ ''\<newline>'' @ location_text 5 0x20)) =
     Some ((WAHE_HOST_CMD_HANDLED, after, 0), w')"
proof -
  let ?s = "''Save raw file to path '' @ ''out.raw'' @ ''\<newline>'' @ location_text 5 0x20"
  have loc: "location_text 5 0x20 = ''Data location: 5 bytes at 0x20''"
    by (simp add: location_text_def print_zu_def print_zx_def print_base.simps digit_char_def char_of_def bit_0)
  have line: "line_text 0x8000 (command_world ?s) = Some ?s" by (rule command_line) (simp_all add: loc)
  have save: "save_raw_file sample_services ''out.raw'' ''wb'' (memory_ptr (modules (command_world ?s) ! 0) + 0x20) 5 (command_world ?s) =
      Some (False, command_world ?s)"
    by (simp add: save_raw_file_def fopen_mkdirs_def sample_services_def command_world_def sample_wasm_world_def sample_wasm_module_def)
  obtain w' where w': "module_sprintf_alloc (calls sample_services) 0 (''Error: Couldn't write to file '' @ ''out.raw'') (command_world ?s) = Some (0, w')"
      "host_mem w' = text_at 0x8000 ?s" using sample_reply by blast
  have "line_text 0x8000 w' = Some ?s" using line w'(2) by (simp add: line_text_def command_world_def)
  then have "\<exists>after. next_line 0x8000 w' = Some after" by (simp add: next_line_def)
  then obtain after where after: "next_line 0x8000 w' = Some after" by blast
  have "wahe_hcmd_save_raw_file sample_services 0 0x8000 0 (command_world ?s) = Some ((WAHE_HOST_CMD_HANDLED, after, 0), w')"
    using save_accepts_loaded_location [OF line, of sample_services 0 0] save w'(1) after by (simp add: is_space_def)
  then show ?thesis by blast
qed

end
