(* ===== verification/Memory_Commands.thy ===== *)
theory Memory_Commands
  imports Host_Correct
begin

text \<open>
  The memory commands of \<open>wahe_host_commands.c\<close> over the reservations of the platform: a translated module's
  memory keeps its committed pages accessible and never grows past its reservation.
\<close>

section \<open>Memory commands and the reservation\<close>

text \<open>
  What the host relies on: the committed pages of a module's reservation are accessible and the committed size
  never exceeds the reservation.
\<close>

definition pages_accessible :: "nat \<Rightarrow> memory \<Rightarrow> u64 \<Rightarrow> nat \<Rightarrow> nat \<Rightarrow> bool" where
  "pages_accessible ps h base commit reserve \<longleftrightarrow> base \<noteq> 0 \<and> page_range ps base reserve \<and> commit \<le> reserve \<and>
     (\<forall>q. in_block base (page_up ps commit) q \<longrightarrow> h q \<noteq> None)"

definition memory_reserved :: "nat \<Rightarrow> nat \<Rightarrow> 'g world \<Rightarrow> bool" where
  "memory_reserved ps m w \<longleftrightarrow>
     (let x = modules w ! m in
      memory_reserve_size x = 0 \<and> memory_ptr x = 0 \<or>
      pages_accessible ps (host_mem w) (memory_ptr x) (memory_size x) (memory_reserve_size x))"

lemma reserve_nonzero: "pages_accessible ps h base commit reserve \<Longrightarrow> reserve \<noteq> 0"
  by (auto simp: pages_accessible_def page_range_def)

lemma alloc_accessible:
  assumes "posix_vm os ps" "wahe_virtual_memory_alloc os commit reserve s = (base, s')" "base \<noteq> 0"
  shows "pages_accessible ps (snd s') base commit reserve"
proof -
  have r: "reserved ps (snd s') base commit reserve" using alloc_reserved [OF assms] by blast
  then have "page_up ps commit \<le> page_up ps reserve" by (intro page_up_mono) (simp add: reserved_def)
  with r show ?thesis unfolding pages_accessible_def reserved_def using in_block_mono by metis
qed

lemma commit_accessible:
  assumes "posix_vm os ps" "pages_accessible ps (snd s) base commit reserve"
    and "wahe_virtual_memory_commit os base n s = (ok, s')" "commit \<le> n" "n \<le> reserve"
  shows "pages_accessible ps (snd s') base (if ok then n else commit) reserve"
proof -
  have b: "page_range ps base reserve" "base \<noteq> 0" using assms(2) by (simp_all add: pages_accessible_def)
  note e = commit_effect [OF assms(1) b assms(5,3)]
  show ?thesis
  proof (cases ok)
    case True
    with e assms(2,5) show ?thesis by (simp add: pages_accessible_def)
  next
    case False
    have "snd s' q \<noteq> None" if "in_block base (page_up ps commit) q" for q
      using e assms(2) that unfolding pages_accessible_def by metis
    with False assms(2) show ?thesis by (simp add: pages_accessible_def)
  qed
qed

lemma decommit_accessible:
  assumes "posix_vm os ps" "pages_accessible ps (snd s) base commit reserve"
    and "wahe_virtual_memory_decommit os base n commit s = (True, s')"
  shows "pages_accessible ps (snd s') base n reserve"
proof -
  have b: "page_range ps base reserve" "commit \<le> reserve" using assms(2) by (simp_all add: pages_accessible_def)
  note e = decommit_effect [OF assms(1) b assms(3)]
  then have le: "n \<le> commit" by simp
  then have "page_up ps n \<le> page_up ps commit" by (rule page_up_mono)
  with e le assms(2) in_block_mono [of base "page_up ps n"] show ?thesis unfolding pages_accessible_def by (metis order_trans)
qed

lemma decommit_refused_accessible:
  assumes "posix_vm os ps" "pages_accessible ps (snd s) base commit reserve"
    and "wahe_virtual_memory_decommit os base n commit s = (False, s')" and le: "n \<le> commit"
  shows "pages_accessible ps (snd s') base n reserve"
proof -
  have b: "page_range ps base reserve" "commit \<le> reserve" using assms(2) by (simp_all add: pages_accessible_def)
  note e = decommit_effect [OF assms(1) b assms(3)]
  from le have "page_up ps n \<le> page_up ps commit" by (rule page_up_mono)
  with e le assms(2) in_block_mono [of base "page_up ps n"] show ?thesis unfolding pages_accessible_def by (metis order_trans)
qed

lemma set_memory_size_result:
  assumes "set_memory_size m n w = Some w'" "m < length (modules w)"
  shows "(\<forall>q. host_mem w' q = None \<longleftrightarrow> host_mem w q = None) \<and> memory_ptr (modules w' ! m) = memory_ptr (modules w ! m) \<and>
    memory_reserve_size (modules w' ! m) = memory_reserve_size (modules w ! m) \<and> memory_size (modules w' ! m) = n"
  using assms mem_store_effect(2)
  by (auto simp: set_memory_size_def store_address_def Let_def split: if_splits bind_splits)

lemma resized:
  assumes "resize_memory m f n w = Some w'" "m < length (modules w)"
    and step: "\<And>ok s'. f (guest w, host_mem w) = (ok, s') \<Longrightarrow>
      pages_accessible ps (snd s') (memory_ptr (modules w ! m)) (if ok then n else memory_size (modules w ! m)) (memory_reserve_size (modules w ! m))"
  shows "memory_reserved ps m w'"
proof -
  obtain ok g h where f: "f (guest w, host_mem w) = (ok, g, h)" by (metis prod_cases3)
  define w1 where "w1 = w\<lparr>guest := g, host_mem := h\<rparr>"
  have s1: "modules w1 = modules w" "host_mem w1 = snd (g, h)" "(if ok then set_memory_size m n w1 else Some w1) = Some w'"
    using assms(1) by (simp_all add: w1_def resize_memory_def with_vm_def f split: if_splits)
  show ?thesis
  proof (cases ok)
    case True
    then show ?thesis
      using set_memory_size_result [of m n w1 w'] s1(3) assms(2) step [OF f] s1(1,2)
      by (auto simp: memory_reserved_def pages_accessible_def Let_def)
  next
    case False
    then show ?thesis using s1(3) step [OF f] s1(1,2) by (auto simp: memory_reserved_def Let_def)
  qed
qed

lemma init_reserved:
  assumes os: "posix_vm (vm S) ps" and m: "m < length (modules w)" "memory_reserved ps m w"
    and call: "wahe_hcmd_init_memory S m line ret w = Some (z, w')"
  shows "memory_reserved ps m w'"
proof -
  let ?x = "modules w ! m"
  consider "w' = w"
    | memory a b w1 where "memory_ptr ?x = 0" "memory_reserve_size ?x = 0"
        "with_vm (wahe_virtual_memory_alloc (vm S) a b) w = (memory, w1)"
        "w' = (if memory \<noteq> 0 then upd_module m (\<lambda>x. x\<lparr>memory_ptr := memory, memory_size := a, memory_reserve_size := b\<rparr>) w1 else w1)"
    using call by (auto simp: wahe_hcmd_init_memory_def Let_def split: bind_splits if_splits prod.splits)
  then show ?thesis
  proof cases
    case 1
    with m(2) show ?thesis by simp
  next
    case 2
    obtain s' where s': "wahe_virtual_memory_alloc (vm S) a b (guest w, host_mem w) = (memory, s')"
        "host_mem w1 = snd s'" "modules w1 = modules w"
      using 2(3) by (auto simp: with_vm_def split: prod.splits)
    then show ?thesis
      using 2(1,2,4) m(1) alloc_accessible [OF os s'(1)] by (auto simp: memory_reserved_def Let_def)
  qed
qed

lemma enlarge_reserved:
  assumes os: "posix_vm (vm S) ps" and m: "m < length (modules w)" "memory_reserved ps m w"
    and call: "wahe_hcmd_enlarge_memory S m line ret w = Some (z, w')"
  shows "memory_reserved ps m w'"
proof -
  let ?x = "modules w ! m"
  consider "w' = w" | n where "memory_size ?x \<le> n" "n \<le> memory_reserve_size ?x" "memory_reserve_size ?x \<noteq> 0"
      "resize_memory m (wahe_virtual_memory_commit (vm S) (memory_ptr ?x) n) n w = Some w'"
  proof -
    assume same: "w' = w \<Longrightarrow> thesis" and changed: "\<And>n. memory_size ?x \<le> n \<Longrightarrow> n \<le> memory_reserve_size ?x \<Longrightarrow> memory_reserve_size ?x \<noteq> 0 \<Longrightarrow>
      resize_memory m (wahe_virtual_memory_commit (vm S) (memory_ptr ?x) n) n w = Some w' \<Longrightarrow> thesis"
    note c = call [unfolded wahe_hcmd_enlarge_memory_def]
    obtain s where s: "line_text line w = Some s" using c by (cases "line_text line w") auto
    obtain vs where vs: "sscanf s ''Enlarge memory to %zu bytes%n'' = Some vs" using c [unfolded s bind.bind_lunit]
      by (cases "sscanf s ''Enlarge memory to %zu bytes%n''") auto
    define n where "n = (if memory_reserve_size ?x \<noteq> 0 \<and> memory_reserve_size ?x < unat (size_var vs 0) then memory_reserve_size ?x
      else unat (size_var vs 0))"
    note d = c [unfolded s vs bind.bind_lunit Let_def, folded n_def]
    have n: "memory_reserve_size ?x \<noteq> 0 \<Longrightarrow> n \<le> memory_reserve_size ?x" by (simp add: n_def)
    show thesis
    proof (cases "resize_memory m (wahe_virtual_memory_commit (vm S) (memory_ptr ?x) n) n w")
      case None
      then show thesis using d same by (simp split: if_split_asm)
    next
      case (Some w1)
      have "w' = w \<or> \<not> n < memory_size ?x \<and> memory_reserve_size ?x \<noteq> 0 \<and> w1 = w'"
        using d unfolding Some bind.bind_lunit by (simp split: if_split_asm)
      then show thesis using same changed [of n] n Some by auto
    qed
  qed
  then show ?thesis
  proof cases
    case 2
    have acc: "pages_accessible ps (snd (guest w, host_mem w)) (memory_ptr ?x) (memory_size ?x) (memory_reserve_size ?x)"
      using m(2) 2(3) by (simp add: memory_reserved_def Let_def)
    show ?thesis using resized [OF 2(4) m(1)] commit_accessible [OF os acc _ 2(1,2)] by blast
  qed (use m in simp)
qed

text \<open>The size a shrink command asks for.\<close>

definition shrink_request :: "u64 \<Rightarrow> 'g world \<Rightarrow> nat option" where
  "shrink_request line w = do {
     s \<leftarrow> line_text line w;
     vs \<leftarrow> sscanf s ''Shrink memory to %zu bytes%n'';
     Some (unat (size_var vs 0))
   }"

lemma shrink_reserved:
  assumes os: "posix_vm (vm S) ps" and m: "m < length (modules w)" "memory_reserved ps m w"
    and ty: "mtype (modules w ! m) \<noteq> WAHE_MODULE_WASMTIME"
    and call: "wahe_hcmd_shrink_memory S m line ret w = Some (z, w')"
  shows "memory_reserved ps m w' \<or>
    (\<exists>n. shrink_request line w = Some n \<and> n \<le> memory_size (modules w ! m) \<and> modules w' = modules w \<and>
       wahe_virtual_memory_decommit (vm S) (memory_ptr (modules w ! m)) n (memory_size (modules w ! m)) (guest w, host_mem w) =
         (False, guest w', host_mem w') \<and>
       pages_accessible ps (host_mem w') (memory_ptr (modules w ! m)) n (memory_reserve_size (modules w ! m)))"
proof -
  let ?x = "modules w ! m"
  note c = call [unfolded wahe_hcmd_shrink_memory_def Let_def if_not_P [OF ty]]
  consider "w' = w" | n where "memory_reserve_size ?x \<noteq> 0" "shrink_request line w = Some n" "n \<le> memory_size ?x"
      "resize_memory m (wahe_virtual_memory_decommit (vm S) (memory_ptr ?x) n (memory_size ?x)) n w = Some w'"
  proof -
    assume same: "w' = w \<Longrightarrow> thesis" and changed: "\<And>n. memory_reserve_size ?x \<noteq> 0 \<Longrightarrow> shrink_request line w = Some n \<Longrightarrow>
      n \<le> memory_size ?x \<Longrightarrow>
      resize_memory m (wahe_virtual_memory_decommit (vm S) (memory_ptr ?x) n (memory_size ?x)) n w = Some w' \<Longrightarrow> thesis"
    obtain s where s: "line_text line w = Some s" using c by (cases "line_text line w") auto
    obtain vs where vs: "sscanf s ''Shrink memory to %zu bytes%n'' = Some vs" using c [unfolded s bind.bind_lunit]
      by (cases "sscanf s ''Shrink memory to %zu bytes%n''") auto
    have req: "shrink_request line w = Some (unat (size_var vs 0))" by (simp add: shrink_request_def s vs)
    show thesis
    proof (cases "resize_memory m (wahe_virtual_memory_decommit (vm S) (memory_ptr ?x) (unat (size_var vs 0)) (memory_size ?x))
        (unat (size_var vs 0)) w")
      case None
      then show thesis using c [unfolded s vs bind.bind_lunit] same by (simp split: if_split_asm)
    next
      case (Some w1)
      then show thesis using c [unfolded s vs bind.bind_lunit] same changed [of "unat (size_var vs 0)", OF _ req]
        by (simp split: if_split_asm)
    qed
  qed
  then show ?thesis
  proof cases
    case 2
    let ?d = "wahe_virtual_memory_decommit (vm S) (memory_ptr ?x) n (memory_size ?x)"
    have acc: "pages_accessible ps (snd (guest w, host_mem w)) (memory_ptr ?x) (memory_size ?x) (memory_reserve_size ?x)"
      using m(2) 2(1) by (simp add: memory_reserved_def Let_def)
    obtain ok g h where d: "?d (guest w, host_mem w) = (ok, g, h)" by (metis prod_cases3)
    show ?thesis
    proof (cases ok)
      case True
      have "memory_reserved ps m w'"
      proof (rule resized [OF 2(4) m(1)])
        fix ok' s'
        assume "?d (guest w, host_mem w) = (ok', s')"
        then show "pages_accessible ps (snd s') (memory_ptr ?x) (if ok' then n else memory_size ?x) (memory_reserve_size ?x)"
          using decommit_accessible [OF os acc] d True by simp
      qed
      then show ?thesis ..
    next
      case False
      with 2(4) d have w': "w' = w\<lparr>guest := g, host_mem := h\<rparr>" by (simp add: resize_memory_def with_vm_def)
      have "pages_accessible ps (snd (g, h)) (memory_ptr ?x) n (memory_reserve_size ?x)"
        by (rule decommit_refused_accessible [OF os acc _ 2(3)]) (use d False in simp)
      with 2(2,3) d False w' show ?thesis by simp
    qed
  qed (use m in simp)
qed

text \<open>
  C18. After every memory command a module sends, the committed pages of its reservation are accessible
  and inside the reservation, for the size the module then has: a second initialisation is ignored, a request past
  the reservation is clamped and one in the wrong direction is refused. The one exception is a reduction the system refuses
  half way: then the module and its size are as they were and the pages below the size asked for are accessible.
\<close>

theorem memory_commands_keep_reservation:
  assumes "posix_vm (vm S) ps" and "m < length (modules w)" and "memory_reserved ps m w"
    and "mtype (modules w ! m) \<noteq> WAHE_MODULE_WASMTIME"
    and "cmd \<in> {Cmd_init_memory, Cmd_enlarge_memory, Cmd_shrink_memory}"
    and "host_func cmd S m line ret w = Some (z, w')"
  shows "memory_reserved ps m w' \<or>
    cmd = Cmd_shrink_memory \<and>
    (\<exists>n. shrink_request line w = Some n \<and> n \<le> memory_size (modules w ! m) \<and> modules w' = modules w \<and>
       wahe_virtual_memory_decommit (vm S) (memory_ptr (modules w ! m)) n (memory_size (modules w ! m)) (guest w, host_mem w) =
         (False, guest w', host_mem w') \<and>
       pages_accessible ps (host_mem w') (memory_ptr (modules w ! m)) n (memory_reserve_size (modules w ! m)))"
proof -
  consider "cmd = Cmd_init_memory" | "cmd = Cmd_enlarge_memory" | "cmd = Cmd_shrink_memory" using assms(5) by blast
  then show ?thesis
  proof cases
    case 1
    with assms(6) show ?thesis by (intro disjI1 init_reserved [OF assms(1-3)]) simp
  next
    case 2
    with assms(6) show ?thesis by (intro disjI1 enlarge_reserved [OF assms(1-3)]) simp
  next
    case 3
    with assms(6) shrink_reserved [OF assms(1-4)] show ?thesis by simp
  qed
qed

definition native_world :: "string \<Rightarrow> unit world" where
  "native_world s = (command_world s)\<lparr>modules := [sample_wasm_module\<lparr>mtype := WAHE_MODULE_NATIVE, memory_ptr := 0, memory_size := 0\<rparr>]\<rparr>"

lemma sample_init_scan:
  "sscanf ''Init memory to 8192 - 65536'' ''Init memory to %zu - %zu%n'' =
     Some [Scanned_size 8192, Scanned_size 65536, Scanned_position 27]"
  by (simp add: sscanf_def scanf_format.simps is_space_def scan_size_def split_sign_def scan_number_def is_digit_in_def digit_value_def Let_def)

theorem memory_commands_keep_reservation_witness:
  "\<exists>z w'. host_func Cmd_init_memory sample_services 0 0x8000 0 (native_world ''Init memory to 8192 - 65536'') = Some (z, w') \<and>
     memory_size (modules w' ! 0) = 8192 \<and> memory_reserved 4096 0 w'"
proof -
  let ?w = "native_world ''Init memory to 8192 - 65536''"
  have os: "posix_vm (vm sample_services) 4096" using sample_os_posix by (simp add: sample_services_def)
  have x: "modules ?w ! 0 = sample_wasm_module\<lparr>mtype := WAHE_MODULE_NATIVE, memory_ptr := 0, memory_size := 0\<rparr>" "length (modules ?w) = 1"
    by (simp_all add: native_world_def)
  have line: "line_text 0x8000 ?w = Some ''Init memory to 8192 - 65536''"
    using command_line [of "''Init memory to 8192 - 65536''"] by (simp add: native_world_def line_text_def)
  have free: "host_mem ?w (0x10000 + of_nat i) = None" if "i < 65536" for i
  proof -
    have "(0x10000 + of_nat i :: u64) - 0x8000 = of_nat (0x8000 + i)" by simp
    then have "unat ((0x10000 + of_nat i :: u64) - 0x8000) = 0x8000 + i" using that by (simp only: unat_of_nat) (simp add: take_bit_eq_mod)
    then show ?thesis by (simp add: native_world_def command_world_def text_at_def)
  qed
  have "\<exists>h. wahe_virtual_memory_alloc (vm sample_services) 8192 65536 ((), host_mem ?w) = (0x10000, (), h)"
    using free by (simp add: wahe_virtual_memory_alloc_def wahe_virtual_memory_commit_def sample_services_def sample_os_def MAP_FAILED_def
      Let_def list_all_iff page_up_def)
  then obtain h where h: "wahe_virtual_memory_alloc (vm sample_services) 8192 65536 ((), host_mem ?w) = (0x10000, (), h)" by blast
  have "host_func Cmd_init_memory sample_services 0 0x8000 0 ?w = Some ((WAHE_HOST_CMD_RETURN, 0x8000, 0x10000),
      upd_module 0 (\<lambda>x. x\<lparr>memory_ptr := 0x10000, memory_size := 8192, memory_reserve_size := 65536\<rparr>)
        (?w\<lparr>guest := (), host_mem := h\<rparr>))"
    by (simp add: wahe_hcmd_init_memory_def line sample_init_scan position_var_def size_var_def x with_vm_def h sample_wasm_module_def)
  moreover from memory_commands_keep_reservation [OF os _ _ _ _ this]
  have "memory_reserved 4096 0 (upd_module 0 (\<lambda>x. x\<lparr>memory_ptr := 0x10000, memory_size := 8192, memory_reserve_size := 65536\<rparr>)
        (?w\<lparr>guest := (), host_mem := h\<rparr>))"
    by (simp add: x memory_reserved_def sample_wasm_module_def)
  ultimately show ?thesis by (simp add: native_world_def)
qed

end
