(* ===== verification/Run_Command.thy ===== *)
theory Run_Command
  imports Host_Correct
begin

text \<open>
  Running a module's commands (\<open>wahe_run_command_core\<close> of \<open>wahe_core.c\<close> and its callbacks): the command
  processors of the running order, the lines of a message and their registrations, and what both promise.
\<close>

section \<open>Command processors\<close>

text \<open>
  The order whose module is running, when the command comes from that module and the order has a
  processor for it; a missing module or order is undefined.
\<close>

definition current_processor :: "nat option \<Rightarrow> 'g world \<Rightarrow> (nat \<times> int \<times> nat) option option" where
  "current_processor ctx w =
     (case cur_chain w of
        None \<Rightarrow> Some None
      | Some c \<Rightarrow>
          let x = chains w ! c in
          if \<not> 0 \<le> current_eo x \<or> exec_order x = [] then Some None
          else do {
            eo \<leftarrow> order_at c (current_eo x) w;
            (if \<not> current_cmd_proc_id x < length (cmd_proc_id eo) then Some None
             else do {
               m \<leftarrow> ctx;
               Some (if eo_module_id eo = module_id (modules w ! m)
                     then Some (c, cmd_proc_id eo ! current_cmd_proc_id x, length (cmd_proc_id eo)) else None)
             })
          })"

text \<open>The next processor of the cascade answers in the module's place.\<close>

definition run_processor :: "'g env \<Rightarrow> nat \<Rightarrow> u64 \<Rightarrow> nat \<Rightarrow> int \<Rightarrow> nat \<Rightarrow> 'g world \<Rightarrow> (u64 \<times> 'g world) option" where
  "run_processor E m message c proc_id proc_count w =
     do {
       d \<leftarrow> module_at w proc_id;
       (dst_addr, w1) \<leftarrow> wahe_copy_message_between_modules E (Some m) message (Some d) w;
       (if dst_addr = 0 then Some (0, w1)
        else do {
          (return_msg_dst, w2) \<leftarrow> call_module_func E d dst_addr WAHE_FUNC_PROC_CMD False
            (upd_chain c (\<lambda>x. x\<lparr>current_cmd_proc_id := current_cmd_proc_id x + 1\<rparr>) w1);
          w3 \<leftarrow> call_module_free E (Some d) dst_addr w2;
          let w4 = (if current_cmd_proc_id (chains w3 ! c) = proc_count
                    then upd_chain c (\<lambda>x. x\<lparr>current_cmd_proc_id := 0\<rparr>) w3 else w3);
          (if return_msg_dst = 0 then Some (0, w4)
           else wahe_copy_message_between_modules E (Some d) return_msg_dst (Some m) w4)
        })
     }"

section \<open>Registered commands\<close>

text \<open>A registered module answers the rest of the message; its answer ends the command.\<close>

definition run_registered :: "'g env \<Rightarrow> nat \<Rightarrow> u64 \<Rightarrow> u64 \<Rightarrow> int \<Rightarrow> 'g world \<Rightarrow> (u64 \<times> 'g world) option" where
  "run_registered E m line return_msg_addr target w =
     do {
       d \<leftarrow> module_at w target;
       (registered_msg_addr, w1) \<leftarrow> wahe_copy_message_between_modules E (Some m) line (Some d) w;
       (if registered_msg_addr = 0
        then do {
          w2 \<leftarrow> (if return_msg_addr \<noteq> 0 then call_module_free E (Some m) return_msg_addr w1 else Some w1);
          Some (0, w2)
        }
        else do {
          (ret_msg, w2) \<leftarrow> call_module_func E d registered_msg_addr WAHE_FUNC_INPUT False w1;
          w3 \<leftarrow> call_module_free E (Some d) registered_msg_addr w2;
          (if ret_msg = 0 then Some (return_msg_addr, w3)
           else do {
             (response_copy, w4) \<leftarrow> wahe_copy_message_between_modules E (Some d) ret_msg (Some m) w3;
             w5 \<leftarrow> (if return_msg_addr \<noteq> 0 then call_module_free E (Some m) return_msg_addr w4 else Some w4);
             Some (response_copy, w5)
           })
        })
     }"

text \<open>A host command, with the reply it replaces freed.\<close>

definition run_host_command ::
    "'g services \<Rightarrow> wahe_host_cmd \<Rightarrow> nat \<Rightarrow> u64 \<Rightarrow> u64 \<Rightarrow> 'g world \<Rightarrow> ((wahe_host_cmd_result \<times> u64 \<times> u64) \<times> 'g world) option" where
  "run_host_command S cmd m line return_msg_addr w =
     do {
       ((result, line1, reply), w1) \<leftarrow> host_func cmd S m line return_msg_addr w;
       w2 \<leftarrow> (if return_msg_addr \<noteq> 0 \<and> return_msg_addr \<noteq> reply
               then call_module_free (calls S) (Some m) return_msg_addr w1 else Some w1);
       Some ((result, line1, reply), w2)
     }"

datatype line_outcome = Command_returns u64 | Line_done u64 u64 | Line_unknown u64 u64

text \<open>The registrations for a line, newest first; a host command that does not handle it leads to the next one.\<close>

partial_function (option) run_line ::
    "'g services \<Rightarrow> nat \<Rightarrow> u64 \<Rightarrow> u64 \<Rightarrow> nat \<Rightarrow> 'g world \<Rightarrow> (line_outcome \<times> 'g world) option" where
  "run_line S m line return_msg_addr before w =
     do {
       s \<leftarrow> line_text line w;
       found \<leftarrow> wahe_find_command_registration s (module_id (modules w ! m)) before (registry w);
       (case found of
          None \<Rightarrow> Some (Line_unknown line return_msg_addr, w)
        | Some reg \<Rightarrow>
            (case reg_target reg of
               Target_module target \<Rightarrow>
                 do {
                   (reply, w1) \<leftarrow> run_registered (calls S) m line return_msg_addr target w;
                   Some (Command_returns reply, w1)
                 }
             | Target_host cmd \<Rightarrow>
                 do {
                   r \<leftarrow> run_host_command S cmd m line return_msg_addr w;
                   (case r of ((result, line1, reply), w1) \<Rightarrow>
                      if result = WAHE_HOST_CMD_RETURN then Some (Command_returns reply, w1)
                      else if result = WAHE_HOST_CMD_HANDLED then Some (Line_done line1 reply, w1)
                      else run_line S m line1 reply (reg_sequence reg) w1)
                 }))
     }"

text \<open>The lines of the message in turn.\<close>

partial_function (option) run_lines :: "'g services \<Rightarrow> nat \<Rightarrow> u64 \<Rightarrow> u64 \<Rightarrow> 'g world \<Rightarrow> (u64 \<times> 'g world) option" where
  "run_lines S m line return_msg_addr w =
     (if line = 0 then Some (return_msg_addr, w)
      else do {
        r \<leftarrow> run_line S m line return_msg_addr (2 ^ 64 - 1) w;
        (case r of
           (Command_returns reply, w1) \<Rightarrow> Some (reply, w1)
         | (Line_done line1 reply, w1) \<Rightarrow> do { after \<leftarrow> next_line line1 w1; run_lines S m after reply w1 }
         | (Line_unknown line1 reply, w1) \<Rightarrow> do { after \<leftarrow> next_line line1 w1; run_lines S m after reply w1 })
      })"

text \<open>Without a module every line is only reported.\<close>

definition wahe_run_command_core :: "'g services \<Rightarrow> nat option \<Rightarrow> u64 \<Rightarrow> 'g world \<Rightarrow> (u64 \<times> 'g world) option" where
  "wahe_run_command_core S ctx message w =
     (if message = 0 then Some (0, w)
      else do {
        processor \<leftarrow> current_processor ctx w;
        (case (processor, ctx) of
           (Some (c, proc_id, proc_count), Some m) \<Rightarrow> run_processor (calls S) m message c proc_id proc_count w
         | (_, Some m) \<Rightarrow> run_lines S m message 0 w
         | (_, None) \<Rightarrow> map_option (\<lambda>_. (0, w)) (line_text message w))
      })"

section \<open>Callbacks\<close>

definition wahe_run_command_with_id_native :: "'g services \<Rightarrow> nat option \<Rightarrow> u64 \<Rightarrow> 'g world \<Rightarrow> (u64 \<times> 'g world) option" where
  "wahe_run_command_with_id_native S ctx message w = wahe_run_command_core S ctx message w"

text \<open>
  The callback from Wasmtime: \<open>caller\<close> is the runner stored with the calling store, \<open>arg\<close> the first argument when
  the call is well formed. The result is the value set, if any.
\<close>

definition wahe_run_command ::
    "'g services \<Rightarrow> nat option \<Rightarrow> (nat \<times> nat) option \<Rightarrow> u64 option \<Rightarrow> 'g world \<Rightarrow> (u64 option \<times> 'g world) option" where
  "wahe_run_command S ctx caller arg w =
     (case (ctx, arg) of
        (Some m, Some a) \<Rightarrow>
          (case caller of
             None \<Rightarrow> Some (None, w)
           | Some (cm, r) \<Rightarrow>
               if cm \<noteq> m then Some (None, w)
               else (let w1 = wahe_refresh_module_memory_size (Some m) (w\<lparr>cur_wasmtime_runner := Some (cm, r)\<rparr>);
                         address = wasmtime_val_get_address (modules w1 ! m) a
                     in do {
                       (reply, w2) \<leftarrow> (if address \<noteq> 0
                                        then wahe_run_command_core S (Some m) (memory_ptr (modules w1 ! m) + address) w1
                                        else Some (0, w1));
                       Some (Some (wasmtime_val_set_address (modules w2 ! m) reply),
                             w2\<lparr>cur_wasmtime_runner := cur_wasmtime_runner w\<rparr>)
                     }))
      | _ \<Rightarrow> Some (None, w))"

section \<open>The route of a line\<close>

text \<open>The registrations of a list in turn, until one takes the line.\<close>

fun follow_route ::
    "'g services \<Rightarrow> nat \<Rightarrow> u64 \<Rightarrow> u64 \<Rightarrow> wahe_cmd_reg_t list \<Rightarrow> 'g world \<Rightarrow> (line_outcome \<times> 'g world) option" where
  "follow_route S m line ret [] w = Some (Line_unknown line ret, w)"
| "follow_route S m line ret (reg # regs) w =
     (case reg_target reg of
        Target_module target \<Rightarrow>
          map_option (\<lambda>(reply, w1). (Command_returns reply, w1)) (run_registered (calls S) m line ret target w)
      | Target_host cmd \<Rightarrow>
          (case run_host_command S cmd m line ret w of
             None \<Rightarrow> None
           | Some ((result, line1, reply), w1) \<Rightarrow>
               if result = WAHE_HOST_CMD_RETURN then Some (Command_returns reply, w1)
               else if result = WAHE_HOST_CMD_HANDLED then Some (Line_done line1 reply, w1)
               else follow_route S m line ret regs w))"

lemma unhandled_command:
  assumes "run_host_command S cmd m line ret w = Some ((WAHE_HOST_CMD_NOT_HANDLED, line1, reply), w1)"
  shows "line1 = line \<and> reply = ret \<and> w1 = w"
  using assms by (auto simp: run_host_command_def split: bind_splits if_splits dest!: host_func_unhandled)

lemma run_line_route:
  assumes "line_text line w = Some s" "ordered (registry w)" "no_zero_hash (registry w)" "length s < 2 ^ 64"
  shows "run_line S m line ret before w =
    follow_route S m line ret (fallback_route s (module_id (modules w ! m)) before (registry w)) w"
proof (induction before rule: less_induct)
  case (less before)
  let ?caller = "module_id (modules w ! m)"
  obtain r where r: "wahe_find_command_registration s ?caller before (registry w) = Some r"
      "\<And>reg. r = Some reg \<Longrightarrow> reg_sequence reg < before"
    using find_result [OF assms(2-4), of ?caller before] by (auto split: option.splits)
  show ?case
  proof (cases r)
    case None
    then show ?thesis
      using r(1) assms(1) by (subst run_line.simps) (simp add: fallback_route.simps [of s ?caller before])
  next
    case (Some reg)
    then have route: "fallback_route s ?caller before (registry w) = reg # fallback_route s ?caller (reg_sequence reg) (registry w)"
      using r by (simp add: fallback_route.simps [of s ?caller before])
    note IH = less.IH [OF r(2) [OF Some]]
    show ?thesis
    proof (cases "reg_target reg")
      case (Target_module target)
      then show ?thesis
        using r(1) assms(1) Some unfolding route
        by (subst run_line.simps) (simp add: map_option_case bind_eq_None_conv split: option.split)
    next
      case (Target_host cmd)
      note host = this
      show ?thesis
      proof (cases "run_host_command S cmd m line ret w")
        case None
        then show ?thesis using r(1) assms(1) Some host unfolding route by (subst run_line.simps) simp
      next
        case (Some z)
        obtain result line1 reply w1 where z: "z = ((result, line1, reply), w1)" by (metis prod_cases3 surj_pair)
        show ?thesis
        proof (cases "result = WAHE_HOST_CMD_NOT_HANDLED")
          case True
          with unhandled_command [of S cmd m line ret w line1 reply w1] Some z
          have same: "line1 = line" "reply = ret" "w1 = w" by simp_all
          show ?thesis
            using r(1) assms(1) \<open>r = Some reg\<close> host Some z True IH unfolding route
            by (subst run_line.simps) (simp add: same)
        next
          case False
          then have "result = WAHE_HOST_CMD_HANDLED \<or> result = WAHE_HOST_CMD_RETURN" by (cases result) auto
          then show ?thesis
            using r(1) assms(1) \<open>r = Some reg\<close> host Some z unfolding route
            by (subst run_line.simps) auto
        qed
      qed
    qed
  qed
qed

text \<open>
  C5. A line is offered to the registrations that serve it, from the newest to the oldest and each at
  most once, until one takes it: a host command that declines has changed nothing, and a
  registered module's answer is final. The search for a taker ends.
\<close>

theorem line_taken_by_newest:
  assumes "line_text line w = Some s" and "ordered (registry w)" and "no_zero_hash (registry w)" and "length s < 2 ^ 64"
  shows "run_line S m line ret before w =
    follow_route S m line ret
      (rev (List.filter (\<lambda>reg. reg_sequence reg < before \<and> serves s (module_id (modules w ! m)) reg) (cmd_reg (registry w)))) w"
  unfolding run_line_route [OF assms] fallback_route_all [OF assms(2-4)] ..

definition benchmark_world :: "unit world" where
  "benchmark_world = (command_world ''Benchmark'')\<lparr>registry := new_registration ''Benchmark'' False (Target_host Cmd_benchmark) empty_registry\<rparr>"

lemma benchmark_hash: "string_hash ''Benchmark'' \<noteq> 0"
  by code_simp

theorem line_taken_by_newest_witness:
  "run_line sample_services 0 0x8000 0 (2 ^ 64 - 1) benchmark_world = Some (Line_done 0x8000 0, benchmark_world)"
proof -
  have "ordered empty_registry" by (simp add: ordered_def empty_registry_def)
  then have wf: "ordered (registry benchmark_world)" by (simp add: benchmark_world_def ordered_new)
  have nz: "no_zero_hash (registry benchmark_world)"
    using benchmark_hash by (simp add: no_zero_hash_def benchmark_world_def new_registration_def empty_registry_def)
  have line: "line_text 0x8000 benchmark_world = Some ''Benchmark''"
    using command_line [of "''Benchmark''"] by (simp add: benchmark_world_def line_text_def)
  show ?thesis
    using line_taken_by_newest [OF line wf nz, of sample_services 0 0 "2 ^ 64 - 1"]
    by (simp add: benchmark_world_def new_registration_def empty_registry_def serves_def first_line_def hashed_words_def
      run_host_command_def wahe_hcmd_benchmark_def)
qed

section \<open>The turns of the processors\<close>

text \<open>Modules whose code leaves the chains as they are.\<close>

definition same_chains :: "'g world \<Rightarrow> 'g world \<Rightarrow> bool" where
  "same_chains w w' \<longleftrightarrow> chains w' = chains w \<and> cur_chain w' = cur_chain w \<and>
     map module_id (modules w') = map module_id (modules w)"

definition guest_runs_no_chain :: "'g env \<Rightarrow> bool" where
  "guest_runs_no_chain E \<longleftrightarrow> (\<forall>m r f a w out w'. guest_call E m r f a w = Some (out, w') \<longrightarrow> same_chains w w')"

lemma same_chains_refl [simp]: "same_chains w w"
  by (simp add: same_chains_def)

lemma same_chains_trans: "same_chains a b \<Longrightarrow> same_chains b c \<Longrightarrow> same_chains a c"
  by (simp add: same_chains_def)

lemma same_chains_module: "(\<And>x. module_id (f x) = module_id x) \<Longrightarrow> same_chains w (upd_module m f w)"
  by (auto simp: same_chains_def upd_module_def map_update) (metis list_update_id map_update)

lemma same_chains_refresh: "same_chains w (wahe_refresh_module_memory_size ctx w)" "same_chains (wahe_refresh_module_memory_size ctx w) w"
proof -
  show "same_chains w (wahe_refresh_module_memory_size ctx w)"
    by (auto simp: wahe_refresh_module_memory_size_def intro: same_chains_module split: option.split)
  then show "same_chains (wahe_refresh_module_memory_size ctx w) w" by (simp add: same_chains_def)
qed

lemma same_chains_host_mem: "same_chains w (w\<lparr>host_mem := h\<rparr>)"
  by (simp add: same_chains_def)

lemma call_native_chains:
  "guest_runs_no_chain E \<Longrightarrow> call_native E m r arg f w = Some (v, w') \<Longrightarrow> same_chains w w'"
  by (auto simp: call_native_def enter_native_def leave_native_def guest_runs_no_chain_def same_chains_def Let_def acquire_def release_def
      split: if_splits bind_splits)

lemma upd_module_ids: "(\<And>x. module_id (f x) = module_id x) \<Longrightarrow> map module_id (modules (upd_module m f w)) = map module_id (modules w)"
  using same_chains_module [of f w m] by (simp add: same_chains_def)

lemma wasmtime_chains:
  assumes "enter_wasmtime m r f w = Some w1" "same_chains w1 w2" "leave_wasmtime m r w w2 = Some w3"
  shows "same_chains w w3"
proof -
  have ids: "map module_id (modules (call_depth_change m r g x)) = map module_id (modules x)" for g and x :: "'a world"
    unfolding call_depth_change_def by (rule upd_module_ids) (simp add: upd_runner_def)
  have rest: "chains (call_depth_change m r g x) = chains x" "cur_chain (call_depth_change m r g x) = cur_chain x" for g and x :: "'a world"
    by (simp_all add: call_depth_change_def)
  show ?thesis
  proof (cases "cur_chain w")
    case None
    with assms show ?thesis
      by (auto simp: enter_wasmtime_def leave_wasmtime_def set_current_func_def same_chains_def acquire_def release_def Let_def ids rest)
  next
    case (Some c)
    with assms show ?thesis
      by (auto simp: enter_wasmtime_def leave_wasmtime_def set_current_func_def same_chains_def acquire_def release_def Let_def ids rest
          upd_chain_def split: if_splits)
  qed
qed

lemma call_wasmtime_chains:
  assumes "guest_runs_no_chain E" "call_wasmtime E m r arg f w = Some (v, w')"
  shows "same_chains w w'"
proof (cases "wahe_get_wasmtime_runner (Some m) r w")
  case (Some r')
  with assms(2) have "w' = w \<or> (\<exists>w1 out w2 w3. enter_wasmtime m r' f w = Some w1 \<and>
      guest_call E m r' f (map (wasmtime_val_set_address (modules w ! m)) arg) w1 = Some (out, w2) \<and>
      leave_wasmtime m r' w w2 = Some w3 \<and> w' = wahe_refresh_module_memory_size (Some m) w3)"
    by (auto simp: call_wasmtime_def Let_def split: if_splits bind_splits)
  then show ?thesis
  proof (elim disjE exE conjE)
    fix w1 out w2 w3
    assume e: "enter_wasmtime m r' f w = Some w1"
        "guest_call E m r' f (map (wasmtime_val_set_address (modules w ! m)) arg) w1 = Some (out, w2)"
        "leave_wasmtime m r' w w2 = Some w3" "w' = wahe_refresh_module_memory_size (Some m) w3"
    have "same_chains w1 w2" using assms(1) e(2) unfolding guest_runs_no_chain_def by blast
    then have "same_chains w w3" by (rule wasmtime_chains [OF e(1) _ e(3)])
    then show ?thesis unfolding e(4) by (rule same_chains_trans) (rule same_chains_refresh)
  qed simp
qed (use assms(2) in \<open>simp add: call_wasmtime_def Let_def\<close>)

lemma call_core_chains:
  assumes "guest_runs_no_chain E" "call_module_func_core_on_runner E ctx r arg f w = Some (v, w')"
  shows "same_chains w w'"
proof -
  have "w' = w \<or> (\<exists>m. call_native E m r arg f w = Some (v, w')) \<or>
      (\<exists>m w1. publish_timestamp E m w = Some w1 \<and> (w' = w1 \<or> call_wasmtime E m r arg f w1 = Some (v, w')))"
    using assms(2) by (auto simp: call_module_func_core_on_runner_def Let_def split: if_splits bind_splits option.splits)
  moreover have time: "same_chains w w1" if "publish_timestamp E m w = Some w1" for m w1
    using that by (auto simp: publish_timestamp_def same_chains_def Let_def split: if_splits bind_splits)
  ultimately show ?thesis
    by (auto dest: call_native_chains [OF assms(1)] call_wasmtime_chains [OF assms(1)] time intro: same_chains_trans)
qed

interpretation keeps_chains: call_relation "\<lambda>w w'. guest_runs_no_chain E \<longrightarrow> same_chains w w'" E for E
  by unfold_locales (auto intro: same_chains_trans call_core_chains same_chains_refresh same_chains_host_mem)

lemma run_processor_turn:
  assumes law: "guest_runs_no_chain E" and run: "run_processor E m message c d n w = Some (r, w')"
    and k: "current_cmd_proc_id (chains w ! c) = k" "k < n" "c < length (chains w)"
  shows "\<exists>i dst w1. module_at w d = Some i \<and>
    wahe_copy_message_between_modules E (Some m) message (Some i) w = Some (dst, w1) \<and> same_chains w w1 \<and>
    (if dst = 0 then r = 0 \<and> w' = w1
     else (\<exists>ret w2. call_module_func E i dst WAHE_FUNC_PROC_CMD False
               (upd_chain c (\<lambda>x. x\<lparr>current_cmd_proc_id := Suc k\<rparr>) w1) = Some (ret, w2) \<and>
             (ret = 0 \<longrightarrow> r = 0) \<and>
             (ret \<noteq> 0 \<longrightarrow> (\<exists>w4. wahe_copy_message_between_modules E (Some i) ret (Some m) w4 = Some (r, w')))) \<and>
          same_chains (upd_chain c (\<lambda>x. x\<lparr>current_cmd_proc_id := Suc k mod n\<rparr>) w) w')"
proof -
  note copy = keeps_chains.active_copy [rule_format, OF _ law]
  let ?up = "upd_chain c (\<lambda>x. x\<lparr>current_cmd_proc_id := current_cmd_proc_id x + 1\<rparr>)"
  obtain i dst w1 where i: "module_at w d = Some i"
      and c1: "wahe_copy_message_between_modules E (Some m) message (Some i) w = Some (dst, w1)"
      and rest: "if dst = 0 then r = 0 \<and> w' = w1 else (\<exists>ret w2 w3 w4. call_module_func E i dst WAHE_FUNC_PROC_CMD False (?up w1) = Some (ret, w2) \<and>
        call_module_free E (Some i) dst w2 = Some w3 \<and>
        w4 = (if current_cmd_proc_id (chains w3 ! c) = n then upd_chain c (\<lambda>x. x\<lparr>current_cmd_proc_id := 0\<rparr>) w3 else w3) \<and>
        (if ret = 0 then r = 0 \<and> w' = w4 else wahe_copy_message_between_modules E (Some i) ret (Some m) w4 = Some (r, w')))"
    using run unfolding run_processor_def Let_def by (auto split: bind_splits if_split_asm)
  have s1: "same_chains w w1" by (rule copy [OF c1])
  show ?thesis
  proof (cases "dst = 0")
    case True
    with rest i c1 s1 show ?thesis by auto
  next
    case False
    have "chains w1 = chains w" using s1 by (simp add: same_chains_def)
    then have up: "?up w1 = upd_chain c (\<lambda>x. x\<lparr>current_cmd_proc_id := Suc k\<rparr>) w1" using k by (simp add: upd_chain_def)
    from False rest obtain ret w2 w3 w4 where e: "call_module_func E i dst WAHE_FUNC_PROC_CMD False (?up w1) = Some (ret, w2)"
        "call_module_free E (Some i) dst w2 = Some w3"
        "w4 = (if current_cmd_proc_id (chains w3 ! c) = n then upd_chain c (\<lambda>x. x\<lparr>current_cmd_proc_id := 0\<rparr>) w3 else w3)"
      and tail: "if ret = 0 then r = 0 \<and> w' = w4 else wahe_copy_message_between_modules E (Some i) ret (Some m) w4 = Some (r, w')"
      by auto
    have "same_chains (?up w1) w3"
      by (rule same_chains_trans [OF keeps_chains.active_func [rule_format, OF e(1) law] keeps_chains.active_free [rule_format, OF e(2) law]])
    with s1 k have "chains w3 = (chains w)[c := (chains w ! c)\<lparr>current_cmd_proc_id := Suc k\<rparr>]" "cur_chain w3 = cur_chain w"
        "map module_id (modules w3) = map module_id (modules w)"
      by (simp_all add: same_chains_def upd_chain_def)
    with k have "same_chains (upd_chain c (\<lambda>x. x\<lparr>current_cmd_proc_id := Suc k mod n\<rparr>) w) w4"
      unfolding e(3) by (auto simp: same_chains_def upd_chain_def)
    moreover have "same_chains w4 w'" using tail copy by (auto split: if_splits)
    ultimately have turn: "same_chains (upd_chain c (\<lambda>x. x\<lparr>current_cmd_proc_id := Suc k mod n\<rparr>) w) w'"
      by (rule same_chains_trans)
    have answer: "(ret = 0 \<longrightarrow> r = 0) \<and>
        (ret \<noteq> 0 \<longrightarrow> (\<exists>w4. wahe_copy_message_between_modules E (Some i) ret (Some m) w4 = Some (r, w')))"
      using tail by (auto split: if_splits)
    show ?thesis
      by (rule exI [of _ i], rule exI [of _ dst], rule exI [of _ w1]) (use i c1 s1 False e(1) [unfolded up] answer turn in auto)
  qed
qed


text \<open>A module that answers a command of its own through its first processor.\<close>

definition turn_memory :: memory where
  "turn_memory q = (if q = 0x500 then Some 120 else if q = 0x501 \<or> in_block 0x1000 0x200 q then Some 0 else None)"

definition turn_world :: "unit world" where
  "turn_world = sample_world\<lparr>host_mem := turn_memory, modules := [translated_module],
     chains := [transfer_chain\<lparr>exec_order := [(exec_order transfer_chain ! 1)\<lparr>eo_module_id := module_id translated_module, cmd_proc_id := [0, 0]\<rparr>],
       current_eo := 0\<rparr>], cur_chain := Some 0\<rparr>"

lemma turn_text: "c_text turn_memory 0x500 = Some ''x''"
proof -
  have "mem_load turn_memory 0x500 (length (bytes_of_string ''x'' @ [0])) = Some (bytes_of_string ''x'' @ [0])"
    by (simp add: mem_load_def mapped_range_def turn_memory_def in_block_def bytes_of_string_def upt_rec)
  then show ?thesis by (rule c_text_load) simp
qed


definition turn_env :: "unit env" where
  "turn_env = (answering_env 16)\<lparr>guest_call := \<lambda>m r f a w. Some (if f = WAHE_FUNC_PROC_CMD then Returned 0 else Returned 16, w)\<rparr>"

lemmas turn_simps = turn_world_def turn_env_def translated_module_def sample_simps answering_env_def

lemma turn_copy: "\<exists>h. wahe_copy_message_between_modules turn_env (Some 0) 0x500 (Some 0) turn_world = Some (16, turn_world\<lparr>host_mem := h\<rparr>)"
proof -
  have measure: "wahe_measure_transfer_message (Some 0) 0x500 turn_world = Some (Some 1, turn_world)"
    by (simp add: wahe_measure_transfer_message_def turn_text turn_simps wahe_refresh_module_memory_size_def
      wahe_get_module_memory_size_def upd_module_def Let_def)
  have load: "mem_load (host_mem turn_world) 0x500 1 = Some [120]"
    using c_text_bytes [OF turn_text] by (simp add: turn_world_def bytes_of_string_def)
  have find: "find_locations turn_env (Some 0) 0 (map char_of_byte [120]) 0 [] 0 (1 + 1) turn_world = (Some ([], 2), turn_world)"
    by (subst find_locations.simps) (simp add: next_descriptor_def strstr.simps)
  have malloc: "call_module_malloc_on_runner turn_env (Some 0) 0 (of_nat 16) turn_world = Some (16, turn_world)"
    by (simp add: call_module_malloc_on_runner_def call_module_func_core_on_runner_def wahe_wait_after_execution_failure_def
      wahe_require_valid_module_def call_native_def turn_simps native_args_def native_result_def enter_native_def leave_native_def Let_def)
  have block: "destination_block 0 16 16 turn_world = (Some 0x1010, turn_world)"
    by (simp add: turn_simps destination_block_def wahe_refresh_module_memory_size_def upd_module_def wahe_get_module_memory_size_def Let_def)
  have valid: "wahe_require_valid_module (Some 0) turn_world = Some ()" "wahe_active_runner_id (Some 0) turn_world = 0"
    by (simp_all add: turn_simps wahe_require_valid_module_def wahe_wait_after_execution_failure_def
      wahe_active_runner_id_def wahe_active_native_runner_id_def)
  have "\<exists>h. memcpy turn_memory 0x1010 0x500 2 = Some h"
    by (simp add: memcpy_def mem_load_def mapped_range_def turn_memory_def in_block_def upt_rec mem_store_def)
  then have fill: "\<exists>h. fill_message 1 2 0x1010 0x500 [] (host_mem turn_world) = Some (True, h)"
    by (auto simp: fill_message_def turn_world_def size_sub_def numeral_2_eq_2)
  show ?thesis
    using fill measure load find malloc block valid
    by (auto simp: wahe_copy_message_between_modules_def wahe_copy_message_between_modules_on_runner_def wahe_align_transfer_size_def)
qed


definition turn_services :: "unit services" where
  "turn_services = sample_services\<lparr>calls := turn_env\<rparr>"


end
