(* ===== verification/Native_Translation.thy ===== *)
theory Native_Translation
  imports Module_Memory Wasm_Binary Text_Util
begin

text \<open>
  The choice between the WebAssembly runtime and a native translation of a module (\<open>wahe_wasm2native.c\<close>, built with the
  translator, and with a runtime or without). The translator's library, its builds and the environment variable are parameters.
\<close>

section \<open>Settings\<close>

definition wahe_wasm2native_mode_name :: "string list" where
  "wahe_wasm2native_mode_name = [''off'', ''cached'', ''auto'', ''always'']"

definition translation_modes :: "wahe_wasm2native_mode list" where
  "translation_modes = [WAHE_WASM2NATIVE_OFF, WAHE_WASM2NATIVE_CACHED, WAHE_WASM2NATIVE_AUTO, WAHE_WASM2NATIVE_ALWAYS]"

definition wahe_wasm2native_parse_mode :: "string option \<Rightarrow> wahe_wasm2native_mode option" where
  "wahe_wasm2native_parse_mode name =
     (case name of None \<Rightarrow> None | Some s \<Rightarrow> map_of (zip wahe_wasm2native_mode_name translation_modes) s)"

definition upd_translation :: "(wahe_wasm2native_t \<Rightarrow> wahe_wasm2native_t) \<Rightarrow> 'g world \<Rightarrow> 'g world" where
  "upd_translation f w = w\<lparr>translation := f (translation w)\<rparr>"

definition wahe_wasm2native_set_mode ::
    "wahe_wasm2native_mode \<Rightarrow> string option \<Rightarrow> string option \<Rightarrow> 'g world \<Rightarrow> 'g world" where
  "wahe_wasm2native_set_mode md dir path =
     upd_translation (\<lambda>t. t\<lparr>mode_set := True, native_mode := md, cache_dir := make_string_copy dir, lib_path := make_string_copy path\<rparr>)"

text \<open>The host's choice, else the environment variable, else automatic.\<close>

definition wahe_wasm2native_mode :: "'g services \<Rightarrow> 'g world \<Rightarrow> wahe_wasm2native_mode \<times> 'g world" where
  "wahe_wasm2native_mode S w =
     (if mode_set (translation w) then (native_mode (translation w), w)
      else (let env = translation_variable S w;
                md = (case wahe_wasm2native_parse_mode env of Some x \<Rightarrow> x | None \<Rightarrow> WAHE_WASM2NATIVE_AUTO)
            in (md, upd_translation (\<lambda>t. t\<lparr>mode_set := True, native_mode := md\<rparr>) w)))"

section \<open>The library\<close>

definition wahe_wasm2native_load :: "'g services \<Rightarrow> 'g world \<Rightarrow> bool \<times> 'g world" where
  "wahe_wasm2native_load S w =
     (if load_attempted (translation w) then (lib_loaded (translation w), w)
      else (let w1 = upd_translation (\<lambda>t. t\<lparr>load_attempted := True\<rparr>) w;
                path = (case lib_path (translation w) of Some p \<Rightarrow> p | None \<Rightarrow> ''wasm2native.dll'')
            in (case translator_open S path w1 of
                  (opened, w2) \<Rightarrow>
                    let loaded = (opened \<and> translator_symbol S ''wasm2native_compile_file'' w2 \<and>
                          translator_symbol S ''wasm2native_free'' w2)
                    in (loaded, upd_translation (\<lambda>t. t\<lparr>lib_loaded := loaded\<rparr>) w2))))"

definition wahe_wasm2native_compile ::
    "'g services \<Rightarrow> string \<Rightarrow> wahe_wasm2native_options_t \<Rightarrow> 'g world \<Rightarrow> (string option \<times> 'g world) option" where
  "wahe_wasm2native_compile S path options w =
     do {
       (dll_path, w1) \<leftarrow> compile_file S path options w;
       Some (make_string_copy dll_path, w1)
     }"

text \<open>The thread builds a copy of the job that may fill the cache; whether it could be started is only reported.\<close>

definition wahe_wasm2native_build_in_background ::
    "'g services \<Rightarrow> string \<Rightarrow> wahe_wasm2native_options_t \<Rightarrow> 'g world \<Rightarrow> 'g world" where
  "wahe_wasm2native_build_in_background S path options w =
     snd (build_thread S path (options\<lparr>opt_cache_only := False\<rparr>) w)"

definition wahe_wasm_file_is_memory64 :: "'g services \<Rightarrow> string \<Rightarrow> 'g world \<Rightarrow> bool option" where
  "wahe_wasm_file_is_memory64 S path w =
     (case raw_file S path w of
        None \<Rightarrow> Some False
      | Some bs \<Rightarrow>
          do {
            (memory_found, info, _) \<leftarrow> wasmbin_read_memory_info (buf_load_raw_file (Some bs)) (Some empty_memory_info);
            Some (memory_found \<and> (case info of Some i \<Rightarrow> memory64 i | None \<Rightarrow> False))
          })"

section \<open>The choice\<close>

text \<open>The cache directory of the settings, or the default one, which is made once.\<close>

definition job_cache_dir :: "'g services \<Rightarrow> 'g world \<Rightarrow> string option \<times> 'g world" where
  "job_cache_dir S w =
     (case cache_dir (translation w) of
        Some dir \<Rightarrow> (Some dir, w)
      | None \<Rightarrow>
          (case default_cache_dir (translation w) of
             Some dir \<Rightarrow> (Some dir, w)
           | None \<Rightarrow>
               (case make_appdata_path (make_dir S) w ''WAHE'' (Some ''native_cache'') True of
                  (w1, dir) \<Rightarrow> (Some dir, upd_translation (\<lambda>t. t\<lparr>default_cache_dir := Some dir\<rparr>) w1))))"

text \<open>
  Looking for a translation, building it when waiting for it is required, else in the background.
\<close>

definition find_translation ::
    "'g services \<Rightarrow> string \<Rightarrow> wahe_wasm2native_mode \<Rightarrow> 'g world \<Rightarrow> (string option \<times> 'g world) option" where
  "find_translation S path md w =
     (case job_cache_dir S w of
        (dir, w1) \<Rightarrow>
          let options = \<lparr>opt_cache_dir = dir, opt_cache_only = True\<rparr> in
          do {
            (cached, w2) \<leftarrow> wahe_wasm2native_compile S path options w1;
            (dll_path, w3) \<leftarrow>
              (if cached = None \<and> md = WAHE_WASM2NATIVE_ALWAYS
               then wahe_wasm2native_compile S path (options\<lparr>opt_cache_only := False\<rparr>) w2 else Some (cached, w2));
            Some (dll_path,
              if dll_path = None \<and> md = WAHE_WASM2NATIVE_AUTO
              then wahe_wasm2native_build_in_background S path options w3 else w3)
          })"

text \<open>The first argument tells whether the host is built with a WebAssembly runtime; without one it translates and waits for the build.\<close>

definition wahe_wasm2native_resolve ::
    "bool \<Rightarrow> 'g services \<Rightarrow> string \<Rightarrow> wahe_module_backend \<Rightarrow> 'g world \<Rightarrow> (string option \<times> 'g world) option" where
  "wahe_wasm2native_resolve has_runtime S path backend w =
     (if backend = WAHE_BACKEND_SANDBOXED then Some (None, w)
      else (case wahe_wasm2native_mode S w of
              (chosen, w1) \<Rightarrow>
                let md = (if backend = WAHE_BACKEND_NATIVE \<or> \<not> has_runtime \<and> chosen \<noteq> WAHE_WASM2NATIVE_OFF
                          then WAHE_WASM2NATIVE_ALWAYS else chosen) in
                if md = WAHE_WASM2NATIVE_OFF then Some (None, w1)
                else do {
                  stays \<leftarrow> (if backend \<noteq> WAHE_BACKEND_NATIVE \<and> has_runtime then wahe_wasm_file_is_memory64 S path w1 else Some False);
                  (if stays then Some (None, w1)
                   else (case wahe_wasm2native_load S w1 of
                           (loaded, w2) \<Rightarrow> if loaded then find_translation S path md w2 else Some (None, w2)))
                }))"

section \<open>The choice is respected\<close>

lemma mode_choice:
  assumes "wahe_wasm2native_mode S w = (md, w')"
  shows "native_mode (translation w') = md"
  using assms by (auto simp: wahe_wasm2native_mode_def upd_translation_def Let_def split: if_splits)



end
