(* ===== verification/Module_Init.thy ===== *)
theory Module_Init
  imports Native_Translation Threads Command_Registry C_Scanf
begin

text \<open>
  Loading a module (\<open>wahe_module_init_internal\<close> of \<open>wahe_core.c\<close>): the choice of the backend, the runtime's or the library's
  objects, the memory, the runners and the first messages. A module that is not valid at the end stops the
  process, which is no result here.
\<close>

section \<open>Wasm modules\<close>

definition blank_module :: "nat \<Rightarrow> string \<Rightarrow> nat \<Rightarrow> wahe_module_t" where
  "blank_module m name count =
     (let n = (if count = 0 then 1 else count) in
      zero_module\<lparr>mod_name := name, module_id := int m, runner_count := n, initial_runner_count := n, next_thread_id := 1\<rparr>)"

text \<open>The linked stack pointer, then the memory limits with whether all data segments are passive.\<close>

definition read_wasm_image :: "byte list \<Rightarrow> (u64 \<times> (wasmbin_memory_info_t \<times> bool) option) option" where
  "read_wasm_image bs =
     do {
       (sp, s1) \<leftarrow> wasmbin_read_stack_pointer (buf_load_raw_file (Some bs));
       (memory_found, info, s2) \<leftarrow> wasmbin_read_memory_info s1 (Some empty_memory_info);
       (if \<not> memory_found then Some (sp, None)
        else do {
          i \<leftarrow> info;
          (passive_data_only, s3) \<leftarrow> wasmbin_has_only_passive_data s2;
          Some (sp, Some (i, passive_data_only))
        })
     }"

definition set_invalid :: "nat \<Rightarrow> 'g world \<Rightarrow> 'g world" where
  "set_invalid m = upd_module m (\<lambda>x. x\<lparr>valid := False\<rparr>)"

fun create_runners :: "'g services \<Rightarrow> nat \<Rightarrow> nat list \<Rightarrow> 'g world \<Rightarrow> (bool \<times> 'g world) option" where
  "create_runners S m [] w = Some (True, w)"
| "create_runners S m (r # rs) w =
     (if \<not> host_alloc_ok S 1 then Some (False, w)
      else do {
        (ok, w1) \<leftarrow> wahe_init_wasmtime_runner S m r (upd_module m (\<lambda>x. x\<lparr>runner := (runner x)[r := Some (zero_runner)]\<rparr>) w);
        (if ok then create_runners S m rs w1 else Some (False, w1))
      })"

text \<open>The thread-local storage of the additional runners; a runner without it keeps going.\<close>

fun create_runners_tls :: "'g services \<Rightarrow> nat \<Rightarrow> nat list \<Rightarrow> 'g world \<Rightarrow> (bool \<times> 'g world) option" where
  "create_runners_tls S m [] w = Some (True, w)"
| "create_runners_tls S m (r # rs) w =
     (if linker_get S m r ''__tls_size'' w = None then create_runners_tls S m rs w
      else do {
        (ok, w1) \<leftarrow> wahe_init_thread_tls S m r w;
        (if ok then create_runners_tls S m rs w1 else Some (False, set_invalid m w1))
      })"

text \<open>Everything after the memory was allocated.\<close>

definition start_wasm_module :: "'g services \<Rightarrow> nat \<Rightarrow> 'g world \<Rightarrow> (bool \<times> 'g world) option" where
  "start_wasm_module S m w =
     (let n = runner_count (modules w ! m) in
      if \<not> host_alloc_ok S n then Some (False, w)
      else do {
        (ok, w1) \<leftarrow> create_runners S m [0..<n] (upd_module m (\<lambda>x. x\<lparr>runner := replicate n None\<rparr>) w);
        (if \<not> ok then Some (False, w1)
         else do {
           w2 \<leftarrow> wahe_init_all_module_symbols S m w1;
           (ok, w3) \<leftarrow> wahe_init_module_memory S (Some m) (upd_module m (\<lambda>x. x\<lparr>valid := True\<rparr>) w2);
           (if \<not> ok then Some (False, set_invalid m w3)
            else create_runners_tls S m [1..<initial_runner_count (modules w3 ! m)] w3)
         })
      })"

definition init_wasm_module :: "'g services \<Rightarrow> nat \<Rightarrow> string \<Rightarrow> 'g world \<Rightarrow> (bool \<times> 'g world) option" where
  "init_wasm_module S m path w =
     (case raw_file S path w of
        None \<Rightarrow> Some (False, w)
      | Some bs \<Rightarrow>
          do {
            (sp, found) \<leftarrow> read_wasm_image bs;
            let w1 = upd_module m (\<lambda>x. x\<lparr>stack_base := sp\<rparr>) w;
            (case found of
               None \<Rightarrow> Some (False, w1)
             | Some (info, passive_data_only) \<Rightarrow>
                 (let bits = (if memory64 info then 64 else 32);
                      safe = (imported info \<and> shared info \<and> maximum_present info \<and> passive_data_only);
                      w2 = upd_module m (\<lambda>x. x\<lparr>page_count_initial := unat (base_pages info), page_count_max := unat (max_pages info),
                        memory_is_shared := shared info, memory_bits := bits, mtype := WAHE_MODULE_WASMTIME,
                        thread_memory_safe := safe, address_bits := bits\<rparr>) w1
                  in if 1 < runner_count (modules w2 ! m) \<and> \<not> safe then Some (False, w2)
                     else if imported info \<and> \<not> shared info then Some (False, w2)
                     else do {
                       (ok, w3) \<leftarrow> run_runtime_steps S m 0
                           ([Engine_new, Module_new] @ (if shared info then [Memorytype_new, Sharedmemory_new] else [])) w2;
                       (if \<not> ok then Some (False, w3)
                        else start_wasm_module S m (if shared info then upd_module m (\<lambda>x. x\<lparr>shared_memory := True\<rparr>) w3 else w3))
                     }))
          })"

section \<open>Native modules\<close>

definition init_native_module :: "'g services \<Rightarrow> nat \<Rightarrow> string \<Rightarrow> 'g world \<Rightarrow> (bool \<times> 'g world) option" where
  "init_native_module S m path w =
     do {
       (opened, w1) \<leftarrow> dynlib_open S m path w;
       (if \<not> opened then Some (False, w1)
        else if runner_count (modules w1 ! m) \<noteq> 1 \<and> dynlib_find_symbol S m ''wasm_decomp_instance_create'' w1 = 0 then Some (False, w1)
        else do {
          w2 \<leftarrow> wahe_init_all_module_symbols S m (upd_module m (\<lambda>x. x\<lparr>mtype := WAHE_MODULE_NATIVE, valid := True\<rparr>) w1);
          (if \<not> valid (modules w2 ! m) then Some (False, w2)
           else do {
             (ok, w3) \<leftarrow> (if mtype (modules w2 ! m) = WAHE_MODULE_WASM_TO_NATIVE then wahe_init_translated_runners S m w2 else Some (True, w2));
             (if \<not> ok then Some (False, set_invalid m w3)
              else do {
                (ok, w4) \<leftarrow> wahe_init_module_memory S (Some m) w3;
                Some (ok, if ok then w4 else set_invalid m w4)
              })
           })
        })
     }"

section \<open>First messages\<close>

text \<open>Whether the text at an address starts with the given characters; the comparison stops at the first difference.\<close>

fun starts_with :: "memory \<Rightarrow> u64 \<Rightarrow> string \<Rightarrow> bool option" where
  "starts_with h p [] = Some True"
| "starts_with h p (c # cs) =
     do { b \<leftarrow> h p; (if char_of_byte b = c then starts_with h (p + 1) cs else Some False) }"

definition find_cita_time :: "nat \<Rightarrow> 'g world \<Rightarrow> 'g world option" where
  "find_cita_time m w =
     (let x = modules w ! m; p = memory_ptr x + heap_base x in
      if heap_base x = 0 then Some w
      else do {
        magic \<leftarrow> mem_load (host_mem w) p 4;
        (if magic \<noteq> bytes_of_string ''CITA'' then Some w
         else do {
           version_pos \<leftarrow> load_u32 (host_mem w) (p + 4);
           known \<leftarrow> starts_with (host_mem w) (p + scast version_pos) ''CITA 1.0\<newline>Address 4'';
           Some (if known then upd_module m (\<lambda>x. x\<lparr>cita_time_addr := heap_base x + 12\<rparr>) w else w)
         })
      })"

definition context_message :: "'g services \<Rightarrow> nat \<Rightarrow> string" where
  "context_message S m = ''module_ctx = '' @ print_zx (module_address S m) @ ''\<newline>wahe_run_command_with_id() = '' @ print_zx (callback_address S)"

definition greet_module :: "'g services \<Rightarrow> nat \<Rightarrow> 'g world \<Rightarrow> 'g world option" where
  "greet_module S m w =
     do {
       (ok, w1) \<leftarrow> wahe_blank_module_stack (Some m) w;
       (if \<not> ok then Some (set_invalid m w1)
        else do {
          w2 \<leftarrow> (if mtype (modules w1 ! m) = WAHE_MODULE_NATIVE
                  then map_option snd (wahe_send_input (calls S) m (context_message S m) w1) else Some w1);
          (cmd_reg_msg, w3) \<leftarrow> wahe_send_input (calls S) m ''Command registration'' w2;
          w4 \<leftarrow> (if cmd_reg_msg = 0 then Some w3
                  else do {
                    commands \<leftarrow> c_text (host_mem w3) cmd_reg_msg;
                    g \<leftarrow> wahe_register_commands (module_id (modules w3 ! m)) commands (registry w3);
                    Some (w3\<lparr>registry := g\<rparr>)
                  });
          find_cita_time m w4
        })
     }"

section \<open>Initialisation\<close>

definition wahe_module_init_internal ::
    "'g services \<Rightarrow> nat \<Rightarrow> string \<Rightarrow> nat \<Rightarrow> wahe_module_backend \<Rightarrow> 'g world \<Rightarrow> 'g world option" where
  "wahe_module_init_internal S m path count backend w =
     do {
       filename \<leftarrow> get_filename_from_path (Some path);
       name \<leftarrow> filename;
       let w1 = upd_module m (\<lambda>_. blank_module m name count) w;
       (translated, w2) \<leftarrow> (if check_if_file_is_wasm (raw_file S path w1) then wahe_wasm2native_resolve True S path backend w1 else Some (None, w1));
       let w3 = upd_module m (\<lambda>x. x\<lparr>native_translation_path := translated\<rparr>) w2;
       (continue, w4) \<leftarrow>
         (case translated of
            Some dll \<Rightarrow> init_native_module S m dll w3
          | None \<Rightarrow> if check_if_file_is_wasm (raw_file S path w3) then init_wasm_module S m path w3 else init_native_module S m path w3);
       (if continue then greet_module S m w4 else Some w4)
     }"

text \<open>A module that is not valid afterwards ends the process.\<close>

definition wahe_module_init_with_backend ::
    "'g services \<Rightarrow> nat \<Rightarrow> string \<Rightarrow> nat \<Rightarrow> wahe_module_backend \<Rightarrow> 'g world \<Rightarrow> 'g world option" where
  "wahe_module_init_with_backend S m path count backend w =
     do {
       wahe_wait_after_execution_failure w;
       w1 \<leftarrow> wahe_module_init_internal S m path count backend w;
       (if valid (modules w1 ! m) then Some w1 else None)
     }"

definition wahe_module_init :: "'g services \<Rightarrow> nat \<Rightarrow> string \<Rightarrow> nat \<Rightarrow> 'g world \<Rightarrow> 'g world option" where
  "wahe_module_init S m path count w = wahe_module_init_with_backend S m path count WAHE_BACKEND_DEFAULT w"

end
