(* ===== verification/Group_Parser.thy ===== *)
theory Group_Parser
  imports Module_Init Host_Commands
begin

text \<open>
  The group file (\<open>wahe_parser.c\<close>): symbol tables, the statements of a line (modules, messages, chains,
  orders, connections, command processors), the lines of a file, the index of the group's memories and the start of its modules.
\<close>

section \<open>Symbols\<close>

type_synonym wahe_symbol_table_t = "(u64 \<times> string) list"

definition wahe_add_symbol_to_table :: "wahe_symbol_table_t \<Rightarrow> string \<Rightarrow> (nat \<times> wahe_symbol_table_t) option" where
  "wahe_add_symbol_to_table table name =
     do { hash \<leftarrow> get_string_hash name; Some (length table, table @ [(hash, name)]) }"

fun find_symbol_from :: "u64 \<Rightarrow> string \<Rightarrow> wahe_symbol_table_t \<Rightarrow> int \<Rightarrow> int" where
  "find_symbol_from hash name [] is = - 1"
| "find_symbol_from hash name ((h, s) # table) is =
     (if hash = h \<and> name = s then is else find_symbol_from hash name table (is + 1))"

definition wahe_find_symbol_in_table :: "wahe_symbol_table_t \<Rightarrow> string \<Rightarrow> int option" where
  "wahe_find_symbol_in_table table name = do { hash \<leftarrow> get_string_hash name; Some (find_symbol_from hash name table 0) }"

section \<open>Module slots\<close>

definition WAHE_MODULE_RESERVE_COUNT :: nat where "WAHE_MODULE_RESERVE_COUNT = 4096"

definition wahe_alloc_stable_module_slots :: "'g services \<Rightarrow> nat \<Rightarrow> 'g world \<Rightarrow> bool \<times> 'g world" where
  "wahe_alloc_stable_module_slots S needed_count w =
     (let new_alloc_count = min (needed_count + needed_count div 2 + 1) WAHE_MODULE_RESERVE_COUNT in
      if WAHE_MODULE_RESERVE_COUNT < needed_count then (False, w)
      else if module_array w = 0
      then (case with_vm (wahe_virtual_memory_alloc (vm S) (new_alloc_count * module_struct_size S) (WAHE_MODULE_RESERVE_COUNT * module_struct_size S)) w of
              (a, w1) \<Rightarrow> if a = 0 then (False, w1) else (True, w1\<lparr>module_array := a, module_as := new_alloc_count\<rparr>))
      else if module_as w < needed_count
      then (case with_vm (wahe_virtual_memory_commit (vm S) (module_array w) (new_alloc_count * module_struct_size S)) w of
              (ok, w1) \<Rightarrow> if \<not> ok then (False, w1) else (True, w1\<lparr>module_as := new_alloc_count\<rparr>))
      else (True, w))"

section \<open>Module lines\<close>

text \<open>What the parser keeps between lines: the host, the tables, the chain that is being described and the log.\<close>

record 'g parse =
  group :: "'g world"
  symb_module :: wahe_symbol_table_t
  symb_order :: wahe_symbol_table_t
  chain_ix :: nat
  err_log :: string

datatype line_flow = Same_line | Next_line | Stop_file

definition log_error :: "string \<Rightarrow> int \<Rightarrow> string \<Rightarrow> 'g parse \<Rightarrow> 'g parse" where
  "log_error filepath il what p =
     p\<lparr>err_log := err_log p @ ''WAHE file parsing error. In file '' @ filepath @ '' line '' @ print_zu (nat il) @ '': '' @ what @ ''.\<newline>''\<rparr>"

definition quoted :: "string \<Rightarrow> string" where
  "quoted s = ''\"'' @ s @ ''\"''"

definition is_blank :: "char \<Rightarrow> bool" where
  "is_blank c \<longleftrightarrow> c = CHR '' '' \<or> c = CHR 0x09"

definition option_ends :: "string \<Rightarrow> bool" where
  "option_ends s \<longleftrightarrow> s = [] \<or> hd s = CHR '','' \<or> is_blank (hd s) \<or> hd s = CHR 0x0D"

lemma next_option_shorter: "opt2 = dropWhile Q (tl opt1) \<Longrightarrow> opt1 = dropWhile P opt \<Longrightarrow> opt1 \<noteq> [] \<Longrightarrow> length opt2 < length opt"
proof -
  assume a: "opt2 = dropWhile Q (tl opt1)" "opt1 = dropWhile P opt" "opt1 \<noteq> []"
  then have "length opt2 \<le> length opt1 - 1" using length_dropWhile_le [of Q "tl opt1"] by simp
  moreover have "length opt1 \<le> length opt" "0 < length opt1" using a length_dropWhile_le [of P opt] by simp_all
  ultimately show ?thesis by linarith
qed

text \<open>The options of a module, each after a comma: nothing when they are invalid.\<close>

function module_options :: "string \<Rightarrow> nat \<Rightarrow> wahe_module_backend \<Rightarrow> (nat \<times> wahe_module_backend) option option" where
  "module_options opt count backend =
     (let opt1 = dropWhile (\<lambda>c. is_blank c \<or> c = CHR 0x0D) opt in
      if opt1 = [] then Some (Some (count, backend))
      else if hd opt1 \<noteq> CHR '','' then Some None
      else (let opt2 = dropWhile is_blank (tl opt1) in
            if take 7 opt2 = ''runners'' \<and> 7 < length opt2 \<and> is_blank (opt2 ! 7)
            then (let number = dropWhile is_blank (drop 7 opt2) in
                  if number = [] \<or> \<not> is_digit_in 10 (hd number) then Some None
                  else (case sscanf number ''%zu%n'' of
                          None \<Rightarrow> None
                        | Some vs \<Rightarrow>
                            (let rest = drop (position_var vs 1) number in
                             if unat (size_var vs 0) = 0 \<or> \<not> option_ends rest then Some None
                             else module_options rest (unat (size_var vs 0)) backend)))
            else if take 6 opt2 = ''native'' \<and> backend = WAHE_BACKEND_DEFAULT
            then (if option_ends (drop 6 opt2) then module_options (drop 6 opt2) count WAHE_BACKEND_NATIVE else Some None)
            else if take 9 opt2 = ''sandboxed'' \<and> backend = WAHE_BACKEND_DEFAULT
            then (if option_ends (drop 9 opt2) then module_options (drop 9 opt2) count WAHE_BACKEND_SANDBOXED else Some None)
            else Some None))"
  by pat_completeness auto
termination
proof (relation "measure (\<lambda>(opt, count, backend). length opt)", goal_cases)
  case (2 opt count backend opt1 opt2 number vs rest)
  then have "length opt2 < length opt" using next_option_shorter by blast
  then show ?case using 2 length_dropWhile_le [of is_blank "drop 7 opt2"] by simp
next
  case (3 opt count backend opt1 opt2)
  then have "length opt2 < length opt" using next_option_shorter by blast
  then show ?case by simp
next
  case (4 opt count backend opt1 opt2)
  then have "length opt2 < length opt" using next_option_shorter by blast
  then show ?case by simp
qed simp

declare module_options.simps [simp del]

definition check_file_is_readable :: "'g services \<Rightarrow> string \<Rightarrow> 'g world \<Rightarrow> bool \<times> 'g world" where
  "check_file_is_readable S path w =
     (case file_open S path ''rb'' w of (None, w1) \<Rightarrow> (False, w1) | (Some f, w1) \<Rightarrow> (True, file_close S f w1))"

text \<open>A slot for a new module: its index, or nothing when there is no room.\<close>

definition add_module_slot :: "'g services \<Rightarrow> nat \<Rightarrow> 'g world \<Rightarrow> bool \<times> 'g world" where
  "add_module_slot S i w =
     (case wahe_alloc_stable_module_slots S (i + 1) w of
        (ok, w1) \<Rightarrow>
          if ok then (True, w1\<lparr>modules := take (i + 1) (modules w1 @ replicate (i + 1 - length (modules w1)) zero_module)\<rparr>) else (False, w1))"

definition load_module ::
    "'g services \<Rightarrow> string option \<Rightarrow> nat \<Rightarrow> string \<Rightarrow> nat \<Rightarrow> wahe_module_backend \<Rightarrow> 'g world \<Rightarrow> 'g world option" where
  "load_module S dir_path i module_path count backend w =
     (case check_file_is_readable S module_path w of
        (readable, w1) \<Rightarrow>
          wahe_module_init_with_backend S i
            (if readable then module_path else append_name_to_path dir_path (Some module_path)) count backend w1)"

definition module_line :: "'g services \<Rightarrow> string \<Rightarrow> string option \<Rightarrow> int \<Rightarrow> string \<Rightarrow> 'g parse \<Rightarrow> (line_flow \<times> 'g parse) option" where
  "module_line S filepath dir_path il line p =
     do {
       vs \<leftarrow> sscanf line ''Module %n%*[^:]%n: \"%n%*[^\"]%n'';
       (let n3 = position_var vs 3;
            module_path = line_part line (position_var vs 2) n3;
            module_name = line_part line (position_var vs 0) (position_var vs 1)
        in if n3 = 0 then Some (Same_line, p)
           else if char_at line n3 \<noteq> Some CHR 0x22
           then Some (Next_line, log_error filepath il (''Module path is missing its closing quote in '' @ quoted line) p)
           else do {
             options \<leftarrow> module_options (drop (n3 + 1) line) 1 WAHE_BACKEND_DEFAULT;
             (case options of
                None \<Rightarrow> Some (Next_line, log_error filepath il (''Invalid module options in '' @ quoted line @
                   '', expected \", runners N\", \", native\" or \", sandboxed\"'') p)
              | Some (count, backend) \<Rightarrow>
                  do {
                    known \<leftarrow> wahe_find_symbol_in_table (symb_module p) module_name;
                    (i, table) \<leftarrow> wahe_add_symbol_to_table (symb_module p) module_name;
                    let p1 = (if known \<noteq> - 1 then log_error filepath il (''Module symbol name '' @ quoted module_name @ '' already taken'') p else p);
                    (case add_module_slot S i (group p1) of
                       (ok, w1) \<Rightarrow>
                         let p2 = p1\<lparr>group := w1, symb_module := table\<rparr> in
                         if \<not> ok
                         then Some (Stop_file, log_error filepath il (''Cannot allocate storage for module '' @ quoted module_name) p2)
                         else do {
                           w2 \<leftarrow> load_module S dir_path i module_path count backend w1;
                           Some (Same_line, p2\<lparr>group := upd_module i (\<lambda>x. x\<lparr>wahe_name := make_string_copy (Some module_name)\<rparr>) w2\<rparr>)
                         })
                  })
           })
     }"

section \<open>Messages for modules\<close>

definition send_format :: "string \<Rightarrow> (int \<times> nat \<times> nat \<times> nat) option" where
  "send_format line =
     do {
       vs \<leftarrow> sscanf line ''Send to %n%*[^:]%n: %n'';
       (if position_var vs 2 \<noteq> 0 then Some (0, position_var vs 0, position_var vs 1, position_var vs 2)
        else do {
          vs \<leftarrow> sscanf line ''Send %d lines to %n%*[^:]%n:%n'';
          Some (int_var vs 0, position_var vs 1, position_var vs 2, position_var vs 3)
        })
     }"

text \<open>The given number of lines after one, as many as there are; none leaves a null buffer, which cannot be printed.\<close>

definition following_lines :: "string list \<Rightarrow> int \<Rightarrow> int \<Rightarrow> string option" where
  "following_lines all_lines il n =
     (let ls = take (nat n) (drop (nat (il + 1)) all_lines) in
      if ls = [] then None else Some (concat (map (\<lambda>l. l @ ''\<newline>'') ls)))"

definition send_line ::
    "'g services \<Rightarrow> string \<Rightarrow> string list \<Rightarrow> int \<Rightarrow> string \<Rightarrow> 'g parse \<Rightarrow> ((line_flow \<times> int) \<times> 'g parse) option" where
  "send_line S filepath all_lines il line p =
     do {
       (send_lines, n0, n1, n2) \<leftarrow> send_format line;
       (let module_name = line_part line n0 n1 in
        if n2 = 0 then Some ((Same_line, il), p)
        else do {
          i \<leftarrow> wahe_find_symbol_in_table (symb_module p) module_name;
          (if i = - 1
           then Some ((Stop_file, il), log_error filepath il (''Module symbol name '' @ quoted module_name @ '' not previously defined'') p)
           else do {
             m \<leftarrow> module_at (group p) i;
             message \<leftarrow> (if send_lines = 0 then Some (drop n2 line) else following_lines all_lines il send_lines);
             (r, w) \<leftarrow> wahe_send_input (calls S) m message (group p);
             Some ((Same_line, il + send_lines), p\<lparr>group := w\<rparr>)
           })
        })
     }"

section \<open>Chains\<close>

definition zero_chain :: wahe_chain_t where
  "zero_chain = \<lparr>chain_name = None, has_group = False, connection = [], exec_order = [], exec_order_rest = [],
     current_eo = 0, current_cmd_proc_id = 0, current_func = WAHE_FUNC_NONE\<rparr>"

definition zero_order :: wahe_exec_order_t where
  "zero_order = \<lparr>eo_type = WAHE_EO_MODULE_FUNC, eo_module_id = 0, eo_func_id = WAHE_FUNC_NONE, eo_runner_id = 0,
     dst_msg_addr = 0, ret_msg_addr = 0, cmd_proc_id = []\<rparr>"

text \<open>The array of orders has room for the number, new entries being zero, and keeps what lies past it.\<close>

definition set_order_count :: "nat \<Rightarrow> wahe_chain_t \<Rightarrow> wahe_chain_t" where
  "set_order_count n x =
     (let slots = exec_order x @ exec_order_rest x;
          all_slots = slots @ replicate (n - length slots) zero_order
      in x\<lparr>exec_order := take n all_slots, exec_order_rest := drop n all_slots\<rparr>)"

definition upd_parsed_chain :: "(wahe_chain_t \<Rightarrow> wahe_chain_t) \<Rightarrow> 'g parse \<Rightarrow> 'g parse" where
  "upd_parsed_chain f p = p\<lparr>group := upd_chain (chain_ix p) f (group p)\<rparr>"

definition upd_parsed_order :: "nat \<Rightarrow> (wahe_exec_order_t \<Rightarrow> wahe_exec_order_t) \<Rightarrow> 'g parse \<Rightarrow> 'g parse" where
  "upd_parsed_order e f p = p\<lparr>group := upd_order (chain_ix p) e f (group p)\<rparr>"

definition parsed_order :: "nat \<Rightarrow> 'g parse \<Rightarrow> wahe_exec_order_t option" where
  "parsed_order e p = order_at (chain_ix p) (int e) (group p)"

definition chain_line :: "string \<Rightarrow> 'g parse \<Rightarrow> 'g parse option" where
  "chain_line line p =
     do {
       vs \<leftarrow> sscanf line ''Chain %n%*[^\<newline>]%n'';
       (let n0 = position_var vs 0; n1 = position_var vs 1; w = group p in
        if n1 = 0 then Some p
        else do {
          (i, table) \<leftarrow> wahe_add_symbol_to_table [] ''chain_input_msg'';
          Some (upd_parsed_order i (\<lambda>eo. eo\<lparr>eo_type := WAHE_EO_CHAIN_INPUT_MSG\<rparr>)
            (upd_parsed_chain (set_order_count (i + 1))
              (p\<lparr>group := w\<lparr>chains := chains w @ [zero_chain\<lparr>chain_name := Some (line_part line n0 n1), has_group := True\<rparr>],
                 cur_chain := Some 0\<rparr>,
               symb_order := table, chain_ix := length (chains w)\<rparr>)))
        })
     }"

section \<open>Orders\<close>

definition parsed_type :: "int \<Rightarrow> wahe_eo_type" where
  "parsed_type i = (if i = - 1 then WAHE_EO_UNKNOWN else eo_types ! nat i)"

text \<open>A name that is no function's gives an identifier outside the enumeration.\<close>

definition parsed_func :: "int \<Rightarrow> wahe_func_id" where
  "parsed_func i = (if i = - 1 then WAHE_FUNC_COUNT else func_ids ! nat i)"

definition order_attribute :: "string \<Rightarrow> int \<Rightarrow> nat \<Rightarrow> string \<Rightarrow> string \<Rightarrow> 'g parse \<Rightarrow> 'g parse option" where
  "order_attribute filepath il i attribute arg_name p =
     (if attribute = ''type''
      then (let t = find_string_in_string_array arg_name wahe_eo_name 2;
                p1 = upd_parsed_order i (\<lambda>eo. eo\<lparr>eo_type := parsed_type t\<rparr>) p
            in Some (if t = - 1 then log_error filepath il (''Order type attribute '' @ quoted arg_name @ '' not previously defined'') p1 else p1))
      else if attribute = ''module''
      then do {
        m \<leftarrow> wahe_find_symbol_in_table (symb_module p) arg_name;
        let p1 = upd_parsed_order i (\<lambda>eo. eo\<lparr>eo_module_id := m\<rparr>) p;
        Some (if m = - 1 then log_error filepath il (''Order module attribute '' @ quoted arg_name @ '' not previously defined'') p1 else p1)
      }
      else if attribute = ''func''
      then (let f = find_string_in_string_array arg_name wahe_func_name 10;
                p1 = upd_parsed_order i (\<lambda>eo. eo\<lparr>eo_func_id := parsed_func f\<rparr>) p
            in Some (if f = - 1 then log_error filepath il (''Order function attribute '' @ quoted arg_name @ '' not previously defined'') p1 else p1))
      else if attribute = ''runner''
      then do {
        vs \<leftarrow> sscanf arg_name ''%zu%n'';
        let runner_end = position_var vs 1;
        let p1 = (if vs = [] then p else upd_parsed_order i (\<lambda>eo. eo\<lparr>eo_runner_id := unat (size_var vs 0)\<rparr>) p);
        Some (if arg_name = [] \<or> \<not> is_digit_in 10 (hd arg_name) \<or> runner_end = 0 \<or> runner_end \<noteq> length arg_name
              then log_error filepath il (''Order runner attribute '' @ quoted arg_name @ '' is not a zero-indexed integer'') p1 else p1)
      }
      else Some p)"

partial_function (option) order_attributes :: "string \<Rightarrow> int \<Rightarrow> nat \<Rightarrow> string \<Rightarrow> 'g parse \<Rightarrow> 'g parse option" where
  "order_attributes filepath il i s p =
     do {
       vs \<leftarrow> sscanf s ''%15s %n%*[^,]%n, %n'';
       (let n1 = position_var vs 2; n2 = position_var vs 3 in
        if n1 = 0 then Some p
        else do {
          p1 \<leftarrow> order_attribute filepath il i (text_var vs 0) (line_part s (position_var vs 1) n1) p;
          (if n2 = 0 then Some p1 else order_attributes filepath il i (drop n2 s) p1)
        })
     }"

text \<open>The runner is checked when all attributes are known.\<close>

definition check_order_runner :: "string \<Rightarrow> int \<Rightarrow> nat \<Rightarrow> 'g parse \<Rightarrow> 'g parse option" where
  "check_order_runner filepath il i p =
     do {
       eo \<leftarrow> parsed_order i p;
       (let m = eo_module_id eo; ms = modules (group p) in
        if eo_type eo = WAHE_EO_MODULE_FUNC \<and> 0 \<le> m \<and> nat m < length ms \<and> runner_count (ms ! nat m) \<le> eo_runner_id eo
        then do {
          name \<leftarrow> wahe_name (ms ! nat m);
          Some (log_error filepath il (''Runner '' @ print_zu (eo_runner_id eo) @ '' is outside module '' @ name @ [CHR 0x27] @ ''s '' @
            print_zu (runner_count (ms ! nat m)) @ '' runners'') p)
        }
        else Some p)
     }"

definition order_line :: "string \<Rightarrow> int \<Rightarrow> string \<Rightarrow> 'g parse \<Rightarrow> 'g parse option" where
  "order_line filepath il line p =
     do {
       vs \<leftarrow> sscanf line ''Order %n%*[^:]%n: %n'';
       (let n2 = position_var vs 2; order_name = line_part line (position_var vs 0) (position_var vs 1) in
        if n2 = 0 then Some p
        else do {
          known \<leftarrow> wahe_find_symbol_in_table (symb_order p) order_name;
          (i, table) \<leftarrow> wahe_add_symbol_to_table (symb_order p) order_name;
          let p1 = (if known \<noteq> - 1 then log_error filepath il (''Order symbol name '' @ quoted order_name @ '' already taken'') p else p);
          p2 \<leftarrow> order_attributes filepath il i (drop n2 line) (upd_parsed_chain (set_order_count (i + 1)) (p1\<lparr>symb_order := table\<rparr>));
          check_order_runner filepath il i p2
        })
     }"

section \<open>Connections and command processors\<close>

definition connection_line :: "string \<Rightarrow> int \<Rightarrow> string \<Rightarrow> 'g parse \<Rightarrow> 'g parse option" where
  "connection_line filepath il line p =
     do {
       vs \<leftarrow> sscanf line ''Connection %n%*s%n - %n%*s%n'';
       (let n3 = position_var vs 3;
            src_name = line_part line (position_var vs 0) (position_var vs 1);
            dst_name = line_part line (position_var vs 2) n3
        in if n3 = 0 then Some p
           else do {
             src \<leftarrow> wahe_find_symbol_in_table (symb_order p) src_name;
             dst \<leftarrow> wahe_find_symbol_in_table (symb_order p) dst_name;
             let p1 = upd_parsed_chain (\<lambda>x. x\<lparr>connection := connection x @ [\<lparr>src_eo = src, dst_eo = dst\<rparr>]\<rparr>) p;
             let p2 = (if src = - 1 then log_error filepath il (''Connection source order '' @ quoted src_name @ '' not previously defined'') p1 else p1);
             Some (if dst = - 1 then log_error filepath il (''Connection destination order '' @ quoted dst_name @ '' not previously defined'') p2 else p2)
           })
     }"

definition processor_line :: "string \<Rightarrow> int \<Rightarrow> string \<Rightarrow> 'g parse \<Rightarrow> (line_flow \<times> 'g parse) option" where
  "processor_line filepath il line p =
     do {
       vs \<leftarrow> sscanf line ''Command processor in module %n%*s%n for order %n%*s%n'';
       (let n3 = position_var vs 3;
            proc_module_name = line_part line (position_var vs 0) (position_var vs 1);
            order_name = line_part line (position_var vs 2) n3
        in if n3 = 0 then Some (Same_line, p)
           else do {
             ie \<leftarrow> wahe_find_symbol_in_table (symb_order p) order_name;
             (if ie = - 1
              then Some (Stop_file, log_error filepath il (''Order symbol name '' @ quoted order_name @ '' not previously defined'') p)
              else do {
                eo \<leftarrow> parsed_order (nat ie) p;
                m \<leftarrow> wahe_find_symbol_in_table (symb_module p) proc_module_name;
                let p1 = upd_parsed_order (nat ie) (\<lambda>eo. eo\<lparr>cmd_proc_id := cmd_proc_id eo @ [m]\<rparr>) p;
                Some (if m = - 1
                      then (Stop_file, log_error filepath il (''Module symbol name '' @ quoted proc_module_name @ '' not previously defined'') p1)
                      else (Same_line, p1))
              })
           })
     }"

section \<open>Files\<close>

text \<open>One line through every statement: where the file goes on, or not.\<close>

definition parse_line ::
    "'g services \<Rightarrow> string \<Rightarrow> string option \<Rightarrow> string list \<Rightarrow> int \<Rightarrow> string \<Rightarrow> 'g parse \<Rightarrow> (int option \<times> 'g parse) option" where
  "parse_line S filepath dir_path all_lines il line p =
     do {
       (flow, p1) \<leftarrow> module_line S filepath dir_path il line p;
       (if flow = Next_line then Some (Some (il + 1), p1)
        else if flow = Stop_file then Some (None, p1)
        else do {
          ((flow, il1), p2) \<leftarrow> send_line S filepath all_lines il line p1;
          (if flow = Stop_file then Some (None, p2)
           else do {
             p3 \<leftarrow> chain_line line p2;
             p4 \<leftarrow> order_line filepath il1 line p3;
             p5 \<leftarrow> connection_line filepath il1 line p4;
             (flow, p6) \<leftarrow> processor_line filepath il1 line p5;
             Some (if flow = Stop_file then None else Some (il1 + 1), p6)
           })
        })
     }"

text \<open>A negative number of lines steps back in the file; before its beginning is undefined.\<close>

partial_function (option) parse_lines ::
    "'g services \<Rightarrow> string \<Rightarrow> string option \<Rightarrow> string list \<Rightarrow> int \<Rightarrow> 'g parse \<Rightarrow> 'g parse option" where
  "parse_lines S filepath dir_path all_lines il p =
     (if int (length all_lines) \<le> il then Some p
      else if il < 0 then None
      else do {
        (after, p1) \<leftarrow> parse_line S filepath dir_path all_lines il (all_lines ! nat il) p;
        (case after of None \<Rightarrow> Some p1 | Some il1 \<Rightarrow> parse_lines S filepath dir_path all_lines il1 p1)
      })"

fun module_symbols :: "wahe_module_t list \<Rightarrow> wahe_symbol_table_t \<Rightarrow> wahe_symbol_table_t option" where
  "module_symbols [] table = Some table"
| "module_symbols (x # xs) table =
     do { name \<leftarrow> wahe_name x; (i, table1) \<leftarrow> wahe_add_symbol_to_table table name; module_symbols xs table1 }"

definition file_lines :: "byte list option \<Rightarrow> string list option" where
  "file_lines file =
     do {
       (array, linecount, txt) \<leftarrow> arrayise_text (map_option (\<lambda>(bs, n). takeWhile (\<lambda>c. c \<noteq> CHR 0x00) (map char_of_byte bs)) (load_raw_file_dos_conv file));
       those (take linecount (case array of None \<Rightarrow> [] | Some a \<Rightarrow> array_strings a txt))
     }"

definition wahe_file_parse :: "'g services \<Rightarrow> string \<Rightarrow> string \<Rightarrow> 'g world \<Rightarrow> (string \<times> 'g world) option" where
  "wahe_file_parse S filepath err w =
     do {
       all_lines \<leftarrow> file_lines (raw_file S filepath w);
       g \<leftarrow> wahe_register_host_commands (registry w);
       table \<leftarrow> module_symbols (modules w) [];
       (dir_path, dir_buffer) \<leftarrow> remove_name_from_path None (Some filepath);
       let cs = (if chains w = [] then [zero_chain] else chains w);
       p \<leftarrow> parse_lines S filepath dir_path all_lines 0
              \<lparr>group = w\<lparr>registry := g, chains := cs[0 := (cs ! 0)\<lparr>has_group := True\<rparr>], cur_chain := Some 0\<rparr>,
               symb_module = table, symb_order = [], chain_ix = 0, err_log = err\<rparr>;
       Some (err_log p, group p)
     }"

section \<open>Starting the group\<close>

text \<open>The fields of a module in the index: addresses of its names, its memory and layout, and of its live values.\<close>

definition cita_entry :: "'g services \<Rightarrow> nat \<Rightarrow> wahe_module_t \<Rightarrow> u64 list" where
  "cita_entry S m x =
     [name_address S m, wahe_name_address S m, memory_ptr x, heap_base x, stack_base x, data_end x,
      if memory_size_addr x \<noteq> 0 then memory_size_addr x else memory_size_field S m, stack_ptr_addr x]"

fun write_entries :: "'g services \<Rightarrow> u64 \<Rightarrow> (nat \<times> wahe_module_t) list \<Rightarrow> memory \<Rightarrow> memory option" where
  "write_entries S p [] h = Some h"
| "write_entries S p ((m, x) # rest) h =
     (if memory_ptr x = 0 then write_entries S p rest h
      else do {
        h1 \<leftarrow> mem_store h p (concat (map (le_bytes 8) (cita_entry S m x)));
        write_entries S (p + 64) rest h1
      })"

definition cita_index_magic :: string where "cita_index_magic = ''WAHE CITA Index''"

definition wahe_group_create_cita_index :: "'g services \<Rightarrow> 'g world \<Rightarrow> 'g world option" where
  "wahe_group_create_cita_index S w =
     (let linear_memory_count = length (List.filter (\<lambda>x. memory_ptr x \<noteq> 0) (modules w));
          index_size = 32 + linear_memory_count * 64
      in if (SIZE_MAX - 32) div 64 < linear_memory_count then Some w
         else (let w1 = (if fst (cita_index w) = 0 then w
                         else snd (with_vm (wahe_virtual_memory_free (vm S) (fst (cita_index w)) (snd (cita_index w))) w))\<lparr>cita_index := (0, 0)\<rparr>
               in (case with_vm (wahe_virtual_memory_alloc (vm S) index_size index_size) w1 of
                     (index, w2) \<Rightarrow>
                       if index = 0 then Some w2
                       else do {
                         h1 \<leftarrow> mem_store (host_mem w2) index (replicate index_size 0);
                         h2 \<leftarrow> mem_store h1 index (bytes_of_string cita_index_magic @ [0]);
                         h3 \<leftarrow> mem_store h2 (index + 16) (le_bytes 8 (of_nat linear_memory_count));
                         h4 \<leftarrow> write_entries S (index + 32) (enumerate 0 (modules w2)) h3;
                         Some (w2\<lparr>host_mem := h4, cita_index := (index, index_size)\<rparr>)
                       })))"

partial_function (option) send_init :: "'g services \<Rightarrow> nat \<Rightarrow> 'g world \<Rightarrow> 'g world option" where
  "send_init S i w =
     (if i < length (modules w)
      then do { (r, w1) \<leftarrow> wahe_send_input (calls S) i ''Init'' w; send_init S (i + 1) w1 }
      else Some w)"

definition wahe_group_init :: "'g services \<Rightarrow> 'g world \<Rightarrow> 'g world option" where
  "wahe_group_init S w =
     (if list_ex (\<lambda>i. wahe_require_valid_module (Some i) w = None) [0..<length (modules w)] then None
      else do { w1 \<leftarrow> send_init S 0 w; wahe_group_create_cita_index S w1 })"

end
