(* ===== verification/Load_Relation.thy ===== *)
theory Load_Relation
  imports Group_Parser Call_Relation
begin

text \<open>
  What loading a module keeps: a relation kept by every call into a module, by every service and by a change of a module
  that does not lower its number of runners is kept by the whole initialisation of a module.
\<close>

section \<open>What loading a module keeps\<close>

text \<open>
  A relation that calls into modules keep, kept as well by every service and by a change of a module that does not
  lower its number of runners. It then holds between the world in which a module's slot was
  prepared and the one its initialisation leaves.
\<close>

locale load_relation = call_relation R "calls S"
  for R :: "'g world \<Rightarrow> 'g world \<Rightarrow> bool" and S :: "'g services" +
  assumes change: "(\<And>x. runner_count x \<le> runner_count (f x)) \<Longrightarrow> R w (upd_module m f w)"
    and passive_fields: "R w (w\<lparr>guest := g\<rparr>)" "R w (w\<lparr>registry := reg\<rparr>)" "R w (w\<lparr>translation := t\<rparr>)"
      "R w (w\<lparr>cur_native_module := cm\<rparr>)" "R w (w\<lparr>cur_native_runner_id := cr\<rparr>)" "R w (w\<lparr>locks := ls\<rparr>)"
      "R w (w\<lparr>module_array := a\<rparr>)" "R w (w\<lparr>module_as := n\<rparr>)"
    and service_call:
      "dynlib_open S m path w = Some (b, w1) \<Longrightarrow> R w w1"
      "instance_create S m w = Some (res, w2) \<Longrightarrow> R w w2"
      "instance_create_runner S m r w = Some (b, w1) \<Longrightarrow> R w w1"
      "instance_run S m r name args w = Some w1 \<Longrightarrow> R w w1"
      "runtime_do S step m r w = Some (b, w1) \<Longrightarrow> R w w1"
      "call_export S m r name args w = Some (b, w1) \<Longrightarrow> R w w1"
      "compile_file S path opts w = Some (dll, w3) \<Longrightarrow> R w w3"
    and service_result:
      "R w (instance_destroy S m r w)" "R w (snd (global_set S m r name v w))" "R w (snd (file_open S path md w))"
      "R w (file_close S fl w)" "R w (fst (make_dir S w path))" "R w (snd (translator_open S path w))"
      "R w (snd (build_thread S path opts w))"
begin

declare compose [trans]

lemma after_change: "R a w \<Longrightarrow> (\<And>x. runner_count x \<le> runner_count (f x)) \<Longrightarrow> R a (upd_module m f w)"
  by (rule compose [OF _ change])

lemma after:
  "R a w \<Longrightarrow> R a (w\<lparr>guest := g\<rparr>)" "R a w \<Longrightarrow> R a (w\<lparr>registry := reg\<rparr>)" "R a w \<Longrightarrow> R a (w\<lparr>translation := t\<rparr>)"
  "R a w \<Longrightarrow> R a (w\<lparr>cur_native_module := cm\<rparr>)" "R a w \<Longrightarrow> R a (w\<lparr>cur_native_runner_id := cr\<rparr>)" "R a w \<Longrightarrow> R a (w\<lparr>locks := ls\<rparr>)"
  "R a w \<Longrightarrow> R a (w\<lparr>host_mem := h\<rparr>)" "R a w \<Longrightarrow> R a (instance_destroy S m r w)" "R a w \<Longrightarrow> R a (snd (global_set S m r name v w))"
  by (erule compose, rule passive_fields host_mem service_result)+

lemma skip_change: "R (upd_module m f w) w' \<Longrightarrow> (\<And>x. runner_count x \<le> runner_count (f x)) \<Longrightarrow> R w w'"
  by (rule compose [OF change])

lemma runtime_steps: "run_runtime_steps S m r sts w = Some (b, w') \<Longrightarrow> R w w'"
  by (induction sts arbitrary: w) (auto simp: same split: bind_splits if_splits dest!: service_call intro: compose)

lemma runner_count_upd_runner [simp]: "runner_count (upd_runner r f x) = runner_count x"
  by (simp add: upd_runner_def)

lemma runner_stack: "wahe_set_wasmtime_runner_stack S m r w = Some (b, w') \<Longrightarrow> R w w'"
proof -
  have g: "global_set S m r name v w1 = (b, w') \<Longrightarrow> R w w1 \<Longrightarrow> R w w'" for name v w1
    using after(9) [of w w1 m r name v] by simp
  show "wahe_set_wasmtime_runner_stack S m r w = Some (b, w') \<Longrightarrow> R w w'"
    unfolding wahe_set_wasmtime_runner_stack_def Let_def
    by (auto simp: same split: option.splits wasm_extern.splits if_splits intro!: after after_change intro: g)
qed

lemma init_runner: "wahe_init_wasmtime_runner S m r w = Some (b, w') \<Longrightarrow> R w w'"
  by (auto simp: wahe_init_wasmtime_runner_def split: bind_splits if_splits dest!: runtime_steps runner_stack intro: compose)

lemma runners: "create_runners S m rs w = Some (b, w') \<Longrightarrow> R w w'"
proof (induction rs arbitrary: w)
  case (Cons r rs)
  let ?w = "upd_module m (\<lambda>x. x\<lparr>runner := (runner x)[r := Some zero_runner]\<rparr>) w"
  have "R w ?w" by (rule change) simp
  with Cons show ?case by (auto simp: same split: bind_splits if_splits dest!: init_runner intro: compose)
qed (simp add: same)

lemma runner_funcs: "get_runner_funcs S m name f rs w = Some w' \<Longrightarrow> R w w'"
proof (induction rs arbitrary: w)
  case (Cons r rs)
  have "R w (upd_module m (upd_runner r g) w)" for g by (rule change) simp
  with Cons show ?case by (auto split: if_splits intro: compose)
qed (simp add: same)

lemma module_func: "wahe_get_module_func S m name f w = Some w' \<Longrightarrow> R w w'"
  by (auto simp: wahe_get_module_func_def same split: wahe_module_type.splits intro: change dest: runner_funcs)

lemma module_funcs: "get_module_funcs S m fs w = Some w' \<Longrightarrow> R w w'"
proof (induction fs arbitrary: w)
  case (Cons f fs)
  then show ?case by (cases f) (auto split: bind_splits intro: compose module_func)
qed (simp add: same)

lemma in_instance: "run_in_instance S m r name args w = Some w' \<Longrightarrow> R w w'"
proof -
  have start: "R w (w\<lparr>cur_native_module := Some m, cur_native_runner_id := r\<rparr>)" by (intro after same)
  show "run_in_instance S m r name args w = Some w' \<Longrightarrow> R w w'"
    by (auto simp: run_in_instance_def split: bind_splits intro!: after intro: compose [OF start] service_call)
qed

lemma read_symbol: "read_symbol S m name f w = Some w' \<Longrightarrow> (\<And>v x. runner_count x \<le> runner_count (f v x)) \<Longrightarrow> R w w'"
  by (auto simp: read_symbol_def Let_def same split: if_splits bind_splits intro: change)

lemma stack_pointer: "find_stack_pointer S m w = Some w' \<Longrightarrow> R w w'"
  by (auto simp: find_stack_pointer_def Let_def same split: if_splits bind_splits intro!: after_change)

lemma translated_globals: "find_translated_globals S m w = Some w' \<Longrightarrow> R w w'"
proof -
  assume "find_translated_globals S m w = Some w'"
  then have "w' = w \<or> (\<exists>b w1 w2. read_symbol S m ''__heap_base'' (\<lambda>v x. x\<lparr>heap_base := v\<rparr>) (upd_module m (\<lambda>x. x\<lparr>memory_bits := b\<rparr>) w) = Some w1 \<and>
      find_stack_pointer S m w1 = Some w2 \<and> read_symbol S m ''__data_end'' (\<lambda>v x. x\<lparr>data_end := v\<rparr>) w2 = Some w')"
    by (auto simp: find_translated_globals_def Let_def split: if_splits bind_splits)
  then show ?thesis
  proof (elim disjE exE conjE)
    fix b w1 w2
    assume e: "read_symbol S m ''__heap_base'' (\<lambda>v x. x\<lparr>heap_base := v\<rparr>) (upd_module m (\<lambda>x. x\<lparr>memory_bits := b\<rparr>) w) = Some w1"
      "find_stack_pointer S m w1 = Some w2" "read_symbol S m ''__data_end'' (\<lambda>v x. x\<lparr>data_end := v\<rparr>) w2 = Some w'"
    have "R w (upd_module m (\<lambda>x. x\<lparr>memory_bits := b\<rparr>) w)" by (rule change) simp
    also have "R \<dots> w1" by (rule read_symbol [OF e(1)]) simp
    also have "R \<dots> w2" by (rule stack_pointer [OF e(2)])
    also have "R \<dots> w'" by (rule read_symbol [OF e(3)]) simp
    finally show ?thesis .
  qed (simp add: same)
qed

lemma translated_symbols: "init_translated_symbols S m w = Some (b, w') \<Longrightarrow> R w w'"
proof -
  let ?inv = "upd_module m (\<lambda>x. x\<lparr>valid := False\<rparr>)"
  let ?made = "\<lambda>c. upd_module m (\<lambda>x. x\<lparr>wasm_decomp_instance := c\<rparr>)"
  assume "init_translated_symbols S m w = Some (b, w')"
  then consider "w' = ?inv w"
    | c p q w1 where "instance_create S m w = Some ((c, p, q), w1)" "w' = ?inv (?made c w1)"
    | c p q w1 sz w3 w4 where "instance_create S m w = Some ((c, p, q), w1)"
        "call_module_free (calls S) (Some m) 0 (upd_module m (\<lambda>x. x\<lparr>memory_ptr := p, memory_size_addr := q, memory_size := sz\<rparr>) (?made c w1)) = Some w3"
        "find_translated_globals S m w3 = Some w4" "w' = w4 \<or> run_in_instance S m 0 ''_initialize'' [] w4 = Some w'"
    unfolding init_translated_symbols_def Let_def by (auto split: if_split_asm bind_splits)
  then show ?thesis
  proof cases
    case 1
    show ?thesis unfolding 1 by (rule change) simp
  next
    case 2
    have "R w w1" by (rule service_call(2) [OF 2(1)])
    then show ?thesis unfolding 2(2) by (intro after_change) simp_all
  next
    case 3
    have "R w w1" by (rule service_call(2) [OF 3(1)])
    then have "R w (upd_module m (\<lambda>x. x\<lparr>memory_ptr := p, memory_size_addr := q, memory_size := sz\<rparr>) (?made c w1))"
      by (intro after_change) simp_all
    also have "R \<dots> w3" by (rule active_free [OF 3(2)])
    also have "R \<dots> w4" by (rule translated_globals [OF 3(3)])
    also have "R \<dots> w'" using 3(4) in_instance same by blast
    finally show ?thesis .
  qed
qed

lemma all_symbols: "wahe_init_all_module_symbols S m w = Some w' \<Longrightarrow> R w w'"
proof -
  let ?access = "upd_module m (\<lambda>x. x\<lparr>has_host_mem_access :=
      mtype x = WAHE_MODULE_NATIVE \<or> (mtype x = WAHE_MODULE_WASM_TO_NATIVE \<and> memory_bits x = 64)\<rparr>)"
  let ?t = "\<lambda>t. upd_module m (\<lambda>x. x\<lparr>mtype := t\<rparr>)"
  assume "wahe_init_all_module_symbols S m w = Some w'"
  then obtain w1 where f: "get_module_funcs S m module_funcs w = Some w1" and rest: "(\<exists>w2. (w' = w2 \<or> w' = ?access w2) \<and>
      (w2 = w1 \<or> (\<exists>t. w2 = ?t t w1) \<or> (\<exists>t b. init_translated_symbols S m (?t t w1) = Some (b, w2)) \<or>
       (\<exists>h d. w2 = upd_module m (\<lambda>x. x\<lparr>data_end := d\<rparr>) (upd_module m (\<lambda>x. x\<lparr>heap_base := h\<rparr>) w1))))"
    unfolding wahe_init_all_module_symbols_def Let_def by (auto split: if_split_asm bind_splits) blast+
  have "R w w1" by (rule module_funcs [OF f])
  moreover have t: "R w1 (?t t w1)" for t by (rule change) simp
  have "R w1 w2" if "w2 = w1 \<or> (\<exists>t. w2 = ?t t w1) \<or> (\<exists>t b. init_translated_symbols S m (?t t w1) = Some (b, w2)) \<or>
       (\<exists>h d. w2 = upd_module m (\<lambda>x. x\<lparr>data_end := d\<rparr>) (upd_module m (\<lambda>x. x\<lparr>heap_base := h\<rparr>) w1))" for w2
    using that t compose [OF t translated_symbols] by (auto simp: same intro!: after_change)
  with rest have "R w1 w'" by (auto intro!: after_change)
  ultimately show ?thesis by (rule compose)
qed

lemma module_memory: "wahe_init_module_memory S ctx w = Some (b, w') \<Longrightarrow> R w w'"
  by (auto simp: wahe_init_module_memory_def Let_def same split: option.splits wahe_module_type.splits wasm_extern.splits if_splits bind_splits
      intro!: change)

lemma active_malloc: "call_module_malloc (calls S) ctx n w = Some (a, w') \<Longrightarrow> R w w'"
  unfolding call_module_malloc_def by (rule malloc)

lemma thread_tls: "wahe_init_thread_tls S m r w = Some (b, w') \<Longrightarrow> R w w'"
proof -
  have set: "R w1 (set_runner m r f w1)" for f w1 unfolding set_runner_def by (rule change) simp
  have run: "call_export S m r name args (set_runner m r f w1) = Some (b, w2) \<Longrightarrow> R w1 w2" for name args f w1 b w2
    by (rule compose [OF set service_call(6)])
  show "wahe_init_thread_tls S m r w = Some (b, w') \<Longrightarrow> R w w'"
    unfolding wahe_init_thread_tls_def Let_def
    by (auto simp: same split: option.splits wasm_extern.splits if_split_asm bind_splits)
      (blast intro: active_malloc set run compose)+
qed

lemma runners_tls: "create_runners_tls S m rs w = Some (b, w') \<Longrightarrow> R w w'"
proof (induction rs arbitrary: w)
  case (Cons r rs)
  have "R w1 (set_invalid m w1)" for w1 unfolding set_invalid_def by (rule change) simp
  with Cons show ?case by (auto split: if_splits bind_splits) (blast intro: thread_tls compose)+
qed (simp add: same)

lemma translated_tls: "wahe_init_translated_tls S m r required w = Some (res, w') \<Longrightarrow> R w w'"
proof -
  have lock: "R w1 (acquire l w1)" "R w1 (release l w1)" for l w1 unfolding acquire_def release_def by (intro after same)+
  show "wahe_init_translated_tls S m r required w = Some (res, w') \<Longrightarrow> R w w'"
    unfolding wahe_init_translated_tls_def Let_def
    by (auto simp: same split: if_split_asm bind_splits) (blast intro: active_malloc lock in_instance compose)+
qed

lemma store_address: "store_address bits p v w = Some w' \<Longrightarrow> R w w'"
  by (auto simp: store_address_def split: bind_splits intro!: after same)

lemma translated_runners_made: "create_translated_runners S m n ix is w = Some (res, w') \<Longrightarrow> R w w'"
proof (induction "is" arbitrary: w res)
  case (Cons i "is")
  from Cons.prems show ?case
    unfolding create_translated_runners.simps
    by (auto split: if_split_asm bind_splits dest!: service_call(3) store_address Cons.IH intro: same) (meson compose same)+
qed (simp add: same)

lemma runners_destroyed: "R a w \<Longrightarrow> R a (destroy_runners S m is w)"
  by (induction "is" arbitrary: w) (auto intro: after)

lemma translated_runners_tls: "init_runners_tls S m is w = Some (b, w') \<Longrightarrow> R w w'"
proof (induction "is" arbitrary: w)
  case (Cons i "is")
  from Cons.prems show ?case
    unfolding init_runners_tls.simps Let_def
    by (auto split: if_split_asm bind_splits dest!: translated_tls Cons.IH skip_change intro!: after_change intro: compose)
qed (simp add: same)

lemma translated_runners: "wahe_init_translated_runners S m w = Some (b, w') \<Longrightarrow> R w w'"
proof -
  show "wahe_init_translated_runners S m w = Some (b, w') \<Longrightarrow> R w w'"
    unfolding wahe_init_translated_runners_def Let_def
    by (auto simp: same split: option.splits if_split_asm bind_splits dest!: translated_runners_made translated_runners_tls skip_change
        intro!: runners_destroyed intro: compose) (meson compose)+
qed

section \<open>Loading a module\<close>

lemma send: "wahe_send_input (calls S) m msg w = Some (ret, w') \<Longrightarrow> R w w'"
  unfolding wahe_send_input_def module_sprintf_alloc_def module_vsprintf_alloc_on_runner_def Let_def
  by (auto split: if_split_asm bind_splits dest!: malloc active_func active_free intro: compose) (meson compose passive_iff)+

lemma started: "start_wasm_module S m w = Some (b, w') \<Longrightarrow> R w w'"
  unfolding start_wasm_module_def Let_def
  by (auto simp: set_invalid_def same split: if_split_asm bind_splits dest!: runners all_symbols module_memory runners_tls skip_change
      intro!: after_change) (meson compose)+

lemma wasm_module: "init_wasm_module S m path w = Some (b, w') \<Longrightarrow> R w w'"
  unfolding init_wasm_module_def Let_def
  by (auto simp: same simp del: run_runtime_steps.simps split: option.splits if_split_asm bind_splits dest!: runtime_steps started skip_change
      intro!: after_change) (meson compose)+

lemma native_module: "init_native_module S m path w = Some (b, w') \<Longrightarrow> R w w'"
  unfolding init_native_module_def Let_def
  by (auto simp: set_invalid_def same split: if_split_asm bind_splits dest!: service_call(1) all_symbols translated_runners module_memory skip_change
      intro!: after_change) (meson compose)+

lemma blank_stack: "wahe_blank_module_stack ctx w = Some (b, w') \<Longrightarrow> R w w'"
  by (auto simp: wahe_blank_module_stack_def Let_def same split: option.splits if_split_asm bind_splits)

lemma cita_time: "find_cita_time m w = Some w' \<Longrightarrow> R w w'"
  by (auto simp: find_cita_time_def Let_def same split: if_split_asm bind_splits intro!: change)

lemma greeted: "greet_module S m w = Some w' \<Longrightarrow> R w w'"
proof -
  have reg: "R (w1\<lparr>registry := g\<rparr>) w2 \<Longrightarrow> R w1 w2" for w1 g w2 by (rule compose [OF passive_fields(2)])
  show "greet_module S m w = Some w' \<Longrightarrow> R w w'"
    unfolding greet_module_def
    by (auto simp: set_invalid_def split: if_split_asm bind_splits dest!: blank_stack send cita_time reg intro!: after_change) (meson compose)+
qed

lemma translation_state: "R a w \<Longrightarrow> R a (upd_translation f w)"
  unfolding upd_translation_def by (rule after)

lemma mode_chosen: "R w (snd (wahe_wasm2native_mode S w))"
  by (auto simp: wahe_wasm2native_mode_def Let_def same intro!: translation_state)

lemma library_loaded: "R w (snd (wahe_wasm2native_load S w))"
proof -
  have "R w (snd (translator_open S path (upd_translation f w)))" for path f
    by (rule compose [OF translation_state [OF same] service_result(6)])
  then show ?thesis by (auto simp: wahe_wasm2native_load_def Let_def same split: prod.split intro!: translation_state) (metis snd_conv)
qed

lemma cache_dir_made: "R w (snd (job_cache_dir S w))"
  using service_result(5) [of w] 
  by (auto simp: job_cache_dir_def make_appdata_path_def create_dir_def same Let_def split: option.split prod.split intro!: translation_state)
    (metis fst_conv)

lemma translation_found: "find_translation S path md w = Some (dll, w') \<Longrightarrow> R w w'"
proof -
  assume call: "find_translation S path md w = Some (dll, w')"
  obtain dir w1 where dir: "job_cache_dir S w = (dir, w1)" by (rule prod.exhaust)
  have 1: "R w w1" using cache_dir_made [of w] dir by simp
  have build: "R a v \<Longrightarrow> R a (wahe_wasm2native_build_in_background S path opts v)" for a v opts
    unfolding wahe_wasm2native_build_in_background_def by (rule compose [OF _ service_result(7)])
  have comp: "wahe_wasm2native_compile S path opts v = Some (d, v') \<Longrightarrow> R v v'" for opts v d v'
    by (auto simp: wahe_wasm2native_compile_def split: bind_splits intro: service_call)
  have "R w1 w'"
    using call unfolding find_translation_def dir
    by (auto simp: Let_def same split: if_split_asm bind_splits dest!: comp intro!: build) (meson compose)+
  with 1 show ?thesis by (rule compose)
qed

lemma translation_chosen: "wahe_wasm2native_resolve hr S path backend w = Some (dll, w') \<Longrightarrow> R w w'"
proof -
  assume call: "wahe_wasm2native_resolve hr S path backend w = Some (dll, w')"
  obtain md w1 where md: "wahe_wasm2native_mode S w = (md, w1)" by (rule prod.exhaust)
  obtain ok w2 where load: "wahe_wasm2native_load S w1 = (ok, w2)" by (rule prod.exhaust)
  have "R w w1" "R w1 w2" using mode_chosen [of w] md library_loaded [of w1] load by simp_all
  with call show ?thesis
    unfolding wahe_wasm2native_resolve_def md
    by (auto simp: load Let_def same split: if_split_asm bind_splits dest!: translation_found) (meson compose)+
qed

lemma module_loaded:
  assumes "wahe_module_init_with_backend S m path count backend w = Some w'"
  shows "\<exists>name. R (upd_module m (\<lambda>_. blank_module m name count) w) w' \<and> valid (modules w' ! m)"
proof -
  from assms have call: "wahe_module_init_internal S m path count backend w = Some w'" and v: "valid (modules w' ! m)"
    by (auto simp: wahe_module_init_with_backend_def split: bind_splits if_splits)
  from call obtain name translated w2 continue w4
    where t: "(if check_if_file_is_wasm (raw_file S path (upd_module m (\<lambda>_. blank_module m name count) w))
        then wahe_wasm2native_resolve True S path backend (upd_module m (\<lambda>_. blank_module m name count) w)
        else Some (None, upd_module m (\<lambda>_. blank_module m name count) w)) = Some (translated, w2)"
      and i: "(case translated of
            Some dll \<Rightarrow> init_native_module S m dll (upd_module m (\<lambda>x. x\<lparr>native_translation_path := translated\<rparr>) w2)
          | None \<Rightarrow>
              if check_if_file_is_wasm (raw_file S path (upd_module m (\<lambda>x. x\<lparr>native_translation_path := translated\<rparr>) w2))
              then init_wasm_module S m path (upd_module m (\<lambda>x. x\<lparr>native_translation_path := translated\<rparr>) w2)
              else init_native_module S m path (upd_module m (\<lambda>x. x\<lparr>native_translation_path := translated\<rparr>) w2)) = Some (continue, w4)"
      and g: "(if continue then greet_module S m w4 else Some w4) = Some w'"
    unfolding wahe_module_init_internal_def Let_def by (auto split: bind_splits)
  let ?w1 = "upd_module m (\<lambda>_. blank_module m name count) w"
  let ?w3 = "upd_module m (\<lambda>x. x\<lparr>native_translation_path := translated\<rparr>) w2"
  have "R ?w1 w2" using t by (auto simp: same split: if_splits intro: translation_chosen)
  also have "R w2 ?w3" by (rule change) simp
  also have "R ?w3 w4" using i native_module wasm_module by (auto split: option.splits if_splits)
  also have "R w4 w'" using g greeted same by (auto split: if_splits)
  finally show ?thesis using v by blast
qed

end

end
