(* ===== verification/Group_Structure.thy ===== *)
theory Group_Structure
  imports Load_Relation
begin

text \<open>
  The structure of a group, that is its modules with their numbers of runners and its chains without the state of their execution, and the laws under
  which calls into modules, services and the loading of a module keep it: an interpretation of \<open>load_relation\<close>.
\<close>

section \<open>The structure of a group\<close>

text \<open>What a chain is without the state of its execution.\<close>

definition order_shape :: "wahe_exec_order_t \<Rightarrow> wahe_exec_order_t" where
  "order_shape eo = eo\<lparr>dst_msg_addr := 0, ret_msg_addr := 0\<rparr>"

definition chain_shape :: "wahe_chain_t \<Rightarrow> wahe_chain_t" where
  "chain_shape x = x\<lparr>exec_order := map order_shape (exec_order x), current_eo := 0, current_cmd_proc_id := 0, current_func := WAHE_FUNC_NONE\<rparr>"

text \<open>The modules stay, none with fewer runners, and so do the chains.\<close>

definition same_structure :: "'g world \<Rightarrow> 'g world \<Rightarrow> bool" where
  "same_structure w w' \<longleftrightarrow>
     list_all2 (\<lambda>x y. runner_count x \<le> runner_count y) (modules w) (modules w') \<and> map chain_shape (chains w') = map chain_shape (chains w)"

text \<open>The laws: neither the code of a module nor a service adds modules or describes chains, and no runner disappears.\<close>

definition guest_keeps_structure :: "'g env \<Rightarrow> bool" where
  "guest_keeps_structure E \<longleftrightarrow> (\<forall>m r f a w out w'. guest_call E m r f a w = Some (out, w') \<longrightarrow> same_structure w w')"

definition services_keep_structure :: "'g services \<Rightarrow> bool" where
  "services_keep_structure S \<longleftrightarrow> guest_keeps_structure (calls S) \<and>
     (\<forall>m path w b w'. dynlib_open S m path w = Some (b, w') \<longrightarrow> same_structure w w') \<and>
     (\<forall>m w res w'. instance_create S m w = Some (res, w') \<longrightarrow> same_structure w w') \<and>
     (\<forall>m r w b w'. instance_create_runner S m r w = Some (b, w') \<longrightarrow> same_structure w w') \<and>
     (\<forall>m r name args w w'. instance_run S m r name args w = Some w' \<longrightarrow> same_structure w w') \<and>
     (\<forall>step m r w b w'. runtime_do S step m r w = Some (b, w') \<longrightarrow> same_structure w w') \<and>
     (\<forall>m r name args w b w'. call_export S m r name args w = Some (b, w') \<longrightarrow> same_structure w w') \<and>
     (\<forall>path opts w dll w'. compile_file S path opts w = Some (dll, w') \<longrightarrow> same_structure w w') \<and>
     (\<forall>m r w. same_structure w (instance_destroy S m r w)) \<and> (\<forall>m r name v w. same_structure w (snd (global_set S m r name v w))) \<and>
     (\<forall>path md w. same_structure w (snd (file_open S path md w))) \<and> (\<forall>fl w. same_structure w (file_close S fl w)) \<and>
     (\<forall>path w. same_structure w (fst (make_dir S w path))) \<and> (\<forall>path w. same_structure w (snd (translator_open S path w))) \<and>
     (\<forall>path opts w. same_structure w (snd (build_thread S path opts w)))"

lemma structure_refl [simp]: "same_structure w w"
  by (simp add: same_structure_def list_all2_refl)

lemma structure_trans: "same_structure a b \<Longrightarrow> same_structure b c \<Longrightarrow> same_structure a c"
  by (simp add: same_structure_def list_all2_conv_all_nth) (metis le_trans)

lemma structure_same: "modules w' = modules w \<Longrightarrow> chains w' = chains w \<Longrightarrow> same_structure w w'"
  by (simp add: same_structure_def list_all2_refl)

lemma structure_module: "(\<And>x. runner_count x \<le> runner_count (f x)) \<Longrightarrow> same_structure w (upd_module m f w)"
  by (auto simp: same_structure_def list_all2_conv_all_nth nth_update_if)

lemma structure_refresh: "same_structure w (wahe_refresh_module_memory_size ctx w)" "same_structure (wahe_refresh_module_memory_size ctx w) w"
proof -
  show "same_structure w (wahe_refresh_module_memory_size ctx w)"
    by (auto simp: wahe_refresh_module_memory_size_def intro: structure_module split: option.split)
  have "runner_count (modules (wahe_refresh_module_memory_size ctx w) ! i) = runner_count (modules w ! i)" for i
    by (auto simp: wahe_refresh_module_memory_size_def nth_update_if split: option.split)
  then show "same_structure (wahe_refresh_module_memory_size ctx w) w"
    by (auto simp: same_structure_def list_all2_conv_all_nth) (auto simp: wahe_refresh_module_memory_size_def split: option.split)
qed

lemma structure_chain: "(\<And>x. chain_shape (f x) = chain_shape x) \<Longrightarrow> same_structure w (upd_chain c f w)"
proof -
  assume f: "\<And>x. chain_shape (f x) = chain_shape x"
  have "map chain_shape ((chains w)[c := f (chains w ! c)]) = map chain_shape (chains w)"
    by (rule nth_equalityI) (auto simp: nth_update_if f)
  then show ?thesis by (simp add: same_structure_def list_all2_refl)
qed

lemma structure_func: "set_current_func c f w = Some w' \<Longrightarrow> same_structure w w'"
  by (auto simp: set_current_func_def chain_shape_def split: option.splits if_splits intro!: structure_chain)

lemma structure_after:
  "same_structure a w \<Longrightarrow> same_structure a (w\<lparr>guest := g\<rparr>)" "same_structure a w \<Longrightarrow> same_structure a (w\<lparr>cur_native_module := cm\<rparr>)"
  "same_structure a w \<Longrightarrow> same_structure a (w\<lparr>cur_native_runner_id := cr\<rparr>)" "same_structure a w \<Longrightarrow> same_structure a (w\<lparr>cur_wasmtime_runner := wr\<rparr>)"
  "same_structure a w \<Longrightarrow> same_structure a (w\<lparr>host_mem := h\<rparr>)" "same_structure a w \<Longrightarrow> same_structure a (acquire l w)"
  "same_structure a w \<Longrightarrow> same_structure a (release l w)"
  by (simp_all add: same_structure_def acquire_def release_def)

lemma structure_depth: "same_structure a w \<Longrightarrow> same_structure a (call_depth_change m r d w)"
  unfolding call_depth_change_def by (erule structure_trans) (rule structure_module, simp add: upd_runner_def)

lemma structure_enter: "same_structure w (enter_native m r w)" "enter_wasmtime m k f w = Some w1 \<Longrightarrow> same_structure w w1"
  by (auto simp: enter_native_def enter_wasmtime_def split: bind_splits intro!: structure_after structure_depth intro: structure_func)

lemma structure_leave: "same_structure a w \<Longrightarrow> same_structure a (leave_native m r w0 w)"
  "leave_wasmtime m k w0 w = Some w1 \<Longrightarrow> same_structure a w \<Longrightarrow> same_structure a w1"
proof -
  show "leave_wasmtime m k w0 w = Some w1 \<Longrightarrow> same_structure a w \<Longrightarrow> same_structure a w1"
    unfolding leave_wasmtime_def Let_def by (erule structure_trans [OF _ structure_func, rotated]) (intro structure_after structure_depth)
qed (auto simp: leave_native_def Let_def intro!: structure_after)

lemma structure_call:
  assumes law: "guest_keeps_structure E" and call: "call_module_func_core_on_runner E ctx r arg f w = Some (v, w')"
  shows "same_structure w w'"
proof -
  have g: "guest_call E m k f args x = Some (out, y) \<Longrightarrow> same_structure a x \<Longrightarrow> same_structure a y" for a x m k args out y
    using law unfolding guest_keeps_structure_def by (blast intro: structure_trans)
  have native: "call_native E m r arg f x = Some (v, y) \<Longrightarrow> same_structure x y" for m x y
    unfolding call_native_def Let_def
    by (auto split: if_split_asm bind_splits dest!: g [OF _ structure_enter(1)] intro!: structure_leave(1))
  have wasmtime: "same_structure x y" if c: "call_wasmtime E m r arg f x = Some (v, y)" for m x y
  proof -
    from c have "y = x \<or> (\<exists>k args out x1 x2 x3. enter_wasmtime m k f x = Some x1 \<and> guest_call E m k f args x1 = Some (out, x2) \<and>
        leave_wasmtime m k x x2 = Some x3 \<and> y = wahe_refresh_module_memory_size (Some m) x3)"
      by (auto simp: call_wasmtime_def Let_def split: option.splits if_split_asm bind_splits) blast
    then show ?thesis
    proof (elim disjE exE conjE)
      fix k args out x1 x2 x3
      assume e: "enter_wasmtime m k f x = Some x1" "guest_call E m k f args x1 = Some (out, x2)" "leave_wasmtime m k x x2 = Some x3"
        "y = wahe_refresh_module_memory_size (Some m) x3"
      show ?thesis
        unfolding e(4) by (rule structure_trans [OF structure_leave(2) [OF e(3) g [OF e(2) structure_enter(2) [OF e(1)]]] structure_refresh(1)])
    qed simp
  qed
  have time: "publish_timestamp E m x = Some y \<Longrightarrow> same_structure x y" for m x y
    by (auto simp: publish_timestamp_def Let_def split: if_splits bind_splits intro: structure_after)
  show ?thesis
    using call unfolding call_module_func_core_on_runner_def Let_def
    by (auto split: if_split_asm bind_splits option.splits dest!: native wasmtime time intro: structure_trans)
qed

interpretation keeps_structure: load_relation "\<lambda>w w'. services_keep_structure S \<longrightarrow> same_structure w w'" S for S
  by unfold_locales
    (auto simp: services_keep_structure_def intro: structure_trans structure_refresh structure_after structure_module structure_same structure_call)

end
