(* ===== verification/Parser_Correct.thy ===== *)
theory Parser_Correct
  imports Group_Structure
begin

text \<open>
  What reading a group file promises: every statement keeps the group well formed unless it reports an error, so a file
  that is read without a report leaves chains whose every index is in range.
\<close>

section \<open>Well-formed groups\<close>

text \<open>An order the execution of a chain can run: every index it follows is in range.\<close>

definition order_wf :: "wahe_module_t list \<Rightarrow> wahe_exec_order_t \<Rightarrow> bool" where
  "order_wf ms eo \<longleftrightarrow> eo_type eo \<noteq> WAHE_EO_UNKNOWN \<and> eo_func_id eo \<noteq> WAHE_FUNC_COUNT \<and>
     0 \<le> eo_module_id eo \<and> nat (eo_module_id eo) < length ms \<and>
     (eo_type eo = WAHE_EO_MODULE_FUNC \<longrightarrow> eo_runner_id eo < runner_count (ms ! nat (eo_module_id eo))) \<and>
     (\<forall>d\<in>set (cmd_proc_id eo). 0 \<le> d \<and> nat d < length ms)"

definition connection_wf :: "nat \<Rightarrow> wahe_connection_t \<Rightarrow> bool" where
  "connection_wf n c \<longleftrightarrow> 0 \<le> src_eo c \<and> nat (src_eo c) < n \<and> 0 \<le> dst_eo c \<and> nat (dst_eo c) < n"

definition chain_wf :: "wahe_module_t list \<Rightarrow> wahe_chain_t \<Rightarrow> bool" where
  "chain_wf ms x \<longleftrightarrow> exec_order_rest x = [] \<and> (\<forall>eo\<in>set (exec_order x). order_wf ms eo) \<and>
     (\<forall>c\<in>set (connection x). connection_wf (length (exec_order x)) c)"

definition group_wf :: "'g world \<Rightarrow> bool" where
  "group_wf w \<longleftrightarrow> (\<forall>x\<in>set (chains w). chain_wf (modules w) x)"

text \<open>The parser once a module is loaded: the tables agree with the group.\<close>

definition parse_wf :: "'g parse \<Rightarrow> bool" where
  "parse_wf p \<longleftrightarrow> group_wf (group p) \<and> modules (group p) \<noteq> [] \<and> (\<forall>x\<in>set (modules (group p)). 0 < runner_count x) \<and>
     length (symb_module p) = length (modules (group p)) \<and> chain_ix p < length (chains (group p)) \<and>
     length (symb_order p) = length (exec_order (chains (group p) ! chain_ix p))"

text \<open>A step that reports nothing started from a clean log and kept the condition.\<close>

definition unreported :: "('g parse \<Rightarrow> bool) \<Rightarrow> 'g parse \<Rightarrow> 'g parse \<Rightarrow> bool" where
  "unreported I p p' \<longleftrightarrow> (err_log p' = [] \<longrightarrow> err_log p = [] \<and> (I p \<longrightarrow> I p'))"

interpretation unreported: state_relation "unreported I" for I
  by unfold_locales (auto simp: unreported_def)

lemma log_error_simps [simp]:
  "err_log (log_error f il s p) \<noteq> []" "group (log_error f il s p) = group p" "symb_module (log_error f il s p) = symb_module p"
  "symb_order (log_error f il s p) = symb_order p" "chain_ix (log_error f il s p) = chain_ix p"
  by (simp_all add: log_error_def)

lemma unreported_log [simp]: "unreported I p (log_error f il s q)"
  by (simp add: unreported_def)

section \<open>Symbols and modules\<close>

lemma symbol_added: "wahe_add_symbol_to_table t name = Some (i, t') \<Longrightarrow> i = length t \<and> length t' = Suc (length t)"
  by (auto simp: wahe_add_symbol_to_table_def split: bind_splits)

lemma find_symbol_from_range: "find_symbol_from h name t i = - 1 \<or> i \<le> find_symbol_from h name t i \<and> find_symbol_from h name t i < i + int (length t)"
  by (induction t arbitrary: i) fastforce+

lemma symbol_found: "wahe_find_symbol_in_table t name = Some i \<Longrightarrow> i \<noteq> - 1 \<Longrightarrow> 0 \<le> i \<and> nat i < length t"
proof -
  assume f: "wahe_find_symbol_in_table t name = Some i" "i \<noteq> - 1"
  then obtain h where "find_symbol_from h name t 0 = i" by (auto simp: wahe_find_symbol_in_table_def split: bind_splits)
  with f(2) find_symbol_from_range [of h name t 0] show ?thesis by auto
qed

definition modules_grow :: "wahe_module_t list \<Rightarrow> wahe_module_t list \<Rightarrow> bool" where
  "modules_grow ms ms' \<longleftrightarrow> length ms \<le> length ms' \<and> (\<forall>i<length ms. runner_count (ms ! i) \<le> runner_count (ms' ! i))"

lemma order_wf_grow: "order_wf ms eo \<Longrightarrow> modules_grow ms ms' \<Longrightarrow> order_wf ms' eo"
  by (auto simp: order_wf_def modules_grow_def intro: order_less_le_trans)

lemma order_wf_shape [simp]: "order_wf ms (order_shape eo) = order_wf ms eo"
  by (simp add: order_wf_def order_shape_def)

lemma chain_wf_shape: "chain_wf ms (chain_shape x) = chain_wf ms x"
  by (simp add: chain_wf_def chain_shape_def)

lemma chain_wf_grow: "chain_wf ms x \<Longrightarrow> modules_grow ms ms' \<Longrightarrow> chain_wf ms' x"
  by (auto simp: chain_wf_def intro: order_wf_grow)

lemma group_wf_grow:
  fixes w w' :: "'g world"
  assumes "group_wf w" "modules_grow (modules w) (modules w')" "map chain_shape (chains w') = map chain_shape (chains w)"
  shows "group_wf w'"
proof -
  have g: "group_wf v \<longleftrightarrow> (\<forall>x\<in>set (map chain_shape (chains v)). chain_wf (modules v) x)" for v :: "'g world"
    by (simp add: group_wf_def chain_wf_shape)
  show ?thesis using assms(1) unfolding g assms(3) by (auto intro: chain_wf_grow [OF _ assms(2)])
qed

lemma shapes_length: "map chain_shape xs = map chain_shape ys \<Longrightarrow> length (exec_order (xs ! i)) = length (exec_order (ys ! i)) \<or> length xs \<le> i"
proof (cases "i < length xs")
  case True
  assume m: "map chain_shape xs = map chain_shape ys"
  then have "length ys = length xs" by (metis length_map)
  with m True have "chain_shape (xs ! i) = chain_shape (ys ! i)" by (metis nth_map)
  then have "length (exec_order (chain_shape (xs ! i))) = length (exec_order (chain_shape (ys ! i)))" by simp
  then show ?thesis by (simp add: chain_shape_def)
qed simp

lemma parse_wf_grow:
  fixes p p' :: "'g parse"
  assumes "parse_wf p" "modules_grow (modules (group p)) (modules (group p'))" "map chain_shape (chains (group p')) = map chain_shape (chains (group p))"
    "\<forall>x\<in>set (modules (group p')). 0 < runner_count x" "length (symb_module p') = length (modules (group p'))"
    "symb_order p' = symb_order p" "chain_ix p' = chain_ix p"
  shows "parse_wf p'"
proof -
  have "length (chains (group p')) = length (chains (group p))" using assms(3) by (metis length_map)
  then show ?thesis
    using assms shapes_length [OF assms(3), of "chain_ix p"] group_wf_grow [OF _ assms(2,3)]
    by (auto simp: parse_wf_def modules_grow_def)
qed

lemma counts_grow:
  "modules_grow ms ms' \<Longrightarrow> length ms' = length ms \<Longrightarrow> \<forall>x\<in>set ms. 0 < runner_count x \<Longrightarrow> \<forall>x\<in>set ms'. 0 < runner_count x"
  unfolding modules_grow_def all_set_conv_all_nth by (metis order_less_le_trans)

lemma structure_grows: "same_structure w w' \<Longrightarrow> modules_grow (modules w) (modules w')"
  by (simp add: same_structure_def modules_grow_def list_all2_conv_all_nth)

lemma structure_length: "same_structure w w' \<Longrightarrow> length (modules w') = length (modules w)"
  by (auto simp: same_structure_def dest: list_all2_lengthD)

lemma parse_wf_structure:
  assumes "parse_wf p" "same_structure (group p) w"
  shows "parse_wf (p\<lparr>group := w\<rparr>)"
proof (rule parse_wf_grow [OF assms(1)])
  show "\<forall>x\<in>set (modules (group (p\<lparr>group := w\<rparr>))). 0 < runner_count x"
    using counts_grow [OF structure_grows [OF assms(2)] structure_length [OF assms(2)]] assms by (simp add: parse_wf_def)
qed (use assms structure_grows [OF assms(2)] structure_length [OF assms(2)] in \<open>auto simp: parse_wf_def same_structure_def\<close>)

section \<open>Statements\<close>

lemma option_rest_shorter:
  assumes "dropWhile P opt \<noteq> []"
  shows "length (drop k (dropWhile Q (tl (dropWhile P opt)))) < length opt"
    "length (drop k (dropWhile R (drop j (dropWhile Q (tl (dropWhile P opt)))))) < length opt"
proof -
  have a: "length (dropWhile Q (tl (dropWhile P opt))) < length opt"
    by (rule next_option_shorter [OF refl refl assms])
  then show "length (drop k (dropWhile Q (tl (dropWhile P opt)))) < length opt" by simp
  show "length (drop k (dropWhile R (drop j (dropWhile Q (tl (dropWhile P opt)))))) < length opt"
    using a length_dropWhile_le [of R "drop j (dropWhile Q (tl (dropWhile P opt)))"] by simp
qed

lemma options_count: "module_options opt count backend = Some (Some (n, b)) \<Longrightarrow> 0 < count \<Longrightarrow> 0 < n"
proof (induction "length opt" arbitrary: opt count backend rule: less_induct)
  case less
  note ih = less.hyps [OF option_rest_shorter(1)] less.hyps [OF option_rest_shorter(2)]
  from less.prems show ?case
    unfolding module_options.simps [of opt count backend] Let_def
    by (simp only: split: if_split_asm option.splits)
      ((simp; fail) | (erule ih(2), assumption, simp; fail) | (erule ih(1), assumption, assumption))+
qed
lemma slots_state: "wahe_alloc_stable_module_slots S n w = (ok, w') \<Longrightarrow> modules w' = modules w \<and> chains w' = chains w"
  by (auto simp: wahe_alloc_stable_module_slots_def with_vm_def Let_def split: if_split_asm prod.splits)

lemma slot_added:
  assumes "add_module_slot S (length (modules w)) w = (True, w1)"
  shows "modules w1 = modules w @ [zero_module]" "chains w1 = chains w"
  using assms by (auto simp: add_module_slot_def split: prod.splits if_split_asm dest!: slots_state)

lemma module_slot_loaded:
  assumes law: "services_keep_structure S" and load: "load_module S dir_path i path count backend w = Some w'"
  shows "\<exists>name. same_structure (upd_module i (\<lambda>_. blank_module i name count) w) w'"
proof -
  obtain readable w1 path' where w1: "check_file_is_readable S path w = (readable, w1)"
      and i: "wahe_module_init_with_backend S i path' count backend w1 = Some w'"
    using load by (auto simp: load_module_def split: prod.splits)
  have "same_structure w (snd (file_open S path ''rb'' w))" using law by (simp add: services_keep_structure_def)
  moreover have "same_structure v (file_close S fl v)" for fl v using law by (simp add: services_keep_structure_def)
  ultimately have s: "same_structure w w1"
    using w1 by (auto simp: check_file_is_readable_def split: prod.splits option.splits) (meson structure_trans)
  obtain name where n: "same_structure (upd_module i (\<lambda>_. blank_module i name count) w1) w'"
    using keeps_structure.module_loaded [OF i] law by auto
  have "same_structure (upd_module i (\<lambda>_. blank_module i name count) w) (upd_module i (\<lambda>_. blank_module i name count) w1)"
    using s by (auto simp: same_structure_def list_all2_conv_all_nth nth_update_if)
  then show ?thesis using n by (blast intro: structure_trans)
qed

lemma modules_grow_append: "modules_grow (ms @ xs) ms' \<Longrightarrow> modules_grow ms ms'"
proof -
  assume g: "modules_grow (ms @ xs) ms'"
  have "runner_count (ms ! i) \<le> runner_count (ms' ! i)" if i: "i < length ms" for i
  proof -
    have "runner_count ((ms @ xs) ! i) \<le> runner_count (ms' ! i)" using g i by (simp add: modules_grow_def)
    with i show ?thesis by (simp add: nth_append)
  qed
  with g show ?thesis by (simp add: modules_grow_def)
qed

lemma module_added:
  assumes wf: "parse_wf p" and law: "services_keep_structure S"
    and add: "wahe_add_symbol_to_table (symb_module p) nm = Some (i, table)" "module_options opt (Suc 0) WAHE_BACKEND_DEFAULT = Some (Some (count, backend))"
      "add_module_slot S i (group p) = (True, w1)" "load_module S dir_path i path count backend w1 = Some w2"
  shows "parse_wf (p\<lparr>symb_module := table, group := upd_module i (\<lambda>x. x\<lparr>wahe_name := make_string_copy (Some nm)\<rparr>) w2\<rparr>)"
    (is "parse_wf (p\<lparr>symb_module := table, group := ?w\<rparr>)")
proof -
  have i: "i = length (modules (group p))" "length table = Suc i"
    using wf symbol_added [OF add(1)] by (auto simp: parse_wf_def)
  note slot = slot_added [OF add(3) [unfolded i(1)]]
  obtain name where "same_structure (upd_module i (\<lambda>_. blank_module i name count) w1) w2"
    using module_slot_loaded [OF law add(4)] by blast
  then have s: "same_structure (upd_module i (\<lambda>_. blank_module i name count) w1) ?w"
    by (rule structure_trans [OF _ structure_module]) simp
  have ms: "modules (upd_module i (\<lambda>_. blank_module i name count) w1) = modules (group p) @ [blank_module i name count]"
    using slot(1) i(1) by simp
  note grow = structure_grows [OF s, unfolded ms] and len = structure_length [OF s, unfolded ms]
  have c: "0 < count" using options_count [OF add(2)] by simp
  show ?thesis
  proof (rule parse_wf_grow [OF wf])
    show "modules_grow (modules (group p)) (modules (group (p\<lparr>symb_module := table, group := ?w\<rparr>)))"
      using modules_grow_append [OF grow] by simp
    show "\<forall>x\<in>set (modules (group (p\<lparr>symb_module := table, group := ?w\<rparr>))). 0 < runner_count x"
      using counts_grow [OF grow len] wf c by (simp add: parse_wf_def blank_module_def Let_def)
    show "map chain_shape (chains (group (p\<lparr>symb_module := table, group := ?w\<rparr>))) = map chain_shape (chains (group p))"
      using s slot(2) by (simp add: same_structure_def)
  qed (use len i in simp_all)
qed

lemma module_line_wf:
  assumes law: "services_keep_structure S" and line: "module_line S filepath dir_path il line p = Some (flow, p')"
  shows "unreported parse_wf p p'"
  using line unfolding module_line_def Let_def unreported_def
  by (auto split: bind_splits if_split_asm option.splits prod.splits intro: module_added [OF _ law])

lemma send_line_wf:
  assumes law: "services_keep_structure S" and line: "send_line S filepath all_lines il line p = Some (res, p')"
  shows "unreported parse_wf p p'"
proof -
  have send: "wahe_send_input (calls S) m msg w = Some (r, w') \<Longrightarrow> same_structure w w'" for m msg w r w'
    using keeps_structure.send law by blast
  show ?thesis
    using line unfolding send_line_def Let_def unreported_def
    by (auto split: bind_splits if_split_asm prod.splits dest!: send intro: parse_wf_structure)
qed

text \<open>Changes of the chain that is being described.\<close>

lemma parse_wf_chain:
  assumes "parse_wf p" "chain_wf (modules (group p)) (f (chains (group p) ! chain_ix p))"
    "length (exec_order (f (chains (group p) ! chain_ix p))) = length table"
  shows "parse_wf ((upd_parsed_chain f p)\<lparr>symb_order := table\<rparr>)"
  using assms by (auto simp: parse_wf_def upd_parsed_chain_def group_wf_def dest: set_update_subset_insert [THEN subsetD])

lemma parse_wf_same_count:
  assumes "parse_wf p" "chain_wf (modules (group p)) (f (chains (group p) ! chain_ix p))"
    "length (exec_order (f (chains (group p) ! chain_ix p))) = length (exec_order (chains (group p) ! chain_ix p))"
  shows "parse_wf (upd_parsed_chain f p)"
  using parse_wf_chain [where f = f, OF assms(1,2), of "symb_order p"] assms by (simp add: parse_wf_def upd_parsed_chain_def)

lemma current_chain_wf: "parse_wf p \<Longrightarrow> chain_wf (modules (group p)) (chains (group p) ! chain_ix p)"
  by (auto simp: parse_wf_def group_wf_def)

lemma upd_parsed_order_chain:
  "upd_parsed_order i f p = upd_parsed_chain (\<lambda>x. x\<lparr>exec_order := (exec_order x)[i := f (exec_order x ! i)]\<rparr>) p"
  by (simp add: upd_parsed_order_def upd_parsed_chain_def upd_order_def)

lemma parse_wf_order:
  assumes "parse_wf p" "order_wf (modules (group p)) (f (exec_order (chains (group p) ! chain_ix p) ! i))"
  shows "parse_wf (upd_parsed_order i f p)"
  unfolding upd_parsed_order_chain
  using assms current_chain_wf [OF assms(1)]
  by (intro parse_wf_same_count) (auto simp: chain_wf_def dest: set_update_subset_insert [THEN subsetD])

lemma zero_order_wf: "parse_wf p \<Longrightarrow> order_wf (modules (group p)) zero_order"
  by (cases "modules (group p)") (auto simp: parse_wf_def order_wf_def zero_order_def)

lemma order_added:
  assumes "parse_wf p"
  shows "parse_wf ((upd_parsed_chain (set_order_count (Suc (length (symb_order p)))) p)\<lparr>symb_order := table\<rparr>) \<longleftrightarrow>
    length table = Suc (length (symb_order p))"
proof -
  let ?x = "chains (group p) ! chain_ix p"
  have x: "chain_wf (modules (group p)) ?x" "length (exec_order ?x) = length (symb_order p)"
    using assms current_chain_wf by (auto simp: parse_wf_def)
  then have e: "set_order_count (Suc (length (symb_order p))) ?x = ?x\<lparr>exec_order := exec_order ?x @ [zero_order], exec_order_rest := []\<rparr>"
    by (simp add: set_order_count_def chain_wf_def)
  have wf: "chain_wf (modules (group p)) (set_order_count (Suc (length (symb_order p))) ?x)"
    using x zero_order_wf [OF assms] unfolding e by (auto simp: chain_wf_def connection_wf_def less_SucI)
  show ?thesis
  proof
    assume "length table = Suc (length (symb_order p))"
    then show "parse_wf ((upd_parsed_chain (set_order_count (Suc (length (symb_order p)))) p)\<lparr>symb_order := table\<rparr>)"
      using assms wf x by (intro parse_wf_chain) (simp_all add: e)
  qed (use assms x e in \<open>simp add: parse_wf_def upd_parsed_chain_def\<close>)
qed

text \<open>A new chain holds the order of its input.\<close>

lemma chain_line_wf:
  assumes line: "chain_line line p = Some p'"
  shows "unreported parse_wf p p'"
proof -
  have new: "parse_wf (upd_parsed_order i (\<lambda>eo. eo\<lparr>eo_type := WAHE_EO_CHAIN_INPUT_MSG\<rparr>)
      (upd_parsed_chain (set_order_count (i + 1)) (p\<lparr>group := (group p)\<lparr>chains := chains (group p) @ [zero_chain\<lparr>chain_name := name, has_group := True\<rparr>],
         cur_chain := Some 0\<rparr>, symb_order := table, chain_ix := length (chains (group p))\<rparr>)))"
    if wf: "parse_wf p" and i: "wahe_add_symbol_to_table [] ''chain_input_msg'' = Some (i, table)" for i table name
  proof -
    let ?p = "p\<lparr>group := (group p)\<lparr>chains := chains (group p) @ [zero_chain\<lparr>chain_name := name, has_group := True\<rparr>], cur_chain := Some 0\<rparr>,
         symb_order := [], chain_ix := length (chains (group p))\<rparr>"
    have "chain_wf (modules (group p)) (zero_chain\<lparr>chain_name := name, has_group := True\<rparr>)"
      by (simp add: chain_wf_def zero_chain_def)
    then have p: "parse_wf ?p" using wf by (simp add: parse_wf_def group_wf_def zero_chain_def)
    have t: "i = 0" "length table = Suc 0" using symbol_added [OF i] by simp_all
    then have "parse_wf ((upd_parsed_chain (set_order_count (Suc 0)) ?p)\<lparr>symb_order := table\<rparr>)"
      using order_added [OF p, of table] by simp
    then have "parse_wf (upd_parsed_order 0 (\<lambda>eo. eo\<lparr>eo_type := WAHE_EO_CHAIN_INPUT_MSG\<rparr>) ((upd_parsed_chain (set_order_count (Suc 0)) ?p)\<lparr>symb_order := table\<rparr>))"
      using zero_order_wf [OF p]
      by (rule_tac parse_wf_order) (simp_all add: upd_parsed_chain_def set_order_count_def zero_chain_def order_wf_def nth_append)
    then show ?thesis by (cases p) (simp add: t upd_parsed_order_def upd_parsed_chain_def upd_order_def upd_chain_def)
  qed
  show ?thesis
    using line new unfolding chain_line_def Let_def unreported_def
    by (auto split: bind_splits if_split_asm prod.splits simp: upd_parsed_order_def upd_parsed_chain_def)
qed

text \<open>An order while its attributes are read: well formed but for its runner.\<close>

definition runner_zero :: "wahe_exec_order_t \<Rightarrow> wahe_exec_order_t" where
  "runner_zero eo = eo\<lparr>eo_runner_id := 0\<rparr>"

definition runner_open :: "nat \<Rightarrow> 'g parse \<Rightarrow> bool" where
  "runner_open i p \<longleftrightarrow> parse_wf (upd_parsed_order i runner_zero p)"

lemma parsed_order_twice: "upd_parsed_order i f (upd_parsed_order i g p) = upd_parsed_order i (\<lambda>eo. f (g eo)) p"
  by (cases "i < length (exec_order (chains (group p) ! chain_ix p)) \<and> chain_ix p < length (chains (group p))")
    (auto simp: upd_parsed_order_def upd_order_def upd_chain_def list_update_beyond not_less)

lemma upd_parsed_order_state [simp]:
  "modules (group (upd_parsed_order i f p)) = modules (group p)" "symb_module (upd_parsed_order i f p) = symb_module p"
  "symb_order (upd_parsed_order i f p) = symb_order p" "chain_ix (upd_parsed_order i f p) = chain_ix p"
  "err_log (upd_parsed_order i f p) = err_log p" "length (chains (group (upd_parsed_order i f p))) = length (chains (group p))"
  by (simp_all add: upd_parsed_order_def upd_order_def)

lemma open_order:
  assumes "runner_open i p" "i < length (exec_order (chains (group p) ! chain_ix p))"
  shows "order_wf (modules (group p)) (runner_zero (exec_order (chains (group p) ! chain_ix p) ! i))" (is "order_wf _ ?eo")
proof -
  have wf: "parse_wf (upd_parsed_order i runner_zero p)" using assms(1) by (simp add: runner_open_def)
  then have "chain_ix p < length (chains (group p))" by (simp add: parse_wf_def)
  then have "exec_order (chains (group (upd_parsed_order i runner_zero p)) ! chain_ix p) = (exec_order (chains (group p) ! chain_ix p))[i := ?eo]"
    by (simp add: upd_parsed_order_def upd_order_def)
  with current_chain_wf [OF wf] set_update_memI [OF assms(2), of ?eo] show ?thesis by (simp add: chain_wf_def)
qed

lemma runner_open_upd:
  assumes "runner_open i p" "\<And>eo. order_wf (modules (group p)) (runner_zero eo) \<Longrightarrow> order_wf (modules (group p)) (runner_zero (f eo))"
    and i: "i < length (symb_order p)"
  shows "runner_open i (upd_parsed_order i f p)"
proof -
  let ?q = "upd_parsed_order i runner_zero p" and ?eo = "exec_order (chains (group p) ! chain_ix p) ! i"
  have wf: "parse_wf ?q" using assms(1) by (simp add: runner_open_def)
  then have "i < length (exec_order (chains (group p) ! chain_ix p))"
    using i by (simp add: parse_wf_def upd_parsed_order_def upd_order_def)
  then have "order_wf (modules (group p)) (runner_zero ?eo)" by (rule open_order [OF assms(1)])
  then have "parse_wf (upd_parsed_order i (\<lambda>_. runner_zero (f ?eo)) ?q)"
    using assms(2) by (intro parse_wf_order [OF wf]) simp
  moreover have "upd_parsed_order i (\<lambda>_. runner_zero (f ?eo)) ?q = upd_parsed_order i runner_zero (upd_parsed_order i f p)"
    by (simp add: parsed_order_twice) (simp add: upd_parsed_order_def upd_order_def upd_chain_def)
  ultimately show ?thesis by (simp add: runner_open_def)
qed

text \<open>The runner is in range once it is checked.\<close>

lemma runner_checked:
  assumes "runner_open i p" "parsed_order i p = Some eo"
    and "eo_type eo = WAHE_EO_MODULE_FUNC \<Longrightarrow> 0 \<le> eo_module_id eo \<Longrightarrow> nat (eo_module_id eo) < length (modules (group p)) \<Longrightarrow>
      eo_runner_id eo < runner_count (modules (group p) ! nat (eo_module_id eo))"
  shows "parse_wf p"
proof -
  let ?q = "upd_parsed_order i runner_zero p"
  have wf: "parse_wf ?q" using assms(1) by (simp add: runner_open_def)
  have eo: "chain_ix p < length (chains (group p))" "i < length (exec_order (chains (group p) ! chain_ix p))"
      "exec_order (chains (group p) ! chain_ix p) ! i = eo"
    using assms(2) by (auto simp: parsed_order_def order_at_def split: if_splits)
  have "order_wf (modules (group p)) (runner_zero eo)"
    using open_order [OF assms(1) eo(2)] eo(3) by simp
  then have "order_wf (modules (group p)) eo" using assms(3) by (auto simp: order_wf_def runner_zero_def)
  then have "parse_wf (upd_parsed_order i (\<lambda>_. eo) ?q)" by (intro parse_wf_order [OF wf]) simp
  moreover have "upd_parsed_order i (\<lambda>_. eo) ?q = p"
    unfolding eo(3) [symmetric] parsed_order_twice by (simp add: upd_parsed_order_def upd_order_def upd_chain_def)
  ultimately show ?thesis by simp
qed

lemma check_runner_wf:
  assumes "check_order_runner filepath il i p = Some p'" "err_log p' = []" "runner_open i p"
  shows "parse_wf p'"
  using assms runner_checked [OF assms(3)]
  by (auto simp: check_order_runner_def Let_def split: bind_splits if_split_asm)

lemma order_parts:
  assumes wf: "order_wf ms (runner_zero eo)" and pos: "\<forall>x\<in>set ms. 0 < runner_count x"
  shows "t \<noteq> WAHE_EO_UNKNOWN \<Longrightarrow> order_wf ms (runner_zero (eo\<lparr>eo_type := t\<rparr>))"
    "0 \<le> m \<Longrightarrow> nat m < length ms \<Longrightarrow> order_wf ms (runner_zero (eo\<lparr>eo_module_id := m\<rparr>))"
    "f \<noteq> WAHE_FUNC_COUNT \<Longrightarrow> order_wf ms (runner_zero (eo\<lparr>eo_func_id := f\<rparr>))"
    "order_wf ms (runner_zero (eo\<lparr>eo_runner_id := r\<rparr>))"
  using assms by (auto simp: order_wf_def runner_zero_def)

lemma named_type: "find_string_in_string_array s wahe_eo_name 2 \<noteq> - 1 \<Longrightarrow> parsed_type (find_string_in_string_array s wahe_eo_name 2) \<noteq> WAHE_EO_UNKNOWN"
  by (auto simp: find_string_in_string_array_def wahe_eo_name_def parsed_type_def eo_types_def numeral_2_eq_2)

lemma named_func: "find_string_in_string_array s wahe_func_name 10 \<noteq> - 1 \<Longrightarrow> parsed_func (find_string_in_string_array s wahe_func_name 10) \<noteq> WAHE_FUNC_COUNT"
  by (auto simp: find_string_in_string_array_def wahe_func_name_def parsed_func_def func_ids_def eval_nat_numeral)

lemma attribute_step:
  assumes step: "order_attribute filepath il i attribute arg_name p = Some p'" and i: "i < length (symb_order p)"
  shows "unreported (runner_open i) p p' \<and> length (symb_order p') = length (symb_order p)"
proof -
  have set: "unreported (runner_open i) p (upd_parsed_order i f p) \<and> length (symb_order (upd_parsed_order i f p)) = length (symb_order p)"
    if "\<And>eo. order_wf (modules (group p)) (runner_zero eo) \<Longrightarrow> \<forall>x\<in>set (modules (group p)). 0 < runner_count x \<Longrightarrow>
      length (symb_module p) = length (modules (group p)) \<Longrightarrow> order_wf (modules (group p)) (runner_zero (f eo))" for f
  proof -
    have "runner_open i (upd_parsed_order i f p)" if r: "runner_open i p"
    proof (rule runner_open_upd [OF r _ i])
      show "order_wf (modules (group p)) (runner_zero eo) \<Longrightarrow> order_wf (modules (group p)) (runner_zero (f eo))" for eo
        using r by (intro \<open>\<And>eo. _ \<Longrightarrow> _ \<Longrightarrow> _ \<Longrightarrow> order_wf (modules (group p)) (runner_zero (f eo))\<close>) (simp_all add: runner_open_def parse_wf_def)
    qed
    then show ?thesis by (simp add: unreported_def)
  qed
  consider "attribute = ''type''" | "attribute = ''module''" | "attribute = ''func''" | "attribute = ''runner''"
    | "p' = p" using step by (auto simp: order_attribute_def split: if_split_asm)
  then show ?thesis
  proof cases
    case 1
    then show ?thesis
      using step by (auto simp: order_attribute_def Let_def split: if_split_asm intro!: set order_parts named_type)
  next
    case 2
    then obtain m where m: "wahe_find_symbol_in_table (symb_module p) arg_name = Some m"
        "p' = (let p1 = upd_parsed_order i (\<lambda>eo. eo\<lparr>eo_module_id := m\<rparr>) p in if m = - 1
          then log_error filepath il (''Order module attribute '' @ quoted arg_name @ '' not previously defined'') p1 else p1)"
      using step by (auto simp: order_attribute_def Let_def split: bind_splits)
    show ?thesis
    proof (cases "m = - 1")
      case False
      have "unreported (runner_open i) p (upd_parsed_order i (\<lambda>eo. eo\<lparr>eo_module_id := m\<rparr>) p) \<and>
          length (symb_order (upd_parsed_order i (\<lambda>eo. eo\<lparr>eo_module_id := m\<rparr>) p)) = length (symb_order p)"
        by (rule set) (use symbol_found [OF m(1) False] in \<open>auto intro: order_parts\<close>)
      with False m(2) show ?thesis by (simp add: Let_def)
    qed (simp add: m Let_def)
  next
    case 3
    then show ?thesis
      using step by (auto simp: order_attribute_def Let_def split: if_split_asm intro!: set order_parts named_func)
  next
    case 4
    then show ?thesis
      using step by (auto simp: order_attribute_def Let_def split: if_split_asm bind_splits intro!: set order_parts unreported.same)
  qed (simp add: unreported.same)
qed

lemma attributes_wf:
  assumes "order_attributes filepath il i s p = Some p'" "i < length (symb_order p)"
  shows "unreported (runner_open i) p p'"
proof -
  have "i < length (symb_order p) \<longrightarrow> unreported (runner_open i) p p'"
  proof (rule order_attributes.raw_induct [where P = "\<lambda>filepath il i s p p'. i < length (symb_order p) \<longrightarrow> unreported (runner_open i) p p'", OF _ assms(1)])
    fix rec filepath il i s and p p' :: "'a parse"
    assume ih: "\<And>filepath il i s p p'. rec filepath il i s p = Some p' \<Longrightarrow> i < length (symb_order p) \<longrightarrow> unreported (runner_open i) p p'"
      and run: "do {
         vs \<leftarrow> sscanf s ''%15s %n%*[^,]%n, %n'';
         (let n1 = position_var vs 2; n2 = position_var vs 3 in
          if n1 = 0 then Some p
          else do {
            p1 \<leftarrow> order_attribute filepath il i (text_var vs 0) (line_part s (position_var vs 1) n1) p;
            (if n2 = 0 then Some p1 else rec filepath il i (drop n2 s) p1)
          })
       } = Some p'"
    show "i < length (symb_order p) \<longrightarrow> unreported (runner_open i) p p'"
      using run unfolding Let_def
      by (auto split: bind_splits if_split_asm dest!: attribute_step ih intro: unreported.compose unreported.same)
  qed
  with assms(2) show ?thesis by blast
qed

lemma order_line_wf:
  assumes line: "order_line filepath il line p = Some p'"
  shows "unreported parse_wf p p'"
proof -
  have added: "parse_wf p2"
    if wf: "parse_wf p" and add: "wahe_add_symbol_to_table (symb_order p) nm = Some (i, table)"
      and attributes: "order_attributes filepath il i s (upd_parsed_chain (set_order_count (Suc i)) (p\<lparr>symb_order := table\<rparr>)) = Some p1"
      and check: "check_order_runner filepath il i p1 = Some p2" "err_log p2 = []" and "err_log p = []" for nm i table s p1 p2
  proof -
    let ?p = "upd_parsed_chain (set_order_count (Suc i)) (p\<lparr>symb_order := table\<rparr>)"
    have t: "i = length (symb_order p)" "length table = Suc i" using symbol_added [OF add] by simp_all
    have "?p = (upd_parsed_chain (set_order_count (Suc i)) p)\<lparr>symb_order := table\<rparr>" by (simp add: upd_parsed_chain_def)
    then have p: "parse_wf ?p" using order_added [OF wf, of table] t by simp
    have i: "i < length (symb_order ?p)" using t by (simp add: upd_parsed_chain_def)
    then have "i < length (exec_order (chains (group ?p) ! chain_ix ?p))" "chain_ix ?p < length (chains (group ?p))"
      using p by (simp_all add: parse_wf_def)
    then have "order_wf (modules (group ?p)) (exec_order (chains (group ?p) ! chain_ix ?p) ! i)"
      using current_chain_wf [OF p] by (simp add: chain_wf_def)
    then have "runner_open i ?p"
      unfolding runner_open_def using p by (intro parse_wf_order) (auto simp: parse_wf_def order_wf_def runner_zero_def)
    moreover have "err_log p1 = []" using check by (auto simp: check_order_runner_def Let_def split: bind_splits if_split_asm)
    ultimately have "runner_open i p1" using attributes_wf [OF attributes i] by (simp add: unreported_def)
    then show ?thesis by (rule check_runner_wf [OF check])
  qed
  have clean: "err_log p1 = [] \<and> err_log p0 = []"
    if "wahe_add_symbol_to_table (symb_order p) nm = Some (i, table)"
      "order_attributes filepath il i s (upd_parsed_chain (set_order_count (Suc i)) (p0\<lparr>symb_order := table\<rparr>)) = Some p1"
      "check_order_runner filepath il i p1 = Some p2" "err_log p2 = []" for nm i table s p0 p1 p2
  proof -
    have 1: "err_log p1 = []" using that(3,4) by (auto simp: check_order_runner_def Let_def split: bind_splits if_split_asm)
    have "i < length (symb_order (upd_parsed_chain (set_order_count (Suc i)) (p0\<lparr>symb_order := table\<rparr>)))"
      using symbol_added [OF that(1)] by (simp add: upd_parsed_chain_def)
    with 1 show ?thesis using attributes_wf [OF that(2)] by (simp add: unreported_def upd_parsed_chain_def)
  qed
  obtain vs where vs: "sscanf line ''Order %n%*[^:]%n: %n'' = Some vs"
    using line by (auto simp: order_line_def split: bind_splits)
  define nm where "nm = line_part line (position_var vs 0) (position_var vs 1)"
  show ?thesis
  proof (cases "position_var vs 2 = 0")
    case True
    with line vs show ?thesis by (simp add: order_line_def unreported.same)
  next
    case False
    obtain known where known: "wahe_find_symbol_in_table (symb_order p) nm = Some known"
      using line vs False by (auto simp: order_line_def nm_def Let_def split: bind_splits)
    obtain i table where add: "wahe_add_symbol_to_table (symb_order p) nm = Some (i, table)"
      using line vs False by (auto simp: order_line_def nm_def Let_def split: bind_splits)
    define p0 where p0: "p0 = (if known \<noteq> - 1 then log_error filepath il (''Order symbol name '' @ quoted nm @ '' already taken'') p else p)"
    have "do { p2 \<leftarrow> order_attributes filepath il i (drop (position_var vs 2) line) (upd_parsed_chain (set_order_count (i + 1)) (p0\<lparr>symb_order := table\<rparr>));
        check_order_runner filepath il i p2 } = Some p'"
      using line vs False known add unfolding order_line_def Let_def nm_def p0 by simp
    then obtain p1 where rest: "order_attributes filepath il i (drop (position_var vs 2) line) (upd_parsed_chain (set_order_count (Suc i)) (p0\<lparr>symb_order := table\<rparr>)) = Some p1"
          "check_order_runner filepath il i p1 = Some p'"
      by (auto split: bind_splits)
    show ?thesis
      unfolding unreported_def
    proof (intro impI conjI)
      assume e: "err_log p' = []"
      then have "err_log p0 = []" using clean [OF add rest] by simp
      then have "p0 = p" using p0 by (simp split: if_splits)
      then show "err_log p = []" "parse_wf p \<Longrightarrow> parse_wf p'"
        using \<open>err_log p0 = []\<close> added [OF _ add _ rest(2) e] rest(1) by simp_all
    qed
  qed
qed

lemma connection_line_wf:
  assumes line: "connection_line filepath il line p = Some p'"
  shows "unreported parse_wf p p'"
proof -
  have added: "parse_wf (upd_parsed_chain (\<lambda>x. x\<lparr>connection := connection x @ [\<lparr>src_eo = src, dst_eo = dst\<rparr>]\<rparr>) p)"
    if wf: "parse_wf p" and "0 \<le> src \<and> nat src < length (symb_order p)" "0 \<le> dst \<and> nat dst < length (symb_order p)" for src dst
    using current_chain_wf [OF wf] that
    by (intro parse_wf_same_count) (auto simp: chain_wf_def connection_wf_def parse_wf_def)
  have log: "err_log (upd_parsed_chain f p) = err_log p" for f and p :: "'a parse" by (simp add: upd_parsed_chain_def)
  obtain vs where vs: "sscanf line ''Connection %n%*s%n - %n%*s%n'' = Some vs"
    using line by (auto simp: connection_line_def split: bind_splits)
  show ?thesis
  proof (cases "position_var vs 3 = 0")
    case True
    with line vs show ?thesis by (simp add: connection_line_def unreported.same)
  next
    case False
    define src_name dst_name where "src_name = line_part line (position_var vs 0) (position_var vs 1)"
      and "dst_name = line_part line (position_var vs 2) (position_var vs 3)"
    obtain src dst where found: "wahe_find_symbol_in_table (symb_order p) src_name = Some src" "wahe_find_symbol_in_table (symb_order p) dst_name = Some dst"
      using line vs False by (auto simp: connection_line_def src_name_def dst_name_def Let_def split: bind_splits)
    then have p': "src \<noteq> - 1 \<and> dst \<noteq> - 1 \<and> p' = upd_parsed_chain (\<lambda>x. x\<lparr>connection := connection x @ [\<lparr>src_eo = src, dst_eo = dst\<rparr>]\<rparr>) p \<or>
        err_log p' \<noteq> []"
      using line vs False by (auto simp: connection_line_def src_name_def dst_name_def Let_def split: if_split_asm)
    show ?thesis
      using p' added symbol_found [OF found(1)] symbol_found [OF found(2)] by (auto simp: unreported_def log)
  qed
qed

lemma processor_line_wf:
  assumes line: "processor_line filepath il line p = Some (flow, p')"
  shows "unreported parse_wf p p'"
proof -
  have added: "parse_wf (upd_parsed_order i (\<lambda>eo. eo\<lparr>cmd_proc_id := cmd_proc_id eo @ [m]\<rparr>) p)"
    if wf: "parse_wf p" and m: "0 \<le> m \<and> nat m < length (symb_module p)" and i: "parsed_order i p = Some eo" for m i eo
  proof (rule parse_wf_order [OF wf])
    have "order_wf (modules (group p)) (exec_order (chains (group p) ! chain_ix p) ! i)"
      using current_chain_wf [OF wf] i by (auto simp: chain_wf_def parsed_order_def order_at_def split: if_splits)
    then show "order_wf (modules (group p)) ((exec_order (chains (group p) ! chain_ix p) ! i)
        \<lparr>cmd_proc_id := cmd_proc_id (exec_order (chains (group p) ! chain_ix p) ! i) @ [m]\<rparr>)"
      using wf m by (auto simp: order_wf_def parse_wf_def)
  qed
  show ?thesis
    using line unfolding processor_line_def Let_def unreported_def
    by (auto split: bind_splits if_split_asm dest: symbol_found intro: added)
qed

section \<open>Files\<close>

lemma parse_line_wf:
  assumes law: "services_keep_structure S" and line: "parse_line S filepath dir_path all_lines il line p = Some (after, p')"
  shows "unreported parse_wf p p'"
  using line unfolding parse_line_def
  by (auto split: bind_splits if_split_asm prod.splits
      dest!: module_line_wf [OF law] send_line_wf [OF law] chain_line_wf order_line_wf connection_line_wf processor_line_wf)
    (meson unreported.compose)+

section \<open>Before the first module\<close>

text \<open>
  Before its first module is declared a group may get chains, but no order that calls a module: such an order would name the
  module of index zero before there is one, unseen by the check of its runner.
\<close>

fun module_first :: "string list \<Rightarrow> bool" where
  "module_first [] = False"
| "module_first (line # ls) =
     (case sscanf line ''Module %n%*[^:]%n: \"%n%*[^\"]%n'' of
        None \<Rightarrow> False
      | Some vs \<Rightarrow>
          position_var vs 3 \<noteq> 0 \<or>
          (case sscanf line ''Order %n%*[^:]%n: %n'' of None \<Rightarrow> False | Some vs \<Rightarrow> position_var vs 2 = 0) \<and> module_first ls)"

definition with_module :: "wahe_module_t \<Rightarrow> 'g parse \<Rightarrow> 'g parse" where
  "with_module x p = p\<lparr>group := (group p)\<lparr>modules := [x]\<rparr>, symb_module := [(0, [])]\<rparr>"

definition early :: "'g parse \<Rightarrow> bool" where
  "early p \<longleftrightarrow> modules (group p) = [] \<and> symb_module p = [] \<and> (\<forall>x. 0 < runner_count x \<longrightarrow> parse_wf (with_module x p))"

lemma with_module_log [simp]: "err_log (with_module x p) = err_log p"
  by (simp add: with_module_def)

lemma no_symbol: "wahe_find_symbol_in_table [] name = Some i \<Longrightarrow> i = - 1"
  by (auto simp: wahe_find_symbol_in_table_def split: bind_splits)

lemma early_transfer:
  assumes "\<And>x. unreported parse_wf (with_module x p) (with_module x p')"
    and "modules (group p') = modules (group p)" "symb_module p' = symb_module p"
  shows "unreported early p p'"
  using assms by (auto simp: unreported_def early_def)

lemma early_chain:
  assumes line: "chain_line line p = Some p'"
  shows "unreported early p p'"
proof (rule early_transfer)
  have "chain_line line (with_module x p) = Some (with_module x p')" for x
    using line by (auto simp: chain_line_def with_module_def upd_parsed_order_def upd_parsed_chain_def upd_order_def upd_chain_def
        Let_def split: bind_splits if_split_asm prod.splits)
  then show "unreported parse_wf (with_module x p) (with_module x p')" for x by (rule chain_line_wf)
qed (use line in \<open>auto simp: chain_line_def upd_parsed_order_def upd_parsed_chain_def upd_order_def upd_chain_def
        Let_def split: bind_splits if_split_asm prod.splits\<close>)

lemma early_connection:
  assumes line: "connection_line filepath il line p = Some p'"
  shows "unreported early p p'"
proof (rule early_transfer)
  have "connection_line filepath il line (with_module x p) = Some (with_module x p')" for x
    using line by (auto simp: connection_line_def with_module_def upd_parsed_chain_def upd_chain_def log_error_def
        Let_def split: bind_splits if_split_asm prod.splits)
  then show "unreported parse_wf (with_module x p) (with_module x p')" for x by (rule connection_line_wf)
qed (use line in \<open>auto simp: connection_line_def upd_parsed_chain_def upd_chain_def log_error_def
        Let_def split: bind_splits if_split_asm prod.splits\<close>)

text \<open>Without modules a message or a command processor names none and is reported.\<close>

lemma early_send:
  assumes "send_line S filepath all_lines il line p = Some ((flow, il1), p')" "early p" "err_log p' = []"
  shows "flow = Same_line \<and> il1 = il \<and> p' = p"
  using assms by (auto simp: send_line_def early_def Let_def split: bind_splits if_split_asm prod.splits dest!: no_symbol)

lemma early_processor:
  assumes "processor_line filepath il line p = Some (flow, p')" "early p" "err_log p' = []"
  shows "flow = Same_line \<and> p' = p"
  using assms by (auto simp: processor_line_def early_def Let_def split: bind_splits if_split_asm prod.splits dest!: no_symbol)

text \<open>The first module makes the group what it is afterwards.\<close>

lemma module_begins:
  assumes law: "services_keep_structure S" and line: "module_line S filepath dir_path il line p = Some (flow, p')"
    and vs: "sscanf line ''Module %n%*[^:]%n: \"%n%*[^\"]%n'' = Some vs" "position_var vs 3 \<noteq> 0"
    and "early p" "err_log p' = []"
  shows "flow = Same_line \<and> err_log p = [] \<and> parse_wf p'"
proof -
  have added: "parse_wf (p\<lparr>symb_module := table, group := upd_module i (\<lambda>x. x\<lparr>wahe_name := make_string_copy (Some nm)\<rparr>) w2\<rparr>)"
    if add: "wahe_add_symbol_to_table (symb_module p) nm = Some (i, table)" "module_options opt (Suc 0) WAHE_BACKEND_DEFAULT = Some (Some (count, backend))"
      "add_module_slot S i (group p) = (True, w1)" "load_module S dir_path i path count backend w1 = Some w2" for nm i table opt count backend w1 path w2
  proof -
    let ?v = "upd_module i (\<lambda>x. x\<lparr>wahe_name := make_string_copy (Some nm)\<rparr>) w2"
    have i: "i = 0" "length table = 1" "modules (group p) = []"
      using \<open>early p\<close> symbol_added [OF add(1)] by (simp_all add: early_def)
    have slot: "modules w1 = [zero_module]" "chains w1 = chains (group p)"
      using slot_added [of S "group p" w1] add(3) i by simp_all
    obtain name where "same_structure (upd_module i (\<lambda>_. blank_module i name count) w1) w2"
      using module_slot_loaded [OF law add(4)] by blast
    then have s: "same_structure (upd_module i (\<lambda>_. blank_module i name count) w1) ?v"
      by (rule structure_trans [OF _ structure_module]) simp
    have "0 < runner_count (blank_module i name count)" using options_count [OF add(2)] by (simp add: blank_module_def Let_def)
    then have wf: "parse_wf (with_module (blank_module i name count) p)" using \<open>early p\<close> by (simp add: early_def)
    have "same_structure (group (with_module (blank_module i name count) p)) ?v"
      using s slot i(1) by (simp add: same_structure_def with_module_def)
    from parse_wf_structure [OF wf this] show ?thesis using i(2) by (simp add: parse_wf_def with_module_def)
  qed
  show ?thesis
    using line vs \<open>err_log p' = []\<close> unfolding module_line_def Let_def
    by (auto split: bind_splits if_split_asm option.splits prod.splits intro: added)
qed

text \<open>One line of the part before it.\<close>

lemma early_line:
  assumes law: "services_keep_structure S" and line: "parse_line S filepath dir_path all_lines il line p = Some (after, p')"
    and "early p" "module_first (line # ls)" "err_log p' = []"
  shows "err_log p = [] \<and> (parse_wf p' \<or> early p' \<and> after = Some (il + 1) \<and> module_first ls)"
proof -
  obtain vs where vs: "sscanf line ''Module %n%*[^:]%n: \"%n%*[^\"]%n'' = Some vs"
    using assms(4) by (auto split: option.splits)
  obtain flow p1 where m: "module_line S filepath dir_path il line p = Some (flow, p1)"
    using line by (auto simp: parse_line_def split: bind_splits)
  show ?thesis
  proof (cases "position_var vs 3 = 0")
    case False
    have rest: "unreported parse_wf p1 p'"
      using line m unfolding parse_line_def
      by (auto split: bind_splits if_split_asm prod.splits simp: unreported.same
          dest!: send_line_wf [OF law] chain_line_wf order_line_wf connection_line_wf processor_line_wf)
        (meson unreported.compose)+
    then have "err_log p1 = []" using assms(5) by (simp add: unreported_def)
    from module_begins [OF law m vs False assms(3) this] rest assms(5) show ?thesis by (simp add: unreported_def)
  next
    case True
    then obtain vo where vo: "sscanf line ''Order %n%*[^:]%n: %n'' = Some vo" "position_var vo 2 = 0" "module_first ls"
      using assms(4) vs by (auto split: option.splits)
    have flow: "flow = Same_line" "p1 = p" using m vs True by (auto simp: module_line_def)
    obtain flow2 il1 p2 where s: "send_line S filepath all_lines il line p = Some ((flow2, il1), p2)"
      using line m by (auto simp: parse_line_def flow split: bind_splits)
    have later: "unreported parse_wf p2 p'"
      using line m s unfolding parse_line_def flow
      by (auto split: bind_splits if_split_asm prod.splits simp: unreported.same
          dest!: chain_line_wf order_line_wf connection_line_wf processor_line_wf)
        (meson unreported.compose)+
    then have "err_log p2 = []" using assms(5) by (simp add: unreported_def)
    from early_send [OF s assms(3) this] have same: "flow2 = Same_line" "il1 = il" "p2 = p" by simp_all
    obtain p3 p5 flow3 where steps: "chain_line line p = Some p3" "connection_line filepath il line p3 = Some p5"
        "processor_line filepath il line p5 = Some (flow3, p')" "after = (if flow3 = Stop_file then None else Some (il + 1))"
      using line m s vo(1,2) by (auto simp: parse_line_def flow same order_line_def split: bind_splits)
    have "unreported early p p5" using early_chain [OF steps(1)] early_connection [OF steps(2)] by (rule unreported.compose)
    moreover have "err_log p5 = []" using processor_line_wf [OF steps(3)] assms(5) by (simp add: unreported_def)
    ultimately have "early p5" "err_log p = []" using assms(3) by (simp_all add: unreported_def)
    with early_processor [OF steps(3) _ assms(5)] steps(4) vo(3) show ?thesis by simp
  qed
qed

text \<open>A whole file, with the modules there from the start or declared before the first order.\<close>

lemma parse_lines_wf:
  assumes law: "services_keep_structure S" and run: "parse_lines S filepath dir_path all_lines il p = Some p'"
  shows "err_log p' = [] \<longrightarrow> err_log p = [] \<and>
    (parse_wf p \<or> 0 \<le> il \<and> early p \<and> module_first (drop (nat il) all_lines) \<longrightarrow> parse_wf p')"
proof (rule parse_lines.raw_induct [where P = "\<lambda>S' filepath dir_path all_lines il p p'. S' = S \<longrightarrow> err_log p' = [] \<longrightarrow> err_log p = [] \<and>
    (parse_wf p \<or> 0 \<le> il \<and> early p \<and> module_first (drop (nat il) all_lines) \<longrightarrow> parse_wf p')", OF _ run, THEN mp, OF _ refl])
  fix rec filepath dir_path all_lines il and S' and p p' :: "'a parse"
  assume ih: "\<And>S' filepath dir_path all_lines il p p'. rec S' filepath dir_path all_lines il p = Some p' \<Longrightarrow> S' = S \<longrightarrow> err_log p' = [] \<longrightarrow>
      err_log p = [] \<and> (parse_wf p \<or> 0 \<le> il \<and> early p \<and> module_first (drop (nat il) all_lines) \<longrightarrow> parse_wf p')"
    and step: "(if int (length all_lines) \<le> il then Some p
      else if il < 0 then None
      else do {
        (after, p1) \<leftarrow> parse_line S' filepath dir_path all_lines il (all_lines ! nat il) p;
        (case after of None \<Rightarrow> Some p1 | Some il1 \<Rightarrow> rec S' filepath dir_path all_lines il1 p1)
      }) = Some p'"
  show "S' = S \<longrightarrow> err_log p' = [] \<longrightarrow> err_log p = [] \<and>
    (parse_wf p \<or> 0 \<le> il \<and> early p \<and> module_first (drop (nat il) all_lines) \<longrightarrow> parse_wf p')"
  proof (intro impI)
    assume S: "S' = S" and clean: "err_log p' = []"
    show "err_log p = [] \<and> (parse_wf p \<or> 0 \<le> il \<and> early p \<and> module_first (drop (nat il) all_lines) \<longrightarrow> parse_wf p')"
    proof (cases "int (length all_lines) \<le> il")
      case True
      then show ?thesis using step clean by auto
    next
      case False
      then obtain after p1 where line: "parse_line S filepath dir_path all_lines il (all_lines ! nat il) p = Some (after, p1)"
          and on: "(case after of None \<Rightarrow> Some p1 | Some il1 \<Rightarrow> rec S filepath dir_path all_lines il1 p1) = Some p'" and il: "0 \<le> il"
        using step S by (auto split: bind_splits if_split_asm)
      have after: "err_log p1 = [] \<and> (parse_wf p1 \<or> (\<exists>i. after = Some i \<and> 0 \<le> i \<and> early p1 \<and> module_first (drop (nat i) all_lines)) \<longrightarrow> parse_wf p')"
        using on clean by (auto split: option.splits dest!: ih)
      have l: "drop (nat il) all_lines = all_lines ! nat il # drop (nat (il + 1)) all_lines"
        using False il Cons_nth_drop_Suc [of "nat il" all_lines] by (simp add: nat_add_distrib)
      show ?thesis
        using after parse_line_wf [OF law line] early_line [OF law line, of "drop (nat (il + 1)) all_lines"] il
          unfolding l unreported_def by (auto simp del: module_first.simps)
    qed
  qed
qed

lemma module_symbols_length: "module_symbols xs t = Some t' \<Longrightarrow> length t' = length t + length xs"
  by (induction xs arbitrary: t) (auto split: bind_splits dest!: symbol_added)

text \<open>
  C2. A group file that is read without a report leaves every chain of the group fit to run: each order has a type and
  a function of its enumeration, a module and command processors of the group and a runner the module has, and each connection joins two
  orders of its chain. This holds for a group whose modules have runners and whose default chain has no orders; in a
  group without modules yet (a fresh one) the file has to declare a module before its first order (\<^const>\<open>module_first\<close>), since the order would
  otherwise name module zero unseen by the check. The services and the modules that are loaded and sent messages do not
  change modules and chains themselves (\<^const>\<open>services_keep_structure\<close>).
\<close>

theorem parsed_group_fit_to_run:
  assumes "services_keep_structure S" and "group_wf w" and "\<forall>x\<in>set (modules w). 0 < runner_count x"
    and "chains w = [] \<or> exec_order (hd (chains w)) = []"
    and "file_lines (raw_file S filepath w) = Some ls" and "modules w = [] \<longrightarrow> module_first ls"
    and "wahe_file_parse S filepath [] w = Some ([], w')"
  shows "group_wf w'"
proof -
  let ?cs = "if chains w = [] then [zero_chain] else chains w"
  obtain g table dir_path p where table: "module_symbols (modules w) [] = Some table"
    and run: "parse_lines S filepath dir_path ls 0
      \<lparr>group = w\<lparr>registry := g, chains := ?cs[0 := (?cs ! 0)\<lparr>has_group := True\<rparr>], cur_chain := Some 0\<rparr>,
       symb_module = table, symb_order = [], chain_ix = 0, err_log = []\<rparr> = Some p"
    and p: "err_log p = []" "group p = w'"
    using assms(5,7) by (auto simp: wahe_file_parse_def Let_def split: bind_splits)
  let ?p = "\<lparr>group = w\<lparr>registry := g, chains := ?cs[0 := (?cs ! 0)\<lparr>has_group := True\<rparr>], cur_chain := Some 0\<rparr>,
       symb_module = table, symb_order = [], chain_ix = 0, err_log = []\<rparr>"
  have start: "parse_wf (?p\<lparr>group := (group ?p)\<lparr>modules := ms\<rparr>, symb_module := t\<rparr>)"
    if ms: "modules_grow (modules w) ms" "ms \<noteq> []" "\<forall>x\<in>set ms. 0 < runner_count x" "length t = length ms" for ms t
  proof -
    have wf: "\<forall>x\<in>set (chains w). chain_wf ms x"
      using assms(2) ms(1) by (auto simp: group_wf_def intro: chain_wf_grow)
    then have "chain_wf ms ((?cs ! 0)\<lparr>has_group := True\<rparr>)"
      by (auto simp: chain_wf_def zero_chain_def)
    with wf ms assms(4) show ?thesis by (cases "chains w") (auto simp: parse_wf_def group_wf_def zero_chain_def)
  qed
  have "parse_wf ?p \<or> early ?p \<and> module_first ls"
  proof (cases "modules w = []")
    case True
    have "early ?p"
      using True start [of "[_]" "[(0, [])]"] table by (simp add: early_def with_module_def modules_grow_def)
    then show ?thesis using True assms(6) by blast
  next
    case False
    then show ?thesis
      using start [of "modules w" table] assms(3) module_symbols_length [OF table] by (simp add: modules_grow_def)
  qed
  with parse_lines_wf [OF assms(1) run] p show ?thesis by (auto simp: parse_wf_def)
qed

definition parse_world :: "unit world" where
  "parse_world = sample_world\<lparr>modules := [translated_module\<lparr>wahe_name := Some ''m'', runner_count := 2\<rparr>], chains := [],
     registry := (registry sample_world)\<lparr>host_commands_registered := True\<rparr>\<rparr>"

definition group_file :: string where
  "group_file = ''Chain c\<newline>Order a: module m, runner 1\<newline>''"

definition parse_services :: "unit services" where
  "parse_services = sample_services\<lparr>raw_file := \<lambda>path w. Some (bytes_of_string group_file)\<rparr>"

lemma sample_lines: "file_lines (Some (bytes_of_string group_file)) = Some [''Chain c'', ''Order a: module m, runner 1'']"
  by code_simp

lemma formats:
  "scanf_format ''Module %n%*[^:]%n: \"%n%*[^\"]%n'' = map Exactly ''Module'' @ [Blanks, Position, Skip_until CHR '':'', Position, Exactly CHR '':'', Blanks,
     Exactly CHR 0x22, Position, Skip_until CHR 0x22, Position]"
  "scanf_format ''Send to %n%*[^:]%n: %n'' = map Exactly ''Send'' @ Blanks # map Exactly ''to'' @ [Blanks, Position, Skip_until CHR '':'', Position, Exactly CHR '':'', Blanks, Position]"
  "scanf_format ''Send %d lines to %n%*[^:]%n:%n'' = map Exactly ''Send'' @ [Blanks, Int_decimal, Blanks] @ map Exactly ''lines'' @ Blanks # map Exactly ''to'' @
     [Blanks, Position, Skip_until CHR '':'', Position, Exactly CHR '':'', Position]"
  "scanf_format ''Chain %n%*[^\<newline>]%n'' = map Exactly ''Chain'' @ [Blanks, Position, Skip_until CHR 0x0A, Position]"
  "scanf_format ''Order %n%*[^:]%n: %n'' = map Exactly ''Order'' @ [Blanks, Position, Skip_until CHR '':'', Position, Exactly CHR '':'', Blanks, Position]"
  by (simp_all add: scanf_format.simps is_space_def)

lemma more_formats:
  "scanf_format ''Connection %n%*s%n - %n%*s%n'' = map Exactly ''Connection'' @ [Blanks, Position, Skip_word, Position, Blanks, Exactly CHR ''-'', Blanks, Position, Skip_word, Position]"
  "\<exists>ds. scanf_format ''Command processor in module %n%*s%n for order %n%*s%n'' = map Exactly ''Com'' @ ds"
  "scanf_format ''%15s %n%*[^,]%n, %n'' = [Text_word 15, Blanks, Position, Skip_until CHR '','', Position, Exactly CHR '','', Blanks, Position]"
  "scanf_format ''%zu%n'' = [Size_decimal, Position]"
  by (simp_all add: scanf_format.simps is_space_def)


lemmas scan_simps = sscanf_def formats more_formats is_space_def scan_size_def split_sign_def scan_number_def is_digit_in_def digit_value_def Let_def

lemma scans_chain:
  "sscanf ''Chain c'' ''Module %n%*[^:]%n: \"%n%*[^\"]%n'' = Some []"
  "sscanf ''Chain c'' ''Send to %n%*[^:]%n: %n'' = Some []"
  "sscanf ''Chain c'' ''Send %d lines to %n%*[^:]%n:%n'' = Some []"
  "sscanf ''Chain c'' ''Chain %n%*[^\<newline>]%n'' = Some [Scanned_position 6, Scanned_position 7]"
  "sscanf ''Chain c'' ''Order %n%*[^:]%n: %n'' = Some []"
  "sscanf ''Chain c'' ''Connection %n%*s%n - %n%*s%n'' = Some []"
  by (simp_all add: scan_simps)


lemma scans_order:
  "sscanf ''Order a: module m, runner 1'' ''Module %n%*[^:]%n: \"%n%*[^\"]%n'' = Some []"
  "sscanf ''Order a: module m, runner 1'' ''Send to %n%*[^:]%n: %n'' = Some []"
  "sscanf ''Order a: module m, runner 1'' ''Send %d lines to %n%*[^:]%n:%n'' = Some []"
  "sscanf ''Order a: module m, runner 1'' ''Chain %n%*[^\<newline>]%n'' = Some []"
  "sscanf ''Order a: module m, runner 1'' ''Order %n%*[^:]%n: %n'' = Some [Scanned_position 6, Scanned_position 7, Scanned_position 9]"
  "sscanf ''Order a: module m, runner 1'' ''Connection %n%*s%n - %n%*s%n'' = Some []"
  "sscanf ''module m, runner 1'' ''%15s %n%*[^,]%n, %n'' = Some [Scanned_text ''module'', Scanned_position 7, Scanned_position 8, Scanned_position 10]"
  "sscanf ''runner 1'' ''%15s %n%*[^,]%n, %n'' = Some [Scanned_text ''runner'', Scanned_position 7, Scanned_position 8]"
  "sscanf ''1'' ''%zu%n'' = Some [Scanned_size 1, Scanned_position 1]"
  by (simp_all add: scan_simps)

lemma scans_processor:
  "sscanf ''Chain c'' ''Command processor in module %n%*s%n for order %n%*s%n'' = Some []"
  "sscanf ''Order a: module m, runner 1'' ''Command processor in module %n%*s%n for order %n%*s%n'' = Some []"
  using more_formats(2) by (auto simp: sscanf_def)

lemmas var_simps = position_var_def int_var_def size_var_def text_var_def line_part_def

lemma sample_chain_line:
  "parse_line parse_services f d ls 0 ''Chain c'' p =
     map_option (\<lambda>p'. (Some 1, p')) (chain_line ''Chain c'' p)"
  by (cases "chain_line ''Chain c'' p") (simp_all add: parse_line_def module_line_def send_line_def send_format_def order_line_def connection_line_def processor_line_def
      scans_chain scans_processor var_simps Let_def)

lemma sample_order_line:
  "parse_line parse_services f d ls 1 ''Order a: module m, runner 1'' p =
     map_option (\<lambda>p'. (Some 2, p')) (order_line f 1 ''Order a: module m, runner 1'' p)"
  by (simp add: parse_line_def module_line_def send_line_def send_format_def chain_line_def connection_line_def processor_line_def
      scans_order scans_processor var_simps Let_def map_option_case split: option.split)


definition sample_parse :: "unit parse" where
  "sample_parse = \<lparr>group = parse_world\<lparr>chains := [zero_chain\<lparr>has_group := True\<rparr>], cur_chain := Some 0\<rparr>,
     symb_module = [(string_hash ''m'', ''m'')], symb_order = [], chain_ix = 0, err_log = []\<rparr>"

definition sample_chain :: "wahe_exec_order_t list \<Rightarrow> wahe_chain_t" where
  "sample_chain orders = zero_chain\<lparr>chain_name := Some ''c'', has_group := True, exec_order := orders\<rparr>"

lemma sample_chain_parsed:
  "chain_line ''Chain c'' sample_parse = Some (sample_parse
     \<lparr>group := parse_world\<lparr>chains := [zero_chain\<lparr>has_group := True\<rparr>, sample_chain [zero_order\<lparr>eo_type := WAHE_EO_CHAIN_INPUT_MSG\<rparr>]], cur_chain := Some 0\<rparr>,
      symb_order := [(string_hash ''chain_input_msg'', ''chain_input_msg'')], chain_ix := 1\<rparr>)"
  by (simp add: chain_line_def scans_chain wahe_add_symbol_to_table_def get_string_hash_ref var_simps sample_parse_def make_string_copy_len_def
      upd_parsed_order_def upd_parsed_chain_def upd_order_def upd_chain_def set_order_count_def sample_chain_def zero_chain_def Let_def)

lemma sample_attributes:
  "order_attributes f 1 i ''module m, runner 1'' p =
     do { p1 \<leftarrow> order_attribute f 1 i ''module'' ''m'' p; order_attribute f 1 i ''runner'' ''1'' p1 }"
proof -
  have last: "order_attributes f 1 i ''runner 1'' p = order_attribute f 1 i ''runner'' ''1'' p" for p :: "'a parse"
    by (subst order_attributes.simps) (cases "order_attribute f 1 i ''runner'' ''1'' p", simp_all add: scans_order var_simps make_string_copy_len_def)
  show ?thesis by (subst order_attributes.simps) (simp add: scans_order var_simps make_string_copy_len_def last)
qed

definition sample_orders_parsed :: "wahe_exec_order_t list \<Rightarrow> wahe_symbol_table_t \<Rightarrow> unit parse" where
  "sample_orders_parsed orders table = sample_parse
     \<lparr>group := parse_world\<lparr>chains := [zero_chain\<lparr>has_group := True\<rparr>, sample_chain orders], cur_chain := Some 0\<rparr>,
      symb_order := table, chain_ix := 1\<rparr>"

lemma sample_upd:
  "upd_parsed_order e f (sample_orders_parsed orders table) = sample_orders_parsed (orders[e := f (orders ! e)]) table"
  "upd_parsed_chain (set_order_count (Suc (length orders))) ((sample_orders_parsed orders t)\<lparr>symb_order := table\<rparr>) =
     sample_orders_parsed (orders @ [zero_order]) table"
  "parsed_order e (sample_orders_parsed orders table) = (if e < length orders then Some (orders ! e) else None)"
  "symb_module (sample_orders_parsed orders table) = [(string_hash ''m'', ''m'')]" "symb_order (sample_orders_parsed orders table) = table"
  "modules (group (sample_orders_parsed orders table)) = [translated_module\<lparr>wahe_name := Some ''m'', runner_count := 2\<rparr>]"
  by (simp_all add: sample_orders_parsed_def upd_parsed_order_def upd_parsed_chain_def upd_order_def upd_chain_def sample_chain_def
      set_order_count_def zero_chain_def parsed_order_def order_at_def sample_parse_def parse_world_def)

lemma sample_order_parsed:
  "order_line f 1 ''Order a: module m, runner 1''
     (sample_orders_parsed [zero_order\<lparr>eo_type := WAHE_EO_CHAIN_INPUT_MSG\<rparr>] [(string_hash ''chain_input_msg'', ''chain_input_msg'')]) =
   Some (sample_orders_parsed [zero_order\<lparr>eo_type := WAHE_EO_CHAIN_INPUT_MSG\<rparr>, zero_order\<lparr>eo_runner_id := 1\<rparr>]
     [(string_hash ''chain_input_msg'', ''chain_input_msg''), (string_hash ''a'', ''a'')])"
proof -
  have p: "upd_parsed_chain (set_order_count (Suc (Suc 0))) ((sample_orders_parsed [zero_order\<lparr>eo_type := WAHE_EO_CHAIN_INPUT_MSG\<rparr>] t)\<lparr>symb_order := table\<rparr>) =
     sample_orders_parsed [zero_order\<lparr>eo_type := WAHE_EO_CHAIN_INPUT_MSG\<rparr>, zero_order] table" for t table
    using sample_upd(2) [of "[zero_order\<lparr>eo_type := WAHE_EO_CHAIN_INPUT_MSG\<rparr>]"] by simp
  have m: "order_attribute f 1 (Suc 0) ''module'' ''m'' (sample_orders_parsed [e0, zero_order] table) = Some (sample_orders_parsed [e0, zero_order] table)" for e0 table
    by (simp add: order_attribute_def wahe_find_symbol_in_table_def get_string_hash_ref sample_upd) (simp add: zero_order_def)
  have r: "order_attribute f 1 (Suc 0) ''runner'' ''1'' (sample_orders_parsed [e0, zero_order] table) =
      Some (sample_orders_parsed [e0, zero_order\<lparr>eo_runner_id := 1\<rparr>] table)" for e0 table
    by (simp add: order_attribute_def scans_order var_simps sample_upd is_digit_in_def digit_value_def Let_def)
  have c: "check_order_runner f 1 (Suc 0) (sample_orders_parsed [e0, zero_order\<lparr>eo_runner_id := Suc 0\<rparr>] table) =
      Some (sample_orders_parsed [e0, zero_order\<lparr>eo_runner_id := Suc 0\<rparr>] table)" for e0 table
    by (simp add: check_order_runner_def sample_upd zero_order_def)
  show ?thesis
    by (simp add: order_line_def scans_order sample_attributes wahe_add_symbol_to_table_def wahe_find_symbol_in_table_def get_string_hash_ref var_simps
        sample_upd make_string_copy_len_def p m r c Let_def)
qed

theorem parsed_group_fit_to_run_witness:
  "\<exists>w'. wahe_file_parse parse_services ''g'' [] parse_world = Some ([], w') \<and> group_wf w' \<and> eo_runner_id (exec_order (chains w' ! 1) ! 1) = 1"
proof -
  have law: "services_keep_structure parse_services"
    by (simp add: services_keep_structure_def guest_keeps_structure_def parse_services_def sample_services_def)
  have start: "group_wf parse_world" "\<forall>x\<in>set (modules parse_world). 0 < runner_count x"
      "chains parse_world = [] \<or> exec_order (hd (chains parse_world)) = []"
    by (simp_all add: parse_world_def group_wf_def)
  have lines: "file_lines (raw_file parse_services ''g'' parse_world) = Some [''Chain c'', ''Order a: module m, runner 1'']"
    using sample_lines by (simp add: parse_services_def)
  have path: "\<exists>d b. remove_name_from_path None (Some ''g'') = Some (d, b)"
    by (simp add: remove_name_from_path_def find_last_dirchar_def is_dirchar_def Let_def)
  have reg: "wahe_register_host_commands (registry parse_world) = Some (registry parse_world)"
    by (simp add: wahe_register_host_commands_def parse_world_def)
  have table: "module_symbols (modules parse_world) [] = Some [(string_hash ''m'', ''m'')]"
    by (simp add: parse_world_def wahe_add_symbol_to_table_def get_string_hash_ref)
  have p: "\<lparr>group = parse_world\<lparr>chains := [zero_chain\<lparr>has_group := True\<rparr>], cur_chain := Some 0\<rparr>, symb_module = [(string_hash ''m'', ''m'')],
      symb_order = [], chain_ix = 0, err_log = []\<rparr> = sample_parse"
    by (simp add: sample_parse_def)
  let ?orders = "[zero_order\<lparr>eo_type := WAHE_EO_CHAIN_INPUT_MSG\<rparr>, zero_order\<lparr>eo_runner_id := 1\<rparr>]"
  let ?table = "[(string_hash ''chain_input_msg'', ''chain_input_msg''), (string_hash ''a'', ''a'')]"
  have parsed: "parse_lines parse_services ''g'' d [''Chain c'', ''Order a: module m, runner 1''] 0 sample_parse = Some (sample_orders_parsed ?orders ?table)" for d
  proof -
    have 3: "parse_lines parse_services ''g'' d [''Chain c'', ''Order a: module m, runner 1''] 2 p = Some p" for p
      by (subst parse_lines.simps) simp
    have 2: "parse_lines parse_services ''g'' d [''Chain c'', ''Order a: module m, runner 1''] 1 (sample_orders_parsed
        [zero_order\<lparr>eo_type := WAHE_EO_CHAIN_INPUT_MSG\<rparr>] [(string_hash ''chain_input_msg'', ''chain_input_msg'')]) = Some (sample_orders_parsed ?orders ?table)"
      by (subst parse_lines.simps) (simp add: sample_order_line sample_order_parsed 3)
    have "chain_line ''Chain c'' sample_parse = Some (sample_orders_parsed
        [zero_order\<lparr>eo_type := WAHE_EO_CHAIN_INPUT_MSG\<rparr>] [(string_hash ''chain_input_msg'', ''chain_input_msg'')])"
      using sample_chain_parsed by (simp add: sample_orders_parsed_def)
    then show ?thesis by (subst parse_lines.simps) (simp add: sample_chain_line 2)
  qed
  let ?w = "group (sample_orders_parsed ?orders ?table)"
  have log: "err_log (sample_orders_parsed orders table) = []" for orders table by (simp add: sample_orders_parsed_def sample_parse_def)
  have "(if chains parse_world = [] then [zero_chain] else chains parse_world)[0 := ((if chains parse_world = [] then [zero_chain] else chains parse_world) ! 0)
      \<lparr>has_group := True\<rparr>] = [zero_chain\<lparr>has_group := True\<rparr>]"
    by (simp add: parse_world_def)
  moreover obtain d b where "remove_name_from_path None (Some ''g'') = Some (d, b)" using path by blast
  ultimately have run: "wahe_file_parse parse_services ''g'' [] parse_world = Some ([], ?w)"
    unfolding wahe_file_parse_def lines reg table Let_def by (simp add: p parsed log)
  have "group_wf ?w" by (rule parsed_group_fit_to_run [OF law start lines _ run]) (simp add: parse_world_def)
  with run show ?thesis by (auto simp: sample_orders_parsed_def sample_chain_def)
qed

end
