(* ===== verification/Wamr_Runtime.thy ===== *)
theory Wamr_Runtime
  imports Module_Services
begin

text \<open>
  The build with WAMR instead of Wasmtime: the runtime, runners, memory, symbols and calls of \<open>wahe_wamr.c\<close>, and the
  dispatch of calls in \<open>wahe_core.c\<close> in that build. The fields that only this build has are the \<open>guest\<close> part of the world,
  with WAMR's own state; a pointer to an object of WAMR is a number.
\<close>

section \<open>Data\<close>

datatype wasm_valkind_t = WASM_I32 | WASM_I64 | WASM_OTHER

record wahe_wamr_runner_t =
  wa_module_inst :: "nat option"
  wa_exec_env :: "nat option"
  wa_func :: "wahe_func_id \<Rightarrow> nat option"
  wa_thread_id :: nat
  wa_stack_size :: nat
  wa_tls_alloc :: u64
  wa_input_addr :: u64
  wa_thread_handle :: bool
  wa_thread_reply :: "string option"
  wa_creating :: bool
  wa_joining :: bool

definition zero_wamr_runner :: wahe_wamr_runner_t where
  "zero_wamr_runner = \<lparr>wa_module_inst = None, wa_exec_env = None, wa_func = (\<lambda>_. None), wa_thread_id = 0, wa_stack_size = 0,
     wa_tls_alloc = 0, wa_input_addr = 0, wa_thread_handle = False, wa_thread_reply = None, wa_creating = False, wa_joining = False\<rparr>"

text \<open>The fields of a module for WAMR; a null array of runners is the empty list.\<close>

record wamr_fields =
  wamr_module :: "nat option"
  wamr_memory :: "nat option"
  wamr_module_buffer :: "byte list option"
  wamr_runner :: "wahe_wamr_runner_t option list"

text \<open>The runner a thread is in, the once-only initialisation, and WAMR itself.\<close>

record 'h wamr_host =
  wamr_modules :: "nat \<Rightarrow> wamr_fields"
  cur_wamr_runner :: "(nat \<times> nat) option"
  init_attempted :: bool
  init_done :: bool
  runtime :: 'h

type_synonym 'h wamr_world = "'h wamr_host world"

text \<open>
  WAMR's functions. Those that run no code of a module act on its state and the memory of the process; instantiating and
  calling run code, which may call the host back and may not return. Releasing an object that is not alive is undefined.
\<close>

record 'h wamr =
  native_calls :: "'h wamr_host env"
  alloc_ok :: "nat \<Rightarrow> 'h wamr_world \<Rightarrow> bool"
  running_mode_supported :: "'h \<Rightarrow> bool"
  full_init :: "bool \<Rightarrow> 'h \<times> memory \<Rightarrow> bool \<times> ('h \<times> memory)"
  register_natives :: "'h \<times> memory \<Rightarrow> bool \<times> ('h \<times> memory)"
  load_module :: "byte list \<Rightarrow> 'h \<times> memory \<Rightarrow> nat option \<times> ('h \<times> memory)"
  unload_module :: "nat \<Rightarrow> 'h \<times> memory \<Rightarrow> ('h \<times> memory) option"
  set_wasi_args :: "nat \<Rightarrow> string \<Rightarrow> 'h \<times> memory \<Rightarrow> 'h \<times> memory"
  args_create :: "'h \<times> memory \<Rightarrow> nat option \<times> ('h \<times> memory)"
  args_set :: "nat \<Rightarrow> nat \<Rightarrow> u32 \<Rightarrow> nat \<Rightarrow> 'h \<times> memory \<Rightarrow> 'h \<times> memory"
  args_destroy :: "nat \<Rightarrow> 'h \<times> memory \<Rightarrow> ('h \<times> memory) option"
  instantiate :: "nat \<Rightarrow> nat \<Rightarrow> 'h wamr_world \<Rightarrow> (nat option \<times> 'h wamr_world) option"
  deinstantiate :: "nat \<Rightarrow> 'h \<times> memory \<Rightarrow> ('h \<times> memory) option"
  create_exec_env :: "nat \<Rightarrow> nat \<Rightarrow> 'h \<times> memory \<Rightarrow> nat option \<times> ('h \<times> memory)"
  destroy_exec_env :: "nat \<Rightarrow> 'h \<times> memory \<Rightarrow> ('h \<times> memory) option"
  spawn_exec_env :: "nat \<Rightarrow> 'h \<times> memory \<Rightarrow> nat option \<times> ('h \<times> memory)"
  destroy_spawned_exec_env :: "nat \<Rightarrow> 'h \<times> memory \<Rightarrow> ('h \<times> memory) option"
  env_module_inst :: "nat \<Rightarrow> 'h \<Rightarrow> nat"
  set_custom_data :: "nat \<Rightarrow> nat \<Rightarrow> 'h \<times> memory \<Rightarrow> 'h \<times> memory"
  set_user_data :: "nat \<Rightarrow> nat \<times> nat \<Rightarrow> 'h \<times> memory \<Rightarrow> 'h \<times> memory"
  custom_data :: "nat \<Rightarrow> 'h \<Rightarrow> nat option"
  user_data :: "nat \<Rightarrow> 'h \<Rightarrow> (nat \<times> nat) option"
  default_memory :: "nat \<Rightarrow> 'h \<Rightarrow> nat option"
  memory_base :: "nat \<Rightarrow> 'h \<Rightarrow> u64"
  memory_pages :: "nat \<Rightarrow> 'h \<Rightarrow> u64"
  memory_page_bytes :: "nat \<Rightarrow> 'h \<Rightarrow> u64"
  \<comment> \<open>the kind of an exported global and the address of its storage; an exported function and its type\<close>
  export_global :: "nat \<Rightarrow> string \<Rightarrow> 'h \<Rightarrow> (wasm_valkind_t \<times> u64) option"
  lookup_function :: "nat \<Rightarrow> string \<Rightarrow> 'h \<Rightarrow> nat option"
  function_type :: "nat \<Rightarrow> nat \<Rightarrow> 'h \<Rightarrow> wasm_valkind_t list \<times> wasm_valkind_t list"
  thread_env_inited :: "'h \<Rightarrow> bool"
  init_thread_env :: "'h \<times> memory \<Rightarrow> bool \<times> ('h \<times> memory)"
  destroy_thread_env :: "'h \<times> memory \<Rightarrow> 'h \<times> memory"
  \<comment> \<open>a call: no value when it trapped, else the first result slot\<close>
  call_wasm :: "nat \<Rightarrow> nat \<Rightarrow> bool \<Rightarrow> (wasm_valkind_t \<times> u64) list \<Rightarrow> 'h wamr_world \<Rightarrow> (u64 option \<times> 'h wamr_world) option"
  validate_app_str_addr :: "nat \<Rightarrow> u64 \<Rightarrow> 'h \<Rightarrow> memory \<Rightarrow> bool"
  addr_app_to_native :: "nat \<Rightarrow> u64 \<Rightarrow> 'h \<Rightarrow> u64"
  \<comment> \<open>threads of the operating system, by module and runner\<close>
  start_os_thread :: "nat \<Rightarrow> nat \<Rightarrow> 'h wamr_world \<Rightarrow> bool \<times> 'h wamr_world"
  join_os_thread :: "nat \<Rightarrow> nat \<Rightarrow> 'h wamr_world \<Rightarrow> (bool \<times> 'h wamr_world) option"
  pause_thread :: "'h wamr_world \<Rightarrow> 'h wamr_world"

section \<open>Access\<close>

definition wamr_of :: "nat \<Rightarrow> 'h wamr_world \<Rightarrow> wamr_fields" where
  "wamr_of m w = wamr_modules (guest w) m"

definition upd_wamr :: "nat \<Rightarrow> (wamr_fields \<Rightarrow> wamr_fields) \<Rightarrow> 'h wamr_world \<Rightarrow> 'h wamr_world" where
  "upd_wamr m f w = w\<lparr>guest := (guest w)\<lparr>wamr_modules := (wamr_modules (guest w))(m := f (wamr_of m w))\<rparr>\<rparr>"

definition set_wamr_runner :: "nat \<Rightarrow> nat \<Rightarrow> (wahe_wamr_runner_t \<Rightarrow> wahe_wamr_runner_t) \<Rightarrow> 'h wamr_world \<Rightarrow> 'h wamr_world" where
  "set_wamr_runner m r f = upd_wamr m (\<lambda>x. x\<lparr>wamr_runner := (wamr_runner x)[r := map_option f (wamr_runner x ! r)]\<rparr>)"

definition wamr_object :: "nat \<Rightarrow> nat \<Rightarrow> 'h wamr_world \<Rightarrow> wahe_wamr_runner_t option" where
  "wamr_object m r w =
     (if r < runner_count (modules w ! m) \<and> r < length (wamr_runner (wamr_of m w)) then wamr_runner (wamr_of m w) ! r else None)"

definition set_current_runner :: "(nat \<times> nat) option \<Rightarrow> 'h wamr_world \<Rightarrow> 'h wamr_world" where
  "set_current_runner c w = w\<lparr>guest := (guest w)\<lparr>cur_wamr_runner := c\<rparr>\<rparr>"

definition in_runtime :: "('h \<times> memory \<Rightarrow> 'a \<times> ('h \<times> memory)) \<Rightarrow> 'h wamr_world \<Rightarrow> 'a \<times> 'h wamr_world" where
  "in_runtime f w =
     (case f (runtime (guest w), host_mem w) of
        (a, (h, mem)) \<Rightarrow> (a, w\<lparr>guest := (guest w)\<lparr>runtime := h\<rparr>, host_mem := mem\<rparr>))"

definition runtime_change :: "('h \<times> memory \<Rightarrow> 'h \<times> memory) \<Rightarrow> 'h wamr_world \<Rightarrow> 'h wamr_world" where
  "runtime_change f w = snd (in_runtime (\<lambda>s. ((), f s)) w)"

definition runtime_release :: "('h \<times> memory \<Rightarrow> ('h \<times> memory) option) \<Rightarrow> 'h wamr_world \<Rightarrow> 'h wamr_world option" where
  "runtime_release f w =
     do {
       (h, mem) \<leftarrow> f (runtime (guest w), host_mem w);
       Some (w\<lparr>guest := (guest w)\<lparr>runtime := h\<rparr>, host_mem := mem\<rparr>)
     }"

section \<open>The runtime and the runners\<close>

definition wahe_wamr_runtime_init :: "'h wamr \<Rightarrow> 'h wamr_world \<Rightarrow> bool \<times> 'h wamr_world" where
  "wahe_wamr_runtime_init W w =
     (if init_attempted (guest w) then (init_done (guest w), w)
      else (let w0 = w\<lparr>guest := (guest w)\<lparr>init_attempted := True\<rparr>\<rparr>;
                (full, w1) = in_runtime (full_init W (running_mode_supported W (runtime (guest w0)))) w0
            in if \<not> full then (False, w1)
               else (let (registered, w2) = in_runtime (register_natives W) w1
                     in if \<not> registered then (False, w2)
                        else (True, w2\<lparr>guest := (guest w2)\<lparr>init_done := True\<rparr>\<rparr>))))"

text \<open>The result is the runner's index, which is stable, or null.\<close>

definition wahe_get_wamr_runner :: "nat option \<Rightarrow> nat \<Rightarrow> 'h wamr_world \<Rightarrow> nat option" where
  "wahe_get_wamr_runner ctx r w =
     (case ctx of
        None \<Rightarrow> None
      | Some m \<Rightarrow>
          if mtype (modules w ! m) \<noteq> WAHE_MODULE_WAMR then None
          else if cur_wamr_runner (guest w) = Some (m, r) then Some r
          else (case wamr_object m r w of
                  None \<Rightarrow> None
                | Some ro \<Rightarrow> if wa_thread_id ro \<noteq> 0 then None else Some r))"

definition wahe_wamr_active_runner_id :: "nat option \<Rightarrow> 'h wamr_world \<Rightarrow> nat" where
  "wahe_wamr_active_runner_id ctx w =
     (case (ctx, cur_wamr_runner (guest w)) of
        (Some m, Some (cm, cr)) \<Rightarrow> if mtype (modules w ! m) = WAHE_MODULE_WAMR \<and> cm = m then cr else 0
      | _ \<Rightarrow> 0)"

definition active_runner_id :: "nat option \<Rightarrow> 'h wamr_world \<Rightarrow> nat" where
  "active_runner_id ctx w =
     (if ctx \<noteq> None \<and> ctx = cur_native_module w then cur_native_runner_id w else wahe_wamr_active_runner_id ctx w)"

section \<open>The memory\<close>

text \<open>The size in bytes that WAMR reports, if it is one.\<close>

definition reported_size :: "'h wamr \<Rightarrow> nat \<Rightarrow> 'h \<Rightarrow> nat option" where
  "reported_size W mem h =
     (let pages = memory_pages W mem h; bytes_per_page = memory_page_bytes W mem h in
      if memory_base W mem h = 0 \<or> bytes_per_page = 0 \<or> SIZE_MAX div unat bytes_per_page < unat pages then None
      else Some (unat (pages * bytes_per_page)))"

definition wahe_wamr_refresh_memory :: "'h wamr \<Rightarrow> nat option \<Rightarrow> 'h wamr_world \<Rightarrow> bool \<times> 'h wamr_world" where
  "wahe_wamr_refresh_memory W ctx w =
     (case ctx of
        None \<Rightarrow> (False, w)
      | Some m \<Rightarrow>
          if mtype (modules w ! m) \<noteq> WAHE_MODULE_WAMR then (False, w)
          else (case wamr_memory (wamr_of m w) of
                  None \<Rightarrow> (False, w)
                | Some mem \<Rightarrow>
                    (case reported_size W mem (runtime (guest w)) of
                       None \<Rightarrow> (False, w)
                     | Some sz \<Rightarrow>
                         (let base = memory_base W mem (runtime (guest w)) in
                          if memory_ptr (modules w ! m) \<noteq> 0 \<and> memory_ptr (modules w ! m) \<noteq> base
                          then (False, upd_module m (\<lambda>x. x\<lparr>valid := False\<rparr>) w)
                          else (True, upd_module m (\<lambda>x. x\<lparr>memory_ptr := base, memory_size := sz\<rparr>) w)))))"

definition refresh_module_memory_size :: "'h wamr \<Rightarrow> nat option \<Rightarrow> 'h wamr_world \<Rightarrow> 'h wamr_world" where
  "refresh_module_memory_size W ctx w = snd (wahe_wamr_refresh_memory W ctx w)"

definition get_module_memory_size :: "'h wamr \<Rightarrow> nat option \<Rightarrow> 'h wamr_world \<Rightarrow> nat \<times> 'h wamr_world" where
  "get_module_memory_size W ctx w =
     (let w1 = refresh_module_memory_size W ctx w in (case ctx of None \<Rightarrow> 0 | Some m \<Rightarrow> memory_size (modules w1 ! m), w1))"

section \<open>Symbols\<close>

text \<open>The value of an integer global in its storage; a runner without an instance is undefined.\<close>

definition global_value :: "wasm_valkind_t \<Rightarrow> u64 \<Rightarrow> memory \<Rightarrow> u64 option" where
  "global_value kind data mem = (if kind = WASM_I32 then map_option ucast (load_u32 mem data) else load_u64 mem data)"

definition wahe_wamr_get_symbol_address :: "'h wamr \<Rightarrow> nat \<Rightarrow> nat \<Rightarrow> string \<Rightarrow> 'h wamr_world \<Rightarrow> u64 option" where
  "wahe_wamr_get_symbol_address W m runner_id symbol_name w =
     (case wahe_get_wamr_runner (Some m) runner_id w of
        None \<Rightarrow> Some 0
      | Some r \<Rightarrow>
          do {
            ro \<leftarrow> wamr_object m r w;
            inst \<leftarrow> wa_module_inst ro;
            (case export_global W inst symbol_name (runtime (guest w)) of
               None \<Rightarrow> Some 0
             | Some (kind, data) \<Rightarrow>
                 if data = 0 \<or> kind = WASM_OTHER then Some 0 else global_value kind data (host_mem w))
          })"

definition wahe_wamr_get_symbol_data :: "'h wamr \<Rightarrow> nat \<Rightarrow> nat \<Rightarrow> string \<Rightarrow> 'h wamr_world \<Rightarrow> u64 option" where
  "wahe_wamr_get_symbol_data W m runner_id symbol_name w =
     (case wahe_get_wamr_runner (Some m) runner_id w of
        None \<Rightarrow> Some 0
      | Some r \<Rightarrow>
          do {
            ro \<leftarrow> wamr_object m r w;
            inst \<leftarrow> wa_module_inst ro;
            Some (case export_global W inst symbol_name (runtime (guest w)) of None \<Rightarrow> 0 | Some (kind, data) \<Rightarrow> data)
          })"

definition wahe_wamr_get_function ::
    "'h wamr \<Rightarrow> nat \<Rightarrow> nat \<Rightarrow> string \<Rightarrow> wahe_func_id \<Rightarrow> 'h wamr_world \<Rightarrow> (bool \<times> 'h wamr_world) option" where
  "wahe_wamr_get_function W m runner_id func_name f w =
     (case wahe_get_wamr_runner (Some m) runner_id w of
        None \<Rightarrow> Some (False, w)
      | Some r \<Rightarrow>
          do {
            ro \<leftarrow> wamr_object m r w;
            inst \<leftarrow> wa_module_inst ro;
            (let fn = lookup_function W inst func_name (runtime (guest w)) in
             Some (fn \<noteq> None, set_wamr_runner m r (\<lambda>ro. ro\<lparr>wa_func := (wa_func ro)(f := fn)\<rparr>) w))
          })"

definition address_kind :: "wahe_module_t \<Rightarrow> wasm_valkind_t" where
  "address_kind x = (if memory_bits x = 64 then WASM_I64 else WASM_I32)"

text \<open>The array of kinds holds two of them.\<close>

definition wahe_wamr_validate_address_function ::
    "'h wamr \<Rightarrow> nat \<Rightarrow> nat \<Rightarrow> wahe_func_id \<Rightarrow> nat \<Rightarrow> nat \<Rightarrow> 'h wamr_world \<Rightarrow> bool option" where
  "wahe_wamr_validate_address_function W m r f parameter_count result_count w =
     do {
       ro \<leftarrow> wamr_object m r w;
       (case wa_func ro f of
          None \<Rightarrow> Some False
        | Some fn \<Rightarrow>
            do {
              inst \<leftarrow> wa_module_inst ro;
              (let (params, results) = function_type W fn inst (runtime (guest w)); kind = address_kind (modules w ! m) in
               if length params \<noteq> parameter_count \<or> length results \<noteq> result_count then Some False
               else if 2 < parameter_count \<or> 2 < result_count then None
               else Some (list_all (\<lambda>k. k = kind) params \<and> (results \<noteq> [] \<longrightarrow> hd results = kind)))
            })
     }"

section \<open>Calls\<close>

text \<open>The state WAMR needs for a thread of the host: whether it was created here, or that it could not be.\<close>

definition enter_thread_env :: "'h wamr \<Rightarrow> 'h wamr_world \<Rightarrow> bool option \<times> 'h wamr_world" where
  "enter_thread_env W w =
     (if thread_env_inited W (runtime (guest w)) then (Some False, w)
      else (let (ok, w1) = in_runtime (init_thread_env W) w in (if ok then Some True else None, w1)))"

definition leave_thread_env :: "'h wamr \<Rightarrow> bool \<Rightarrow> 'h wamr_world \<Rightarrow> 'h wamr_world" where
  "leave_thread_env W destroy w = (if destroy then runtime_change (destroy_thread_env W) w else w)"

text \<open>A call in a runner's execution environment, with the runner locked and current.\<close>

definition call_in_runner ::
    "'h wamr \<Rightarrow> nat \<Rightarrow> nat \<Rightarrow> nat \<Rightarrow> bool \<Rightarrow> (wasm_valkind_t \<times> u64) list \<Rightarrow> 'h wamr_world \<Rightarrow> (u64 option \<times> 'h wamr_world) option" where
  "call_in_runner W m r fn has_result params w =
     do {
       ro \<leftarrow> wamr_object m r w;
       env \<leftarrow> wa_exec_env ro;
       (called, w1) \<leftarrow> call_wasm W env fn has_result params (set_current_runner (Some (m, r)) (acquire (Runner_lock m r) w));
       Some (called, release (Runner_lock m r) (set_current_runner (cur_wamr_runner (guest w)) w1))
     }"

text \<open>An address as a parameter and back: a 32-bit value leaves the rest of its union zero.\<close>

definition address_param :: "wahe_module_t \<Rightarrow> u64 \<Rightarrow> wasm_valkind_t \<times> u64" where
  "address_param x a = (address_kind x, if address_kind x = WASM_I32 then ucast (ucast a :: u32) else a)"

definition address_result :: "wahe_module_t \<Rightarrow> u64 \<Rightarrow> u64" where
  "address_result x v = (if address_kind x = WASM_I32 then ucast (ucast v :: u32) else v)"

text \<open>The outcome is the result, zero for \<open>free\<close>, or none when the call failed.\<close>

definition wahe_wamr_call ::
    "'h wamr \<Rightarrow> nat \<Rightarrow> nat \<Rightarrow> wahe_func_id \<Rightarrow> u64 list \<Rightarrow> 'h wamr_world \<Rightarrow> (u64 option \<times> 'h wamr_world) option" where
  "wahe_wamr_call W m r f arguments w =
     (case enter_thread_env W w of
        (None, w1) \<Rightarrow> Some (None, w1)
      | (Some destroy, w1) \<Rightarrow>
          if 2 < length arguments then None
          else do {
            ro \<leftarrow> wamr_object m r w1;
            fn \<leftarrow> wa_func ro f;
            (called, w2) \<leftarrow> call_in_runner W m r fn (f \<noteq> WAHE_FUNC_FREE) (map (address_param (modules w ! m)) arguments) w1;
            Some (map_option (\<lambda>v. if f = WAHE_FUNC_FREE then 0 else address_result (modules w ! m) v) called, leave_thread_env W destroy w2)
          })"

section \<open>Dispatch\<close>

definition chain_func :: "'g world \<Rightarrow> wahe_func_id" where
  "chain_func w = (case cur_chain w of None \<Rightarrow> WAHE_FUNC_NONE | Some c \<Rightarrow> current_func (chains w ! c))"

text \<open>A failed call ends the process or, when another failed first, parks the thread.\<close>

definition call_wamr :: "'h wamr \<Rightarrow> nat \<Rightarrow> nat \<Rightarrow> u64 list \<Rightarrow> wahe_func_id \<Rightarrow> 'h wamr_world \<Rightarrow> (u64 \<times> 'h wamr_world) option" where
  "call_wamr W m runner_id arg func_id w =
     (case wahe_get_wamr_runner (Some m) runner_id w of
        None \<Rightarrow> Some (0, w)
      | Some r \<Rightarrow>
          do {
            ro \<leftarrow> wamr_object m r w;
            (if wa_func ro func_id = None then Some (0, w)
             else do {
               ok \<leftarrow> wahe_wamr_validate_address_function W m r func_id (length arg) (if func_id = WAHE_FUNC_FREE then 0 else 1) w;
               (if \<not> ok then Some (0, w)
                else do {
                  w1 \<leftarrow> set_current_func (cur_chain w) func_id w;
                  wahe_wait_after_execution_failure w1;
                  (called, w2) \<leftarrow> wahe_wamr_call W m r func_id arg w1;
                  w3 \<leftarrow> set_current_func (cur_chain w) (chain_func w) w2;
                  v \<leftarrow> called;
                  wahe_wait_after_execution_failure w3;
                  Some (v, refresh_module_memory_size W (Some m) w3)
                })
             })
          })"

definition core_on_runner ::
    "'h wamr \<Rightarrow> nat option \<Rightarrow> nat \<Rightarrow> u64 list \<Rightarrow> wahe_func_id \<Rightarrow> 'h wamr_world \<Rightarrow> (u64 \<times> 'h wamr_world) option" where
  "core_on_runner W ctx runner_id arg func_id w =
     do {
       wahe_wait_after_execution_failure w;
       (case ctx of
          None \<Rightarrow> Some (0, w)
        | Some m \<Rightarrow>
            if func_id = WAHE_FUNC_NONE \<or> func_id = WAHE_FUNC_COUNT then Some (0, w)
            else if 2 < length arg then Some (0, w)
            else do {
              wahe_require_valid_module (Some m) w;
              (let ty = mtype (modules w ! m) in
               if ty = WAHE_MODULE_WASM_TO_NATIVE \<or> ty = WAHE_MODULE_NATIVE
               then call_native (native_calls W) m runner_id arg func_id w
               else do {
                 w1 \<leftarrow> publish_timestamp (native_calls W) m w;
                 (if ty \<noteq> WAHE_MODULE_WAMR then Some (0, w1) else call_wamr W m runner_id arg func_id w1)
               })
            })
     }"

definition wamr_malloc :: "'h wamr \<Rightarrow> nat \<Rightarrow> u64 \<Rightarrow> 'h wamr_world \<Rightarrow> (u64 \<times> 'h wamr_world) option" where
  "wamr_malloc W m sz w = core_on_runner W (Some m) (active_runner_id (Some m) w) [sz] WAHE_FUNC_MALLOC w"

definition wamr_free :: "'h wamr \<Rightarrow> nat \<Rightarrow> u64 \<Rightarrow> 'h wamr_world \<Rightarrow> 'h wamr_world option" where
  "wamr_free W m a w = map_option snd (core_on_runner W (Some m) (active_runner_id (Some m) w) [a] WAHE_FUNC_FREE w)"

text \<open>The pointer a function returned, null unless it is inside the memory of the module.\<close>

definition wamr_message_pointer :: "'h wamr \<Rightarrow> nat \<Rightarrow> (nat \<times> nat) option \<Rightarrow> u64 \<Rightarrow> 'h wamr_world \<Rightarrow> u64 \<times> 'h wamr_world" where
  "wamr_message_pointer W m slot ret w =
     (if mtype (modules w ! m) = WAHE_MODULE_NATIVE then (ret, w)
      else if ret = 0 then (0, w)
      else (let (mem_size, w1) = get_module_memory_size W (Some m) (refresh_module_memory_size W (Some m) w);
                x = modules w1 ! m
            in if mtype x \<notin> {WAHE_MODULE_WASMTIME, WAHE_MODULE_WAMR, WAHE_MODULE_WASM_TO_NATIVE} \<or>
                  memory_ptr x = 0 \<or> mem_size \<le> unat ret
               then (0, store_ret_addr slot 0 w1)
               else (memory_ptr x + ret, w1)))"

definition wamr_func_on_runner ::
    "'h wamr \<Rightarrow> nat \<Rightarrow> nat \<Rightarrow> u64 \<Rightarrow> wahe_func_id \<Rightarrow> bool \<Rightarrow> 'h wamr_world \<Rightarrow> (u64 \<times> 'h wamr_world) option" where
  "wamr_func_on_runner W m runner_id message_addr func_id call_from_eo w =
     do {
       slot \<leftarrow> ret_slot call_from_eo w;
       (ret, w1) \<leftarrow> core_on_runner W (Some m) runner_id [message_addr] func_id w;
       Some (wamr_message_pointer W m slot ret (store_ret_addr slot ret w1))
     }"

text \<open>A formatted message to the input of a module, through the runner active on this thread.\<close>

definition wamr_sprintf_alloc :: "'h wamr \<Rightarrow> nat \<Rightarrow> string \<Rightarrow> 'h wamr_world \<Rightarrow> (u64 \<times> 'h wamr_world) option" where
  "wamr_sprintf_alloc W m s w =
     do {
       (addr, w1) \<leftarrow> wamr_malloc W m (of_nat (length s + 1)) w;
       (if addr = 0 then Some (0, w1)
        else (let x = modules w1 ! m; p = (if mtype x = WAHE_MODULE_NATIVE then addr else memory_ptr x + addr)
              in do { h \<leftarrow> mem_store (host_mem w1) p (bytes_of_string s @ [0]); Some (addr, w1\<lparr>host_mem := h\<rparr>) }))
     }"

definition wamr_send_input :: "'h wamr \<Rightarrow> nat \<Rightarrow> string \<Rightarrow> 'h wamr_world \<Rightarrow> (u64 \<times> 'h wamr_world) option" where
  "wamr_send_input W m s w =
     do {
       (message_addr, w1) \<leftarrow> wamr_sprintf_alloc W m s w;
       (return_msg, w2) \<leftarrow> wamr_func_on_runner W m (active_runner_id (Some m) w1) message_addr WAHE_FUNC_INPUT False w1;
       w3 \<leftarrow> wamr_free W m message_addr w2;
       Some (return_msg, w3)
     }"

end
