(* ===== verification/Wamr_Init.thy ===== *)
theory Wamr_Init
  imports Wamr_Runtime Module_Init
begin

text \<open>
  Loading a module in the build with WAMR: \<open>wahe_wamr_init_module\<close> of \<open>wahe_wamr.c\<close> with the release of what it created when
  it fails, the stacks and the thread-local storage of the runners, the branch of \<open>wahe_module_init_internal\<close>, and the
  callback of a module.
\<close>

section \<open>Thread-local storage and stacks\<close>

definition pow2_align :: "u64 \<Rightarrow> bool" where
  "pow2_align a \<longleftrightarrow> a \<noteq> 0 \<and> a AND (a - 1) = 0"

text \<open>The size and alignment the module exports: none when an export is missing or not an integer with storage.\<close>

definition exported_size :: "'h wamr \<Rightarrow> nat \<Rightarrow> string \<Rightarrow> 'h wamr_world \<Rightarrow> u64 option option" where
  "exported_size W inst name w =
     (case export_global W inst name (runtime (guest w)) of
        None \<Rightarrow> Some None
      | Some (kind, data) \<Rightarrow>
          if data = 0 \<or> kind = WASM_OTHER then Some None else map_option Some (global_value kind data (host_mem w)))"

text \<open>The initialiser called in the runner with the address of its block.\<close>

definition call_init_tls :: "'h wamr \<Rightarrow> nat \<Rightarrow> nat \<Rightarrow> nat \<Rightarrow> u64 \<Rightarrow> 'h wamr_world \<Rightarrow> (bool \<times> 'h wamr_world) option" where
  "call_init_tls W m r fn tls_address w =
     (case enter_thread_env W w of
        (None, w1) \<Rightarrow> Some (False, w1)
      | (Some destroy, w1) \<Rightarrow>
          do {
            (called, w2) \<leftarrow> call_in_runner W m r fn False [address_param (modules w ! m) tls_address] w1;
            Some (called \<noteq> None, leave_thread_env W destroy w2)
          })"

definition allocate_tls :: "'h wamr \<Rightarrow> nat \<Rightarrow> nat \<Rightarrow> nat \<Rightarrow> u64 \<Rightarrow> u64 \<Rightarrow> 'h wamr_world \<Rightarrow> (bool \<times> 'h wamr_world) option" where
  "allocate_tls W m r fn sz align w =
     do {
       (a, w1) \<leftarrow> wamr_malloc W m (sz + align - 1) w;
       wamr_object m r w1;
       (let w2 = set_wamr_runner m r (\<lambda>ro. ro\<lparr>wa_tls_alloc := a\<rparr>) w1 in
        if a = 0 then Some (False, w2)
        else call_init_tls W m r fn ((a + align - 1) AND NOT (align - 1)) w2)
     }"

definition wahe_wamr_init_thread_tls :: "'h wamr \<Rightarrow> nat \<Rightarrow> nat \<Rightarrow> bool \<Rightarrow> 'h wamr_world \<Rightarrow> (bool \<times> 'h wamr_world) option" where
  "wahe_wamr_init_thread_tls W m r require_metadata w =
     do {
       ro \<leftarrow> wamr_object m r w;
       inst \<leftarrow> wa_module_inst ro;
       (if export_global W inst ''__tls_size'' (runtime (guest w)) = None then Some (\<not> require_metadata, w)
        else do {
          size_value \<leftarrow> exported_size W inst ''__tls_size'' w;
          (case size_value of
             None \<Rightarrow> Some (False, w)
           | Some sz \<Rightarrow>
               if sz = 0 then Some (True, w)
               else do {
                 align_value \<leftarrow> exported_size W inst ''__tls_align'' w;
                 (case (align_value, lookup_function W inst ''__wasm_init_tls'' (runtime (guest w))) of
                    (Some align, Some fn) \<Rightarrow>
                      if \<not> pow2_align align \<or> address_max (memory_bits (modules w ! m)) - (align - 1) < sz then Some (False, w)
                      else if function_type W fn inst (runtime (guest w)) \<noteq> ([address_kind (modules w ! m)], []) then Some (False, w)
                      else allocate_tls W m r fn sz align w
                  | _ \<Rightarrow> Some (False, w))
               })
        })
     }"

text \<open>The limits of the build.\<close>

definition WAHE_WAMR_MAX_THREADS :: nat where
  "WAHE_WAMR_MAX_THREADS = 64"

definition WAHE_WAMR_NATIVE_STACK_SIZE :: nat where
  "WAHE_WAMR_NATIVE_STACK_SIZE = 64 * 1024"

definition WAHE_WAMR_APP_HEAP_SIZE :: nat where
  "WAHE_WAMR_APP_HEAP_SIZE = 0"

definition WAHE_WAMR_MEMORY64_THREADS :: bool where
  "WAHE_WAMR_MEMORY64_THREADS = False"

definition wahe_wamr_app_heap_size :: "wahe_module_t \<Rightarrow> u32" where
  "wahe_wamr_app_heap_size x =
     (if \<not> thread_memory_safe x \<or> stack_base x = 0 \<or> (memory_bits x = 64 \<and> \<not> WAHE_WAMR_MEMORY64_THREADS) then 0
      else if WAHE_WAMR_APP_HEAP_SIZE \<noteq> 0
      then (if 2 ^ 32 - 1 < WAHE_WAMR_APP_HEAP_SIZE then 0xFFFFFFFF else of_nat WAHE_WAMR_APP_HEAP_SIZE)
      else (let desired = stack_base x * of_nat WAHE_WAMR_MAX_THREADS in
            if 0xFFFFFFFF < desired then 0xFFFFFFFF else ucast desired))"

definition wahe_wamr_blank_aux_stack :: "'h wamr \<Rightarrow> nat \<Rightarrow> nat \<Rightarrow> 'h wamr_world \<Rightarrow> (bool \<times> 'h wamr_world) option" where
  "wahe_wamr_blank_aux_stack W m r w =
     (if r = 0 \<or> stack_base (modules w ! m) = 0 then Some (True, w)
      else do {
        ro \<leftarrow> wamr_object m r w;
        inst \<leftarrow> wa_module_inst ro;
        (case export_global W inst ''__stack_pointer'' (runtime (guest w)) of
           None \<Rightarrow> Some (False, w)
         | Some (kind, data) \<Rightarrow>
             if data = 0 then Some (False, w)
             else do {
               stack_top \<leftarrow> (if kind = WASM_OTHER then Some 0 else global_value kind data (host_mem w));
               (let (ok, w1) = wahe_wamr_refresh_memory W (Some m) w; x = modules w1 ! m in
                if \<not> ok \<or> stack_top < stack_base x \<or> memory_size x < unat stack_top then Some (False, w1)
                else do {
                  h \<leftarrow> mem_store (host_mem w1) (memory_ptr x + stack_top - stack_base x)
                         (replicate (unat (stack_base x)) WAHE_STACK_BLANK_PATTERN);
                  Some (True, w1\<lparr>host_mem := h\<rparr>)
                })
             })
      })"

section \<open>Creating and releasing the objects of a module\<close>

fun destroy_children :: "'h wamr \<Rightarrow> wahe_wamr_runner_t option list \<Rightarrow> 'h wamr_world \<Rightarrow> 'h wamr_world option" where
  "destroy_children W [] w = Some w"
| "destroy_children W (ro # rest) w =
     (case ro of
        None \<Rightarrow> destroy_children W rest w
      | Some x \<Rightarrow>
          (case wa_exec_env x of
             None \<Rightarrow> destroy_children W rest w
           | Some e \<Rightarrow> do { w1 \<leftarrow> runtime_release (destroy_spawned_exec_env W e) w; destroy_children W rest w1 }))"

definition release_opt :: "('a \<Rightarrow> 'h \<times> memory \<Rightarrow> ('h \<times> memory) option) \<Rightarrow> 'a option \<Rightarrow> 'h wamr_world \<Rightarrow> 'h wamr_world option" where
  "release_opt f h w = (case h of None \<Rightarrow> Some w | Some x \<Rightarrow> runtime_release (f x) w)"

definition wahe_wamr_cleanup_failed_init :: "'h wamr \<Rightarrow> nat \<Rightarrow> nat option \<Rightarrow> 'h wamr_world \<Rightarrow> 'h wamr_world option" where
  "wahe_wamr_cleanup_failed_init W m main_instance w =
     (let runners = take (runner_count (modules w ! m)) (wamr_runner (wamr_of m w)) in
      do {
        w1 \<leftarrow> destroy_children W (drop 1 runners) w;
        w2 \<leftarrow> release_opt (destroy_exec_env W)
                (case runners of Some ro # _ \<Rightarrow> wa_exec_env ro | _ \<Rightarrow> None) w1;
        w3 \<leftarrow> release_opt (deinstantiate W) main_instance w2;
        w4 \<leftarrow> release_opt (unload_module W) (wamr_module (wamr_of m w3)) (upd_wamr m (\<lambda>x. x\<lparr>wamr_runner := []\<rparr>) w3);
        Some (upd_wamr m (\<lambda>x. x\<lparr>wamr_module := None, wamr_memory := None, wamr_module_buffer := None\<rparr>) w4)
      })"

text \<open>The instance, with the module known to the functions it runs on the way.\<close>

definition create_instance :: "'h wamr \<Rightarrow> nat \<Rightarrow> nat \<Rightarrow> u32 \<Rightarrow> 'h wamr_world \<Rightarrow> (nat option \<times> 'h wamr_world) option" where
  "create_instance W m md app_heap_size w =
     (case in_runtime (args_create W) w of
        (None, w1) \<Rightarrow> Some (None, w1)
      | (Some args, w1) \<Rightarrow>
          do {
            (main_instance, w2) \<leftarrow> instantiate W md args
              (runtime_change (args_set W args WAHE_WAMR_NATIVE_STACK_SIZE app_heap_size m) w1);
            w3 \<leftarrow> runtime_release (args_destroy W args) w2;
            Some (main_instance,
                  case main_instance of None \<Rightarrow> w3 | Some inst \<Rightarrow> runtime_change (set_custom_data W inst m) w3)
          })"

fun create_runner_objects :: "'h wamr \<Rightarrow> nat \<Rightarrow> nat list \<Rightarrow> 'h wamr_world \<Rightarrow> bool \<times> 'h wamr_world" where
  "create_runner_objects W m [] w = (True, w)"
| "create_runner_objects W m (i # is) w =
     (if \<not> alloc_ok W 1 w then (False, w)
      else create_runner_objects W m is
        (upd_wamr m (\<lambda>x. x\<lparr>wamr_runner := (wamr_runner x)[i := Some zero_wamr_runner]\<rparr>) w))"

text \<open>Attaching an execution environment to a runner, with the identities of both.\<close>

definition attach_env :: "'h wamr \<Rightarrow> nat \<Rightarrow> nat \<Rightarrow> nat \<Rightarrow> 'h wamr_world \<Rightarrow> 'h wamr_world" where
  "attach_env W m r e w =
     (let inst = env_module_inst W e (runtime (guest w));
          w1 = set_wamr_runner m r (\<lambda>ro. ro\<lparr>wa_exec_env := Some e, wa_module_inst := Some inst\<rparr>) w
      in runtime_change (set_user_data W e (m, r)) (runtime_change (set_custom_data W inst m) w1))"

fun spawn_runners :: "'h wamr \<Rightarrow> nat \<Rightarrow> nat \<Rightarrow> nat list \<Rightarrow> 'h wamr_world \<Rightarrow> bool \<times> 'h wamr_world" where
  "spawn_runners W m parent [] w = (True, w)"
| "spawn_runners W m parent (i # is) w =
     (case in_runtime (spawn_exec_env W parent) w of
        (None, w1) \<Rightarrow> (False, w1)
      | (Some e, w1) \<Rightarrow> spawn_runners W m parent is (attach_env W m i e w1))"

text \<open>The runners of an instance and the memory; each failure leaves what was created to be released.\<close>

definition create_wamr_runners :: "'h wamr \<Rightarrow> nat \<Rightarrow> nat \<Rightarrow> 'h wamr_world \<Rightarrow> bool \<times> 'h wamr_world" where
  "create_wamr_runners W m main_instance w =
     (let n = runner_count (modules w ! m) in
      if \<not> alloc_ok W (8 * n) w then (False, upd_wamr m (\<lambda>x. x\<lparr>wamr_runner := []\<rparr>) w)
      else (let (ok, w1) = create_runner_objects W m [0..<n] (upd_wamr m (\<lambda>x. x\<lparr>wamr_runner := replicate n None\<rparr>) w) in
            if \<not> ok then (False, w1)
            else (let w2 = set_wamr_runner m 0 (\<lambda>ro. ro\<lparr>wa_module_inst := Some main_instance\<rparr>) w1 in
                  case in_runtime (create_exec_env W main_instance WAHE_WAMR_NATIVE_STACK_SIZE) w2 of
                    (None, w3) \<Rightarrow> (False, w3)
                  | (Some e, w3) \<Rightarrow>
                      (let w4 = runtime_change (set_user_data W e (m, 0))
                                  (set_wamr_runner m 0 (\<lambda>ro. ro\<lparr>wa_exec_env := Some e\<rparr>) w3);
                           (ok, w5) = spawn_runners W m e [1..<n] w4
                       in if \<not> ok then (False, w5)
                          else (let w6 = upd_wamr m (\<lambda>x. x\<lparr>wamr_memory := default_memory W main_instance (runtime (guest w5))\<rparr>) w5
                                in wahe_wamr_refresh_memory W (Some m) w6)))))"

definition fail_init :: "'h wamr \<Rightarrow> nat \<Rightarrow> nat option \<Rightarrow> 'h wamr_world \<Rightarrow> (bool \<times> 'h wamr_world) option" where
  "fail_init W m main_instance w = map_option (Pair False) (wahe_wamr_cleanup_failed_init W m main_instance w)"

definition wahe_wamr_init_module :: "'h wamr \<Rightarrow> nat \<Rightarrow> byte list \<Rightarrow> 'h wamr_world \<Rightarrow> (bool \<times> 'h wamr_world) option" where
  "wahe_wamr_init_module W m wasm_buffer w =
     (if wasm_buffer = [] \<or> 2 ^ 32 - 1 < length wasm_buffer then Some (False, w)
      else (let (ready, w1) = wahe_wamr_runtime_init W w in
            if \<not> ready then Some (False, w1)
            else (case in_runtime (load_module W wasm_buffer) w1 of
                    (None, w2) \<Rightarrow> Some (False, upd_wamr m (\<lambda>x. x\<lparr>wamr_module := None\<rparr>) w2)
                  | (Some md, w2) \<Rightarrow>
                      (let w3 = runtime_change (set_wasi_args W md (mod_name (modules w2 ! m)))
                                  (upd_wamr m (\<lambda>x. x\<lparr>wamr_module := Some md, wamr_module_buffer := Some wasm_buffer\<rparr>) w2);
                           x = modules w3 ! m; app_heap_size = wahe_wamr_app_heap_size x
                       in if 1 < runner_count x \<and> unat app_heap_size < unat (stack_base x) then fail_init W m None w3
                          else do {
                            (main_instance, w4) \<leftarrow> create_instance W m md app_heap_size w3;
                            (case main_instance of
                               None \<Rightarrow> fail_init W m None w4
                             | Some inst \<Rightarrow>
                                 (let (ok, w5) = create_wamr_runners W m inst w4 in
                                  if ok then Some (True, w5) else fail_init W m (Some inst) w5))
                          }))))"

section \<open>Loading the file\<close>

fun get_wamr_functions :: "'h wamr \<Rightarrow> nat \<Rightarrow> string \<Rightarrow> wahe_func_id \<Rightarrow> nat list \<Rightarrow> 'h wamr_world \<Rightarrow> 'h wamr_world option" where
  "get_wamr_functions W m func_name f [] w = Some w"
| "get_wamr_functions W m func_name f (r # rs) w =
     do { (found, w1) \<leftarrow> wahe_wamr_get_function W m r func_name f w; get_wamr_functions W m func_name f rs w1 }"

fun get_wamr_module_funcs :: "'h wamr \<Rightarrow> nat \<Rightarrow> (string \<times> wahe_func_id) list \<Rightarrow> 'h wamr_world \<Rightarrow> 'h wamr_world option" where
  "get_wamr_module_funcs W m [] w = Some w"
| "get_wamr_module_funcs W m ((func_name, f) # rest) w =
     do {
       w1 \<leftarrow> get_wamr_functions W m func_name f [0..<runner_count (modules w ! m)] w;
       get_wamr_module_funcs W m rest w1
     }"

definition init_wamr_symbols :: "'h wamr \<Rightarrow> nat \<Rightarrow> 'h wamr_world \<Rightarrow> 'h wamr_world option" where
  "init_wamr_symbols W m w =
     do {
       w1 \<leftarrow> get_wamr_module_funcs W m module_funcs w;
       heap \<leftarrow> wahe_wamr_get_symbol_address W m (active_runner_id (Some m) w1) ''__heap_base'' w1;
       dend \<leftarrow> wahe_wamr_get_symbol_address W m (active_runner_id (Some m) w1) ''__data_end'' w1;
       Some (upd_module m (\<lambda>x. x\<lparr>heap_base := heap, data_end := dend, has_host_mem_access := False\<rparr>) w1)
     }"

fun init_wamr_stacks :: "'h wamr \<Rightarrow> nat \<Rightarrow> nat list \<Rightarrow> 'h wamr_world \<Rightarrow> (bool \<times> 'h wamr_world) option" where
  "init_wamr_stacks W m [] w = Some (True, w)"
| "init_wamr_stacks W m (r # rs) w =
     do {
       (blank, w1) \<leftarrow> wahe_wamr_blank_aux_stack W m r w;
       (if \<not> blank then Some (False, upd_module m (\<lambda>x. x\<lparr>valid := False\<rparr>) w1)
        else do {
          (ok, w2) \<leftarrow> wahe_wamr_init_thread_tls W m r False w1;
          (if ok then init_wamr_stacks W m rs w2 else Some (False, upd_module m (\<lambda>x. x\<lparr>valid := False\<rparr>) w2))
        })
     }"

definition start_wamr_module :: "'h wamr \<Rightarrow> nat \<Rightarrow> 'h wamr_world \<Rightarrow> (bool \<times> 'h wamr_world) option" where
  "start_wamr_module W m w =
     do {
       w1 \<leftarrow> init_wamr_symbols W m w;
       sp \<leftarrow> wahe_wamr_get_symbol_data W m 0 ''__stack_pointer'' w1;
       (let (ok, w2) = wahe_wamr_refresh_memory W (Some m) (upd_module m (\<lambda>x. x\<lparr>stack_ptr_addr := sp, valid := True\<rparr>) w1) in
        if \<not> ok then Some (False, upd_module m (\<lambda>x. x\<lparr>valid := False\<rparr>) w2)
        else init_wamr_stacks W m [1..<initial_runner_count (modules w2 ! m)] w2)
     }"

text \<open>The linked stack pointer and the memory limits of the file.\<close>

definition read_wamr_image :: "byte list \<Rightarrow> (u64 \<times> wasmbin_memory_info_t option) option" where
  "read_wamr_image bs =
     do {
       (sp, s1) \<leftarrow> wasmbin_read_stack_pointer (buf_load_raw_file (Some bs));
       (memory_found, info, s2) \<leftarrow> wasmbin_read_memory_info s1 (Some empty_memory_info);
       Some (sp, if memory_found then info else None)
     }"

text \<open>What the file declares decides whether WAMR can keep its memory in place and give it several runners.\<close>

definition refused_by_wamr :: "wasmbin_memory_info_t \<Rightarrow> nat \<Rightarrow> bool" where
  "refused_by_wamr info count \<longleftrightarrow>
     (\<not> shared info \<and> (\<not> maximum_present info \<or> max_pages info \<noteq> base_pages info)) \<or>
     (1 < count \<and> \<not> (shared info \<and> maximum_present info)) \<or>
     (1 < count \<and> memory64 info \<and> \<not> WAHE_WAMR_MEMORY64_THREADS)"

definition init_wamr_module :: "'h wamr \<Rightarrow> nat \<Rightarrow> byte list option \<Rightarrow> 'h wamr_world \<Rightarrow> (bool \<times> 'h wamr_world) option" where
  "init_wamr_module W m file_bytes w =
     (case file_bytes of
        None \<Rightarrow> Some (False, w)
      | Some bs \<Rightarrow>
          do {
            (sp, found) \<leftarrow> read_wamr_image bs;
            let w1 = upd_module m (\<lambda>x. x\<lparr>stack_base := sp\<rparr>) w;
            (case found of
               None \<Rightarrow> Some (False, w1)
             | Some info \<Rightarrow>
                 (let w2 = upd_module m (\<lambda>x. x\<lparr>page_count_initial := unat (base_pages info), page_count_max := unat (max_pages info),
                        memory_is_shared := shared info, memory_bits := (if memory64 info then 64 else 32),
                        mtype := WAHE_MODULE_WAMR, thread_memory_safe := shared info \<and> maximum_present info\<rparr>) w1
                  in if refused_by_wamr info (runner_count (modules w2 ! m)) then Some (False, w2)
                     else do {
                       (ok, w3) \<leftarrow> wahe_wamr_init_module W m bs w2;
                       (if ok then start_wamr_module W m w3 else Some (False, w3))
                     }))
          })"

section \<open>The callback\<close>

text \<open>
  \<open>args\<close> is the callback's argument slot, whose content becomes the returned address; \<open>run\<close> is
  \<open>wahe_run_command_core\<close> in this build.
\<close>

definition wamr_callback_message ::
    "'h wamr \<Rightarrow> nat \<Rightarrow> nat \<Rightarrow> u64 \<Rightarrow> 'h wamr_world \<Rightarrow> u64 option" where
  "wamr_callback_message W m inst arg w =
     (let address = (if memory_bits (modules w ! m) = 64 then arg else ucast (ucast arg :: u32)) in
      if address = 0 then Some 0
      else if \<not> validate_app_str_addr W inst address (runtime (guest w)) (host_mem w) then None
      else Some (addr_app_to_native W inst address (runtime (guest w))))"

definition wahe_run_command_wamr ::
    "'h wamr \<Rightarrow> (nat \<Rightarrow> u64 \<Rightarrow> 'h wamr_world \<Rightarrow> (u64 \<times> 'h wamr_world) option) \<Rightarrow> nat \<Rightarrow> u64 \<Rightarrow> 'h wamr_world \<Rightarrow> (u64 \<times> 'h wamr_world) option" where
  "wahe_run_command_wamr W run exec_env arg w =
     (let h = runtime (guest w); inst = env_module_inst W exec_env h; user = user_data W exec_env h in
      case custom_data W inst h of
        None \<Rightarrow> Some (0, w)
      | Some m \<Rightarrow>
          if (case user of None \<Rightarrow> False | Some (um, ur) \<Rightarrow> um \<noteq> m) then Some (0, w)
          else (case wamr_callback_message W m inst arg w of
                  None \<Rightarrow> Some (0, w)
                | Some message \<Rightarrow>
                    (let w1 = set_current_runner user w;
                         w2 = (if user = None then w1 else refresh_module_memory_size W (Some m) w1)
                     in do {
                       (return_address, w3) \<leftarrow> (if message = 0 then Some (0, w2) else run m message w2);
                       Some (if memory_bits (modules w3 ! m) = 64 then return_address else ucast (ucast return_address :: u32),
                             set_current_runner (cur_wamr_runner (guest w)) w3)
                     })))"

end
