(* ===== verification/Wamr_Lifetimes.thy ===== *)
theory Wamr_Lifetimes
  imports Wamr_Init
begin

text \<open>
  The objects the host has WAMR create for a module: each is alive from its creation to its release, belongs to another, and
  may only be released when nothing that is alive belongs to it. An initialisation that fails gives back exactly
  what it created, in an order WAMR allows; one that succeeds leaves an execution environment for each runner.
\<close>

section \<open>What WAMR documents\<close>

datatype wamr_object_id = Obj_module nat | Obj_args nat | Obj_instance nat | Obj_env nat

text \<open>The objects alive, each with what it belongs to; a module and its arguments belong to themselves.\<close>

type_synonym ownership = "wamr_object_id \<Rightarrow> wamr_object_id option"

definition owned_by :: "ownership \<Rightarrow> wamr_object_id \<Rightarrow> wamr_object_id set" where
  "owned_by L x = {y. y \<noteq> x \<and> L y = Some x}"

definition creates :: "('h \<Rightarrow> ownership) \<Rightarrow> (nat \<Rightarrow> wamr_object_id) \<Rightarrow> (nat \<Rightarrow> wamr_object_id) \<Rightarrow> ('h \<times> memory \<Rightarrow> nat option \<times> ('h \<times> memory)) \<Rightarrow> bool" where
  "creates live obj owner f \<longleftrightarrow>
     (\<forall>h mem r h' mem'. f (h, mem) = (r, (h', mem')) \<longrightarrow>
        (case r of
           None \<Rightarrow> live h' = live h
         | Some n \<Rightarrow> live h (obj n) = None \<and> live h' = (live h)(obj n \<mapsto> owner n)))"

definition releases :: "('h \<Rightarrow> ownership) \<Rightarrow> wamr_object_id \<Rightarrow> ('h \<times> memory \<Rightarrow> ('h \<times> memory) option) \<Rightarrow> bool" where
  "releases live x f \<longleftrightarrow>
     (\<forall>h mem. live h x \<noteq> None \<and> owned_by (live h) x = {} \<longrightarrow>
        (\<exists>h' mem'. f (h, mem) = Some (h', mem') \<and> live h' = (live h)(x := None)))"

definition keeps_objects :: "('h \<Rightarrow> ownership) \<Rightarrow> ('h \<times> memory \<Rightarrow> 'a \<times> ('h \<times> memory)) \<Rightarrow> bool" where
  "keeps_objects live f \<longleftrightarrow> (\<forall>h mem a h' mem'. f (h, mem) = (a, (h', mem')) \<longrightarrow> live h' = live h)"

definition wamr_lifetimes :: "'h wamr \<Rightarrow> ('h \<Rightarrow> ownership) \<Rightarrow> bool" where
  "wamr_lifetimes W live \<longleftrightarrow>
     (\<forall>h x y. live h x = Some y \<longrightarrow> live h y \<noteq> None) \<and>
     (\<forall>bs. creates live Obj_module Obj_module (load_module W bs)) \<and>
     creates live Obj_args Obj_args (args_create W) \<and>
     (\<forall>i n. creates live Obj_env (\<lambda>_. Obj_instance i) (create_exec_env W i n)) \<and>
     (\<forall>e. creates live Obj_env (\<lambda>_. Obj_env e) (spawn_exec_env W e)) \<and>
     (\<forall>n. releases live (Obj_module n) (unload_module W n)) \<and>
     (\<forall>n. releases live (Obj_args n) (args_destroy W n)) \<and>
     (\<forall>n. releases live (Obj_instance n) (deinstantiate W n)) \<and>
     (\<forall>n. releases live (Obj_env n) (destroy_exec_env W n)) \<and>
     (\<forall>n. releases live (Obj_env n) (destroy_spawned_exec_env W n)) \<and>
     (\<forall>b. keeps_objects live (full_init W b)) \<and> keeps_objects live (register_natives W) \<and>
     (\<forall>md s. keeps_objects live (\<lambda>x. ((), set_wasi_args W md s x))) \<and>
     (\<forall>a n k m. keeps_objects live (\<lambda>x. ((), args_set W a n k m x))) \<and>
     (\<forall>i m. keeps_objects live (\<lambda>x. ((), set_custom_data W i m x))) \<and>
     (\<forall>e u. keeps_objects live (\<lambda>x. ((), set_user_data W e u x)))"

text \<open>The start functions a module runs while it is instantiated leave the host's objects of this module alone.\<close>

definition quiet_start :: "'h wamr \<Rightarrow> ('h \<Rightarrow> ownership) \<Rightarrow> nat \<Rightarrow> bool" where
  "quiet_start W live m \<longleftrightarrow>
     (\<forall>md args w inst w'. instantiate W md args w = Some (inst, w') \<longrightarrow>
        wamr_of m w' = wamr_of m w \<and> runner_count (modules w' ! m) = runner_count (modules w ! m) \<and>
        (case inst of
           None \<Rightarrow> live (runtime (guest w')) = live (runtime (guest w))
         | Some i \<Rightarrow> live (runtime (guest w)) (Obj_instance i) = None \<and>
             live (runtime (guest w')) = (live (runtime (guest w)))(Obj_instance i \<mapsto> Obj_module md)))"

abbreviation alive :: "('h \<Rightarrow> ownership) \<Rightarrow> 'h wamr_world \<Rightarrow> ownership" where
  "alive live w \<equiv> live (runtime (guest w))"

section \<open>The host's side of a call\<close>

text \<open>What a call of WAMR that runs no code leaves of the host's state.\<close>

definition same_host :: "'h wamr_world \<Rightarrow> 'h wamr_world \<Rightarrow> bool" where
  "same_host w w' \<longleftrightarrow> modules w' = modules w \<and> wamr_modules (guest w') = wamr_modules (guest w)"

lemma same_host_simps: "same_host w w' \<Longrightarrow> wamr_of m w' = wamr_of m w" "same_host w w' \<Longrightarrow> modules w' = modules w"
  by (simp_all add: same_host_def wamr_of_def)

lemma same_host_trans: "same_host a b \<Longrightarrow> same_host b c \<Longrightarrow> same_host a c"
  by (simp add: same_host_def)

lemma in_runtime_host: "in_runtime f w = (a, w') \<Longrightarrow> same_host w w'"
  by (auto simp: in_runtime_def same_host_def split: prod.splits)

lemma runtime_change_host: "same_host w (runtime_change f w)"
  by (simp add: runtime_change_def in_runtime_def same_host_def split: prod.splits)

lemma in_runtime_creates:
  "creates live obj owner f \<Longrightarrow> in_runtime f w = (r, w') \<Longrightarrow>
     (case r of None \<Rightarrow> alive live w' = alive live w
      | Some n \<Rightarrow> alive live w (obj n) = None \<and> alive live w' = (alive live w)(obj n \<mapsto> owner n))"
proof -
  assume c: "creates live obj owner f" and i: "in_runtime f w = (r, w')"
  obtain h' mem' where f: "f (runtime (guest w), host_mem w) = (r, (h', mem'))" "runtime (guest w') = h'"
    using i by (auto simp: in_runtime_def split: prod.splits)
  show ?thesis using c [unfolded creates_def, rule_format, OF f(1)] f(2) by (cases r) auto
qed

lemma in_runtime_keeps: "keeps_objects live f \<Longrightarrow> in_runtime f w = (a, w') \<Longrightarrow> alive live w' = alive live w"
  by (fastforce simp: keeps_objects_def in_runtime_def split: prod.splits)

lemma runtime_change_keeps:
  "keeps_objects live (\<lambda>x. ((), f x)) \<Longrightarrow> alive live (runtime_change f w) = alive live w"
  using in_runtime_keeps [where f = "\<lambda>x. ((), f x)" and w = w] by (metis prod.collapse runtime_change_def)

lemma runtime_release_ok:
  assumes "releases live x f" "alive live w x \<noteq> None" "owned_by (alive live w) x = {}"
  obtains w' where "runtime_release f w = Some w'" "alive live w' = (alive live w)(x := None)" "same_host w w'"
proof -
  obtain h' mem' where "f (runtime (guest w), host_mem w) = Some (h', mem')" "live h' = (alive live w)(x := None)"
    using assms unfolding releases_def by blast
  then show ?thesis
    by (intro that [of "w\<lparr>guest := guest w\<lparr>runtime := h'\<rparr>, host_mem := mem'\<rparr>"]) (simp_all add: runtime_release_def same_host_def)
qed

lemma upd_wamr_alive [simp]: "alive live (upd_wamr m f w) = alive live w" "alive live (set_wamr_runner m r g w) = alive live w"
    "modules (upd_wamr m f w) = modules w" "modules (set_wamr_runner m r g w) = modules w"
  by (simp_all add: upd_wamr_def set_wamr_runner_def)

lemma wamr_of_upd [simp]: "wamr_of m (upd_wamr m f w) = f (wamr_of m w)"
  by (simp add: upd_wamr_def wamr_of_def)

lemma wamr_of_set_runner [simp]:
  "wamr_of m (set_wamr_runner m r f w) =
     (wamr_of m w)\<lparr>wamr_runner := (wamr_runner (wamr_of m w))[r := map_option f (wamr_runner (wamr_of m w) ! r)]\<rparr>"
  by (simp add: set_wamr_runner_def)

section \<open>Execution environments\<close>

definition envs :: "wahe_wamr_runner_t option list \<Rightarrow> nat list" where
  "envs rs = List.map_filter (\<lambda>ro. Option.bind ro wa_exec_env) rs"

lemma envs_simps [simp]:
  "envs [] = []" "envs (ro # rs) = (case Option.bind ro wa_exec_env of None \<Rightarrow> envs rs | Some e \<Rightarrow> e # envs rs)"
  "envs (rs @ ss) = envs rs @ envs ss"
  by (simp_all add: envs_def List.map_filter_def split: option.split)

definition with_children :: "nat list \<Rightarrow> nat \<Rightarrow> ownership \<Rightarrow> ownership" where
  "with_children cs e L x = (case x of Obj_env c \<Rightarrow> if c \<in> set cs then Some (Obj_env e) else L x | _ \<Rightarrow> L x)"

lemma with_children_Nil [simp]: "with_children [] e L = L"
  by (auto simp: with_children_def fun_eq_iff split: wamr_object_id.split)

lemma with_children_Cons: "with_children (c # cs) e L = (with_children cs e L)(Obj_env c \<mapsto> Obj_env e)"
  by (auto simp: with_children_def fun_eq_iff split: wamr_object_id.split)

lemma with_children_snoc: "with_children (cs @ [c]) e L = (with_children cs e L)(Obj_env c \<mapsto> Obj_env e)"
  by (auto simp: with_children_def fun_eq_iff split: wamr_object_id.split)

text \<open>Environments that are new to the other objects and different from each other.\<close>

definition fresh_children :: "nat list \<Rightarrow> nat \<Rightarrow> ownership \<Rightarrow> bool" where
  "fresh_children cs e L \<longleftrightarrow> distinct cs \<and> e \<notin> set cs \<and> (\<forall>c \<in> set cs. L (Obj_env c) = None \<and> owned_by L (Obj_env c) = {})"

lemma destroy_children_ok:
  assumes W: "\<And>n. releases live (Obj_env n) (destroy_spawned_exec_env W n)"
  shows "fresh_children (envs rs) e L \<Longrightarrow> alive live w = with_children (envs rs) e L \<Longrightarrow>
    \<exists>w'. destroy_children W rs w = Some w' \<and> alive live w' = L \<and> same_host w w'"
proof (induction rs arbitrary: w)
  case Nil
  then show ?case by (simp add: same_host_def)
next
  case (Cons ro rs)
  show ?case
  proof (cases "Option.bind ro wa_exec_env")
    case None
    then have "destroy_children W (ro # rs) w = destroy_children W rs w" by (auto split: option.split)
    with None Cons show ?thesis by simp
  next
    case (Some c)
    then have *: "fresh_children (c # envs rs) e L" "alive live w = (with_children (envs rs) e L)(Obj_env c \<mapsto> Obj_env e)"
      using Cons.prems by (auto simp: with_children_Cons [symmetric])
    have "owned_by (alive live w) (Obj_env c) = {}"
      using *(1) unfolding *(2) by (auto simp: owned_by_def fresh_children_def with_children_def split: wamr_object_id.splits if_splits)
    then obtain w1 where w1: "runtime_release (destroy_spawned_exec_env W c) w = Some w1"
        "alive live w1 = (alive live w)(Obj_env c := None)" "same_host w w1"
      using runtime_release_ok [OF W, of w c] *(2) by auto
    have "alive live w1 = with_children (envs rs) e L"
      using *(1) unfolding w1(2) *(2) by (auto simp: fresh_children_def with_children_def fun_eq_iff)
    moreover have "fresh_children (envs rs) e L" using *(1) by (simp add: fresh_children_def)
    ultimately obtain w' where w': "destroy_children W rs w1 = Some w'" "alive live w' = L" "same_host w1 w'"
      using Cons.IH by blast
    moreover have "destroy_children W (ro # rs) w = Some w'"
      using Some w1(1) w'(1) by (auto split: option.split simp: bind_eq_Some_conv)
    ultimately show ?thesis using same_host_trans [OF w1(3)] by blast
  qed
qed

section \<open>Giving everything back\<close>

definition closed_under_owner :: "ownership \<Rightarrow> bool" where
  "closed_under_owner L \<longleftrightarrow> (\<forall>x y. L x = Some y \<longrightarrow> L y \<noteq> None)"

lemma not_owner: "closed_under_owner L \<Longrightarrow> L x = None \<Longrightarrow> L y \<noteq> Some x"
  unfolding closed_under_owner_def by blast

lemma release_opt_ok:
  assumes "\<And>x. h = Some x \<Longrightarrow> releases live (obj x) (f x) \<and> alive live w (obj x) \<noteq> None \<and> owned_by (alive live w) (obj x) = {}"
  obtains w' where "release_opt f h w = Some w'" "same_host w w'"
    "alive live w' = (case h of None \<Rightarrow> alive live w | Some x \<Rightarrow> (alive live w)(obj x := None))"
proof (cases h)
  case None
  then show ?thesis by (intro that [of w]) (simp_all add: release_opt_def same_host_def)
next
  case (Some x)
  with assms obtain w' where "runtime_release (f x) w = Some w'" "alive live w' = (alive live w)(obj x := None)" "same_host w w'"
    using runtime_release_ok [of live "obj x" "f x" w] by blast
  with Some show ?thesis by (intro that [of w']) (simp_all add: release_opt_def)
qed

text \<open>What an initialisation has created so far: the module, then its instance, then the main environment, then children.\<close>

definition module_objects :: "nat \<Rightarrow> nat option \<Rightarrow> nat option \<Rightarrow> ownership \<Rightarrow> ownership" where
  "module_objects md inst env L =
     (let L1 = L(Obj_module md \<mapsto> Obj_module md); L2 = (case inst of None \<Rightarrow> L1 | Some i \<Rightarrow> L1(Obj_instance i \<mapsto> Obj_module md))
      in (case (inst, env) of (Some i, Some e) \<Rightarrow> L2(Obj_env e \<mapsto> Obj_instance i) | _ \<Rightarrow> L2))"

definition new_objects :: "nat \<Rightarrow> nat option \<Rightarrow> nat option \<Rightarrow> nat list \<Rightarrow> ownership \<Rightarrow> bool" where
  "new_objects md inst env cs L \<longleftrightarrow>
     closed_under_owner L \<and> L (Obj_module md) = None \<and> (\<forall>i. inst = Some i \<longrightarrow> L (Obj_instance i) = None) \<and>
     (case env of None \<Rightarrow> cs = [] | Some e \<Rightarrow> inst \<noteq> None \<and> L (Obj_env e) = None \<and> e \<notin> set cs) \<and>
     distinct cs \<and> (\<forall>c \<in> set cs. L (Obj_env c) = None)"

definition main_env :: "wahe_wamr_runner_t option list \<Rightarrow> nat option" where
  "main_env rs = (case rs of Some ro # _ \<Rightarrow> wa_exec_env ro | _ \<Rightarrow> None)"

definition built :: "('h \<Rightarrow> ownership) \<Rightarrow> ownership \<Rightarrow> nat \<Rightarrow> nat \<Rightarrow> nat option \<Rightarrow> 'h wamr_world \<Rightarrow> bool" where
  "built live L m md inst w \<longleftrightarrow>
     (let rs = wamr_runner (wamr_of m w); env = main_env rs; cs = envs (drop 1 rs) in
      wamr_module (wamr_of m w) = Some md \<and> length rs \<le> runner_count (modules w ! m) \<and> new_objects md inst env cs L \<and>
      alive live w = with_children cs (case env of None \<Rightarrow> 0 | Some e \<Rightarrow> e) (module_objects md inst env L))"

lemma module_objects_None:
  "new_objects md (Some i) (Some e) [] L \<Longrightarrow> (module_objects md (Some i) (Some e) L)(Obj_env e := None) = module_objects md (Some i) None L"
  "new_objects md (Some i) None [] L \<Longrightarrow> (module_objects md (Some i) None L)(Obj_instance i := None) = module_objects md None None L"
  "new_objects md None None [] L \<Longrightarrow> (module_objects md None None L)(Obj_module md := None) = L"
  by (auto simp: module_objects_def new_objects_def fun_eq_iff)

lemma no_dependents:
  "new_objects md inst (Some e) cs L \<Longrightarrow> owned_by (module_objects md inst (Some e) L) (Obj_env e) = {}"
  "new_objects md (Some i) None cs L \<Longrightarrow> owned_by (module_objects md (Some i) None L) (Obj_instance i) = {}"
  "new_objects md None None cs L \<Longrightarrow> owned_by (module_objects md None None L) (Obj_module md) = {}"
  "new_objects md inst env cs L \<Longrightarrow> c \<in> set cs \<Longrightarrow> owned_by (module_objects md inst env L) (Obj_env c) = {}"
  by (auto simp: owned_by_def module_objects_def new_objects_def dest: not_owner split: if_splits option.splits)

lemma lifetimes_release:
  assumes "wamr_lifetimes W live"
  shows "releases live (Obj_module n) (unload_module W n)" "releases live (Obj_args n) (args_destroy W n)"
    "releases live (Obj_instance n) (deinstantiate W n)" "releases live (Obj_env n) (destroy_exec_env W n)"
    "releases live (Obj_env n) (destroy_spawned_exec_env W n)"
  using assms by (simp_all add: wamr_lifetimes_def)

lemma release_opt_step:
  assumes "\<And>x. h = Some x \<Longrightarrow> releases live (obj x) (f x)" "\<And>x. h = Some x \<Longrightarrow> alive live w (obj x) \<noteq> None"
    "\<And>x. h = Some x \<Longrightarrow> owned_by (alive live w) (obj x) = {}"
    "L = (case h of None \<Rightarrow> alive live w | Some x \<Rightarrow> (alive live w)(obj x := None))"
  shows "\<exists>w'. release_opt f h w = Some w' \<and> alive live w' = L \<and> same_host w w'"
proof (rule release_opt_ok [where h = h and f = f and obj = obj and live = live and w = w])
  show "releases live (obj x) (f x) \<and> alive live w (obj x) \<noteq> None \<and> owned_by (alive live w) (obj x) = {}" if "h = Some x" for x
    using assms(1-3) [OF that] by blast
next
  fix w' assume "release_opt f h w = Some w'" "same_host w w'"
    "alive live w' = (case h of None \<Rightarrow> alive live w | Some x \<Rightarrow> (alive live w)(obj x := None))"
  then show ?thesis unfolding assms(4) by blast
qed

lemma release_main_env:
  assumes "wamr_lifetimes W live" and new: "new_objects md inst env [] L" and al: "alive live w = module_objects md inst env L"
  shows "\<exists>w'. release_opt (destroy_exec_env W) env w = Some w' \<and> alive live w' = module_objects md inst None L \<and> same_host w w'"
proof (rule release_opt_step [where obj = Obj_env])
  fix e assume e: "env = Some e"
  show "releases live (Obj_env e) (destroy_exec_env W e)" by (rule lifetimes_release [OF assms(1)])
  show "owned_by (alive live w) (Obj_env e) = {}" using no_dependents(1) [of md inst e "[]" L] new al e by simp
  show "alive live w (Obj_env e) \<noteq> None"
    using new e unfolding al by (auto simp: module_objects_def new_objects_def)
qed (use new al module_objects_None(1) in \<open>auto simp: new_objects_def split: option.split\<close>)

lemma release_instance:
  assumes "wamr_lifetimes W live" and new: "new_objects md inst None [] L" and al: "alive live w = module_objects md inst None L"
  shows "\<exists>w'. release_opt (deinstantiate W) inst w = Some w' \<and> alive live w' = module_objects md None None L \<and> same_host w w'"
proof (rule release_opt_step [where obj = Obj_instance])
  fix i assume i: "inst = Some i"
  show "releases live (Obj_instance i) (deinstantiate W i)" by (rule lifetimes_release [OF assms(1)])
  show "owned_by (alive live w) (Obj_instance i) = {}" using no_dependents(2) [of md i "[]" L] new al i by simp
  show "alive live w (Obj_instance i) \<noteq> None" using i unfolding al by (simp add: module_objects_def)
qed (use new al module_objects_None(2) in \<open>auto split: option.split\<close>)

lemma release_module:
  assumes "wamr_lifetimes W live" and new: "new_objects md None None [] L" and al: "alive live w = module_objects md None None L"
  shows "\<exists>w'. release_opt (unload_module W) (Some md) w = Some w' \<and> alive live w' = L \<and> same_host w w'"
proof (rule release_opt_step [where obj = Obj_module])
  fix n assume n: "Some md = Some n"
  show "releases live (Obj_module n) (unload_module W n)" by (rule lifetimes_release [OF assms(1)])
  show "owned_by (alive live w) (Obj_module n) = {}" using no_dependents(3) [of md "[]" L] new al n by simp
  show "alive live w (Obj_module n) \<noteq> None" using n unfolding al by (simp add: module_objects_def)
qed (use al module_objects_None(3) [OF new] in simp)

lemma release_children:
  assumes W: "wamr_lifetimes W live" and new: "new_objects md inst env (envs rs) L"
    and al: "alive live w = with_children (envs rs) (case env of None \<Rightarrow> 0 | Some e \<Rightarrow> e) (module_objects md inst env L)"
  shows "\<exists>w'. destroy_children W rs w = Some w' \<and> alive live w' = module_objects md inst env L \<and> same_host w w'"
proof (rule destroy_children_ok [OF lifetimes_release(5) [OF W] _ al])
  have "module_objects md inst env L (Obj_env c) = None" if "c \<in> set (envs rs)" for c
    using new that by (auto simp: new_objects_def module_objects_def split: option.splits)
  moreover have "distinct (envs rs)" "(case env of None \<Rightarrow> 0 | Some e \<Rightarrow> e) \<notin> set (envs rs)"
    using new by (auto simp: new_objects_def split: option.splits)
  ultimately show "fresh_children (envs rs) (case env of None \<Rightarrow> 0 | Some e \<Rightarrow> e) (module_objects md inst env L)"
    using no_dependents(4) [OF new] by (simp add: fresh_children_def)
qed

lemma cleanup_releases:
  assumes W: "wamr_lifetimes W live" and b: "built live L m md inst w"
  shows "\<exists>w'. wahe_wamr_cleanup_failed_init W m inst w = Some w' \<and> alive live w' = L \<and> modules w' = modules w \<and>
    wamr_of m w' = \<lparr>wamr_module = None, wamr_memory = None, wamr_module_buffer = None, wamr_runner = []\<rparr>"
proof -
  define rs where "rs = wamr_runner (wamr_of m w)"
  define env where "env = main_env rs"
  have len: "take (runner_count (modules w ! m)) rs = rs" and md: "wamr_module (wamr_of m w) = Some md"
    and new: "new_objects md inst env (envs (drop 1 rs)) L"
    and al: "alive live w = with_children (envs (drop 1 rs)) (case env of None \<Rightarrow> 0 | Some e \<Rightarrow> e) (module_objects md inst env L)"
    using b by (simp_all add: built_def Let_def rs_def env_def)
  have new0: "new_objects md inst env [] L" "new_objects md inst None [] L" "new_objects md None None [] L"
    using new by (auto simp: new_objects_def split: option.splits)
  obtain w1 where w1: "destroy_children W (drop 1 rs) w = Some w1" "alive live w1 = module_objects md inst env L" "same_host w w1"
    using release_children [OF W new al] by blast
  obtain w2 where w2: "release_opt (destroy_exec_env W) env w1 = Some w2" "alive live w2 = module_objects md inst None L" "same_host w1 w2"
    using release_main_env [OF W new0(1) w1(2)] by blast
  obtain w3 where w3: "release_opt (deinstantiate W) inst w2 = Some w3" "alive live w3 = module_objects md None None L" "same_host w2 w3"
    using release_instance [OF W new0(2) w2(2)] by blast
  have host: "wamr_of m w3 = wamr_of m w" "modules w3 = modules w"
    using w1(3) w2(3) w3(3) by (simp_all add: same_host_def wamr_of_def)
  define w4 where "w4 = upd_wamr m (\<lambda>x. x\<lparr>wamr_runner := []\<rparr>) w3"
  have "alive live w4 = module_objects md None None L" using w3(2) by (simp add: w4_def)
  then obtain w5 where w5: "release_opt (unload_module W) (Some md) w4 = Some w5" "alive live w5 = L" "same_host w4 w5"
    using release_module [OF W new0(3)] by blast
  have "wahe_wamr_cleanup_failed_init W m inst w =
      Some (upd_wamr m (\<lambda>x. x\<lparr>wamr_module := None, wamr_memory := None, wamr_module_buffer := None\<rparr>) w5)"
    using w1(1) w2(1) w3(1) w5(1) md host len unfolding wahe_wamr_cleanup_failed_init_def Let_def rs_def [symmetric]
    by (simp add: env_def main_env_def w4_def)
  moreover have "wamr_of m w5 = (wamr_of m w)\<lparr>wamr_runner := []\<rparr>" "modules w5 = modules w"
    using same_host_simps [OF w5(3)] host by (simp_all add: w4_def)
  ultimately show ?thesis using w5(2) by simp
qed

section \<open>Creating\<close>

lemma alive_closed: "wamr_lifetimes W live \<Longrightarrow> closed_under_owner (alive live w)"
  by (auto simp: wamr_lifetimes_def closed_under_owner_def)

lemma lifetimes_create:
  assumes "wamr_lifetimes W live"
  shows "creates live Obj_module Obj_module (load_module W bs)" "creates live Obj_args Obj_args (args_create W)"
    "creates live Obj_env (\<lambda>_. Obj_instance i) (create_exec_env W i n)" "creates live Obj_env (\<lambda>_. Obj_env e) (spawn_exec_env W e)"
  using assms by (simp_all add: wamr_lifetimes_def)

lemma lifetimes_keep:
  assumes "wamr_lifetimes W live"
  shows "keeps_objects live (full_init W b)" "keeps_objects live (register_natives W)"
    "alive live (runtime_change (set_wasi_args W md s) w) = alive live w"
    "alive live (runtime_change (args_set W a n k m) w) = alive live w"
    "alive live (runtime_change (set_custom_data W i m) w) = alive live w"
    "alive live (runtime_change (set_user_data W e u) w) = alive live w"
proof -
  have k: "keeps_objects live (full_init W b)" "keeps_objects live (register_natives W)"
    "keeps_objects live (\<lambda>x. ((), set_wasi_args W md s x))" "keeps_objects live (\<lambda>x. ((), args_set W a n k m x))"
    "keeps_objects live (\<lambda>x. ((), set_custom_data W i m x))" "keeps_objects live (\<lambda>x. ((), set_user_data W e u x))"
    using assms unfolding wamr_lifetimes_def by blast+
  show "keeps_objects live (full_init W b)" "keeps_objects live (register_natives W)"
    "alive live (runtime_change (set_wasi_args W md s) w) = alive live w"
    "alive live (runtime_change (args_set W a n k m) w) = alive live w"
    "alive live (runtime_change (set_custom_data W i m) w) = alive live w"
    "alive live (runtime_change (set_user_data W e u) w) = alive live w"
    by (rule k runtime_change_keeps [OF k(3)] runtime_change_keeps [OF k(4)] runtime_change_keeps [OF k(5)]
        runtime_change_keeps [OF k(6)])+
qed

lemma runtime_change_simps [simp]: "wamr_of m (runtime_change f w) = wamr_of m w" "modules (runtime_change f w) = modules w"
  by (simp_all add: same_host_simps [OF runtime_change_host])

lemma instance_created:
  assumes W: "wamr_lifetimes W live" and q: "quiet_start W live m" and ret: "\<And>md args w. instantiate W md args w \<noteq> None"
  shows "\<exists>r w'. create_instance W m md hs w = Some (r, w') \<and> wamr_of m w' = wamr_of m w \<and>
    runner_count (modules w' ! m) = runner_count (modules w ! m) \<and>
    (case r of None \<Rightarrow> alive live w' = alive live w
     | Some i \<Rightarrow> alive live w (Obj_instance i) = None \<and> alive live w' = (alive live w)(Obj_instance i \<mapsto> Obj_module md))"
proof (cases "in_runtime (args_create W) w")
  case (Pair a w1)
  note a = in_runtime_creates [OF lifetimes_create(2) [OF W] Pair] and h1 = in_runtime_host [OF Pair]
  show ?thesis
  proof (cases a)
    case None
    with a h1 Pair show ?thesis by (simp add: create_instance_def same_host_simps)
  next
    case (Some args)
    define w2 where "w2 = runtime_change (args_set W args WAHE_WAMR_NATIVE_STACK_SIZE hs m) w1"
    obtain inst w3 where w3: "instantiate W md args w2 = Some (inst, w3)" using ret [of md args w2] by auto
    have al2: "alive live w (Obj_args args) = None" "alive live w2 = (alive live w)(Obj_args args \<mapsto> Obj_args args)"
      using a Some by (simp_all add: w2_def lifetimes_keep [OF W])
    have st: "wamr_of m w3 = wamr_of m w2" "runner_count (modules w3 ! m) = runner_count (modules w2 ! m)"
        "case inst of None \<Rightarrow> alive live w3 = alive live w2
         | Some i \<Rightarrow> alive live w2 (Obj_instance i) = None \<and> alive live w3 = (alive live w2)(Obj_instance i \<mapsto> Obj_module md)"
      using q [unfolded quiet_start_def, rule_format, OF w3] by blast+
    have no: "alive live w y \<noteq> Some (Obj_args args)" for y by (rule not_owner [OF alive_closed [OF W] al2(1)])
    have "owned_by (alive live w3) (Obj_args args) = {}" "alive live w3 (Obj_args args) \<noteq> None"
      using st(3) al2(2) no by (auto simp: owned_by_def split: option.splits if_splits)
    then obtain w4 where w4: "runtime_release (args_destroy W args) w3 = Some w4"
        "alive live w4 = (alive live w3)(Obj_args args := None)" "same_host w3 w4"
      using runtime_release_ok [OF lifetimes_release(2) [OF W]] by blast
    have "create_instance W m md hs w =
        Some (inst, case inst of None \<Rightarrow> w4 | Some i \<Rightarrow> runtime_change (set_custom_data W i m) w4)"
      using Pair Some w3 w4(1) by (simp add: create_instance_def w2_def)
    moreover have "case inst of None \<Rightarrow> alive live w4 = alive live w
       | Some i \<Rightarrow> alive live w (Obj_instance i) = None \<and> alive live w4 = (alive live w)(Obj_instance i \<mapsto> Obj_module md)"
      using st(3) al2 unfolding w4(2) by (auto simp: fun_eq_iff split: option.splits)
    ultimately show ?thesis
      using same_host_simps [OF w4(3)] same_host_simps [OF h1] st(1,2)
      by (auto simp: w2_def lifetimes_keep [OF W] split: option.splits)
  qed
qed

lemma runner_objects_created:
  assumes "create_runner_objects W m is w = (ok, w')" "set (wamr_runner (wamr_of m w)) \<subseteq> {None, Some zero_wamr_runner}"
  shows "alive live w' = alive live w \<and> modules w' = modules w \<and> wamr_module (wamr_of m w') = wamr_module (wamr_of m w) \<and>
    length (wamr_runner (wamr_of m w')) = length (wamr_runner (wamr_of m w)) \<and>
    set (wamr_runner (wamr_of m w')) \<subseteq> {None, Some zero_wamr_runner} \<and>
    (ok \<longrightarrow> (\<forall>i < length (wamr_runner (wamr_of m w)).
       i \<in> set is \<or> wamr_runner (wamr_of m w) ! i \<noteq> None \<longrightarrow> wamr_runner (wamr_of m w') ! i \<noteq> None))"
  using assms
proof (induction "is" arbitrary: w)
  case (Cons i "is")
  show ?case
  proof (cases "alloc_ok W 1 w")
    case True
    define w1 where "w1 = upd_wamr m (\<lambda>x. x\<lparr>wamr_runner := (wamr_runner x)[i := Some zero_wamr_runner]\<rparr>) w"
    have w1: "wamr_of m w1 = (wamr_of m w)\<lparr>wamr_runner := (wamr_runner (wamr_of m w))[i := Some zero_wamr_runner]\<rparr>"
      "alive live w1 = alive live w" "modules w1 = modules w" by (simp_all add: w1_def)
    have "set (wamr_runner (wamr_of m w1)) \<subseteq> {None, Some zero_wamr_runner}"
      using Cons.prems(2) set_update_subset_insert [of "wamr_runner (wamr_of m w)" i "Some zero_wamr_runner"] by (auto simp: w1)
    moreover have "create_runner_objects W m is w1 = (ok, w')" using Cons.prems(1) True by (simp add: w1_def)
    ultimately have "alive live w' = alive live w1 \<and> modules w' = modules w1 \<and> wamr_module (wamr_of m w') = wamr_module (wamr_of m w1) \<and>
        length (wamr_runner (wamr_of m w')) = length (wamr_runner (wamr_of m w1)) \<and>
        set (wamr_runner (wamr_of m w')) \<subseteq> {None, Some zero_wamr_runner} \<and>
        (ok \<longrightarrow> (\<forall>j < length (wamr_runner (wamr_of m w1)).
           j \<in> set is \<or> wamr_runner (wamr_of m w1) ! j \<noteq> None \<longrightarrow> wamr_runner (wamr_of m w') ! j \<noteq> None))"
      by (intro Cons.IH)
    moreover have "wamr_runner (wamr_of m w1) ! j \<noteq> None"
      if "wamr_runner (wamr_of m w) ! j \<noteq> None" "j < length (wamr_runner (wamr_of m w))" for j
      using that by (cases "i = j") (simp_all add: w1)
    moreover have "wamr_runner (wamr_of m w1) ! i \<noteq> None" if "i < length (wamr_runner (wamr_of m w))"
      using that by (simp add: w1)
    moreover have "alive live w1 = alive live w" "modules w1 = modules w" "wamr_module (wamr_of m w1) = wamr_module (wamr_of m w)"
        "length (wamr_runner (wamr_of m w1)) = length (wamr_runner (wamr_of m w))" by (simp_all add: w1)
    ultimately show ?thesis by simp
  qed (use Cons.prems in auto)
qed auto

definition has_env :: "wahe_wamr_runner_t option list \<Rightarrow> nat \<Rightarrow> bool" where
  "has_env rs r \<longleftrightarrow> r < length rs \<and> Option.bind (rs ! r) wa_exec_env \<noteq> None"

lemma envs_update:
  assumes "k < length rs" "1 \<le> k" "envs (drop k rs) = []" "wa_exec_env ro = Some e"
  shows "envs (drop 1 (rs[k := Some ro])) = envs (drop 1 rs) @ [e]" "envs (drop (Suc k) (rs[k := Some ro])) = []"
    "main_env (rs[k := Some ro]) = main_env rs"
proof -
  have d: "drop k rs = rs ! k # drop (Suc k) rs" using assms(1) by (simp add: Cons_nth_drop_Suc)
  then have none: "envs (drop (Suc k) rs) = []" using assms(3) by (auto split: option.splits)
  have "drop 1 rs = drop 1 (take k rs) @ drop k rs"
    using assms(1,2) drop_append [of 1 "take k rs" "drop k rs"] by simp
  moreover have "drop 1 (rs[k := Some ro]) = drop 1 (take k rs) @ Some ro # drop (Suc k) rs"
    using assms(1,2) by (simp add: upd_conv_take_nth_drop)
  ultimately show "envs (drop 1 (rs[k := Some ro])) = envs (drop 1 rs) @ [e]" using assms(3,4) none by simp
  show "envs (drop (Suc k) (rs[k := Some ro])) = []" using none by simp
  show "main_env (rs[k := Some ro]) = main_env rs" using assms(2) by (cases rs; cases k) (simp_all add: main_env_def)
qed

text \<open>A child attached to the runner after those that have one.\<close>

lemma child_attached:
  assumes W: "wamr_lifetimes W live" and b: "built live L m md (Some i) w" and env: "main_env (wamr_runner (wamr_of m w)) = Some e"
    and k: "k < length (wamr_runner (wamr_of m w))" "1 \<le> k" "envs (drop k (wamr_runner (wamr_of m w))) = []"
    and ro: "wamr_runner (wamr_of m w) ! k = Some ro"
    and c: "alive live w (Obj_env c) = None" "alive live w1 = (alive live w)(Obj_env c \<mapsto> Obj_env e)" "same_host w w1"
  shows "built live L m md (Some i) (attach_env W m k c w1)"
    "wamr_runner (wamr_of m (attach_env W m k c w1)) =
       (wamr_runner (wamr_of m w))[k := Some (ro\<lparr>wa_exec_env := Some c, wa_module_inst := Some (env_module_inst W c (runtime (guest w1)))\<rparr>)]"
proof -
  let ?rs = "wamr_runner (wamr_of m w)" and ?w2 = "attach_env W m k c w1"
  let ?ro = "ro\<lparr>wa_exec_env := Some c, wa_module_inst := Some (env_module_inst W c (runtime (guest w1)))\<rparr>"
  have rs: "wamr_of m ?w2 = (wamr_of m w)\<lparr>wamr_runner := ?rs[k := Some ?ro]\<rparr>" and md: "modules ?w2 = modules w"
    and al: "alive live ?w2 = (alive live w)(Obj_env c \<mapsto> Obj_env e)"
    using same_host_simps [OF c(3)] ro by (simp_all add: attach_env_def Let_def lifetimes_keep [OF W] c(2) [symmetric])
  then show "wamr_runner (wamr_of m ?w2) = ?rs[k := Some ?ro]" by simp
  have new: "new_objects md (Some i) (Some e) (envs (drop 1 ?rs)) L"
    and alw: "alive live w = with_children (envs (drop 1 ?rs)) e (module_objects md (Some i) (Some e) L)"
    and len: "length ?rs \<le> runner_count (modules w ! m)" and mod: "wamr_module (wamr_of m w) = Some md"
    using b env by (simp_all add: built_def Let_def)
  have "c \<notin> set (envs (drop 1 ?rs))" "L (Obj_env c) = None" "c \<noteq> e"
    using c(1) unfolding alw by (auto simp: with_children_def module_objects_def split: if_splits)
  then have "new_objects md (Some i) (Some e) (envs (drop 1 ?rs) @ [c]) L" using new by (auto simp: new_objects_def)
  moreover have "alive live ?w2 = with_children (envs (drop 1 ?rs) @ [c]) e (module_objects md (Some i) (Some e) L)"
    unfolding with_children_snoc al alw ..
  moreover have "envs (drop 1 (?rs[k := Some ?ro])) = envs (drop 1 ?rs) @ [c]" "main_env (?rs[k := Some ?ro]) = Some e"
    using envs_update [OF k, of ?ro c] env by simp_all
  ultimately show "built live L m md (Some i) ?w2" using len mod md rs by (simp add: built_def Let_def)
qed

lemma children_spawned:
  assumes W: "wamr_lifetimes W live"
  shows "spawn_runners W m e [k..<n] w = (ok, w') \<Longrightarrow> built live L m md (Some i) w \<Longrightarrow>
    main_env (wamr_runner (wamr_of m w)) = Some e \<Longrightarrow> length (wamr_runner (wamr_of m w)) = n \<Longrightarrow> 1 \<le> k \<Longrightarrow>
    envs (drop k (wamr_runner (wamr_of m w))) = [] \<Longrightarrow> None \<notin> set (wamr_runner (wamr_of m w)) \<Longrightarrow>
    (\<And>r. r < k \<Longrightarrow> r < n \<Longrightarrow> has_env (wamr_runner (wamr_of m w)) r) \<Longrightarrow>
    built live L m md (Some i) w' \<and> modules w' = modules w \<and>
    (ok \<longrightarrow> length (wamr_runner (wamr_of m w')) = n \<and> (\<forall>r < n. has_env (wamr_runner (wamr_of m w')) r))"
proof (induction "n - k" arbitrary: k w)
  case 0
  then show ?case by auto
next
  case (Suc d)
  let ?rs = "wamr_runner (wamr_of m w)"
  have kn: "k < n" and upt: "[k..<n] = k # [Suc k..<n]" using Suc.hyps(2) by (auto simp: upt_conv_Cons)
  obtain ro where ro: "?rs ! k = Some ro" using Suc.prems(4,7) kn by (metis nth_mem option.exhaust)
  obtain a w1 where s: "in_runtime (spawn_exec_env W e) w = (a, w1)" by (cases "in_runtime (spawn_exec_env W e) w")
  note al = in_runtime_creates [OF lifetimes_create(4) [OF W] s] and h = in_runtime_host [OF s]
  show ?case
  proof (cases a)
    case None
    have "w' = w1" "\<not> ok" using Suc.prems(1) None by (simp_all add: upt s)
    moreover have "built live L m md (Some i) w1" using Suc.prems(2) al None same_host_simps [OF h] by (simp add: built_def)
    ultimately show ?thesis using same_host_simps(2) [OF h] by simp
  next
    case (Some c)
    let ?w2 = "attach_env W m k c w1"
    have c: "alive live w (Obj_env c) = None" "alive live w1 = (alive live w)(Obj_env c \<mapsto> Obj_env e)" using al Some by simp_all
    have k: "k < length ?rs" using kn Suc.prems(4) by simp
    obtain ro' where ro': "wamr_runner (wamr_of m ?w2) = ?rs[k := Some ro']" "wa_exec_env ro' = Some c"
      using child_attached(2) [OF W Suc.prems(2,3) k Suc.prems(5,6) ro c h] by simp
    have "modules ?w2 = modules w" using same_host_simps(2) [OF h] by (simp add: attach_env_def Let_def)
    moreover have "built live L m md (Some i) ?w2" by (rule child_attached(1) [OF W Suc.prems(2,3) k Suc.prems(5,6) ro c h])
    moreover have "spawn_runners W m e [Suc k..<n] ?w2 = (ok, w')" using Suc.prems(1) Some by (simp add: upt s)
    moreover note u = envs_update [OF k Suc.prems(5,6) ro'(2)]
    moreover have "None \<notin> set (?rs[k := Some ro'])" using Suc.prems(7) set_update_subset_insert [of ?rs k "Some ro'"] by auto
    moreover have "has_env (?rs[k := Some ro']) r" if "r < Suc k" "r < n" for r
      using Suc.prems(8) [of r] that k ro'(2) by (cases "r = k") (auto simp: has_env_def)
    ultimately show ?thesis
      using Suc.hyps(1) [of "Suc k" ?w2] Suc.hyps(2) Suc.prems(3,4) ro'(1) by simp
  qed
qed

lemma envs_all: "(\<And>r. r < length rs \<Longrightarrow> has_env rs r) \<Longrightarrow> length (envs rs) = length rs"
proof (induction rs)
  case (Cons ro rs)
  have "has_env rs r" if "r < length rs" for r using Cons.prems [of "Suc r"] that by (simp add: has_env_def)
  moreover have "Option.bind ro wa_exec_env \<noteq> None" using Cons.prems [of 0] by (simp add: has_env_def)
  ultimately show ?case using Cons.IH by auto
qed simp

lemma refresh_memory_host:
  assumes "wahe_wamr_refresh_memory W (Some m) w = (ok, w')"
  shows "guest w' = guest w" "runner_count (modules w' ! k) = runner_count (modules w ! k)"
proof -
  have "runner_count ((modules w)[m := y] ! k) = runner_count (modules w ! k)" if "runner_count y = runner_count (modules w ! m)" for y
    using that by (cases "m < length (modules w)"; cases "k = m") (simp_all add: list_update_beyond not_less)
  then show "runner_count (modules w' ! k) = runner_count (modules w ! k)" "guest w' = guest w"
    using assms by (auto simp: wahe_wamr_refresh_memory_def Let_def split: if_splits option.splits)
qed

lemma built_cong:
  "built live L m md inst w \<Longrightarrow> alive live w' = alive live w \<Longrightarrow> wamr_module (wamr_of m w') = wamr_module (wamr_of m w) \<Longrightarrow>
   wamr_runner (wamr_of m w') = wamr_runner (wamr_of m w) \<Longrightarrow> runner_count (modules w' ! m) = runner_count (modules w ! m) \<Longrightarrow>
   built live L m md inst w'"
  by (simp add: built_def)

lemma empty_runners: "set rs \<subseteq> {None, Some zero_wamr_runner} \<Longrightarrow> envs rs = [] \<and> main_env rs = None"
  by (induction rs) (auto simp: main_env_def zero_wamr_runner_def)

text \<open>Runners that have no environment yet, then the main one's.\<close>

lemma built_objects:
  assumes "built live L m md (Some i) w" "wamr_runner (wamr_of m w) = []"
    "alive live w' = alive live w" "modules w' = modules w" "wamr_module (wamr_of m w') = wamr_module (wamr_of m w)"
    "set (wamr_runner (wamr_of m w')) \<subseteq> {None, Some zero_wamr_runner}" "length (wamr_runner (wamr_of m w')) \<le> runner_count (modules w ! m)"
  shows "built live L m md (Some i) w'"
proof -
  have "envs (drop 1 (wamr_runner (wamr_of m w'))) = []" "main_env (wamr_runner (wamr_of m w')) = None"
    using empty_runners [OF assms(6)] empty_runners [of "drop 1 (wamr_runner (wamr_of m w'))"] assms(6) set_drop_subset by fast+
  then show ?thesis using assms by (simp add: built_def main_env_def)
qed

lemma main_env_attached:
  assumes W: "wamr_lifetimes W live" and b: "built live L m md (Some i) w"
    and rs: "wamr_runner (wamr_of m w) = Some ro # rest" "wa_exec_env ro = None" "envs rest = []"
    and e: "alive live w (Obj_env e) = None" "alive live w' = (alive live w)(Obj_env e \<mapsto> Obj_instance i)"
    and w': "wamr_of m w' = (wamr_of m w)\<lparr>wamr_runner := Some (ro\<lparr>wa_exec_env := Some e\<rparr>) # rest\<rparr>" "modules w' = modules w"
  shows "built live L m md (Some i) w'"
proof -
  have b': "new_objects md (Some i) None [] L" "alive live w = module_objects md (Some i) None L"
    using b rs by (simp_all add: built_def main_env_def)
  then have "L (Obj_env e) = None" "alive live w' = module_objects md (Some i) (Some e) L"
    using e by (auto simp: module_objects_def)
  then show ?thesis using b b'(1) rs w' by (simp add: built_def main_env_def new_objects_def)
qed

lemma runners_created:
  assumes W: "wamr_lifetimes W live" and b: "built live L m md (Some i) w" and empty: "wamr_runner (wamr_of m w) = []"
    and n: "runner_count (modules w ! m) = n" "0 < n" and c: "create_wamr_runners W m i w = (ok, w')"
  shows "built live L m md (Some i) w' \<and> (ok \<longrightarrow> length (wamr_runner (wamr_of m w')) = n \<and> (\<forall>r < n. has_env (wamr_runner (wamr_of m w')) r))"
proof (cases "alloc_ok W (8 * n) w")
  case False
  then show ?thesis using c n empty by (auto simp: create_wamr_runners_def Let_def intro: built_cong [OF b])
next
  case True
  define w0 where "w0 = upd_wamr m (\<lambda>x. x\<lparr>wamr_runner := replicate n None\<rparr>) w"
  obtain a w1 where w1: "create_runner_objects W m [0..<n] w0 = (a, w1)" by (cases "create_runner_objects W m [0..<n] w0")
  have w0: "alive live w0 = alive live w" "modules w0 = modules w" "wamr_of m w0 = (wamr_of m w)\<lparr>wamr_runner := replicate n None\<rparr>"
    by (simp_all add: w0_def)
  have "set (wamr_runner (wamr_of m w0)) \<subseteq> {None, Some zero_wamr_runner}" by (auto simp: w0)
  note o = runner_objects_created [OF w1 this]
  have o1: "alive live w1 = alive live w" "modules w1 = modules w" "wamr_module (wamr_of m w1) = wamr_module (wamr_of m w)"
      "length (wamr_runner (wamr_of m w1)) = n" "set (wamr_runner (wamr_of m w1)) \<subseteq> {None, Some zero_wamr_runner}"
      "a \<Longrightarrow> i < n \<Longrightarrow> wamr_runner (wamr_of m w1) ! i \<noteq> None" for i
    using o by (auto simp: w0)
  have b1: "built live L m md (Some i) w1" by (rule built_objects [OF b empty o1(1-3,5)]) (simp add: o1(4) n)
  show ?thesis
  proof (cases a)
    case False
    then show ?thesis using b1 c n True w1 by (simp add: create_wamr_runners_def Let_def w0_def)
  next
    case a: True
    have all: "wamr_runner (wamr_of m w1) = replicate n (Some zero_wamr_runner)"
    proof (rule nth_equalityI)
      fix j assume "j < length (wamr_runner (wamr_of m w1))"
      moreover from this have "wamr_runner (wamr_of m w1) ! j \<in> {None, Some zero_wamr_runner}" using o1(5) nth_mem by blast
      ultimately show "wamr_runner (wamr_of m w1) ! j = replicate n (Some zero_wamr_runner) ! j" using o1(4) o1(6) [OF a, of j] by auto
    qed (simp add: o1(4))
    define z where "z = zero_wamr_runner\<lparr>wa_module_inst := Some i\<rparr>"
    define rest where "rest = replicate (n - 1) (Some zero_wamr_runner)"
    have rest: "envs rest = []" "None \<notin> set rest" "length rest = n - 1"
      using empty_runners [of rest] by (auto simp: rest_def set_replicate_conv_if split: if_splits)
    define w2 where "w2 = set_wamr_runner m 0 (\<lambda>ro. ro\<lparr>wa_module_inst := Some i\<rparr>) w1"
    have rep: "replicate n x = x # replicate (n - 1) x" for x :: "wahe_wamr_runner_t option" using n(2) by (cases n) auto
    have w2: "wamr_runner (wamr_of m w2) = Some z # rest" "alive live w2 = alive live w1" "modules w2 = modules w1"
        "wamr_module (wamr_of m w2) = wamr_module (wamr_of m w1)"
      by (simp_all add: w2_def all z_def rest_def rep)
    have z: "wa_exec_env z = None" by (simp add: z_def zero_wamr_runner_def)
    have b2: "built live L m md (Some i) w2"
      using b empty w2 rest z o1(1-3) n by (simp add: built_def main_env_def)
    obtain r w3 where w3: "in_runtime (create_exec_env W i WAHE_WAMR_NATIVE_STACK_SIZE) w2 = (r, w3)"
      by (cases "in_runtime (create_exec_env W i WAHE_WAMR_NATIVE_STACK_SIZE) w2")
    note al = in_runtime_creates [OF lifetimes_create(3) [OF W] w3] and h3 = same_host_simps [OF in_runtime_host [OF w3]]
    show ?thesis
    proof (cases r)
      case None
      then have "built live L m md (Some i) w3" using al h3 by (intro built_cong [OF b2]) simp_all
      moreover have "(ok, w') = (False, w3)" using c n True w1 a w3 None by (simp add: create_wamr_runners_def Let_def w0_def w2_def)
      ultimately show ?thesis by simp
    next
      case (Some e)
      define w4 where "w4 = runtime_change (set_user_data W e (m, 0)) (set_wamr_runner m 0 (\<lambda>ro. ro\<lparr>wa_exec_env := Some e\<rparr>) w3)"
      have w4: "wamr_of m w4 = (wamr_of m w2)\<lparr>wamr_runner := Some (z\<lparr>wa_exec_env := Some e\<rparr>) # rest\<rparr>" "modules w4 = modules w2"
          "alive live w4 = alive live w3"
        using h3 w2(1) by (simp_all add: w4_def lifetimes_keep [OF W])
      have e: "alive live w2 (Obj_env e) = None" "alive live w4 = (alive live w2)(Obj_env e \<mapsto> Obj_instance i)"
        using al Some w4(3) by simp_all
      have b4: "built live L m md (Some i) w4" by (rule main_env_attached [OF W b2 w2(1) z rest(1) e w4(1,2)])
      obtain s w5 where w5: "spawn_runners W m e [1..<n] w4 = (s, w5)" by (cases "spawn_runners W m e [1..<n] w4")
      have sp: "built live L m md (Some i) w5 \<and> modules w5 = modules w4 \<and>
          (s \<longrightarrow> length (wamr_runner (wamr_of m w5)) = n \<and> (\<forall>r < n. has_env (wamr_runner (wamr_of m w5)) r))"
        by (rule children_spawned [OF W w5 b4]) (use w4(1) rest n(2) in \<open>auto simp: main_env_def has_env_def\<close>)
      define w6 where "w6 = upd_wamr m (\<lambda>x. x\<lparr>wamr_memory := default_memory W i (runtime (guest w5))\<rparr>) w5"
      have res: "(ok, w') = (if s then wahe_wamr_refresh_memory W (Some m) w6 else (False, w5))"
        using c n True w1 a w3 Some w5 by (cases s) (simp_all add: create_wamr_runners_def w0_def w2_def w4_def w6_def Let_def)
      show ?thesis
      proof (cases s)
        case s: True
        then have rf: "wahe_wamr_refresh_memory W (Some m) w6 = (ok, w')" using res by simp
        have g: "guest w' = guest w6" "runner_count (modules w' ! m) = runner_count (modules w5 ! m)"
          using refresh_memory_host [OF rf] by (simp_all add: w6_def)
        then have "wamr_runner (wamr_of m w') = wamr_runner (wamr_of m w5)" "wamr_module (wamr_of m w') = wamr_module (wamr_of m w5)"
            "alive live w' = alive live w5"
          by (simp_all add: wamr_of_def) (simp_all add: w6_def upd_wamr_def wamr_of_def)
        then show ?thesis using sp s g(2) by (auto intro: built_cong)
      qed (use res sp in auto)
    qed
  qed
qed

section \<open>Initialising a module\<close>

definition no_wamr_fields :: wamr_fields where
  "no_wamr_fields = \<lparr>wamr_module = None, wamr_memory = None, wamr_module_buffer = None, wamr_runner = []\<rparr>"

definition start_returns :: "'h wamr \<Rightarrow> bool" where
  "start_returns W \<longleftrightarrow> (\<forall>md args w. instantiate W md args w \<noteq> None)"

lemma runtime_initialised:
  assumes "wamr_lifetimes W live" "wahe_wamr_runtime_init W w = (ready, w1)"
  shows "alive live w1 = alive live w \<and> same_host w w1"
proof -
  note k = in_runtime_keeps [OF lifetimes_keep(1) [OF assms(1)]] in_runtime_keeps [OF lifetimes_keep(2) [OF assms(1)]]
  define w0 where "w0 = w\<lparr>guest := (guest w)\<lparr>init_attempted := True\<rparr>\<rparr>"
  obtain f w2 where f: "in_runtime (full_init W (running_mode_supported W (runtime (guest w0)))) w0 = (f, w2)" by fastforce
  obtain g w3 where g: "in_runtime (register_natives W) w2 = (g, w3)" by fastforce
  have "same_host w w0" "alive live w0 = alive live w" by (simp_all add: w0_def same_host_def)
  moreover have "alive live w2 = alive live w0" "same_host w0 w2" using k(1) [OF f] in_runtime_host [OF f] by simp_all
  moreover have "alive live w3 = alive live w2" "same_host w2 w3" using k(2) [OF g] in_runtime_host [OF g] by simp_all
  moreover have "w1 = w \<or> w1 = w2 \<or> w1 = w3 \<or> w1 = w3\<lparr>guest := (guest w3)\<lparr>init_done := True\<rparr>\<rparr>"
    using assms(2) f g by (auto simp: wahe_wamr_runtime_init_def Let_def w0_def split: if_splits)
  ultimately show ?thesis by (auto simp: same_host_def)
qed

text \<open>What is left of an initialisation that started with the objects \<open>L\<close> and has \<open>n\<close> runners.\<close>

definition init_outcome :: "('h \<Rightarrow> ownership) \<Rightarrow> ownership \<Rightarrow> nat \<Rightarrow> nat \<Rightarrow> bool \<Rightarrow> 'h wamr_world \<Rightarrow> bool" where
  "init_outcome live L m n ok w \<longleftrightarrow>
     (if ok
      then (\<exists>md inst e es. let rs = wamr_runner (wamr_of m w) in
             length rs = n \<and> envs rs = e # es \<and> length (e # es) = length rs \<and> distinct (e # es) \<and>
             alive live w = with_children es e (module_objects md (Some inst) (Some e) L))
      else alive live w = L \<and> wamr_of m w = no_wamr_fields)"

lemma init_failed:
  assumes "wamr_lifetimes W live" "built live L m md inst w"
  shows "\<exists>w'. fail_init W m inst w = Some (False, w') \<and> init_outcome live L m n False w'"
  using cleanup_releases [OF assms] by (auto simp: fail_init_def init_outcome_def no_wamr_fields_def)

lemma init_succeeded:
  assumes b: "built live L m md (Some inst) w" and rs: "length (wamr_runner (wamr_of m w)) = n" "0 < n"
    and all: "\<forall>r < n. has_env (wamr_runner (wamr_of m w)) r"
  shows "init_outcome live L m n True w"
proof -
  define rs where "rs = wamr_runner (wamr_of m w)"
  have len: "length (envs rs) = length rs" using all assms(2) by (intro envs_all) (simp add: rs_def)
  obtain ro rest where rr: "rs = ro # rest" using assms(2,3) by (cases rs) (auto simp: rs_def)
  have "has_env rs 0" using all assms(3) by (simp add: rs_def)
  then obtain e where e: "main_env rs = Some e" "envs rs = e # envs (drop 1 rs)"
    by (auto simp: rr has_env_def main_env_def split: option.splits bind_splits)
  have "distinct (e # envs (drop 1 rs))" "alive live w = with_children (envs (drop 1 rs)) e (module_objects md (Some inst) (Some e) L)"
    using b e(1) by (simp_all add: built_def Let_def rs_def [symmetric] new_objects_def)
  with e(2) len assms(2) show ?thesis unfolding init_outcome_def Let_def rs_def [symmetric] by (simp add: rs_def [symmetric]) blast
qed

text \<open>The part of the initialisation after the module was loaded.\<close>

definition instance_stage :: "'h wamr \<Rightarrow> nat \<Rightarrow> nat \<Rightarrow> u32 \<Rightarrow> 'h wamr_world \<Rightarrow> (bool \<times> 'h wamr_world) option" where
  "instance_stage W m md hs w =
     do {
       (main_instance, w4) \<leftarrow> create_instance W m md hs w;
       (case main_instance of
          None \<Rightarrow> fail_init W m None w4
        | Some inst \<Rightarrow> (let (ok, w5) = create_wamr_runners W m inst w4 in
                         if ok then Some (True, w5) else fail_init W m (Some inst) w5))
     }"

lemma instance_stage_outcome:
  assumes W: "wamr_lifetimes W live" and q: "quiet_start W live m" and ret: "start_returns W"
    and b: "built live L m md None w" and empty: "wamr_runner (wamr_of m w) = []" and n: "runner_count (modules w ! m) = n" "0 < n"
  shows "\<exists>ok w'. instance_stage W m md hs w = Some (ok, w') \<and> init_outcome live L m n ok w'"
proof -
  obtain a w4 where w4: "create_instance W m md hs w = Some (a, w4)" "wamr_of m w4 = wamr_of m w"
      "runner_count (modules w4 ! m) = runner_count (modules w ! m)"
      "case a of None \<Rightarrow> alive live w4 = alive live w
       | Some i \<Rightarrow> alive live w (Obj_instance i) = None \<and> alive live w4 = (alive live w)(Obj_instance i \<mapsto> Obj_module md)"
    using instance_created [OF W q, of md hs w] ret by (auto simp: start_returns_def)
  show ?thesis
  proof (cases a)
    case None
    then have "built live L m md None w4" using w4 by (intro built_cong [OF b]) simp_all
    then obtain w' where "fail_init W m None w4 = Some (False, w')" "init_outcome live L m n False w'" using init_failed [OF W] by blast
    with w4(1) None show ?thesis by (intro exI [of _ False]) (simp add: instance_stage_def)
  next
    case (Some inst)
    have b4: "built live L m md (Some inst) w4"
      using b empty w4 Some by (auto simp: built_def main_env_def new_objects_def module_objects_def split: if_splits)
    obtain ok w5 where w5: "create_wamr_runners W m inst w4 = (ok, w5)" by fastforce
    have r: "built live L m md (Some inst) w5 \<and>
        (ok \<longrightarrow> length (wamr_runner (wamr_of m w5)) = n \<and> (\<forall>r < n. has_env (wamr_runner (wamr_of m w5)) r))"
      using w4 empty n by (intro runners_created [OF W b4 _ _ _ w5]) simp_all
    have st: "instance_stage W m md hs w = (if ok then Some (True, w5) else fail_init W m (Some inst) w5)"
      using w4(1) Some w5 by (simp add: instance_stage_def)
    show ?thesis
    proof (cases ok)
      case True
      with st r init_succeeded [of live L m md inst w5 n] n show ?thesis by auto
    next
      case False
      with st r init_failed [OF W, of L m md "Some inst" w5 n] show ?thesis by fastforce
    qed
  qed
qed

lemma init_module_stages:
  assumes "wahe_wamr_runtime_init W w = (True, w1)" "in_runtime (load_module W bs) w1 = (Some md, w2)"
    "bs \<noteq> []" "\<not> 2 ^ 32 - 1 < length bs" "modules w2 = modules w"
    and w3: "w3 = runtime_change (set_wasi_args W md (mod_name (modules w2 ! m)))
      (upd_wamr m (\<lambda>x. x\<lparr>wamr_module := Some md, wamr_module_buffer := Some bs\<rparr>) w2)"
  shows "wahe_wamr_init_module W m bs w =
    (let x = modules w ! m; hs = wahe_wamr_app_heap_size x in
     if 1 < runner_count x \<and> unat hs < unat (stack_base x) then fail_init W m None w3 else instance_stage W m md hs w3)"
  using assms by (simp add: wahe_wamr_init_module_def instance_stage_def Let_def)

text \<open>
  C7. Initialising a module in WAMR always returns when its start functions do. A failure gives back every object it created
  and no other, none while something else still belongs to it; a success leaves the module, its instance and
  an execution environment of its own for each runner, the first owning the others.
\<close>

theorem wamr_init_owns_or_releases:
  assumes "wamr_lifetimes W live" "quiet_start W live m" "start_returns W"
    and "wamr_of m w = no_wamr_fields" "0 < runner_count (modules w ! m)"
  shows "\<exists>ok w'. wahe_wamr_init_module W m bs w = Some (ok, w') \<and>
    (if ok
     then (\<exists>md inst e es. let rs = wamr_runner (wamr_of m w') in
            length rs = runner_count (modules w ! m) \<and> envs rs = e # es \<and> length (e # es) = length rs \<and> distinct (e # es) \<and>
            alive live w' = with_children es e (module_objects md (Some inst) (Some e) (alive live w)))
     else alive live w' = alive live w \<and> wamr_of m w' = no_wamr_fields)"
  unfolding init_outcome_def [symmetric]
proof -
  note W = assms(1)
  obtain ready w1 where w1: "wahe_wamr_runtime_init W w = (ready, w1)" by fastforce
  obtain r w2 where w2: "in_runtime (load_module W bs) w1 = (r, w2)" by fastforce
  note i1 = runtime_initialised [OF W w1] and i2 = in_runtime_creates [OF lifetimes_create(1) [OF W] w2]
    and h2 = same_host_simps [OF in_runtime_host [OF w2]]
  have f1: "wamr_of m w1 = no_wamr_fields" "modules w1 = modules w" "alive live w1 = alive live w"
    using i1 assms(4) by (auto simp: same_host_simps)
  consider "bs = [] \<or> 2 ^ 32 - 1 < length bs \<or> \<not> ready" | "\<not> (bs = [] \<or> 2 ^ 32 - 1 < length bs)" ready "r = None"
    | md where "bs \<noteq> []" "\<not> 2 ^ 32 - 1 < length bs" ready "r = Some md"
    by (cases r) auto
  then show "\<exists>ok w'. wahe_wamr_init_module W m bs w = Some (ok, w') \<and>
      init_outcome live (alive live w) m (runner_count (modules w ! m)) ok w'"
  proof cases
    case 1
    then show ?thesis using w1 f1 assms(4) by (auto simp: wahe_wamr_init_module_def init_outcome_def)
  next
    case 2
    then show ?thesis using w1 w2 f1 i2 h2
      by (intro exI [of _ False]) (simp add: wahe_wamr_init_module_def init_outcome_def no_wamr_fields_def)
  next
    case 3
    define w3 where "w3 = runtime_change (set_wasi_args W md (mod_name (modules w2 ! m)))
      (upd_wamr m (\<lambda>x. x\<lparr>wamr_module := Some md, wamr_module_buffer := Some bs\<rparr>) w2)"
    have al2: "alive live w2 = (alive live w)(Obj_module md \<mapsto> Obj_module md)" using i2 3 f1 by simp
    have w3: "wamr_module (wamr_of m w3) = Some md" "wamr_runner (wamr_of m w3) = []" "modules w3 = modules w"
        "alive live w (Obj_module md) = None"
      using 3 f1 h2 i2 by (simp_all add: w3_def no_wamr_fields_def)
    have "alive live w3 = (alive live w)(Obj_module md \<mapsto> Obj_module md)"
      unfolding al2 [symmetric] by (simp add: w3_def lifetimes_keep [OF W])
    then have b3: "built live (alive live w) m md None w3"
      using w3 alive_closed [OF W, of w] by (simp add: built_def main_env_def new_objects_def module_objects_def)
    have "modules w2 = modules w" using h2 f1 by simp
    note init = init_module_stages [OF _ _ 3(1,2) this w3_def]
    show ?thesis
      using init [OF w1 [unfolded eqTrueI [OF 3(3)]] w2 [unfolded 3(4)]] init_failed [OF W b3]
        instance_stage_outcome [OF W assms(2,3) b3 w3(2) _ assms(5)] w3(3)
      by (simp add: Let_def) (metis (no_types))
  qed
qed

section \<open>A runtime\<close>

text \<open>
  A small runtime with one module, its arguments, an instance, a main environment and one child, whose memory is one page; its
  functions return address 16 and have no effect.
\<close>

record sample_wamr_state =
  has_module :: bool
  has_args :: bool
  has_instance :: bool
  has_main :: bool
  has_child :: bool
  thread_ready :: bool

definition sample_live :: "sample_wamr_state \<Rightarrow> ownership" where
  "sample_live h x =
     (if x = Obj_module 0 \<and> has_module h then Some (Obj_module 0)
      else if x = Obj_args 0 \<and> has_args h then Some (Obj_args 0)
      else if x = Obj_instance 0 \<and> has_module h \<and> has_instance h then Some (Obj_module 0)
      else if x = Obj_env 0 \<and> has_module h \<and> has_instance h \<and> has_main h then Some (Obj_instance 0)
      else if x = Obj_env 1 \<and> has_module h \<and> has_instance h \<and> has_main h \<and> has_child h then Some (Obj_env 0)
      else None)"

definition sample_wamr :: "sample_wamr_state wamr" where
  "sample_wamr = \<lparr>
     native_calls = \<lparr>guest_call = (\<lambda>m r f a w. Some (Returned 0, w)), timestamp = (\<lambda>w. 0), host_realloc_ok = (\<lambda>n. True)\<rparr>,
     alloc_ok = (\<lambda>n w. True), running_mode_supported = (\<lambda>h. True), full_init = (\<lambda>b s. (True, s)), register_natives = (\<lambda>s. (True, s)),
     load_module = (\<lambda>bs (h, mem). if has_module h then (None, (h, mem))
       else (Some 0, (h\<lparr>has_module := True, has_instance := False\<rparr>, mem))),
     unload_module = (\<lambda>n (h, mem). Some (if n = 0 then h\<lparr>has_module := False\<rparr> else h, mem)),
     set_wasi_args = (\<lambda>n name s. s),
     args_create = (\<lambda>(h, mem). if has_args h then (None, (h, mem)) else (Some 0, (h\<lparr>has_args := True\<rparr>, mem))),
     args_set = (\<lambda>a n k m s. s),
     args_destroy = (\<lambda>n (h, mem). Some (if n = 0 then h\<lparr>has_args := False\<rparr> else h, mem)),
     instantiate = (\<lambda>md args w.
       let h = runtime (guest w) in
       if md = 0 \<and> has_module h \<and> \<not> has_instance h
       then Some (Some 0, w\<lparr>guest := (guest w)\<lparr>runtime := h\<lparr>has_instance := True, has_main := False\<rparr>\<rparr>\<rparr>) else Some (None, w)),
     deinstantiate = (\<lambda>n (h, mem). Some (if n = 0 then h\<lparr>has_instance := False\<rparr> else h, mem)),
     create_exec_env = (\<lambda>i n (h, mem). if i = 0 \<and> has_module h \<and> has_instance h \<and> \<not> has_main h
       then (Some 0, (h\<lparr>has_main := True, has_child := False\<rparr>, mem)) else (None, (h, mem))),
     destroy_exec_env = (\<lambda>n (h, mem). Some (if n = 0 then h\<lparr>has_main := False\<rparr> else if n = 1 then h\<lparr>has_child := False\<rparr> else h, mem)),
     spawn_exec_env = (\<lambda>e (h, mem). if e = 0 \<and> has_module h \<and> has_instance h \<and> has_main h \<and> \<not> has_child h
       then (Some 1, (h\<lparr>has_child := True\<rparr>, mem)) else (None, (h, mem))),
     destroy_spawned_exec_env = (\<lambda>n (h, mem). Some (if n = 0 then h\<lparr>has_main := False\<rparr> else if n = 1 then h\<lparr>has_child := False\<rparr> else h, mem)),
     env_module_inst = (\<lambda>e h. e), set_custom_data = (\<lambda>i m s. s), set_user_data = (\<lambda>e u s. s), custom_data = (\<lambda>i h. Some 0),
     user_data = (\<lambda>e h. Some (0, e)), default_memory = (\<lambda>i h. Some 0), memory_base = (\<lambda>n h. 0x10000), memory_pages = (\<lambda>n h. 1),
     memory_page_bytes = (\<lambda>n h. 0x10000), export_global = (\<lambda>i name h. None), lookup_function = (\<lambda>i name h. Some 7),
     function_type = (\<lambda>f i h. ([WASM_I32], [WASM_I32])), thread_env_inited = thread_ready,
     init_thread_env = (\<lambda>(h, mem). (True, (h\<lparr>thread_ready := True\<rparr>, mem))),
     destroy_thread_env = (\<lambda>(h, mem). (h\<lparr>thread_ready := False\<rparr>, mem)), call_wasm = (\<lambda>env fn res params w. Some (Some 16, w)), validate_app_str_addr = (\<lambda>i a h mem. True),
     addr_app_to_native = (\<lambda>i a h. a + 0x10000), start_os_thread = (\<lambda>m r w. (True, w)), join_os_thread = (\<lambda>m r w. Some (True, w)),
     pause_thread = (\<lambda>w. w)\<rparr>"

lemma sample_lifetimes: "wamr_lifetimes sample_wamr sample_live"
proof -
  have "sample_live h y \<noteq> None" if "sample_live h x = Some y" for h x y
    using that by (auto simp: sample_live_def split: if_splits)
  moreover have "sample_live h = L \<longleftrightarrow> (\<forall>x. sample_live h x = L x)" for h L by (simp add: fun_eq_iff)
  ultimately show ?thesis unfolding wamr_lifetimes_def
    by (simp add: creates_def releases_def keeps_objects_def sample_wamr_def owned_by_def)
      (auto simp: sample_live_def split: if_splits)
qed

lemma sample_quiet_start: "quiet_start sample_wamr sample_live 0"
  by (auto simp: quiet_start_def sample_wamr_def sample_live_def wamr_of_def fun_eq_iff Let_def split: if_splits)

lemma sample_start_returns: "start_returns sample_wamr"
  by (simp add: start_returns_def sample_wamr_def Let_def)

definition wamr_sample_module :: wahe_module_t where
  "wamr_sample_module = zero_module\<lparr>mod_name := ''synth.wasm'', mtype := WAHE_MODULE_WAMR, runner_count := 2, initial_runner_count := 2,
     stack_base := 0x400, memory_bits := 32, thread_memory_safe := True, next_thread_id := 1\<rparr>"

definition wamr_sample_world :: "sample_wamr_state wamr_world" where
  "wamr_sample_world = \<lparr>host_mem = (\<lambda>_. None), modules = [wamr_sample_module], chains = [],
     registry = \<lparr>cmd_reg = [], cmd_reg_sequence = 0, max_cmd_word_count = 0, host_commands_registered = False\<rparr>,
     module_array = 0, module_as = 0, cita_index = (0, 0), translation = initial_translation, cur_chain = None, cur_native_module = None,
     cur_native_runner_id = 0, cur_wasmtime_runner = None, execution_failed = False, locks = (\<lambda>_. 0),
     guest = \<lparr>wamr_modules = (\<lambda>_. no_wamr_fields), cur_wamr_runner = None, init_attempted = False, init_done = False,
       runtime = \<lparr>has_module = False, has_args = False, has_instance = False, has_main = False, has_child = False, thread_ready = False\<rparr>\<rparr>\<rparr>"

lemma sample_initialised:
  "map_option fst (wahe_wamr_init_module sample_wamr 0 [0] wamr_sample_world) = Some True"
  by (simp add: wahe_wamr_init_module_def wahe_wamr_runtime_init_def sample_wamr_def wamr_sample_world_def wamr_sample_module_def
      in_runtime_def runtime_change_def runtime_release_def upd_wamr_def set_wamr_runner_def wamr_of_def no_wamr_fields_def
      create_instance_def create_wamr_runners_def upt_rec attach_env_def zero_wamr_runner_def wahe_wamr_refresh_memory_def
      wahe_wamr_app_heap_size_def WAHE_WAMR_APP_HEAP_SIZE_def WAHE_WAMR_MAX_THREADS_def reported_size_def zero_module_def Let_def)

theorem wamr_init_owns_or_releases_witness:
  "\<exists>w' e c. wahe_wamr_init_module sample_wamr 0 [0] wamr_sample_world = Some (True, w') \<and>
     envs (wamr_runner (wamr_of 0 w')) = [e, c] \<and> e \<noteq> c \<and> alive sample_live w' (Obj_env c) = Some (Obj_env e)"
proof -
  have pre: "wamr_of 0 wamr_sample_world = no_wamr_fields" "runner_count (modules wamr_sample_world ! 0) = 2"
    by (simp_all add: wamr_of_def wamr_sample_world_def wamr_sample_module_def)
  obtain w' md inst e es where "wahe_wamr_init_module sample_wamr 0 [0] wamr_sample_world = Some (True, w')"
      "length (wamr_runner (wamr_of 0 w')) = 2" "envs (wamr_runner (wamr_of 0 w')) = e # es"
      "length (e # es) = length (wamr_runner (wamr_of 0 w'))" "distinct (e # es)"
      "alive sample_live w' = with_children es e (module_objects md (Some inst) (Some e) (alive sample_live wamr_sample_world))"
    using wamr_init_owns_or_releases [OF sample_lifetimes sample_quiet_start sample_start_returns pre(1), of "[0]"] sample_initialised pre(2)
    by (auto simp: Let_def)
  then show ?thesis by (cases es) (auto simp: with_children_def)
qed

end
