(* ===== verification/Wamr_Threads.thy ===== *)
theory Wamr_Threads
  imports Wamr_Init
begin

text \<open>
  Threads of a module in the build with WAMR, from \<open>wahe_threads.c\<close>: each runs in a child of the module's instance with an
  auxiliary stack of its own. As in \<open>Threads\<close>, the calling thread is followed and a runner that is gone is undefined.
\<close>

section \<open>The code\<close>

definition delete_thread_runner :: "'h wamr \<Rightarrow> nat \<Rightarrow> nat \<Rightarrow> 'h wamr_world \<Rightarrow> 'h wamr_world option" where
  "delete_thread_runner W m r w =
     do {
       ro \<leftarrow> wamr_object m r w;
       w1 \<leftarrow> wamr_free W m (wa_input_addr ro) w;
       ro1 \<leftarrow> wamr_object m r w1;
       w2 \<leftarrow> wamr_free W m (wa_tls_alloc ro1) w1;
       ro2 \<leftarrow> wamr_object m r w2;
       release_opt (destroy_spawned_exec_env W) (wa_exec_env ro2)
         (upd_wamr m (\<lambda>x. x\<lparr>wamr_runner := (wamr_runner x)[r := None]\<rparr>) w2)
     }"

fun find_exports :: "'h wamr \<Rightarrow> nat \<Rightarrow> nat \<Rightarrow> nat \<Rightarrow> nat list \<Rightarrow> 'h wamr_world \<Rightarrow> 'h wamr_world" where
  "find_exports W m r inst [] w = w"
| "find_exports W m r inst (i # is) w =
     find_exports W m r inst is
       (let f = func_ids ! i; fn = lookup_function W inst (export_name f i) (runtime (guest w)) in
        set_wamr_runner m r (\<lambda>ro. ro\<lparr>wa_func := (wa_func ro)(f := fn)\<rparr>) w)"

definition init_thread_exports :: "'h wamr \<Rightarrow> nat \<Rightarrow> nat \<Rightarrow> 'h wamr_world \<Rightarrow> (bool \<times> 'h wamr_world) option" where
  "init_thread_exports W m r w =
     do {
       ro \<leftarrow> wamr_object m r w;
       inst \<leftarrow> wa_module_inst ro;
       (let w1 = find_exports W m r inst [1..<10] w in
        do { ok \<leftarrow> wahe_wamr_validate_address_function W m r WAHE_FUNC_THREAD_ENTRY 1 1 w1; Some (ok, w1) })
     }"

text \<open>The worker, with its own thread-local variables.\<close>

definition thread_main :: "'h wamr \<Rightarrow> nat \<Rightarrow> nat \<Rightarrow> 'h wamr_world \<Rightarrow> 'h wamr_world option" where
  "thread_main W m r w =
     do {
       ro \<leftarrow> wamr_object m r w;
       (reply, w1) \<leftarrow> wamr_func_on_runner W m r (wa_input_addr ro) WAHE_FUNC_THREAD_ENTRY False
                         (set_current_runner (Some (m, r)) w\<lparr>cur_chain := None\<rparr>);
       w2 \<leftarrow> (if reply = 0 then Some w1
               else do {
                 s \<leftarrow> c_text (host_mem w1) reply;
                 wamr_object m r w1;
                 Some (set_wamr_runner m r (\<lambda>ro. ro\<lparr>wa_thread_reply := Some s\<rparr>) w1)
               });
       Some (set_current_runner None w2)
     }"

text \<open>Claiming a slot: the failure message, or the slot and the changed world.\<close>

definition new_wamr_runner :: "nat \<Rightarrow> nat \<Rightarrow> wahe_wamr_runner_t" where
  "new_wamr_runner thread_id stack_size =
     zero_wamr_runner\<lparr>wa_thread_id := thread_id, wa_stack_size := stack_size, wa_creating := True\<rparr>"

definition free_wamr_slot :: "nat \<Rightarrow> 'h wamr_world \<Rightarrow> nat" where
  "free_wamr_slot m w =
     (let x = modules w ! m in
      case List.find (\<lambda>i. wamr_runner (wamr_of m w) ! i = None) [initial_runner_count x..<runner_count x] of
        Some i \<Rightarrow> i | None \<Rightarrow> max (initial_runner_count x) (runner_count x))"

definition claim_wamr_slot :: "'h wamr \<Rightarrow> nat \<Rightarrow> nat \<Rightarrow> 'h wamr_world \<Rightarrow> (string + nat) \<times> 'h wamr_world" where
  "claim_wamr_slot W m stack_size w =
     (let x = modules w ! m; slot = free_wamr_slot m w; grow = (slot = runner_count x) in
      if threads_stopping x then (Inl ''module is shutting down'', w)
      else if next_thread_id x = 0 then (Inl ''thread identifiers exhausted'', w)
      else if grow \<and> (slot = SIZE_MAX div 8 \<or> \<not> alloc_ok W ((slot + 1) * 8) w) then (Inl ''host allocation failed'', w)
      else (let w1 = (if grow then upd_module m (\<lambda>x. x\<lparr>runner_count := runner_count x + 1\<rparr>)
                        (upd_wamr m (\<lambda>x. x\<lparr>wamr_runner := take slot (wamr_runner x) @ [None]\<rparr>) w) else w) in
            if \<not> alloc_ok W 1 w1 then (Inl ''host allocation failed'', w1)
            else (Inr slot, upd_module m (\<lambda>x. x\<lparr>next_thread_id := (next_thread_id x + 1) mod 2 ^ 64\<rparr>)
                    (upd_wamr m (\<lambda>y. y\<lparr>wamr_runner := (wamr_runner y)[slot := Some (new_wamr_runner (next_thread_id x) stack_size)]\<rparr>) w1))))"

text \<open>The child is spawned from the runner this thread is in, or from runner zero.\<close>

definition parent_runner :: "nat \<Rightarrow> 'h wamr_world \<Rightarrow> nat" where
  "parent_runner m w = (case cur_wamr_runner (guest w) of Some (cm, cr) \<Rightarrow> if cm = m then cr else 0 | None \<Rightarrow> 0)"

definition spawn_thread_env :: "'h wamr \<Rightarrow> nat \<Rightarrow> nat \<Rightarrow> 'h wamr_world \<Rightarrow> (bool \<times> 'h wamr_world) option" where
  "spawn_thread_env W m slot w =
     do {
       parent \<leftarrow> wamr_object m (parent_runner m w) w;
       parent_env \<leftarrow> wa_exec_env parent;
       wamr_object m slot w;
       (case in_runtime (spawn_exec_env W parent_env) w of
          (None, w1) \<Rightarrow> Some (False, w1)
        | (Some e, w1) \<Rightarrow> Some (True, attach_env W m slot e w1))
     }"

definition copy_thread_input :: "'h wamr \<Rightarrow> nat \<Rightarrow> nat \<Rightarrow> u64 \<Rightarrow> 'h wamr_world \<Rightarrow> (bool \<times> 'h wamr_world) option" where
  "copy_thread_input W m slot message w =
     do {
       s \<leftarrow> c_text (host_mem w) message;
       (a, w1) \<leftarrow> wamr_malloc W m (of_nat (length s + 1)) w;
       wamr_object m slot w1;
       (let w2 = set_wamr_runner m slot (\<lambda>ro. ro\<lparr>wa_input_addr := a\<rparr>) w1 in
        if a = 0 then Some (False, w2)
        else do {
          h \<leftarrow> memcpy (host_mem w2) (memory_ptr (modules w2 ! m) + a) message (length s + 1);
          Some (True, w2\<lparr>host_mem := h\<rparr>)
        })
     }"

definition start_wamr_thread :: "'h wamr \<Rightarrow> nat \<Rightarrow> nat \<Rightarrow> 'h wamr_world \<Rightarrow> (bool \<times> 'h wamr_world) option" where
  "start_wamr_thread W m slot w =
     (if \<not> alloc_ok W 1 w then Some (False, w)
      else (case start_os_thread W m slot w of
              (ok, w1) \<Rightarrow> Some (ok, if ok then set_wamr_runner m slot (\<lambda>ro. ro\<lparr>wa_thread_handle := True\<rparr>) w1 else w1)))"

definition wamr_thread_steps :: "'h wamr \<Rightarrow> nat \<Rightarrow> nat \<Rightarrow> u64 \<Rightarrow> (string \<times> ('h wamr_world \<Rightarrow> (bool \<times> 'h wamr_world) option)) list" where
  "wamr_thread_steps W m slot message =
     [(''WAMR child creation failed; enable thread manager, shared memory and heap auxiliary stacks'', spawn_thread_env W m slot),
      (''WAMR auxiliary stack initialization failed'', wahe_wamr_blank_aux_stack W m slot),
      (''module_thread_entry must have the usual text callback signature'', init_thread_exports W m slot),
      (''TLS initialization failed; export __tls_size, __tls_align and __wasm_init_tls'', wahe_wamr_init_thread_tls W m slot True),
      (''entry message allocation failed'', copy_thread_input W m slot message),
      (''OS thread creation failed'', start_wamr_thread W m slot)]"

definition thread_refusal :: "wahe_module_t \<Rightarrow> nat \<Rightarrow> string option" where
  "thread_refusal x stack_size =
     (if \<not> valid x \<or> mtype x \<noteq> WAHE_MODULE_WAMR \<or> \<not> thread_memory_safe x
      then Some ''requires WAMR shared memory with a maximum''
      else if memory_bits x = 64 \<and> \<not> WAHE_WAMR_MEMORY64_THREADS
      then Some ''this WAMR build cannot create memory64 auxiliary stacks''
      else if stack_size = 0 \<or> unat (address_max (memory_bits x)) - 15 < stack_size
      then Some ''stack size must be positive and representable''
      else if stack_base x = 0 \<or> data_end x < stack_base x \<or> unat (stack_base x) < (stack_size + 15) div 16 * 16
      then Some ''requested stack exceeds the module's linked WAMR auxiliary stack''
      else None)"

definition create_wamr_thread :: "'h wamr \<Rightarrow> nat \<Rightarrow> nat \<Rightarrow> u64 \<Rightarrow> 'h wamr_world \<Rightarrow> ((string + nat) \<times> 'h wamr_world) option" where
  "create_wamr_thread W m stack_size message w =
     (case thread_refusal (modules w ! m) stack_size of
        Some failure \<Rightarrow> Some (Inl failure, w)
      | None \<Rightarrow>
          (case claim_wamr_slot W m ((stack_size + 15) div 16 * 16) w of
             (Inl failure, w1) \<Rightarrow> Some (Inl failure, w1)
           | (Inr slot, w1) \<Rightarrow>
               do {
                 (failed, w2) \<leftarrow> thread_steps (wamr_thread_steps W m slot message) w1;
                 ro \<leftarrow> wamr_object m slot w2;
                 (case failed of
                    Some failure \<Rightarrow> do { w3 \<leftarrow> delete_thread_runner W m slot w2; Some (Inl failure, w3) }
                  | None \<Rightarrow> Some (Inr (wa_thread_id ro), set_wamr_runner m slot (\<lambda>ro. ro\<lparr>wa_creating := False\<rparr>) w2))
               }))"

text \<open>Joining: the runner with the identifier, the last one if there were several.\<close>

definition joinable_wamr :: "nat \<Rightarrow> nat \<Rightarrow> 'h wamr_world \<Rightarrow> nat option" where
  "joinable_wamr m ident w =
     List.find (\<lambda>i. case wamr_object m i w of
                      None \<Rightarrow> False
                    | Some ro \<Rightarrow> wa_thread_id ro = ident \<and> \<not> wa_creating ro \<and> \<not> wa_joining ro)
       (rev [initial_runner_count (modules w ! m)..<runner_count (modules w ! m)])"

definition join_wamr_thread :: "'h wamr \<Rightarrow> nat \<Rightarrow> nat \<Rightarrow> 'h wamr_world \<Rightarrow> ((string + string option) \<times> 'h wamr_world) option" where
  "join_wamr_thread W m ident w =
     (case joinable_wamr m ident w of
        None \<Rightarrow> Some (Inl ''unknown thread ID or thread already being joined'', w)
      | Some r \<Rightarrow>
          if cur_wamr_runner (guest w) = Some (m, r) then Some (Inl ''a thread cannot join itself'', w)
          else do {
            (joined, w1) \<leftarrow> join_os_thread W m r (set_wamr_runner m r (\<lambda>ro. ro\<lparr>wa_joining := True\<rparr>) w);
            ro \<leftarrow> wamr_object m r w1;
            (if \<not> joined then Some (Inl ''OS thread join failed'', set_wamr_runner m r (\<lambda>ro. ro\<lparr>wa_joining := False\<rparr>) w1)
             else do {
               w2 \<leftarrow> delete_thread_runner W m r (set_wamr_runner m r (\<lambda>ro. ro\<lparr>wa_thread_reply := None\<rparr>) w1);
               Some (Inr (wa_thread_reply ro), w2)
             })
          })"

text \<open>The shutdown joins until no worker is left; it pauses while all that are left are being joined elsewhere.\<close>

definition used_wamr_slots :: "nat \<Rightarrow> 'h wamr_world \<Rightarrow> nat list" where
  "used_wamr_slots m w =
     filter (\<lambda>i. wamr_object m i w \<noteq> None) [initial_runner_count (modules w ! m)..<runner_count (modules w ! m)]"

definition unclaimed_wamr_thread :: "nat \<Rightarrow> 'h wamr_world \<Rightarrow> nat" where
  "unclaimed_wamr_thread m w =
     (case List.find (\<lambda>i. case wamr_object m i w of None \<Rightarrow> False | Some ro \<Rightarrow> \<not> wa_creating ro \<and> \<not> wa_joining ro)
             (rev (used_wamr_slots m w)) of
        None \<Rightarrow> 0
      | Some i \<Rightarrow> (case wamr_object m i w of None \<Rightarrow> 0 | Some ro \<Rightarrow> wa_thread_id ro))"

partial_function (option) join_wamr_loop :: "'h wamr \<Rightarrow> nat \<Rightarrow> 'h wamr_world \<Rightarrow> 'h wamr_world option" where
  "join_wamr_loop W m w =
     (if used_wamr_slots m w = [] then Some w
      else if unclaimed_wamr_thread m w \<noteq> 0
      then do { (res, w1) \<leftarrow> join_wamr_thread W m (unclaimed_wamr_thread m w) w; join_wamr_loop W m w1 }
      else join_wamr_loop W m (pause_thread W w))"

definition wamr_module_join_threads :: "'h wamr \<Rightarrow> nat option \<Rightarrow> 'h wamr_world \<Rightarrow> 'h wamr_world option" where
  "wamr_module_join_threads W ctx w =
     (case ctx of
        None \<Rightarrow> Some w
      | Some m \<Rightarrow>
          if mtype (modules w ! m) \<noteq> WAHE_MODULE_WAMR then Some w
          else if (case cur_wamr_runner (guest w) of
                     None \<Rightarrow> False
                   | Some (cm, cr) \<Rightarrow> cm = m \<and> (case wamr_object cm cr w of None \<Rightarrow> False | Some ro \<Rightarrow> wa_thread_id ro \<noteq> 0))
          then Some w
          else (let w1 = upd_module m (\<lambda>x. x\<lparr>threads_stopping := True\<rparr>) w in
                do {
                  notify \<leftarrow> (if used_wamr_slots m w1 = [] then Some False
                              else map_option (\<lambda>ro. wa_func ro WAHE_FUNC_INPUT \<noteq> None) (wamr_object m 0 w1));
                  w2 \<leftarrow> (if notify then map_option snd (wamr_send_input W m ''Stop threads'' w1) else Some w1);
                  join_wamr_loop W m w2
                }))"

end
