(* ===== verification/Wamr_Correct.thy ===== *)
theory Wamr_Correct
  imports Wamr_Lifetimes Wamr_Threads
begin

text \<open>
  Calls into modules in the build with WAMR: the calling thread gets its context back, and the memory of a module stays where
  the host published it first, or the module is given up.
\<close>

section \<open>The calling context\<close>

text \<open>The context of the thread with its WAMR runner, and whether WAMR has state for this thread.\<close>

definition same_wamr_context :: "'h wamr \<Rightarrow> 'h wamr_world \<Rightarrow> 'h wamr_world \<Rightarrow> bool" where
  "same_wamr_context W w w' \<longleftrightarrow>
     same_context w w' \<and> cur_wamr_runner (guest w') = cur_wamr_runner (guest w) \<and>
     thread_env_inited W (runtime (guest w')) = thread_env_inited W (runtime (guest w))"

text \<open>The code of a module leaves them, and WAMR's state for a thread is there exactly from its creation to its end.\<close>

definition wamr_keeps_context :: "'h wamr \<Rightarrow> bool" where
  "wamr_keeps_context W \<longleftrightarrow>
     (\<forall>env fn res params w v w'. call_wasm W env fn res params w = Some (v, w') \<longrightarrow> same_wamr_context W w w') \<and>
     (\<forall>m r f a w out w'. guest_call (native_calls W) m r f a w = Some (out, w') \<longrightarrow> same_wamr_context W w w') \<and>
     (\<forall>h mem h' mem'. init_thread_env W (h, mem) = (True, (h', mem')) \<longrightarrow> thread_env_inited W h') \<and>
     (\<forall>h mem. \<not> thread_env_inited W (fst (destroy_thread_env W (h, mem))))"

lemma same_wamr_context_trans: "same_wamr_context W a b \<Longrightarrow> same_wamr_context W b c \<Longrightarrow> same_wamr_context W a c"
  by (auto simp: same_wamr_context_def intro: same_context_trans)

lemma same_wamr_context_refl [simp]: "same_wamr_context W w w"
  by (simp add: same_wamr_context_def)

lemma same_wamr_context_passive [simp]:
  "same_wamr_context W w (upd_module m f w)" "same_wamr_context W w (w\<lparr>host_mem := h\<rparr>)"
  "same_wamr_context W w (store_ret_addr slot v w)"
proof -
  show "same_wamr_context W w (store_ret_addr slot v w)"
    using same_context_store_ret [of w slot v] by (auto simp: same_wamr_context_def store_ret_addr_def upd_chain_def split: option.split)
qed (simp_all add: same_wamr_context_def)

lemma refresh_context: "same_wamr_context W w (refresh_module_memory_size W ctx w)"
  by (simp add: refresh_module_memory_size_def wahe_wamr_refresh_memory_def Let_def split: option.split)

text \<open>A call in a runner's environment, between entering and leaving WAMR's state for the thread.\<close>

lemma call_in_runner_context:
  assumes "wamr_keeps_context W" "call_in_runner W m r fn res params w = Some (v, w')"
  shows "same_wamr_context W w w'"
proof -
  obtain env w1 where "call_wasm W env fn res params (set_current_runner (Some (m, r)) (acquire (Runner_lock m r) w)) = Some (v, w1)"
    and w': "w' = release (Runner_lock m r) (set_current_runner (cur_wamr_runner (guest w)) w1)"
    using assms(2) by (auto simp: call_in_runner_def split: bind_splits)
  then have "same_wamr_context W (set_current_runner (Some (m, r)) (acquire (Runner_lock m r) w)) w1"
    using assms(1) unfolding wamr_keeps_context_def by blast
  then show ?thesis
    by (auto simp: w' same_wamr_context_def same_context_def set_current_runner_def acquire_def release_def fun_eq_iff)
qed

lemma thread_env_entered:
  assumes "wamr_keeps_context W" "enter_thread_env W w = (Some destroy, w1)"
  shows "same_context w w1" "cur_wamr_runner (guest w1) = cur_wamr_runner (guest w)" "thread_env_inited W (runtime (guest w1))"
    "destroy \<longleftrightarrow> \<not> thread_env_inited W (runtime (guest w))" "modules w1 = modules w" "chains w1 = chains w"
proof -
  have "thread_env_inited W h'" if "init_thread_env W (h, mem) = (True, (h', mem'))" for h mem h' mem'
    using assms(1) that unfolding wamr_keeps_context_def by blast
  then show "same_context w w1" "cur_wamr_runner (guest w1) = cur_wamr_runner (guest w)" "thread_env_inited W (runtime (guest w1))"
    "destroy \<longleftrightarrow> \<not> thread_env_inited W (runtime (guest w))" "modules w1 = modules w" "chains w1 = chains w"
    using assms(2) by (auto simp: enter_thread_env_def in_runtime_def same_context_def split: if_splits prod.splits)
qed

lemma wamr_call_context:
  assumes W: "wamr_keeps_context W" and c: "wahe_wamr_call W m r f args w = Some (Some v, w')"
  shows "same_wamr_context W w w'"
proof -
  obtain destroy w1 fn ps a w2 where e: "enter_thread_env W w = (Some destroy, w1)"
    and call: "call_in_runner W m r fn (f \<noteq> WAHE_FUNC_FREE) ps w1 = Some (a, w2)" and w': "w' = leave_thread_env W destroy w2"
    using c by (auto simp: wahe_wamr_call_def split: prod.splits option.splits if_splits bind_splits)
  note n = thread_env_entered [OF W e] and k = call_in_runner_context [OF W call]
  have "same_context w2 w'" "cur_wamr_runner (guest w') = cur_wamr_runner (guest w2)"
    "thread_env_inited W (runtime (guest w')) = (if destroy then False else thread_env_inited W (runtime (guest w2)))"
    using W by (auto simp: w' leave_thread_env_def runtime_change_def in_runtime_def same_context_def wamr_keeps_context_def
        split: prod.splits) (metis fst_conv)
  then show ?thesis using n k by (auto simp: same_wamr_context_def intro: same_context_trans)
qed

lemma call_wamr_context:
  assumes W: "wamr_keeps_context W" and c: "call_wamr W m r arg f w = Some (v, w')"
  shows "same_wamr_context W w w'"
proof (cases "wahe_get_wamr_runner (Some m) r w")
  case (Some r')
  with c have "w' = w \<or> (\<exists>w1 w2 w3. set_current_func (cur_chain w) f w = Some w1 \<and>
      wahe_wamr_call W m r' f arg w1 = Some (Some v, w2) \<and> set_current_func (cur_chain w) (chain_func w) w2 = Some w3 \<and>
      w' = refresh_module_memory_size W (Some m) w3)"
    by (auto simp: call_wamr_def split: if_splits bind_splits)
  then show ?thesis
  proof (elim disjE exE conjE)
    fix w1 w2 w3
    assume e: "set_current_func (cur_chain w) f w = Some w1" "wahe_wamr_call W m r' f arg w1 = Some (Some v, w2)"
      "set_current_func (cur_chain w) (chain_func w) w2 = Some w3" "w' = refresh_module_memory_size W (Some m) w3"
    have k: "same_wamr_context W w1 w2" by (rule wamr_call_context [OF W e(2)])
    have "same_wamr_context W w w3"
    proof (cases "cur_chain w")
      case None
      with e k show ?thesis by (simp add: set_current_func_def)
    next
      case (Some c)
      with e have len: "c < length (chains w)" and w1: "w1 = upd_chain c (\<lambda>x. x\<lparr>current_func := f\<rparr>) w"
        and w3: "w3 = upd_chain c (\<lambda>x. x\<lparr>current_func := current_func (chains w ! c)\<rparr>) w2"
        by (auto simp: set_current_func_def chain_func_def split: if_splits)
      have "map current_func (chains w2) = map current_func ((chains w)[c := (chains w ! c)\<lparr>current_func := f\<rparr>])"
        using k by (simp add: same_wamr_context_def same_context_def w1)
      then have "map current_func (chains w3) = map current_func (chains w)"
        unfolding w3 using len by (simp add: current_func_restored)
      then show ?thesis using k by (auto simp: w1 w3 same_wamr_context_def same_context_def upd_chain_def)
    qed
    then show ?thesis unfolding e(4) by (rule same_wamr_context_trans [OF _ refresh_context])
  qed simp
qed (use c in \<open>simp add: call_wamr_def\<close>)

lemma native_call_context:
  assumes W: "wamr_keeps_context W" and c: "call_native (native_calls W) m r arg f w = Some (v, w')"
  shows "same_wamr_context W w w'"
proof -
  have "w' = w \<or> (\<exists>a out w1. guest_call (native_calls W) m r f a (enter_native m r w) = Some (out, w1) \<and> w' = leave_native m r w w1)"
    using c by (fastforce simp: call_native_def Let_def split: if_splits bind_splits)
  then show ?thesis
  proof (elim disjE exE conjE)
    fix a out w1
    assume e: "guest_call (native_calls W) m r f a (enter_native m r w) = Some (out, w1)" "w' = leave_native m r w w1"
    then have k: "same_wamr_context W (enter_native m r w) w1" using W unfolding wamr_keeps_context_def by blast
    then have "same_context w w'" unfolding e(2) by (intro native_context) (simp add: same_wamr_context_def)
    moreover have "guest (enter_native m r w) = guest w" "guest (leave_native m r w w1) = guest w1"
      by (simp_all add: enter_native_def leave_native_def acquire_def release_def Let_def)
    ultimately show ?thesis using k e(2) by (simp add: same_wamr_context_def)
  qed simp
qed

text \<open>
  C15. In the build with WAMR a call into a module gives the calling thread its context back: the current chain, module and
  runners, every mutex, each chain's current function, and WAMR's state for the thread, which is made for the call when
  the thread has none and ended after it, if the code of the modules does the same.
\<close>

theorem wamr_call_keeps_context:
  assumes W: "wamr_keeps_context W" and c: "core_on_runner W ctx r arg f w = Some (v, w')"
  shows "same_context w w' \<and> cur_wamr_runner (guest w') = cur_wamr_runner (guest w) \<and>
    thread_env_inited W (runtime (guest w')) = thread_env_inited W (runtime (guest w))"
proof -
  have "w' = w \<or> (\<exists>m. call_native (native_calls W) m r arg f w = Some (v, w')) \<or>
      (\<exists>m w1. publish_timestamp (native_calls W) m w = Some w1 \<and> (w' = w1 \<or> call_wamr W m r arg f w1 = Some (v, w')))"
    using c by (auto simp: core_on_runner_def Let_def split: if_splits bind_splits option.splits)
  moreover have "same_wamr_context W w w1" if "publish_timestamp (native_calls W) m w = Some w1" for m w1
    using that by (auto simp: publish_timestamp_def Let_def split: if_splits bind_splits)
  ultimately have "same_wamr_context W w w'"
    using call_wamr_context [OF W] native_call_context [OF W] same_wamr_context_trans by (metis same_wamr_context_refl)
  then show ?thesis by (simp add: same_wamr_context_def)
qed

section \<open>Returned pointers\<close>

text \<open>Where the host and WAMR stand on the memory of a module after the host asked.\<close>

definition refreshed :: "'h wamr \<Rightarrow> nat \<Rightarrow> 'h wamr_world \<Rightarrow> bool" where
  "refreshed W m w \<longleftrightarrow>
     (\<forall>mem sz. wamr_memory (wamr_of m w) = Some mem \<and> reported_size W mem (runtime (guest w)) = Some sz \<longrightarrow>
        (if memory_ptr (modules w ! m) = memory_base W mem (runtime (guest w)) then memory_size (modules w ! m) = sz
         else \<not> valid (modules w ! m)))"

lemma refresh_guest [simp]: "guest (refresh_module_memory_size W ctx w) = guest w"
  by (simp add: refresh_module_memory_size_def wahe_wamr_refresh_memory_def Let_def split: option.split)

lemma refresh_refreshed:
  assumes "mtype (modules w ! m) = WAHE_MODULE_WAMR" "m < length (modules w)"
  shows "refreshed W m (refresh_module_memory_size W (Some m) w)"
  using assms
  by (auto simp: refreshed_def refresh_module_memory_size_def wahe_wamr_refresh_memory_def wamr_of_def Let_def split: option.split)

lemma refresh_type [simp]:
  "mtype (modules (refresh_module_memory_size W (Some m) w) ! m) = mtype (modules w ! m)"
  "length (modules (refresh_module_memory_size W (Some m) w)) = length (modules w)"
proof -
  have "mtype ((modules w)[m := y] ! m) = mtype (modules w ! m)" if "mtype y = mtype (modules w ! m)" for y
    using that by (cases "m < length (modules w)") (simp_all add: list_update_beyond not_less)
  then show "mtype (modules (refresh_module_memory_size W (Some m) w) ! m) = mtype (modules w ! m)"
    "length (modules (refresh_module_memory_size W (Some m) w)) = length (modules w)"
    by (simp_all add: refresh_module_memory_size_def wahe_wamr_refresh_memory_def Let_def split: option.split)
qed

text \<open>
  C14. A pointer a WAMR module returns lies in its memory: at an offset below the size WAMR reports, from the address the
  host published. If WAMR reports another address, the module is marked as failed; the pointer is then
  still formed from the old address.
\<close>

theorem wamr_returned_pointer:
  assumes call: "wamr_func_on_runner W m r a f eo w = Some (p, w')" and p: "p \<noteq> 0"
    and x: "mtype (modules w' ! m) = WAHE_MODULE_WAMR" "m < length (modules w')"
    and mem: "wamr_memory (wamr_of m w') = Some mem" "reported_size W mem (runtime (guest w')) = Some sz"
  shows "\<exists>off. p = memory_ptr (modules w' ! m) + off \<and> unat off < memory_size (modules w' ! m) \<and>
    (if memory_ptr (modules w' ! m) = memory_base W mem (runtime (guest w')) then memory_size (modules w' ! m) = sz
     else \<not> valid (modules w' ! m))"
proof -
  obtain slot ret w0 where m: "wamr_message_pointer W m slot ret w0 = (p, w')"
    using call by (auto simp: wamr_func_on_runner_def split: bind_splits)
  define w1 where "w1 = refresh_module_memory_size W (Some m) (refresh_module_memory_size W (Some m) w0)"
  have "mtype (modules w0 ! m) \<noteq> WAHE_MODULE_NATIVE"
  proof
    assume "mtype (modules w0 ! m) = WAHE_MODULE_NATIVE"
    with m x(1) show False by (simp add: wamr_message_pointer_def)
  qed
  with m p have w': "w' = w1" and off: "p = memory_ptr (modules w1 ! m) + ret" "unat ret < memory_size (modules w1 ! m)"
    by (auto simp: wamr_message_pointer_def get_module_memory_size_def w1_def Let_def split: if_splits)
  have "refreshed W m w1" using x unfolding w' w1_def by (intro refresh_refreshed) simp_all
  with mem off show ?thesis unfolding w' refreshed_def by blast
qed

section \<open>A call\<close>

text \<open>The module after its start, with one runner.\<close>

definition wamr_loaded_world :: "sample_wamr_state wamr_world" where
  "wamr_loaded_world = wamr_sample_world\<lparr>
     modules := [wamr_sample_module\<lparr>valid := True, runner_count := 1, memory_ptr := 0x10000, memory_size := 100\<rparr>],
     guest := (guest wamr_sample_world)\<lparr>wamr_modules := (\<lambda>_. \<lparr>wamr_module = Some 0, wamr_memory = Some 0, wamr_module_buffer = None,
       wamr_runner = [Some (zero_wamr_runner\<lparr>wa_module_inst := Some 0, wa_exec_env := Some 0, wa_func := (\<lambda>_. Some 7)\<rparr>)]\<rparr>)\<rparr>\<rparr>"

lemma loaded_call:
  "core_on_runner sample_wamr (Some 0) 0 [4] WAHE_FUNC_INPUT wamr_loaded_world =
     Some (16, refresh_module_memory_size sample_wamr (Some 0) wamr_loaded_world)"
  by (simp add: core_on_runner_def wahe_wait_after_execution_failure_def wahe_require_valid_module_def wamr_loaded_world_def
      wamr_sample_world_def wamr_sample_module_def zero_module_def zero_wamr_runner_def publish_timestamp_def call_wamr_def
      wahe_get_wamr_runner_def wamr_object_def wamr_of_def wahe_wamr_validate_address_function_def sample_wamr_def
      address_kind_def set_current_func_def wahe_wamr_call_def enter_thread_env_def call_in_runner_def address_param_def
      address_result_def leave_thread_env_def set_current_runner_def in_runtime_def runtime_change_def acquire_def release_def Let_def)

theorem wamr_call_keeps_context_witness:
  "\<exists>v w'. core_on_runner sample_wamr (Some 0) 0 [4] WAHE_FUNC_INPUT wamr_loaded_world = Some (v, w') \<and> same_context wamr_loaded_world w'"
proof -
  have W: "wamr_keeps_context sample_wamr" by (simp add: wamr_keeps_context_def sample_wamr_def)
  from wamr_call_keeps_context [OF W loaded_call] loaded_call show ?thesis by blast
qed

theorem wamr_returned_pointer_witness:
  "\<exists>w' off. wamr_func_on_runner sample_wamr 0 0 4 WAHE_FUNC_INPUT False wamr_loaded_world = Some (0x10010, w') \<and>
     0x10010 = memory_ptr (modules w' ! 0) + off \<and> unat off < 65536"
proof -
  define w' where "w' = refresh_module_memory_size sample_wamr (Some 0) wamr_loaded_world"
  have x: "modules w' = [wamr_sample_module\<lparr>valid := True, runner_count := 1, memory_ptr := 0x10000, memory_size := 65536\<rparr>]"
    "guest w' = guest wamr_loaded_world"
    by (simp_all add: w'_def refresh_module_memory_size_def wahe_wamr_refresh_memory_def wamr_loaded_world_def wamr_of_def
        wamr_sample_module_def zero_module_def sample_wamr_def reported_size_def upd_module_def Let_def)
  have mem: "wamr_memory (wamr_of 0 w') = Some 0" "reported_size sample_wamr 0 (runtime (guest w')) = Some 65536"
    by (simp_all add: wamr_of_def x wamr_loaded_world_def reported_size_def sample_wamr_def Let_def)
  have again: "refresh_module_memory_size sample_wamr (Some 0) w' = w'"
    using mem x(1)
    by (simp add: refresh_module_memory_size_def wahe_wamr_refresh_memory_def sample_wamr_def wamr_sample_module_def zero_module_def upd_module_def Let_def)
  have call: "wamr_func_on_runner sample_wamr 0 0 4 WAHE_FUNC_INPUT False wamr_loaded_world = Some (0x10010, w')"
    using x(1)
    by (simp add: wamr_func_on_runner_def ret_slot_def loaded_call [folded w'_def] store_ret_addr_def wamr_message_pointer_def
        get_module_memory_size_def again wamr_sample_module_def zero_module_def Let_def)
  have "mtype (modules w' ! 0) = WAHE_MODULE_WAMR" "0 < length (modules w')"
    by (simp_all add: x(1) wamr_sample_module_def)
  from wamr_returned_pointer [OF call _ this mem] call x(1) show ?thesis by auto
qed

end
