(* ===== verification/Thread_Shutdown.thy ===== *)
theory Thread_Shutdown
  imports Translated_Threads
begin

text \<open>
  The shutdown of a module's threads, \<open>wahe_module_join_threads\<close>, ends: when nothing interferes, each turn of its loop
  joins a thread and deletes it, for Wasmtime modules and for translated ones.
\<close>

section \<open>The shutdown ends\<close>

text \<open>A loop that joins one thread at a time, as long as every turn leaves fewer.\<close>

locale joining_loop =
  fixes remaining :: "'s \<Rightarrow> nat" and joins :: "'s \<Rightarrow> 's option" and fit :: "'s \<Rightarrow> bool"
  assumes finished: "remaining w = 0 \<Longrightarrow> joins w = Some w"
    and turn: "fit w \<Longrightarrow> 0 < remaining w \<Longrightarrow> \<exists>w1. joins w = joins w1 \<and> fit w1 \<and> remaining w1 < remaining w"
begin

lemma joins_all: "fit w \<Longrightarrow> \<exists>w'. joins w = Some w' \<and> fit w' \<and> remaining w' = 0"
proof (induction "remaining w" arbitrary: w rule: less_induct)
  case less
  show ?case
  proof (cases "remaining w = 0")
    case False
    then obtain w1 where w1: "joins w = joins w1" "fit w1" "remaining w1 < remaining w" using turn [OF less.prems] by blast
    from less.hyps [OF w1(3,2)] w1(1) show ?thesis by simp
  qed (use finished less.prems in auto)
qed

end

text \<open>
  A shutdown nothing interferes with. In the states \<open>Q\<close>, which do not depend on the slots of threads, the module's code and the
  operating system return, joins succeed, and none of them changes the slots of threads or the runner the
  thread is in; other threads are joined by this shutdown only.
\<close>

definition same_threads :: "nat \<Rightarrow> 'g world \<Rightarrow> 'g world \<Rightarrow> bool" where
  "same_threads m w w1 \<longleftrightarrow> length (modules w1) = length (modules w) \<and> thread_view (modules w1 ! m) = thread_view (modules w ! m) \<and>
     threads_stopping (modules w1 ! m) = threads_stopping (modules w ! m) \<and> cur_wasmtime_runner w1 = cur_wasmtime_runner w"

definition shutdown_undisturbed :: "('g world \<Rightarrow> bool) \<Rightarrow> 'g services \<Rightarrow> nat \<Rightarrow> bool" where
  "shutdown_undisturbed Q S m \<longleftrightarrow> (\<forall>w. Q w \<longrightarrow>
     (\<forall>a. \<exists>w1. call_module_free (calls S) (Some m) a w = Some w1 \<and> Q w1 \<and> same_threads m w w1) \<and>
     (\<forall>r. \<exists>w1. thread_join S m r w = Some (True, w1) \<and> Q w1 \<and> same_threads m w w1) \<and>
     (\<forall>ro. the_runner m 0 w = Some ro \<and> wr_func ro WAHE_FUNC_INPUT \<longrightarrow>
        (\<exists>v w1. wahe_send_input (calls S) m ''Stop threads'' w = Some (v, w1) \<and> Q w1 \<and> same_threads m w w1)) \<and>
     Q (upd_module m (\<lambda>x. x\<lparr>threads_stopping := True\<rparr>) w) \<and>
     (\<forall>r f. initial_runner_count (modules w ! m) \<le> r \<longrightarrow>
        Q (set_runner m r f w) \<and> Q (upd_module m (\<lambda>x. x\<lparr>runner := (runner x)[r := None]\<rparr>) w)))"

lemma undisturbedD:
  assumes "shutdown_undisturbed Q S m" "Q w"
  shows "\<exists>w1. call_module_free (calls S) (Some m) a w = Some w1 \<and> Q w1 \<and> same_threads m w w1"
    "\<exists>w1. thread_join S m r w = Some (True, w1) \<and> Q w1 \<and> same_threads m w w1"
    "the_runner m 0 w = Some ro \<Longrightarrow> wr_func ro WAHE_FUNC_INPUT \<Longrightarrow>
      \<exists>v w1. wahe_send_input (calls S) m ''Stop threads'' w = Some (v, w1) \<and> Q w1 \<and> same_threads m w w1"
    "Q (upd_module m (\<lambda>x. x\<lparr>threads_stopping := True\<rparr>) w)"
    "initial_runner_count (modules w ! m) \<le> r \<Longrightarrow> Q (set_runner m r f w)"
    "initial_runner_count (modules w ! m) \<le> r \<Longrightarrow> Q (upd_module m (\<lambda>x. x\<lparr>runner := (runner x)[r := None]\<rparr>) w)"
  using assms unfolding shutdown_undisturbed_def by blast+

text \<open>What holds at each turn: nobody else is creating or joining, and the caller is none of the threads.\<close>

definition threads_idle :: "nat \<Rightarrow> 'g world \<Rightarrow> bool" where
  "threads_idle m w \<longleftrightarrow> m < length (modules w) \<and> registry_ok (modules w ! m) \<and>
     (\<forall>i ro. thread_slot (modules w ! m) i ro \<longrightarrow> \<not> wr_creating ro \<and> \<not> wr_joining ro \<and> cur_wasmtime_runner w \<noteq> Some (m, i))"

lemma same_threads_trans: "same_threads m a b \<Longrightarrow> same_threads m b c \<Longrightarrow> same_threads m a c"
  by (simp add: same_threads_def)

lemma same_threads_slot:
  "same_threads m w w1 \<Longrightarrow> thread_slot (modules w1 ! m) i ro \<Longrightarrow> \<exists>ro'. thread_slot (modules w ! m) i ro' \<and> runner_tag ro' = runner_tag ro"
  "same_threads m w w1 \<Longrightarrow> thread_slot (modules w ! m) i ro \<Longrightarrow> \<exists>ro'. thread_slot (modules w1 ! m) i ro' \<and> runner_tag ro' = runner_tag ro"
  by (auto simp: same_threads_def intro: thread_view_slot [OF sym] thread_view_slot)

lemma same_threads_keeps: "same_threads m w w1 \<Longrightarrow> keeps_registry m J w w1"
  by (rule thread_view_keeps) (simp_all add: same_threads_def)

lemma same_threads_idle: "same_threads m w w1 \<Longrightarrow> threads_idle m w \<Longrightarrow> threads_idle m w1"
proof -
  assume s: "same_threads m w w1" and i: "threads_idle m w"
  have "m < length (modules w1) \<and> registry_ok (modules w1 ! m)"
    using keepsD(1,2) [OF same_threads_keeps [OF s]] i by (simp add: threads_idle_def)
  moreover have "\<not> wr_creating ro \<and> \<not> wr_joining ro \<and> cur_wasmtime_runner w1 \<noteq> Some (m, i)" if "thread_slot (modules w1 ! m) i ro" for i ro
    using same_threads_slot(1) [OF s that] i s by (auto simp: threads_idle_def same_threads_def runner_tag_def)
  ultimately show ?thesis by (simp add: threads_idle_def)
qed

lemma used_slots_set: "i \<in> set (used_slots x) \<longleftrightarrow> (\<exists>ro. thread_slot x i ro)"
  by (auto simp: used_slots_def thread_slot_def runner_object_def)

lemma fewer_slots:
  assumes "\<And>i. (\<exists>ro. thread_slot x' i ro) \<longleftrightarrow> i \<noteq> r \<and> (\<exists>ro. thread_slot x i ro)" "\<exists>ro. thread_slot x r ro"
  shows "length (used_slots x') < length (used_slots x)"
proof -
  have d: "distinct (used_slots y)" for y by (simp add: used_slots_def)
  have "set (used_slots x') \<subset> set (used_slots x)" using assms by (auto simp: used_slots_set)
  then show ?thesis using psubset_card_mono [of "set (used_slots x)" "set (used_slots x')"] distinct_card [OF d] by simp
qed

text \<open>A thread that is being joined is deleted.\<close>

lemma delete_undisturbed:
  assumes law: "shutdown_undisturbed Q S m" "Q w" and r: "thread_slot (modules w ! m) r ro"
  shows "\<exists>w3. wahe_delete_thread_runner S m r w = Some (upd_module m (\<lambda>x. x\<lparr>runner := (runner x)[r := None]\<rparr>) w3) \<and> Q w3 \<and> same_threads m w w3"
proof -
  obtain w1 where 1: "call_module_free (calls S) (Some m) (wr_input_addr ro) w = Some w1" "Q w1" "same_threads m w w1"
    using undisturbedD(1) [OF law] by blast
  obtain r1 where r1: "thread_slot (modules w1 ! m) r r1" using same_threads_slot(2) [OF 1(3) r] by blast
  obtain w2 where 2: "call_module_free (calls S) (Some m) (wr_tls_alloc r1) w1 = Some w2" "Q w2" "same_threads m w1 w2"
    using undisturbedD(1) [OF law(1) 1(2)] by blast
  obtain r2 where r2: "thread_slot (modules w2 ! m) r r2" using same_threads_slot(2) [OF 2(3) r1] by blast
  obtain w3 where 3: "call_module_free (calls S) (Some m) (wr_stack_alloc r2) w2 = Some w3" "Q w3" "same_threads m w2 w3"
    using undisturbedD(1) [OF law(1) 2(2)] by blast
  have "same_threads m w w3" using 1(3) 2(3) 3(3) same_threads_trans by blast
  with 1 2 3 r r1 r2 show ?thesis
    by (intro exI [of _ w3]) (simp add: wahe_delete_thread_runner_def the_runner_def thread_slot_def)
qed

lemma join_undisturbed:
  assumes law: "shutdown_undisturbed Q S m" "Q w" and idle: "threads_idle m w" and r: "thread_slot (modules w ! m) r ro"
  shows "\<exists>res w'. wahe_join_module_thread S m (wr_thread_id ro) w = Some (res, w') \<and> Q w' \<and> threads_idle m w' \<and>
    length (used_slots (modules w' ! m)) < length (used_slots (modules w ! m)) \<and>
    threads_stopping (modules w' ! m) = threads_stopping (modules w ! m)"
proof -
  have m: "m < length (modules w)" "registry_ok (modules w ! m)" and busy: "\<not> wr_creating ro" "\<not> wr_joining ro"
    and other: "cur_wasmtime_runner w \<noteq> Some (m, r)"
    using idle r by (auto simp: threads_idle_def)
  obtain r' where r': "joinable (modules w ! m) (wr_thread_id ro) = Some r'" using slot_joinable [OF m(2) r busy] by blast
  then have "r' = r" using joinable_Some [OF r'] m(2) r unfolding registry_ok_def by metis
  note found = r' [unfolded this]
  have count: "initial_runner_count (modules w ! m) \<le> r" using r by (simp add: thread_slot_def)
  define w0 where "w0 = set_runner m r (\<lambda>ro. ro\<lparr>wr_joining := True\<rparr>) w"
  have slots: "(\<exists>ro. thread_slot (modules (set_runner m r f v) ! m) i ro) \<longleftrightarrow> (\<exists>ro. thread_slot (modules v ! m) i ro)"
    if "m < length (modules v)" for f v i
    using that by (auto simp: set_runner_def thread_slot_iff upd_runner_def nth_update_if)
  obtain w1 where 1: "thread_join S m r w0 = Some (True, w1)" "Q w1" "same_threads m w0 w1"
    using undisturbedD(2) [OF law(1) undisturbedD(5) [OF law count]] unfolding w0_def by blast
  obtain r1 where r1: "thread_slot (modules w1 ! m) r r1"
    using same_threads_slot(2) [OF 1(3)] slots [OF m(1)] r unfolding w0_def by blast
  have m1: "m < length (modules w1)" using 1(3) m(1) by (simp add: same_threads_def w0_def set_runner_def)
  define w2 where "w2 = set_runner m r (\<lambda>ro. ro\<lparr>wr_thread_reply := None\<rparr>) w1"
  have s2: "same_threads m w1 w2"
    unfolding w2_def same_threads_def set_runner_def using m1
    by (simp add: thread_view_upd_runner runner_tag_def) (simp add: upd_runner_def)
  have q2: "Q w2"
    unfolding w2_def using r1 by (intro undisturbedD(5) [OF law(1) 1(2)]) (simp add: thread_slot_def)
  obtain r2 where r2: "thread_slot (modules w2 ! m) r r2" using same_threads_slot(2) [OF s2 r1] by blast
  obtain w3 where 3: "wahe_delete_thread_runner S m r w2 = Some (upd_module m (\<lambda>x. x\<lparr>runner := (runner x)[r := None]\<rparr>) w3)"
      "Q w3" "same_threads m w2 w3"
    using delete_undisturbed [OF law(1) q2 r2] by blast
  define w4 where "w4 = upd_module m (\<lambda>x. x\<lparr>runner := (runner x)[r := None]\<rparr>) w3"
  have s13: "same_threads m w0 w3" using 1(3) s2 3(3) same_threads_trans by blast
  then have m3: "m < length (modules w3)" using m(1) by (simp add: same_threads_def w0_def set_runner_def)
  have x4: "modules w4 ! m = (modules w3 ! m)\<lparr>runner := (runner (modules w3 ! m))[r := None]\<rparr>" using m3 by (simp add: w4_def)
  have sl: "thread_slot (modules w4 ! m) i ri \<longleftrightarrow> i \<noteq> r \<and> thread_slot (modules w3 ! m) i ri" for i ri
    unfolding x4 by (rule keeps_empty_slot(2) [OF refl])
  have from_w: "\<exists>ri'. thread_slot (modules w ! m) i ri' \<and> runner_tag ri' = runner_tag ri"
    if "thread_slot (modules w4 ! m) i ri" for i ri
  proof -
    have i: "i \<noteq> r" "thread_slot (modules w3 ! m) i ri" using that by (simp_all add: sl)
    obtain r0 where "thread_slot (modules w0 ! m) i r0" "runner_tag r0 = runner_tag ri" using same_threads_slot(1) [OF s13 i(2)] by blast
    with i(1) m(1) show ?thesis by (auto simp: w0_def set_runner_def thread_slot_iff upd_runner_def)
  qed
  have "keeps_registry m {r} w w4"
    using keeps_trans [OF keeps_trans [OF keeps_set_any same_threads_keeps [OF s13, unfolded w0_def]] keeps_empty_slot(1) [OF refl]]
    by (simp add: w4_def)
  note k = keepsD(1,2) [OF this m]
  have q4: "Q w4"
    unfolding w4_def using s13 count m(1)
    by (intro undisturbedD(6) [OF law(1) 3(2)]) (simp add: same_threads_def thread_view_def w0_def set_runner_def upd_runner_def)
  have cur: "cur_wasmtime_runner w4 = cur_wasmtime_runner w"
    using s13 by (simp add: w4_def same_threads_def w0_def set_runner_def upd_module_def)
  have "\<not> wr_creating ri \<and> \<not> wr_joining ri \<and> cur_wasmtime_runner w4 \<noteq> Some (m, i)" if "thread_slot (modules w4 ! m) i ri" for i ri
    using from_w [OF that] idle unfolding threads_idle_def cur by (auto simp: runner_tag_def)
  with k have idle4: "threads_idle m w4" by (simp add: threads_idle_def)
  have "(\<exists>ri. thread_slot (modules w4 ! m) i ri) \<longleftrightarrow> i \<noteq> r \<and> (\<exists>ri. thread_slot (modules w ! m) i ri)" for i
    using same_threads_slot [OF s13] slots [OF m(1)] unfolding sl w0_def by blast
  from fewer_slots [OF this] r have less: "length (used_slots (modules w4 ! m)) < length (used_slots (modules w ! m))" by blast
  have stop: "threads_stopping (modules w4 ! m) = threads_stopping (modules w ! m)"
    using s13 m(1) by (simp add: x4 same_threads_def w0_def set_runner_def upd_runner_def)
  have "wahe_join_module_thread S m (wr_thread_id ro) w = Some (Inr (wr_thread_reply r1), w4)"
    using found other 1(1) 3(1) r1
    by (simp add: wahe_join_module_thread_def the_runner_def thread_slot_def w0_def [symmetric] w2_def [symmetric] w4_def)
  with q4 idle4 less stop show ?thesis by blast
qed

definition stopping :: "('g world \<Rightarrow> bool) \<Rightarrow> 'g services \<Rightarrow> nat \<Rightarrow> 'g world \<Rightarrow> bool" where
  "stopping Q S m w \<longleftrightarrow> shutdown_undisturbed Q S m \<and> Q w \<and> threads_idle m w \<and> threads_stopping (modules w ! m)"

lemma stopping_turn:
  assumes "stopping Q S m w" "used_slots (modules w ! m) \<noteq> []"
  shows "\<exists>w1. join_module_loop S m w = join_module_loop S m w1 \<and> stopping Q S m w1 \<and>
    length (used_slots (modules w1 ! m)) < length (used_slots (modules w ! m))"
proof -
  let ?x = "modules w ! m" and ?r = "last (used_slots (modules w ! m))"
  have s: "shutdown_undisturbed Q S m" "Q w" "threads_idle m w" "threads_stopping ?x" using assms(1) by (simp_all add: stopping_def)
  have slot: "\<exists>ro. thread_slot ?x i ro \<and> runner_object ?x i = Some ro" if "i \<in> set (used_slots ?x)" for i
    using that by (auto simp: used_slots_set thread_slot_def)
  then obtain ro where ro: "thread_slot ?x ?r ro" "runner_object ?x ?r = Some ro" using assms(2) last_in_set by blast
  have "List.filter (\<lambda>i. \<not> wr_creating (the (runner_object ?x i)) \<and> \<not> wr_joining (the (runner_object ?x i))) (used_slots ?x) = used_slots ?x"
    using slot s(3) by (fastforce simp: filter_id_conv threads_idle_def)
  then have pick: "unclaimed_slot ?x = wr_thread_id ro"
    using assms(2) ro(2) by (cases "used_slots ?x") (simp_all add: unclaimed_slot_def del: last.simps)
  moreover have "0 < wr_thread_id ro" using s(3) ro(1) unfolding threads_idle_def registry_ok_def by blast
  moreover obtain res w1 where j: "wahe_join_module_thread S m (wr_thread_id ro) w = Some (res, w1)" "Q w1" "threads_idle m w1"
      "length (used_slots (modules w1 ! m)) < length (used_slots ?x)" "threads_stopping (modules w1 ! m) = threads_stopping ?x"
    using join_undisturbed [OF s(1-3) ro(1)] by blast
  ultimately have "join_module_loop S m w = join_module_loop S m w1"
    using assms(2) by (subst join_module_loop.simps) simp
  with j s show ?thesis by (auto simp: stopping_def)
qed

interpretation module_joins: joining_loop "\<lambda>w. length (used_slots (modules w ! m))" "join_module_loop S m" "stopping Q S m" for S Q m
proof
  show "join_module_loop S m w = Some w" if "length (used_slots (modules w ! m)) = 0" for w
    using that by (subst join_module_loop.simps) simp
qed (use stopping_turn in blast)

section \<open>The shutdown of a translated module\<close>

text \<open>The slots in use, and what of them the shutdown depends on.\<close>

definition used_slot :: "wahe_module_t \<Rightarrow> nat \<Rightarrow> wahe_wasm_decomp_runner_t \<Rightarrow> bool" where
  "used_slot x i ro \<longleftrightarrow> decomp_initial_runner_count x \<le> i \<and> i < decomp_runner_capacity x \<and> i < length (wasm_decomp_runner x) \<and>
     wasm_decomp_runner x ! i = ro \<and> dr_in_use ro"

definition slot_tag :: "wahe_wasm_decomp_runner_t \<Rightarrow> bool \<times> nat \<times> bool \<times> bool" where
  "slot_tag ro = (dr_in_use ro, dr_thread_id ro, dr_creating ro, dr_joining ro)"

definition slot_view :: "wahe_module_t \<Rightarrow> nat \<times> nat \<times> bool \<times> (bool \<times> nat \<times> bool \<times> bool) list" where
  "slot_view x = (decomp_initial_runner_count x, decomp_runner_capacity x, decomp_threads_stopping x, map slot_tag (wasm_decomp_runner x))"

definition same_translated :: "nat \<Rightarrow> 'g world \<Rightarrow> 'g world \<Rightarrow> bool" where
  "same_translated m w w1 \<longleftrightarrow> length (modules w1) = length (modules w) \<and> slot_view (modules w1 ! m) = slot_view (modules w ! m) \<and>
     cur_native_module w1 = cur_native_module w \<and> cur_native_runner_id w1 = cur_native_runner_id w"

definition translated_undisturbed :: "('g world \<Rightarrow> bool) \<Rightarrow> 'g services \<Rightarrow> nat \<Rightarrow> bool" where
  "translated_undisturbed Q S m \<longleftrightarrow> (\<forall>w. Q w \<longrightarrow>
     (\<forall>a. \<exists>w1. call_module_free (calls S) (Some m) a w = Some w1 \<and> Q w1 \<and> same_translated m w w1) \<and>
     (\<forall>r. \<exists>w1. thread_join S m r w = Some (True, w1) \<and> Q w1 \<and> same_translated m w w1) \<and>
     (\<forall>r. Q (instance_destroy S m r w) \<and> same_translated m w (instance_destroy S m r w)) \<and>
     (dl_func (modules w ! m) WAHE_FUNC_INPUT \<longrightarrow>
        (\<exists>v w1. wahe_send_input (calls S) m ''Stop threads'' w = Some (v, w1) \<and> Q w1 \<and> same_translated m w w1)) \<and>
     Q (upd_module m (\<lambda>x. x\<lparr>decomp_threads_stopping := True\<rparr>) w) \<and>
     (\<forall>r f. decomp_initial_runner_count (modules w ! m) \<le> r \<longrightarrow> Q (set_translated m r f w)))"

lemma translated_undisturbedD:
  assumes "translated_undisturbed Q S m" "Q w"
  shows "\<exists>w1. call_module_free (calls S) (Some m) a w = Some w1 \<and> Q w1 \<and> same_translated m w w1"
    "\<exists>w1. thread_join S m r w = Some (True, w1) \<and> Q w1 \<and> same_translated m w w1"
    "Q (instance_destroy S m r w) \<and> same_translated m w (instance_destroy S m r w)"
    "dl_func (modules w ! m) WAHE_FUNC_INPUT \<Longrightarrow>
      \<exists>v w1. wahe_send_input (calls S) m ''Stop threads'' w = Some (v, w1) \<and> Q w1 \<and> same_translated m w w1"
    "Q (upd_module m (\<lambda>x. x\<lparr>decomp_threads_stopping := True\<rparr>) w)"
    "decomp_initial_runner_count (modules w ! m) \<le> r \<Longrightarrow> Q (set_translated m r f w)"
  using assms unfolding translated_undisturbed_def by blast+

text \<open>Nobody else is creating or joining a thread, identifiers are distinct and not zero, and the caller is none of the threads.\<close>

definition translated_idle :: "nat \<Rightarrow> 'g world \<Rightarrow> bool" where
  "translated_idle m w \<longleftrightarrow> m < length (modules w) \<and> decomp_runner_capacity (modules w ! m) \<le> length (wasm_decomp_runner (modules w ! m)) \<and>
     (\<forall>i ro. used_slot (modules w ! m) i ro \<longrightarrow> 0 < dr_thread_id ro \<and> \<not> dr_creating ro \<and> \<not> dr_joining ro \<and>
        \<not> (cur_native_module w = Some m \<and> cur_native_runner_id w = i)) \<and>
     (\<forall>i j ro ro'. used_slot (modules w ! m) i ro \<and> used_slot (modules w ! m) j ro' \<and> dr_thread_id ro = dr_thread_id ro' \<longrightarrow> i = j)"

lemma same_translated_refl [simp]: "same_translated m w w"
  by (simp add: same_translated_def)

lemma same_translated_trans: "same_translated m a b \<Longrightarrow> same_translated m b c \<Longrightarrow> same_translated m a c"
  by (simp add: same_translated_def)

lemma slot_view_length: "slot_view x' = slot_view x \<Longrightarrow> length (wasm_decomp_runner x') = length (wasm_decomp_runner x)"
  by (simp add: slot_view_def) (metis length_map)

lemma slot_view_slot:
  assumes v: "slot_view x' = slot_view x" and i: "used_slot x i ro"
  shows "\<exists>ro'. used_slot x' i ro' \<and> slot_tag ro' = slot_tag ro"
proof -
  have "map slot_tag (wasm_decomp_runner x') = map slot_tag (wasm_decomp_runner x)" using v by (simp add: slot_view_def)
  then have "slot_tag (wasm_decomp_runner x' ! i) = slot_tag (wasm_decomp_runner x ! i)"
    using i slot_view_length [OF v] by (metis nth_map used_slot_def)
  then show ?thesis using i v slot_view_length [OF v] by (simp add: used_slot_def slot_view_def) (simp add: slot_tag_def)
qed

lemma same_translated_slot:
  "same_translated m w w1 \<Longrightarrow> used_slot (modules w1 ! m) i ro \<Longrightarrow> \<exists>ro'. used_slot (modules w ! m) i ro' \<and> slot_tag ro' = slot_tag ro"
  "same_translated m w w1 \<Longrightarrow> used_slot (modules w ! m) i ro \<Longrightarrow> \<exists>ro'. used_slot (modules w1 ! m) i ro' \<and> slot_tag ro' = slot_tag ro"
  by (auto simp: same_translated_def intro: slot_view_slot [OF sym] slot_view_slot)

text \<open>A state with no more threads than another is idle as well.\<close>

lemma translated_idle_fewer:
  assumes "translated_idle m w" "m < length (modules w1)" "decomp_runner_capacity (modules w1 ! m) \<le> length (wasm_decomp_runner (modules w1 ! m))"
    and "cur_native_module w1 = cur_native_module w" "cur_native_runner_id w1 = cur_native_runner_id w"
    and slots: "\<And>i ro. used_slot (modules w1 ! m) i ro \<Longrightarrow> \<exists>ro'. used_slot (modules w ! m) i ro' \<and> slot_tag ro' = slot_tag ro"
  shows "translated_idle m w1"
proof -
  have "0 < dr_thread_id ro \<and> \<not> dr_creating ro \<and> \<not> dr_joining ro \<and> \<not> (cur_native_module w1 = Some m \<and> cur_native_runner_id w1 = i)"
    if "used_slot (modules w1 ! m) i ro" for i ro
  proof -
    from slots [OF that] obtain ro' where "used_slot (modules w ! m) i ro'" "slot_tag ro' = slot_tag ro" by blast
    moreover from this have "0 < dr_thread_id ro' \<and> \<not> dr_creating ro' \<and> \<not> dr_joining ro' \<and>
        \<not> (cur_native_module w = Some m \<and> cur_native_runner_id w = i)"
      using assms(1) unfolding translated_idle_def by blast
    ultimately show ?thesis using assms(4,5) by (simp add: slot_tag_def)
  qed
  moreover have "i = j" if "used_slot (modules w1 ! m) i ro" "used_slot (modules w1 ! m) j ro'" "dr_thread_id ro = dr_thread_id ro'" for i j ro ro'
  proof -
    from slots [OF that(1)] obtain r where r: "used_slot (modules w ! m) i r" "slot_tag r = slot_tag ro" by blast
    from slots [OF that(2)] obtain r' where r': "used_slot (modules w ! m) j r'" "slot_tag r' = slot_tag ro'" by blast
    have "dr_thread_id r = dr_thread_id r'" using r(2) r'(2) that(3) by (simp add: slot_tag_def)
    with r(1) r'(1) show ?thesis using assms(1) unfolding translated_idle_def by blast
  qed
  ultimately show ?thesis using assms(2,3) unfolding translated_idle_def by blast
qed

lemma same_translated_idle: "same_translated m w w1 \<Longrightarrow> translated_idle m w \<Longrightarrow> translated_idle m w1"
proof -
  assume s: "same_translated m w w1" and i: "translated_idle m w"
  have v: "slot_view (modules w1 ! m) = slot_view (modules w ! m)" using s by (simp add: same_translated_def)
  show ?thesis
  proof (rule translated_idle_fewer [OF i])
    show "decomp_runner_capacity (modules w1 ! m) \<le> length (wasm_decomp_runner (modules w1 ! m))"
      using i slot_view_length [OF v] v by (simp add: translated_idle_def slot_view_def)
  qed (use s i same_translated_slot(1) [OF s] in \<open>auto simp: same_translated_def translated_idle_def\<close>)
qed

lemma used_translated_set:
  assumes "decomp_runner_capacity x \<le> length (wasm_decomp_runner x)"
  shows "i \<in> set (used_translated x) \<longleftrightarrow> (\<exists>ro. used_slot x i ro)"
  using assms by (auto simp: used_translated_def used_slot_def)

lemma free_undisturbed:
  assumes law: "translated_undisturbed Q S m" "Q w" and r: "used_slot (modules w ! m) r ro"
  shows "\<exists>w1 ro1. free_field S m r field w = Some w1 \<and> Q w1 \<and> same_translated m w w1 \<and> used_slot (modules w1 ! m) r ro1"
proof -
  obtain w1 where 1: "free_field S m r field w = Some w1 \<and> Q w1 \<and> same_translated m w w1"
    using r translated_undisturbedD(1) [OF law, of "field ro"] law(2)
    by (cases "field ro = 0") (auto simp: free_field_def the_translated_def used_slot_def)
  with same_translated_slot(2) [OF _ r] show ?thesis by blast
qed

lemma delete_translated_undisturbed:
  assumes law: "translated_undisturbed Q S m" "Q w" and r: "used_slot (modules w ! m) r ro"
  shows "\<exists>w3 f. wahe_delete_translated_thread S m r w = Some (set_translated m r f w3) \<and> Q w3 \<and> same_translated m w w3 \<and> (\<forall>ro. \<not> dr_in_use (f ro))"
proof -
  obtain w1 r1 where 1: "free_field S m r dr_input_addr w = Some w1" "Q w1" "same_translated m w w1" "used_slot (modules w1 ! m) r r1"
    using free_undisturbed [OF law r] by blast
  obtain w2 r2 where 2: "free_field S m r dr_tls_alloc w1 = Some w2" "Q w2" "same_translated m w1 w2" "used_slot (modules w2 ! m) r r2"
    using free_undisturbed [OF law(1) 1(2,4)] by blast
  obtain w3 r3 where 3: "free_field S m r dr_stack_alloc w2 = Some w3" "Q w3" "same_translated m w2 w3" "used_slot (modules w3 ! m) r r3"
    using free_undisturbed [OF law(1) 2(2,4)] by blast
  define w4 where "w4 = (if dr_instance r3 then instance_destroy S m r w3 else w3)"
  have "Q w4 \<and> same_translated m w3 w4" using translated_undisturbedD(3) [OF law(1) 3(2)] 3(2) by (simp add: w4_def)
  moreover have "wahe_delete_translated_thread S m r w = Some (set_translated m r (\<lambda>ro. ro\<lparr>dr_instance := False, dr_thread_id := 0, dr_stack_alloc := 0,
      dr_tls_alloc := 0, dr_input_addr := 0, dr_thread_handle := False, dr_thread_reply := None, dr_creating := False,
      dr_joining := False, dr_in_use := False\<rparr>) w4)"
    using 1(1) 2(1) 3(1,4) by (simp add: wahe_delete_translated_thread_def the_translated_def used_slot_def w4_def)
  moreover have "same_translated m w w4" using 1(3) 2(3) 3(3) calculation(1) same_translated_trans by blast
  ultimately show ?thesis by (intro exI [of _ w4] exI conjI) auto
qed

lemma set_translated_slot:
  assumes "m < length (modules w)"
  shows "used_slot (modules (set_translated m r f w) ! m) i ro \<longleftrightarrow>
    (if i = r then \<exists>ro0. decomp_initial_runner_count (modules w ! m) \<le> i \<and> i < decomp_runner_capacity (modules w ! m) \<and>
        i < length (wasm_decomp_runner (modules w ! m)) \<and> ro0 = wasm_decomp_runner (modules w ! m) ! i \<and> ro = f ro0 \<and> dr_in_use ro
     else used_slot (modules w ! m) i ro)"
  using assms by (auto simp: set_translated_def used_slot_def)

lemma translated_joinable:
  assumes idle: "translated_idle m w" and r: "used_slot (modules w ! m) r ro"
  shows "joinable_translated (modules w ! m) (dr_thread_id ro) = Some r"
proof -
  let ?x = "modules w ! m"
  let ?P = "\<lambda>i. let ro' = wasm_decomp_runner ?x ! i in dr_in_use ro' \<and> dr_thread_id ro' = dr_thread_id ro \<and> \<not> dr_creating ro' \<and> \<not> dr_joining ro'"
  let ?is = "rev [decomp_initial_runner_count ?x..<decomp_runner_capacity ?x]"
  have busy: "\<not> dr_creating ro" "\<not> dr_joining ro" using idle r unfolding translated_idle_def by blast+
  have "r \<in> set ?is" "?P r" using r busy by (auto simp: used_slot_def Let_def)
  then have "List.find ?P ?is \<noteq> None" unfolding find_None_iff by blast
  then obtain r' where r': "List.find ?P ?is = Some r'" by blast
  then have p: "r' \<in> set ?is" "?P r'" unfolding find_Some_iff by (metis nth_mem)+
  then have "used_slot ?x r' (wasm_decomp_runner ?x ! r')"
    using idle by (auto simp: used_slot_def translated_idle_def Let_def)
  then have "r' = r" using p(2) r idle unfolding translated_idle_def Let_def by metis
  then show ?thesis using r' r by (auto simp: joinable_translated_def used_slot_def)
qed

lemma join_translated_undisturbed:
  assumes law: "translated_undisturbed Q S m" "Q w" and idle: "translated_idle m w" and r: "used_slot (modules w ! m) r ro"
  shows "\<exists>res w'. wahe_join_translated_thread S m (dr_thread_id ro) w = Some (res, w') \<and> Q w' \<and> translated_idle m w' \<and>
    length (used_translated (modules w' ! m)) < length (used_translated (modules w ! m)) \<and>
    decomp_threads_stopping (modules w' ! m) = decomp_threads_stopping (modules w ! m)"
proof -
  have m: "m < length (modules w)" "decomp_runner_capacity (modules w ! m) \<le> length (wasm_decomp_runner (modules w ! m))"
    and other: "\<not> (cur_native_module w = Some m \<and> cur_native_runner_id w = r)"
    using idle r unfolding translated_idle_def by blast+
  have count: "decomp_initial_runner_count (modules w ! m) \<le> r" using r by (simp add: used_slot_def)
  define w0 where "w0 = set_translated m r (\<lambda>ro. ro\<lparr>dr_joining := True\<rparr>) w"
  have m0: "m < length (modules w0)" using m(1) by (simp add: w0_def set_translated_def)
  have r0: "used_slot (modules w0 ! m) r (ro\<lparr>dr_joining := True\<rparr>)"
    using r unfolding w0_def set_translated_slot [OF m(1)] by (auto simp: used_slot_def)
  obtain w1 where 1: "thread_join S m r w0 = Some (True, w1)" "Q w1" "same_translated m w0 w1"
    using translated_undisturbedD(2) [OF law(1) translated_undisturbedD(6) [OF law count]] unfolding w0_def by blast
  obtain r1 where r1: "used_slot (modules w1 ! m) r r1" using same_translated_slot(2) [OF 1(3) r0] by blast
  have m1: "m < length (modules w1)" using 1(3) m0 by (simp add: same_translated_def)
  define w2 where "w2 = set_translated m r (\<lambda>ro. ro\<lparr>dr_thread_reply := None\<rparr>) w1"
  have "map slot_tag ((wasm_decomp_runner (modules w1 ! m))[r := (wasm_decomp_runner (modules w1 ! m) ! r)\<lparr>dr_thread_reply := None\<rparr>]) =
      map slot_tag (wasm_decomp_runner (modules w1 ! m))"
    using r1 by (intro nth_equalityI) (auto simp: nth_list_update slot_tag_def used_slot_def)
  then have s2: "same_translated m w1 w2"
    using m1 by (simp add: w2_def same_translated_def slot_view_def set_translated_def upd_module_def)
  have q2: "Q w2" unfolding w2_def using r1 by (intro translated_undisturbedD(6) [OF law(1) 1(2)]) (simp add: used_slot_def)
  obtain r2 where r2: "used_slot (modules w2 ! m) r r2" using same_translated_slot(2) [OF s2 r1] by blast
  obtain w3 f where 3: "wahe_delete_translated_thread S m r w2 = Some (set_translated m r f w3)" "Q w3" "same_translated m w2 w3"
      "\<And>ro. \<not> dr_in_use (f ro)"
    using delete_translated_undisturbed [OF law(1) q2 r2] by blast
  define w4 where "w4 = set_translated m r f w3"
  have s03: "same_translated m w0 w3" using 1(3) s2 3(3) same_translated_trans by blast
  then have m3: "m < length (modules w3)" using m0 by (simp add: same_translated_def)
  have v3: "slot_view (modules w3 ! m) = slot_view (modules w0 ! m)" using s03 by (simp add: same_translated_def)
  have same: "decomp_initial_runner_count (modules w4 ! m) = decomp_initial_runner_count (modules w ! m)"
      "decomp_runner_capacity (modules w4 ! m) = decomp_runner_capacity (modules w ! m)"
      "decomp_threads_stopping (modules w4 ! m) = decomp_threads_stopping (modules w ! m)"
      "length (wasm_decomp_runner (modules w4 ! m)) = length (wasm_decomp_runner (modules w ! m))"
      "cur_native_module w4 = cur_native_module w" "cur_native_runner_id w4 = cur_native_runner_id w" "m < length (modules w4)"
    using v3 slot_view_length [OF v3] m(1) m3 s03
    by (simp_all add: w4_def w0_def set_translated_def slot_view_def same_translated_def upd_module_def)
  have slot4: "used_slot (modules w4 ! m) i ri \<longleftrightarrow> i \<noteq> r \<and> used_slot (modules w3 ! m) i ri" for i ri
    unfolding w4_def set_translated_slot [OF m3] using 3(4) by (auto simp: used_slot_def)
  have slot0: "used_slot (modules w0 ! m) i ri \<longleftrightarrow> used_slot (modules w ! m) i ri" if "i \<noteq> r" for i ri
    unfolding w0_def set_translated_slot [OF m(1)] using that by simp
  have fewer: "\<exists>ri'. used_slot (modules w ! m) i ri' \<and> slot_tag ri' = slot_tag ri" if "used_slot (modules w4 ! m) i ri" for i ri
    using that same_translated_slot(1) [OF s03, of i ri] slot0 [of i] by (auto simp: slot4)
  have cap4: "decomp_runner_capacity (modules w4 ! m) \<le> length (wasm_decomp_runner (modules w4 ! m))"
    using m(2) by (simp only: same)
  have idle4: "translated_idle m w4" by (rule translated_idle_fewer [OF idle same(7) cap4 same(5,6) fewer])
  have q4: "Q w4"
    unfolding w4_def using r0 v3 by (intro translated_undisturbedD(6) [OF law(1) 3(2)]) (simp add: used_slot_def slot_view_def)
  have "set (used_translated (modules w4 ! m)) \<subset> set (used_translated (modules w ! m))"
    using fewer r unfolding psubset_eq set_eq_iff used_translated_set [OF cap4] used_translated_set [OF m(2)] subset_iff slot4 by blast
  moreover have "distinct (used_translated x)" for x by (simp add: used_translated_def)
  ultimately have less: "length (used_translated (modules w4 ! m)) < length (used_translated (modules w ! m))"
    using psubset_card_mono [OF finite_set] distinct_card by metis
  have "wahe_join_translated_thread S m (dr_thread_id ro) w = Some (Inr (dr_thread_reply r1), w4)"
    using translated_joinable [OF idle r] other 1(1) 3(1) r1
    by (auto simp: wahe_join_translated_thread_def the_translated_def used_slot_def w0_def [symmetric] w2_def [symmetric] w4_def)
  with q4 idle4 less same(3) show ?thesis by blast
qed

definition translated_stopping :: "('g world \<Rightarrow> bool) \<Rightarrow> 'g services \<Rightarrow> nat \<Rightarrow> 'g world \<Rightarrow> bool" where
  "translated_stopping Q S m w \<longleftrightarrow> translated_undisturbed Q S m \<and> Q w \<and> translated_idle m w \<and> decomp_threads_stopping (modules w ! m)"

lemma translated_turn:
  assumes "translated_stopping Q S m w" "used_translated (modules w ! m) \<noteq> []"
  shows "\<exists>w1. join_translated_loop S m w = join_translated_loop S m w1 \<and> translated_stopping Q S m w1 \<and>
    length (used_translated (modules w1 ! m)) < length (used_translated (modules w ! m))"
proof -
  let ?x = "modules w ! m" and ?r = "last (used_translated (modules w ! m))"
  have s: "translated_undisturbed Q S m" "Q w" "translated_idle m w" "decomp_threads_stopping ?x"
    and cap: "decomp_runner_capacity ?x \<le> length (wasm_decomp_runner ?x)"
    using assms(1) by (simp_all add: translated_stopping_def translated_idle_def)
  have slot: "used_slot ?x i (wasm_decomp_runner ?x ! i)" if "i \<in> set (used_translated ?x)" for i
    using that unfolding used_translated_set [OF cap] by (auto simp: used_slot_def)
  then have r: "used_slot ?x ?r (wasm_decomp_runner ?x ! ?r)" using assms(2) last_in_set by blast
  have "List.filter (\<lambda>i. \<not> dr_creating (wasm_decomp_runner ?x ! i) \<and> \<not> dr_joining (wasm_decomp_runner ?x ! i)) (used_translated ?x) =
      used_translated ?x"
    using slot s(3) unfolding translated_idle_def by (metis (lifting) filter_True)
  then have pick: "unclaimed_translated ?x = dr_thread_id (wasm_decomp_runner ?x ! ?r)"
    using assms(2) by (cases "used_translated ?x") (simp_all add: unclaimed_translated_def del: last.simps)
  moreover have "0 < dr_thread_id (wasm_decomp_runner ?x ! ?r)" using s(3) r unfolding translated_idle_def by blast
  moreover obtain res w1 where j: "wahe_join_translated_thread S m (dr_thread_id (wasm_decomp_runner ?x ! ?r)) w = Some (res, w1)" "Q w1"
      "translated_idle m w1" "length (used_translated (modules w1 ! m)) < length (used_translated ?x)"
      "decomp_threads_stopping (modules w1 ! m) = decomp_threads_stopping ?x"
    using join_translated_undisturbed [OF s(1-3) r] by blast
  ultimately have "join_translated_loop S m w = join_translated_loop S m w1"
    using assms(2) by (subst join_translated_loop.simps) simp
  with j s show ?thesis by (auto simp: translated_stopping_def)
qed

interpretation translated_joins: joining_loop "\<lambda>w. length (used_translated (modules w ! m))" "join_translated_loop S m"
  "translated_stopping Q S m" for S Q m
proof
  show "join_translated_loop S m w = Some w" if "length (used_translated (modules w ! m)) = 0" for w
    using that by (subst join_translated_loop.simps) simp
qed (use translated_turn in blast)

section \<open>Properties\<close>


text \<open>The sample has one thread besides the runner of the module itself.\<close>

definition stopping_sample :: "unit world \<Rightarrow> bool" where
  "stopping_sample w \<longleftrightarrow> sample_state w \<and> initial_runner_count (modules w ! 0) = 1"

lemma stopping_sample_undisturbed: "shutdown_undisturbed stopping_sample thread_services 0"
proof -
  have free: "\<exists>w1. call_module_free (calls thread_services) (Some 0) a w = Some w1 \<and> stopping_sample w1 \<and> same_threads 0 w w1"
    if "stopping_sample w" for w a
    using that thread_sample_malloc(2) [of w a] by (auto simp: stopping_sample_def same_threads_def)
  have join: "\<exists>w1. thread_join thread_services 0 r w = Some (True, w1) \<and> stopping_sample w1 \<and> same_threads 0 w w1"
    if "stopping_sample w" for w r
    using that by (simp add: thread_services_def sample_services_def same_threads_def)
  have quiet: "\<not> (the_runner 0 0 w = Some ro \<and> wr_func ro WAHE_FUNC_INPUT)" if "stopping_sample w" for w ro
    using that by (auto simp: stopping_sample_def sample_state_def the_runner_def runner_object_def quiet_runner_def)
  have slots: "stopping_sample (set_runner 0 r f w)" "stopping_sample (upd_module 0 (\<lambda>x. x\<lparr>runner := (runner x)[r := None]\<rparr>) w)"
    if "stopping_sample w" "initial_runner_count (modules w ! 0) \<le> r" for w r f
    using that by (auto simp: stopping_sample_def sample_state_def set_runner_def upd_runner_def)
  have stop: "stopping_sample (upd_module 0 (\<lambda>x. x\<lparr>threads_stopping := True\<rparr>) w)" if "stopping_sample w" for w
    using that by (simp add: stopping_sample_def sample_state_def)
  show ?thesis
    unfolding shutdown_undisturbed_def
    by (intro allI impI conjI; (rule free join stop slots; assumption)?) (use quiet in blast)+
qed


text \<open>
  C13. Shutting down the threads of a translated module returns with every runner of a thread free again and new threads
  refused, if the identifiers of its threads are distinct and not zero, the caller is no thread of it, nobody else is creating or
  joining one (\<^const>\<open>translated_idle\<close>), and the module's code, the stop message, the release of instances and the joins of the
  operating system return and leave the runners alone (\<^const>\<open>translated_undisturbed\<close>).
\<close>

theorem translated_shutdown_joins_all:
  assumes law: "translated_undisturbed Q S m" "Q w" and idle: "translated_idle m w"
    and kind: "mtype (modules w ! m) = WAHE_MODULE_WASM_TO_NATIVE" "wasm_decomp_runner (modules w ! m) \<noteq> []"
      "wahe_translated_thread_id m w = Some 0"
  shows "\<exists>w'. wahe_module_join_threads S (Some m) w = Some w' \<and>
    (\<forall>i ro. \<not> used_slot (modules w' ! m) i ro) \<and> decomp_threads_stopping (modules w' ! m)"
proof -
  define w1 where "w1 = upd_module m (\<lambda>x. x\<lparr>decomp_threads_stopping := True\<rparr>) w"
  have m: "m < length (modules w)" using idle by (simp add: translated_idle_def)
  have x1: "modules w1 ! m = (modules w ! m)\<lparr>decomp_threads_stopping := True\<rparr>" using m by (simp add: w1_def)
  have slot1: "used_slot (modules w1 ! m) i ro \<longleftrightarrow> used_slot (modules w ! m) i ro" for i ro
    by (simp add: x1 used_slot_def)
  have idle1: "translated_idle m w1"
    by (rule translated_idle_fewer [OF idle]) (use idle m slot1 in \<open>auto simp: w1_def upd_module_def translated_idle_def\<close>)
  have q1: "Q w1" unfolding w1_def by (rule translated_undisturbedD(5) [OF law])
  have start: "translated_stopping Q S m v" if "Q v" "same_translated m w1 v" for v
    using that law(1) same_translated_idle [OF that(2) idle1] by (simp add: translated_stopping_def same_translated_def slot_view_def x1)
  obtain w2 where w2: "wahe_module_join_threads S (Some m) w = join_translated_loop S m w2" "translated_stopping Q S m w2"
  proof (cases "used_translated (modules w1 ! m) \<noteq> [] \<and> dl_func (modules w1 ! m) WAHE_FUNC_INPUT")
    case True
    obtain v w2 where s: "wahe_send_input (calls S) m ''Stop threads'' w1 = Some (v, w2)" "Q w2" "same_translated m w1 w2"
      using translated_undisturbedD(4) [OF law(1) q1] True by blast
    then have "wahe_module_join_threads S (Some m) w = join_translated_loop S m w2"
      using kind True by (simp add: wahe_module_join_threads_def wahe_join_translated_threads_def Let_def w1_def [symmetric])
    with start [OF s(2,3)] that show thesis by blast
  next
    case False
    then have "wahe_module_join_threads S (Some m) w = join_translated_loop S m w1"
      using kind by (auto simp: wahe_module_join_threads_def wahe_join_translated_threads_def Let_def w1_def [symmetric])
    with start [OF q1] that show thesis by simp
  qed
  obtain w' where w': "join_translated_loop S m w2 = Some w'" "translated_stopping Q S m w'" "length (used_translated (modules w' ! m)) = 0"
    using translated_joins.joins_all [OF w2(2)] by blast
  then have "decomp_runner_capacity (modules w' ! m) \<le> length (wasm_decomp_runner (modules w' ! m))"
    by (simp add: translated_stopping_def translated_idle_def)
  from used_translated_set [OF this] have "\<not> used_slot (modules w' ! m) i ro" for i ro using w'(3) by auto
  with w2(1) w' show ?thesis by (simp add: translated_stopping_def)
qed

text \<open>A translated module with one thread, whose code takes no messages.\<close>

definition free_translated :: wahe_wasm_decomp_runner_t where
  "free_translated = \<lparr>dr_instance = False, dr_thread_id = 0, dr_stack_alloc = 0, dr_tls_alloc = 0, dr_input_addr = 0,
     dr_thread_handle = False, dr_thread_reply = None, dr_in_use = False, dr_mutex_initialized = False, dr_creating = False, dr_joining = False\<rparr>"

definition translated_sample_module :: "wahe_wasm_decomp_runner_t list \<Rightarrow> bool \<Rightarrow> wahe_module_t" where
  "translated_sample_module rs stop = sample_wasm_module\<lparr>mtype := WAHE_MODULE_WASM_TO_NATIVE, dl_func := (\<lambda>f. f = WAHE_FUNC_FREE),
     wasm_decomp_instance := True, wasm_decomp_runner := rs, decomp_initial_runner_count := 1, decomp_runner_capacity := 2, runner_count := 2,
     decomp_threads_stopping := stop\<rparr>"

definition translated_sample :: "wahe_wasm_decomp_runner_t list \<Rightarrow> bool \<Rightarrow> unit world" where
  "translated_sample rs stop = sample_wasm_world\<lparr>modules := [translated_sample_module rs stop]\<rparr>"

definition is_translated_sample :: "unit world \<Rightarrow> bool" where
  "is_translated_sample w \<longleftrightarrow> (\<exists>rs stop. w = translated_sample rs stop)"

lemma translated_sample_free: "call_module_free (calls sample_services) (Some 0) a (translated_sample rs stop) = Some (translated_sample rs stop)"
  by (simp add: call_module_free_def call_module_free_on_runner_def call_module_func_core_on_runner_def
     wahe_wait_after_execution_failure_def wahe_require_valid_module_def call_native_def translated_sample_def translated_sample_module_def
     sample_wasm_module_def sample_wasm_world_def sample_services_def native_args_def native_result_def enter_native_def leave_native_def
     wahe_active_runner_id_def wahe_active_native_runner_id_def acquire_def release_def fun_upd_idem Let_def)

lemma translated_sample_undisturbed: "translated_undisturbed is_translated_sample sample_services 0"
proof -
  have changed: "upd_module 0 (\<lambda>x. x\<lparr>decomp_threads_stopping := True\<rparr>) (translated_sample rs stop) = translated_sample rs True"
      "set_translated 0 r f (translated_sample rs stop) = translated_sample (rs[r := f (rs ! r)]) stop" for rs stop r f
    by (simp_all add: translated_sample_def translated_sample_module_def sample_wasm_module_def sample_wasm_world_def set_translated_def upd_module_def)
  have keeps: "is_translated_sample (upd_module 0 (\<lambda>x. x\<lparr>decomp_threads_stopping := True\<rparr>) w)" "is_translated_sample (set_translated 0 r f w)"
    if "is_translated_sample w" for w r f
    using that changed unfolding is_translated_sample_def by metis+
  have free: "\<exists>w1. call_module_free (calls sample_services) (Some 0) a w = Some w1 \<and> is_translated_sample w1 \<and> same_translated 0 w w1"
    if "is_translated_sample w" for w a
    using that translated_sample_free same_translated_refl unfolding is_translated_sample_def by metis
  have join: "\<exists>w1. thread_join sample_services 0 r w = Some (True, w1) \<and> is_translated_sample w1 \<and> same_translated 0 w w1"
    if "is_translated_sample w" for w r
    using that by (simp add: sample_services_def)
  have destroy: "is_translated_sample (instance_destroy sample_services 0 r w)" "same_translated 0 w (instance_destroy sample_services 0 r w)"
    if "is_translated_sample w" for w r
    using that by (simp_all add: sample_services_def)
  have quiet: "\<not> dl_func (modules w ! 0) WAHE_FUNC_INPUT" if "is_translated_sample w" for w
    using that by (auto simp: is_translated_sample_def translated_sample_def translated_sample_module_def)
  show ?thesis
    unfolding translated_undisturbed_def
    by (intro allI impI conjI; (rule free join destroy keeps; assumption)?) (use quiet in blast)+
qed

theorem translated_shutdown_joins_all_witness:
  "\<exists>w'. wahe_module_join_threads sample_services (Some 0)
      (translated_sample [free_translated, free_translated\<lparr>dr_in_use := True, dr_thread_id := 1\<rparr>] False) = Some w' \<and>
    (\<forall>i ro. \<not> used_slot (modules w' ! 0) i ro)"
proof -
  define w where "w = translated_sample [free_translated, free_translated\<lparr>dr_in_use := True, dr_thread_id := 1\<rparr>] False"
  have x: "modules w = [translated_sample_module [free_translated, free_translated\<lparr>dr_in_use := True, dr_thread_id := 1\<rparr>] False]"
      "cur_native_module w = None"
    by (simp_all add: w_def translated_sample_def sample_wasm_world_def)
  have slot: "used_slot (modules w ! 0) i ro \<longleftrightarrow> i = 1 \<and> ro = free_translated\<lparr>dr_in_use := True, dr_thread_id := 1\<rparr>" for i ro
    by (auto simp: x used_slot_def translated_sample_module_def less_Suc_eq numeral_2_eq_2)
  have "translated_idle 0 w"
    unfolding translated_idle_def slot by (simp add: x) (simp add: translated_sample_module_def free_translated_def)
  moreover have "mtype (modules w ! 0) = WAHE_MODULE_WASM_TO_NATIVE" "wasm_decomp_runner (modules w ! 0) \<noteq> []" "wahe_translated_thread_id 0 w = Some 0"
    by (simp_all add: x wahe_translated_thread_id_def) (simp_all add: translated_sample_module_def)
  moreover have "is_translated_sample w" unfolding is_translated_sample_def w_def by blast
  ultimately show ?thesis unfolding w_def [symmetric] using translated_shutdown_joins_all [OF translated_sample_undisturbed] by blast
qed

end
