(* ===== verification/Spec2Isabelle.thy ===== *)
theory Spec2Isabelle
  imports Xxh64 Leb128 Wasm_Binary Unicode_Text Memory_Commands Run_Command Parser_Correct
    Wamr_Correct Thread_Shutdown
begin

text \<open>
  WAHE is a host for WebAssembly and native modules that talk to each other in text messages. A group file names
  the modules to load and the chains of calls to make; the host loads each module into Wasmtime, or into a native
  translation made by wasm2c, gives it runners (instances with a stack each), copies messages with the blocks of
  data they point to from one memory to another, and answers the commands that modules send back.
  This development is a shallow embedding of the library (the directory \<open>wahelib\<close>) on a POSIX system,
  in its build with Wasmtime and, in theories of their own, in its build with WAMR: each C function is a HOL function of the
  same name, each struct a record, each enumeration a datatype.

  \<^bold>\<open>Conventions.\<close>
  \<^item> An operation is a function of the state that returns the new state. A result in \<open>option\<close> is \<open>None\<close> when C gives
    the run no meaning (an access outside an object, a null pointer used, a shift by the width) or when the call does not return: a
    thread that parks after another has failed, a process that exits after a module failure, or a loop that never ends,
    which is then a \<open>partial_function (option)\<close>. A theorem that the code returns is proved as such, and likewise
    one that it never does, by the rounds of the loop (\<open>Program_Loop\<close>): every round is defined and none is the last. There is no
    fuel in the definitions.
  \<^item> Integers are words where they wrap or are taken apart, and \<open>nat\<close> or \<open>int\<close> with the wrap-around
    written out where they only count. A failure the code reports is a value: \<open>Inl\<close> with the message, or a false or null result.
  \<^item> The memory of the process is one map from 64-bit addresses to bytes, in which the linear memory of each module is
    a range; an unmapped byte makes an access undefined. A module is the index of its slot; a null pointer is \<open>None\<close> or zero.
  \<^item> One thread is followed. Its thread-local variables are fields of the state, and a mutex is the number of times
    it is held; a mutex that is taken and given back inside one operation is left out. What other threads do
    is part of what the functions below do to the state, bounded by the laws a theorem names.
  \<^item> Code that is not in the repository is a record of functions: \<open>env\<close> (the code of the modules), \<open>vm_os\<close>
    (\<open>mmap\<close>, \<open>mprotect\<close>, \<open>madvise\<close>, \<open>munmap\<close>) and \<open>services\<close> (Wasmtime, the dynamic loader, threads, files, the clock, the
    translator). What a theorem needs of them is a named predicate with a concrete instance in its witness, such as
    \<open>guest_keeps_context\<close>: a module leaves the calling thread as it was.

  \<^bold>\<open>Shared theories.\<close> \<open>Wahe_Prelude\<close>: word types, list and word lemmas. \<open>Program_Loop\<close>: a loop as its rounds, which
  tells one that never ends from one whose behaviour is undefined. \<open>C_Memory\<close>: loading, storing, copying and searching
  in the memory. \<open>C_Numbers\<close> and \<open>C_Scanf\<close>: the number conversions and the scanning directives of the C library that
  the messages use. \<open>State_Relation\<close>, \<open>Call_Relation\<close>, \<open>Load_Relation\<close>: locales by which one relation between states
  is followed through any operation, through every call into a module, and through loading a module; the restoring of the calling
  context, the registry of threads and the structure of a group are interpretations of them.

  \<^bold>\<open>Helpers (\<open>wahelib/rl_utils\<close>).\<close>
  \<^item> \<open>Xxh64\<close> is \<open>xxh64.c\<close>. The one-shot hash reads inside its input and equals a reference hash; an update refines the appending
    of bytes, except for one unsigned comparison that makes it read past its input.
  \<^item> \<open>Endian\<close> and \<open>Leb128\<close> are \<open>endian.c\<close> over the streams of \<open>Generic_Buffer\<close> (\<open>generic_buffer.c\<close> and the buffer
    half of \<open>io_override.c\<close>). Encoded integers are read back; the signed encoding fails below \<open>-2^62\<close>.
  \<^item> \<open>Text_Util\<close> and \<open>Unicode_Text\<close> are \<open>misc.c\<close> and \<open>fopen_utf8.c\<close>: lines, paths, files, directories, and UTF-8 to
    UTF-16 and back, which loses nothing, and a measuring that never ends on a truncated sequence.

  \<^bold>\<open>Modules (\<open>wahelib/wasm\<close>, \<open>wahelib/wahe\<close>).\<close>
  \<^item> \<open>Wasm_Binary\<close> is \<open>wasm_binary_parser.c\<close>: the search for a section, the limits of the memory and
    the check for passive data, against a description of well-formed modules.
  \<^item> \<open>Module_State\<close> and \<open>Module_Services\<close> hold the types of \<open>wahe_core.h\<close>, the state of the host and its parameters.
    \<open>Module_Memory\<close>, \<open>Runner_Stack\<close> and \<open>Module_Init\<close> follow \<open>wahe_core.c\<close> from \<open>wahe_init_module_memory\<close> to \<open>wahe_module_init\<close>:
    symbols, shrinking and reclaiming memory, creating runners, cutting the stack region into slices, thread-local
    storage, loading a file. Shrinking respects its bounds and the slices are aligned and disjoint.
  \<^item> \<open>Virtual_Memory\<close> is \<open>wahe_virtual_memory.c\<close>: exactly the committed pages of a reservation are accessible.
  \<^item> \<open>Native_Translation\<close> is \<open>wahe_wasm2native.c\<close>: a translation is used only when the settings and the module allow
    it, in a host with a WebAssembly runtime and in one without. The other theories have a runtime.
  \<^item> \<open>Module_Dispatch\<close> is \<open>call_module_func_core_on_runner\<close> with the functions on top of it: a call restores the context
    of the thread, a returned pointer is inside the memory, a copy stays inside both memories.
  \<^item> \<open>Message_Transfer\<close> is \<open>wahe_copy_message_between_modules_on_runner\<close>; \<open>Transfer_Correct\<close> shows what it delivers: always
    a result, the text with each address replaced by one at which the receiver reads the same bytes, in disjoint aligned blocks.
    It holds for a native receiver with a reservation too, unless the sender's memory is that reservation (\<open>memory_apart\<close>).
  \<^item> \<open>Threads\<close> and \<open>Translated_Threads\<close> are \<open>wahe_threads.c\<close>. \<open>Thread_Registry\<close> shows that creating and joining keep the registry
    well formed while other threads run between any two steps, and that identifiers are never used again;
    \<open>Thread_Shutdown\<close> that the shutdown of a module's threads returns with every thread joined, on either backend.

  \<^bold>\<open>Commands and chains (\<open>wahelib/wahe\<close>).\<close>
  \<^item> \<open>Command_Registry\<close> is the registry of \<open>wahe_core.c\<close>: entries in order of registration, found by the hash of the
    first words of a line, newest first.
  \<^item> \<open>Host_Commands\<close> is \<open>wahe_host_commands.c\<close>, one definition per command; \<open>Host_Correct\<close> and \<open>Memory_Commands\<close>
    show which command handles which line and that the memory commands keep the reservation of a module.
  \<^item> \<open>Run_Command\<close> is \<open>wahe_run_command_core\<close>: a message of a module goes to the command processors of the running order
    or, line by line, to the registrations; the search for a taker ends.
  \<^item> \<open>Chain_Execution\<close> is \<open>wahe_execution.c\<close>: the orders of a chain, each fed from its connections.
  \<^item> \<open>Group_Parser\<close> is \<open>wahe_parser.c\<close>. \<open>Group_Structure\<close> and \<open>Parser_Correct\<close> show that a file read without a
    report leaves a group in which every index a chain uses is in range, if its first order comes after its first module.

  \<^bold>\<open>The build with WAMR (\<open>wahe_wamr.c\<close>, and the branches for WAMR of \<open>wahe_core.c\<close> and \<open>wahe_threads.c\<close>).\<close>
  The fields of a module for WAMR are the \<open>guest\<close> part of the state, and WAMR's functions are the record \<open>wamr\<close>.
  \<^item> \<open>Wamr_Runtime\<close>: the runtime, runners, publication of the memory, symbols, calls, and the dispatch on the kind of module.
  \<^item> \<open>Wamr_Init\<close>: thread-local storage, the heap and the stack of a module, loading it with the release of what was created
    when a step fails, and its callback, where the argument \<open>run\<close> stands for \<open>wahe_run_command_core\<close> in this build.
  \<^item> \<open>Wamr_Threads\<close>: threads in a child of the instance with an execution environment of their own.
  \<^item> \<open>Wamr_Lifetimes\<close> shows that a failed initialisation releases exactly what it created, in an order WAMR allows, and
    that a successful one leaves an execution environment for each runner; \<open>Wamr_Correct\<close> that a call gives the thread
    its context back and that a returned pointer is inside the memory where the host published it.

  \<^bold>\<open>How the parts meet.\<close> \<open>Group_Parser\<close> loads the modules (\<open>Module_Init\<close>), sends them messages (\<open>Module_Dispatch\<close>)
  and builds the chains; \<open>Chain_Execution\<close> transfers messages between modules (\<open>Message_Transfer\<close>) and calls them
  (\<open>Module_Dispatch\<close>); a called module may call back with a message, which \<open>Run_Command\<close> hands to other modules, or by
  \<open>Command_Registry\<close> to \<open>Host_Commands\<close>, which in turn run chains, create threads and change memories. The callback is
  the module's code, so the recursion through it passes through the parameter \<open>guest_call\<close>.

  \<^bold>\<open>Not modelled.\<close>
  \<^item> The growth of the arrays that \<open>alloc_enough\<close> enlarges is the appending to a list, and the
    failure of such a growth, which the code does not check either, is left out. So is freeing memory of the host.
  \<^item> What is printed to the standard output and error has no effect on the state; only the result of the branch
    that prints is kept. \<open>wahe_bench_point\<close> does nothing in the library.
  \<^item> The branches for Windows and the wrappers of system calls (\<open>threading.c\<close>, \<open>dynamic_loading.c\<close>, \<open>time.c\<close>, \<open>dirent.c\<close>):
    their POSIX meaning is in the parameters.
  \<^item> wasm2c (the directory \<open>wasm2c\<close>) is the translator of the Zig project with additions, a separate
    program that prints C; the host calls it as a library, so it is behind the functions of \<open>services\<close>.
  \<^item> The tests.
\<close>

end
